(* ===== verification/Py_Base.thy ===== *)
theory Py_Base
  imports Complex_Main "HOL-Library.Multiset" "HOL-Library.List_Lexorder" "HOL-Library.Char_ord"
begin

text \<open>
  Prelude of the development: the Python values, exceptions, strings and loops that the
  modelled modules share, and the generic lemmas their proofs use.

  \<^item> \<open>pyval\<close> is the dynamic value a JSON message, a configuration entry or an attribute of
    a vLLM object can hold. \<open>PDict\<close> is a string-keyed mapping in insertion order,
    \<open>PObj\<close> an object with its \<open>str()\<close> text and its attributes, \<open>PFun\<close> a callable
    that is known only by its identity.
  \<^item> A raise is the left injection of a sum: \<open>'a result\<close> is \<open>exn + 'a\<close>, and
    \<open>and_then\<close> sequences two computations the way statements follow each other.
    \<open>traverse\<close> is a comprehension whose element expression may raise, \<open>fold_r\<close> a
    loop over a sequence that carries a state and may raise.
  \<^item> Strings are Latin-1: a \<open>char\<close> is one code point below 256. \<open>py_strip\<close> removes
    the white space Python's \<open>str.strip\<close> removes in that range; \<open>py_upper\<close> and
    \<open>py_lower\<close> are the ASCII case maps.
\<close>

subsection \<open>Values\<close>

datatype pyfloat = Finite rat | PosInf | NegInf | NaN

datatype pyval =
    PNone
  | PBool bool
  | PInt int
  | PFloat pyfloat
  | PStr string
  | PList "pyval list"
  | PDict "(string \<times> pyval) list"
  | PObj string "(string \<times> pyval) list"
  | PFun nat

type_synonym pydict = "(string \<times> pyval) list"

text \<open>Dictionary access: \<open>d.get(k)\<close>, \<open>d.get(k, default)\<close> and \<open>k in d\<close>.\<close>

definition d_get :: "pydict \<Rightarrow> string \<Rightarrow> pyval" where
  "d_get d k = (case map_of d k of None \<Rightarrow> PNone | Some v \<Rightarrow> v)"

definition d_get_or :: "pydict \<Rightarrow> string \<Rightarrow> pyval \<Rightarrow> pyval" where
  "d_get_or d k dflt = (case map_of d k of None \<Rightarrow> dflt | Some v \<Rightarrow> v)"

definition d_has :: "pydict \<Rightarrow> string \<Rightarrow> bool" where
  "d_has d k = (map_of d k \<noteq> None)"

text \<open>\<open>d[k] = v\<close> and \<open>d.update(e)\<close>: an existing key keeps its position.\<close>

fun d_set :: "pydict \<Rightarrow> string \<Rightarrow> pyval \<Rightarrow> pydict" where
  "d_set [] k v = [(k, v)]"
| "d_set ((k', v') # d) k v = (if k' = k then (k, v) # d else (k', v') # d_set d k v)"

definition d_update :: "pydict \<Rightarrow> pydict \<Rightarrow> pydict" where
  "d_update d e = foldl (\<lambda>acc (k, v). d_set acc k v) d e"

text \<open>\<open>getattr(x, name, default)\<close>: only objects have attributes.\<close>

definition getattr_or :: "pyval \<Rightarrow> string \<Rightarrow> pyval \<Rightarrow> pyval" where
  "getattr_or x name dflt =
     (case x of PObj _ attrs \<Rightarrow> d_get_or attrs name dflt | _ \<Rightarrow> dflt)"

fun is_mapping :: "pyval \<Rightarrow> bool" where
  "is_mapping (PDict _) = True"
| "is_mapping _ = False"

fun is_pylist :: "pyval \<Rightarrow> bool" where
  "is_pylist (PList _) = True"
| "is_pylist _ = False"

text \<open>Truth value of a Python expression.\<close>

fun truthy :: "pyval \<Rightarrow> bool" where
  "truthy PNone = False"
| "truthy (PBool b) = b"
| "truthy (PInt i) = (i \<noteq> 0)"
| "truthy (PFloat f) = (f \<noteq> Finite 0)"
| "truthy (PStr s) = (s \<noteq> [])"
| "truthy (PList xs) = (xs \<noteq> [])"
| "truthy (PDict d) = (d \<noteq> [])"
| "truthy (PObj _ _) = True"
| "truthy (PFun _) = True"

text \<open>
  Equality \<open>==\<close>. Booleans, integers and floats compare by their numeric value (so
  \<open>True == 1 == 1.0\<close>), a NaN equals nothing, dictionaries compare without regard to
  the order of their entries.
\<close>

fun num_of :: "pyval \<Rightarrow> pyfloat option" where
  "num_of (PBool b) = Some (Finite (if b then 1 else 0))"
| "num_of (PInt i) = Some (Finite (of_int i))"
| "num_of (PFloat f) = Some f"
| "num_of _ = None"

definition num_eq :: "pyfloat \<Rightarrow> pyfloat \<Rightarrow> bool" where
  "num_eq a b = (a = b \<and> a \<noteq> NaN)"

fun py_eq :: "pyval \<Rightarrow> pyval \<Rightarrow> bool"
  and py_eq_list :: "pyval list \<Rightarrow> pyval list \<Rightarrow> bool"
  and py_eq_dict :: "pydict \<Rightarrow> pydict \<Rightarrow> bool" where
  "py_eq PNone y = (y = PNone)"
| "py_eq (PStr s) y = (y = PStr s)"
| "py_eq (PFun n) y = (y = PFun n)"
| "py_eq (PBool b) y =
     (case num_of y of None \<Rightarrow> False | Some n \<Rightarrow> num_eq (Finite (if b then 1 else 0)) n)"
| "py_eq (PInt i) y =
     (case num_of y of None \<Rightarrow> False | Some n \<Rightarrow> num_eq (Finite (of_int i)) n)"
| "py_eq (PFloat f) y = (case num_of y of None \<Rightarrow> False | Some n \<Rightarrow> num_eq f n)"
| "py_eq (PList xs) y = (case y of PList ys \<Rightarrow> py_eq_list xs ys | _ \<Rightarrow> False)"
| "py_eq (PDict d) y =
     (case y of PDict e \<Rightarrow> length d = length e \<and> py_eq_dict d e | _ \<Rightarrow> False)"
| "py_eq (PObj s attrs) y = (y = PObj s attrs)"
| "py_eq_list [] ys = (ys = [])"
| "py_eq_list (x # xs) ys =
     (case ys of [] \<Rightarrow> False | y # ys' \<Rightarrow> py_eq x y \<and> py_eq_list xs ys')"
| "py_eq_dict [] e = True"
| "py_eq_dict ((k, v) # d) e =
     ((case map_of e k of None \<Rightarrow> False | Some w \<Rightarrow> py_eq v w) \<and> py_eq_dict d e)"

lemma map_pyval_inject [simp]:
  "map PStr xs = map PStr ys \<longleftrightarrow> xs = ys"
  "map PDict ds = map PDict es \<longleftrightarrow> ds = es"
  by (simp_all add: inj_on_def inj_map_eq_map)

text \<open>\<open>x in xs\<close> for a list.\<close>

definition py_in :: "pyval \<Rightarrow> pyval list \<Rightarrow> bool" where
  "py_in x xs = list_ex (py_eq x) xs"

subsection \<open>Exceptions and results\<close>

datatype exn_class =
    ValueError
  | TypeError
  | KeyError
  | AttributeError
  | AssertionError
  | RuntimeError
  | OSError
  | JSONDecodeError
  | UnicodeDecodeError
  | OverflowError
  | PlanningError
  | RuntimeGeometryUnavailable
  | ContractValidationError
  | SharedPoolImportError
  | KapslKvControlError "string option"
  | CertificationError
  | PackageError
  | TensorRtFetchError

datatype exn = Exn (exn_of: exn_class) (exn_msg: string)

type_synonym 'a result = "exn + 'a"

abbreviation Raise :: "exn_class \<Rightarrow> string \<Rightarrow> 'a result" where
  "Raise c m \<equiv> Inl (Exn c m)"

text \<open>
  \<open>fmt\<close> is the concatenation of a formatted message. It is a constant of its own, so that
  no proof unfolds a message unless it asks for it.
\<close>

definition fmt :: "string list \<Rightarrow> string" where
  "fmt parts = concat parts"

definition and_then :: "'a result \<Rightarrow> ('a \<Rightarrow> 'b result) \<Rightarrow> 'b result" where
  "and_then m f = (case m of Inl e \<Rightarrow> Inl e | Inr x \<Rightarrow> f x)"

fun traverse :: "('a \<Rightarrow> 'b result) \<Rightarrow> 'a list \<Rightarrow> 'b list result" where
  "traverse f [] = Inr []"
| "traverse f (x # xs) =
     and_then (f x) (\<lambda>y. and_then (traverse f xs) (\<lambda>ys. Inr (y # ys)))"

fun fold_r :: "('s \<Rightarrow> 'a \<Rightarrow> 's result) \<Rightarrow> 's \<Rightarrow> 'a list \<Rightarrow> 's result" where
  "fold_r f s [] = Inr s"
| "fold_r f s (x # xs) = and_then (f s x) (\<lambda>s'. fold_r f s' xs)"

named_theorems result_simps \<open>rewriting of results\<close>

lemma and_then_simps [simp, result_simps]:
  "and_then (Inr x) f = f x"
  "and_then (Inl e) f = Inl e"
  by (simp_all add: and_then_def)

lemma and_then_Inr_iff [result_simps]:
  "and_then m f = Inr y \<longleftrightarrow> (\<exists>x. m = Inr x \<and> f x = Inr y)"
  by (cases m) auto

lemma and_then_Inl_iff:
  "and_then m f = Inl e \<longleftrightarrow> m = Inl e \<or> (\<exists>x. m = Inr x \<and> f x = Inl e)"
  by (cases m) auto

lemma if_raise_iff [result_simps]:
  "(if c then Inl e else m) = Inr y \<longleftrightarrow> \<not> c \<and> m = Inr y"
  by simp

lemma case_pyval_Inr_iff [result_simps]:
  "(case v of PBool b \<Rightarrow> fb b | _ \<Rightarrow> Inl e) = Inr y \<longleftrightarrow> (\<exists>b. v = PBool b \<and> fb b = Inr y)"
  "(case v of PInt i \<Rightarrow> fi i | _ \<Rightarrow> Inl e) = Inr y \<longleftrightarrow> (\<exists>i. v = PInt i \<and> fi i = Inr y)"
  "(case v of PStr s \<Rightarrow> fs s | _ \<Rightarrow> Inl e) = Inr y \<longleftrightarrow> (\<exists>s. v = PStr s \<and> fs s = Inr y)"
  "(case v of PList xs \<Rightarrow> fl xs | _ \<Rightarrow> Inl e) = Inr y \<longleftrightarrow> (\<exists>xs. v = PList xs \<and> fl xs = Inr y)"
  "(case v of PDict d \<Rightarrow> fd d | _ \<Rightarrow> Inl e) = Inr y \<longleftrightarrow> (\<exists>d. v = PDict d \<and> fd d = Inr y)"
  by (cases v; simp)+

lemma case_prod_Inr_iff [result_simps]:
  "(case p of (a, b) \<Rightarrow> f a b) = Inr y \<longleftrightarrow> (\<exists>a b. p = (a, b) \<and> f a b = Inr y)"
  by (cases p) simp

lemma Inr_eqD: "Inr x = Inr y \<Longrightarrow> y = x"
  by simp

lemma and_then_if: "and_then (if c then a else b) f = (if c then and_then a f else and_then b f)"
  by simp

lemma and_then_cong [fundef_cong]:
  "m = m' \<Longrightarrow> (\<And>x. m' = Inr x \<Longrightarrow> f x = g x) \<Longrightarrow> and_then m f = and_then m' g"
  by (cases m') auto

lemma traverse_Inr_iff:
  "traverse f xs = Inr ys \<longleftrightarrow> list_all2 (\<lambda>x y. f x = Inr y) xs ys"
  by (induction xs arbitrary: ys) (auto simp: and_then_Inr_iff list_all2_Cons1)

lemma traverse_map: "traverse f (map g xs) = traverse (\<lambda>x. f (g x)) xs"
  by (induction xs) auto

lemma traverse_pure: "(\<And>x. x \<in> set xs \<Longrightarrow> f x = Inr (g x)) \<Longrightarrow> traverse f xs = Inr (map g xs)"
  by (induction xs) auto

lemma traverse_length: "traverse f xs = Inr ys \<Longrightarrow> length ys = length xs"
  by (auto simp: traverse_Inr_iff dest: list_all2_lengthD)

lemma traverse_nth:
  "traverse f xs = Inr ys \<Longrightarrow> i < length xs \<Longrightarrow> f (xs ! i) = Inr (ys ! i)"
  by (auto simp: traverse_Inr_iff list_all2_conv_all_nth)

lemma traverse_set:
  "traverse f xs = Inr ys \<Longrightarrow> y \<in> set ys \<Longrightarrow> \<exists>x \<in> set xs. f x = Inr y"
  by (induction xs arbitrary: ys) (auto simp: and_then_Inr_iff)

lemma traverse_map_eq:
  "traverse f xs = Inr ys \<Longrightarrow> (\<And>x y. x \<in> set xs \<Longrightarrow> f x = Inr y \<Longrightarrow> h y = g x) \<Longrightarrow>
   map h ys = map g xs"
  by (induction xs arbitrary: ys) (auto simp: and_then_Inr_iff)

lemma fold_r_append:
  "fold_r f s (xs @ ys) = and_then (fold_r f s xs) (\<lambda>s'. fold_r f s' ys)"
  by (induction xs arbitrary: s) (auto simp: and_then_def split: sum.splits)

text \<open>
  A validation loop that keeps the set of keys it has seen and raises on a repeated key: the
  interface of such a loop body, and what the whole loop accepts.
\<close>

locale unique_loop =
  fixes step :: "'k set \<Rightarrow> 'a \<Rightarrow> 'k set result"
    and key :: "'a \<Rightarrow> 'k"
    and good :: "'a \<Rightarrow> bool"
  assumes step_Inr:
    "step seen x = Inr seen' \<longleftrightarrow> good x \<and> key x \<notin> seen \<and> seen' = insert (key x) seen"
begin

lemma loop_iff:
  "fold_r step seen xs = Inr seen' \<longleftrightarrow>
     list_all good xs \<and> distinct (map key xs) \<and> set (map key xs) \<inter> seen = {} \<and>
     seen' = seen \<union> set (map key xs)"
  by (induction xs arbitrary: seen) (auto simp: and_then_Inr_iff step_Inr)

lemma loop_from_empty:
  "fold_r step {} xs = Inr seen' \<longleftrightarrow>
     list_all good xs \<and> distinct (map key xs) \<and> seen' = set (map key xs)"
  by (simp add: loop_iff)

end

text \<open>
  \<open>ok_of\<close> forgets which exception was raised: two computations that differ only in the
  text of their messages have the same \<open>ok_of\<close>.
\<close>

definition ok_of :: "'a result \<Rightarrow> 'a option" where
  "ok_of m = (case m of Inl _ \<Rightarrow> None | Inr x \<Rightarrow> Some x)"

lemma ok_of_simps [simp]:
  "ok_of (Inr x) = Some x"
  "ok_of (Inl e) = None"
  "ok_of (and_then m f) = Option.bind (ok_of m) (\<lambda>x. ok_of (f x))"
  by (auto simp: ok_of_def and_then_def split: sum.splits)

lemma ok_of_Some_iff [simp]: "ok_of m = Some x \<longleftrightarrow> m = Inr x"
  by (cases m) simp_all

subsection \<open>Strings\<close>

definition py_isspace :: "char \<Rightarrow> bool" where
  "py_isspace c =
     (let n = of_char c :: nat
      in (9 \<le> n \<and> n \<le> 13) \<or> (28 \<le> n \<and> n \<le> 32) \<or> n = 133 \<or> n = 160)"

definition py_strip :: "string \<Rightarrow> string" where
  "py_strip s = rev (dropWhile py_isspace (rev (dropWhile py_isspace s)))"

definition char_upper :: "char \<Rightarrow> char" where
  "char_upper c =
     (let n = of_char c :: nat in if 97 \<le> n \<and> n \<le> 122 then char_of (n - 32) else c)"

definition char_lower :: "char \<Rightarrow> char" where
  "char_lower c =
     (let n = of_char c :: nat in if 65 \<le> n \<and> n \<le> 90 then char_of (n + 32) else c)"

definition py_upper :: "string \<Rightarrow> string" where
  "py_upper s = map char_upper s"

definition py_lower :: "string \<Rightarrow> string" where
  "py_lower s = map char_lower s"

definition removeprefix :: "string \<Rightarrow> string \<Rightarrow> string" where
  "removeprefix p s = (if take (length p) s = p then drop (length p) s else s)"

text \<open>Decimal text of an integer, as \<open>str(i)\<close> and an f-string give it.\<close>

definition digit_char :: "nat \<Rightarrow> char" where
  "digit_char d = char_of (48 + d)"

fun nat_text :: "nat \<Rightarrow> string" where
  "nat_text n =
     (if n < 10 then [digit_char n] else nat_text (n div 10) @ [digit_char (n mod 10)])"

declare nat_text.simps [simp del]

definition int_text :: "int \<Rightarrow> string" where
  "int_text i = (if i < 0 then CHR ''-'' # nat_text (nat (- i)) else nat_text (nat i))"

text \<open>
  \<open>repr\<close> of a string: single quotes unless the text has one and no double quote, escapes
  for the quote, the backslash and what is not printable.
\<close>

definition hex_digit :: "nat \<Rightarrow> char" where
  "hex_digit d = (if d < 10 then char_of (48 + d) else char_of (87 + d))"

definition repr_char :: "char \<Rightarrow> char \<Rightarrow> string" where
  "repr_char q c =
     (let n = of_char c :: nat
      in if c = q \<or> n = 92 then [char_of (92 :: nat), c]
         else if n = 9 then [char_of (92 :: nat), CHR ''t'']
         else if n = 10 then [char_of (92 :: nat), CHR ''n'']
         else if n = 13 then [char_of (92 :: nat), CHR ''r'']
         else if n < 32 \<or> (127 \<le> n \<and> n \<le> 160) \<or> n = 173
              then [char_of (92 :: nat), CHR ''x'', hex_digit (n div 16), hex_digit (n mod 16)]
         else [c])"

definition py_repr :: "string \<Rightarrow> string" where
  "py_repr s =
     (let q = (if char_of (39 :: nat) \<in> set s \<and> char_of (34 :: nat) \<notin> set s
               then char_of (34 :: nat) else char_of (39 :: nat))
      in q # concat (map (repr_char q) s) @ [q])"

lemma all_dropWhile_iff: "(\<forall>c \<in> set (dropWhile p s). p c) \<longleftrightarrow> (\<forall>c \<in> set s. p c)"
  by (induction s) auto

lemma py_strip_empty_iff: "py_strip s = [] \<longleftrightarrow> (\<forall>c \<in> set s. py_isspace c)"
  by (simp add: py_strip_def all_dropWhile_iff)

text \<open>A stripped string neither starts nor ends with white space, so stripping is idempotent.\<close>

definition stripped :: "string \<Rightarrow> bool" where
  "stripped s = (s = [] \<or> (\<not> py_isspace (hd s) \<and> \<not> py_isspace (last s)))"

lemma stripped_strip: "stripped s \<Longrightarrow> py_strip s = s"
  using dropWhile_eq_self_iff [of py_isspace s] dropWhile_eq_self_iff [of py_isspace "rev s"]
  by (cases "s = []") (simp_all add: stripped_def py_strip_def hd_rev)

lemma hd_rev_dropWhile:
  assumes "\<not> p (hd s)" and "s \<noteq> []"
  shows "hd (rev (dropWhile p (rev s))) = hd s"
  using assms by (cases s) (auto simp: dropWhile_append3 dropWhile_append)

lemma stripped_py_strip: "stripped (py_strip s)"
proof (cases "dropWhile py_isspace s = []")
  case True
  then show ?thesis by (simp only: py_strip_def stripped_def) simp
next
  case False
  let ?t = "dropWhile py_isspace s"
  have hd: "\<not> py_isspace (hd ?t)" using False by (rule hd_dropWhile)
  have "dropWhile py_isspace (rev ?t) \<noteq> []" using False hd by (metis dropWhile_eq_Nil_conv hd_in_set set_rev)
  then have "\<not> py_isspace (hd (dropWhile py_isspace (rev ?t)))" by (rule hd_dropWhile)
  then show ?thesis
    using hd False hd_rev_dropWhile [of py_isspace ?t]
    by (auto simp: py_strip_def stripped_def last_rev)
qed

lemma py_strip_idem [simp]: "py_strip (py_strip s) = py_strip s"
  by (simp add: stripped_strip stripped_py_strip)

lemma py_strip_in_set: "c \<in> set (py_strip s) \<Longrightarrow> c \<in> set s"
  by (auto simp: py_strip_def dest!: set_dropWhileD)

subsection \<open>Sorting\<close>

text \<open>
  Python's \<open>sorted(xs, key=f)\<close> is stable, as \<^const>\<open>sort_key\<close> is. Where the keys are
  pairwise distinct the result does not depend on the order of the input.
\<close>

lemma sort_key_Nil_iff [simp]: "sort_key f xs = [] \<longleftrightarrow> xs = []"
  by (metis length_0_conv length_sort)

lemma distinct_map_sort_key [simp]: "distinct (map g (sort_key f xs)) \<longleftrightarrow> distinct (map g xs)"
  by (metis mset_eq_imp_distinct_iff mset_map mset_sort)

lemma filter_eq_singleton: "distinct zs \<Longrightarrow> k \<in> set zs \<Longrightarrow> filter (\<lambda>x. x = k) zs = [k]"
  by (induction zs) (auto simp: filter_empty_conv)

lemma sort_key_perm:
  assumes "mset xs = mset ys" and "distinct (map f xs)"
  shows "sort_key f xs = sort_key f ys"
proof (rule properties_for_sort_key)
  show "mset (sort_key f ys) = mset xs" using assms(1) by simp
  show "sorted (map f (sort_key f ys))" by simp
  fix k assume k: "k \<in> set (sort_key f ys)"
  have dx: "distinct xs" using assms(2) by (simp add: distinct_map)
  have "set (sort_key f ys) = set xs" using assms(1) by (metis set_mset_mset set_sort)
  then have inj: "\<And>x. x \<in> set xs \<Longrightarrow> f k = f x \<longleftrightarrow> x = k"
    using assms(2) k by (auto simp: distinct_map dest: inj_onD)
  have one: "filter (\<lambda>x. f k = f x) zs = [k]" if "mset zs = mset xs" for zs
  proof -
    have "filter (\<lambda>x. f k = f x) zs = filter (\<lambda>x. x = k) zs"
      using inj that by (intro filter_cong) (auto dest: mset_eq_setD)
    moreover have "distinct zs" "k \<in> set zs"
      using that dx k assms(1) by (auto dest: mset_eq_setD mset_eq_imp_distinct_iff)
    ultimately show ?thesis by (simp add: filter_eq_singleton)
  qed
  show "filter (\<lambda>x. f k = f x) (sort_key f ys) = filter (\<lambda>x. f k = f x) xs"
    using one [of "sort_key f ys"] one [of xs] assms(1) by simp
qed

end
