(* ===== verification/Checked_Arith.thy ===== *)
theory Checked_Arith
  imports Py_Base
begin

text \<open>
  Field validation and checked unsigned 64-bit arithmetic of \<open>planning.py\<close>.

  The locale \<open>checked_op\<close> is the contract the planner relies on: an operation either
  returns the exact mathematical result, within the limit, or raises. \<open>checked_sum\<close>
  extends it with the accumulation loops of the planner; both are interpreted on
  \<open>checked_add\<close> and \<open>checked_mul\<close>.
\<close>

subsection \<open>Definitions\<close>

definition UINT64_MAX :: int where
  "UINT64_MAX = 18446744073709551615"

definition planning_text :: "pyval \<Rightarrow> string \<Rightarrow> string result" where
  "planning_text v field =
     (case v of
        PStr s \<Rightarrow>
          if py_strip s = [] then Raise PlanningError (fmt [field, '' must be a non-empty string''])
          else Inr (py_strip s)
      | _ \<Rightarrow> Raise PlanningError (fmt [field, '' must be a non-empty string'']))"

definition planning_uint :: "pyval \<Rightarrow> string \<Rightarrow> bool \<Rightarrow> int result" where
  "planning_uint v field allow_zero =
     (case v of
        PInt i \<Rightarrow>
          (if i < (if allow_zero then 0 else 1) \<or> i > UINT64_MAX
           then Raise PlanningError
             (fmt [field, '' must be a '', (if allow_zero then ''non-negative'' else ''positive''),
                   '' unsigned 64-bit integer''])
           else Inr i)
      | _ \<Rightarrow> Raise PlanningError (fmt [field, '' must be an integer'']))"

definition checked_add :: "int \<Rightarrow> int \<Rightarrow> string \<Rightarrow> int result" where
  "checked_add left right field =
     and_then (planning_uint (PInt left) field True) (\<lambda>left.
     and_then (planning_uint (PInt right) field True) (\<lambda>right.
       if left + right > UINT64_MAX
       then Raise PlanningError (fmt [field, '' overflows unsigned 64-bit arithmetic''])
       else Inr (left + right)))"

definition checked_mul :: "int \<Rightarrow> int \<Rightarrow> string \<Rightarrow> int result" where
  "checked_mul left right field =
     and_then (planning_uint (PInt left) field True) (\<lambda>left.
     and_then (planning_uint (PInt right) field True) (\<lambda>right.
       if left * right > UINT64_MAX
       then Raise PlanningError (fmt [field, '' overflows unsigned 64-bit arithmetic''])
       else Inr (left * right)))"

definition ceil_div :: "int \<Rightarrow> int \<Rightarrow> string \<Rightarrow> int result" where
  "ceil_div v divisor field =
     and_then (planning_uint (PInt v) field True) (\<lambda>v.
     and_then (planning_uint (PInt divisor) (fmt [field, '' divisor'']) False) (\<lambda>divisor.
       Inr (v div divisor + (if v mod divisor \<noteq> 0 then 1 else 0))))"

definition round_up :: "int \<Rightarrow> int \<Rightarrow> string \<Rightarrow> int result" where
  "round_up v alignment field =
     and_then (planning_uint (PInt v) field True) (\<lambda>v.
     and_then (planning_uint (PInt alignment) (fmt [field, '' alignment'']) False) (\<lambda>alignment.
     and_then (ceil_div v alignment field) (\<lambda>q. checked_mul q alignment field)))"

definition round_down :: "int \<Rightarrow> int \<Rightarrow> string \<Rightarrow> int result" where
  "round_down v alignment field =
     and_then (planning_uint (PInt v) field True) (\<lambda>v.
     and_then (planning_uint (PInt alignment) (fmt [field, '' alignment'']) False) (\<lambda>alignment.
       Inr (v - v mod alignment)))"

text \<open>The accumulation loop \<open>total = checked_add(total, x.field, ...)\<close> over a sequence.\<close>

definition checked_total :: "('a \<Rightarrow> int) \<Rightarrow> string \<Rightarrow> 'a list \<Rightarrow> int result" where
  "checked_total w field xs = fold_r (\<lambda>total x. checked_add total (w x) field) 0 xs"

subsection \<open>The contract of a checked operation\<close>

locale checked_op =
  fixes f :: "int \<Rightarrow> int \<Rightarrow> string \<Rightarrow> int result"
    and g :: "int \<Rightarrow> int \<Rightarrow> int"
    and limit :: int
  assumes exact: "f a b field = Inr c \<longleftrightarrow>
      0 \<le> a \<and> a \<le> limit \<and> 0 \<le> b \<and> b \<le> limit \<and> c = g a b \<and> c \<le> limit"
    and ideal_nonneg: "0 \<le> a \<Longrightarrow> 0 \<le> b \<Longrightarrow> 0 \<le> g a b"
    and limit_nonneg: "0 \<le> limit"
begin

lemma result_bounds: "f a b field = Inr c \<Longrightarrow> 0 \<le> c \<and> c \<le> limit"
  using exact ideal_nonneg by auto

lemma fits:
  "0 \<le> a \<Longrightarrow> a \<le> limit \<Longrightarrow> 0 \<le> b \<Longrightarrow> b \<le> limit \<Longrightarrow> g a b \<le> limit \<Longrightarrow>
   f a b field = Inr (g a b)"
  using exact by auto

lemma overflow_raises: "limit < g a b \<Longrightarrow> \<exists>e. f a b field = Inl e"
  by (cases "f a b field") (auto simp: exact)

end

locale checked_sum = checked_op f "(+)" limit
  for f :: "int \<Rightarrow> int \<Rightarrow> string \<Rightarrow> int result" and limit :: int
begin

lemma fold_from:
  assumes "0 \<le> t" and "t \<le> limit"
  shows "fold_r (\<lambda>total x. f total (w x) field) t xs = Inr r \<longleftrightarrow>
     (\<forall>x \<in> set xs. 0 \<le> w x) \<and> r = t + sum_list (map w xs) \<and> r \<le> limit"
  using assms
proof (induction xs arbitrary: t)
  case Nil
  then show ?case by auto
next
  case (Cons x xs)
  have nonneg: "(\<forall>y \<in> set xs. 0 \<le> w y) \<Longrightarrow> 0 \<le> sum_list (map w xs)"
    by (induction xs) auto
  show ?case
  proof (cases "0 \<le> w x \<and> t + w x \<le> limit")
    case True
    then have "f t (w x) field = Inr (t + w x)" using Cons.prems by (intro fits) auto
    then show ?thesis using Cons True by (auto simp: add.assoc)
  next
    case False
    then have "\<And>c. f t (w x) field \<noteq> Inr c" using Cons.prems by (auto simp: exact)
    then show ?thesis using False nonneg by (auto simp: and_then_Inr_iff)
  qed
qed

lemma fold_total:
  "fold_r (\<lambda>total x. f total (w x) field) 0 xs = Inr r \<longleftrightarrow>
     (\<forall>x \<in> set xs. 0 \<le> w x) \<and> r = sum_list (map w xs) \<and> r \<le> limit"
  using fold_from [of 0] limit_nonneg by simp

end

subsection \<open>The planner's operations meet it\<close>

lemma UINT64_MAX_pos [simp]: "0 < UINT64_MAX" "0 \<le> UINT64_MAX" "1 \<le> UINT64_MAX"
  by (simp_all add: UINT64_MAX_def)

lemma planning_uint_Inr_iff:
  "planning_uint v field z = Inr i \<longleftrightarrow>
     v = PInt i \<and> (if z then 0 else 1) \<le> i \<and> i \<le> UINT64_MAX"
  by (cases v) (auto simp: planning_uint_def)

lemma planning_text_Inr_iff:
  "planning_text v field = Inr t \<longleftrightarrow> (\<exists>s. v = PStr s \<and> t = py_strip s \<and> t \<noteq> [])"
  by (cases v) (auto simp: planning_text_def)

lemma checked_add_exact:
  "checked_add a b field = Inr c \<longleftrightarrow>
     0 \<le> a \<and> a \<le> UINT64_MAX \<and> 0 \<le> b \<and> b \<le> UINT64_MAX \<and> c = a + b \<and> c \<le> UINT64_MAX"
  by (auto simp: checked_add_def result_simps planning_uint_Inr_iff)

lemma checked_mul_exact:
  "checked_mul a b field = Inr c \<longleftrightarrow>
     0 \<le> a \<and> a \<le> UINT64_MAX \<and> 0 \<le> b \<and> b \<le> UINT64_MAX \<and> c = a * b \<and> c \<le> UINT64_MAX"
  by (auto simp: checked_mul_def result_simps planning_uint_Inr_iff)

interpretation cadd: checked_sum checked_add UINT64_MAX
  by unfold_locales (auto simp: checked_add_exact)

interpretation cmul: checked_op checked_mul "(*)" UINT64_MAX
  by unfold_locales (auto simp: checked_mul_exact)

lemma checked_total_Inr_iff:
  "checked_total w field xs = Inr r \<longleftrightarrow>
     (\<forall>x \<in> set xs. 0 \<le> w x) \<and> r = sum_list (map w xs) \<and> r \<le> UINT64_MAX"
  unfolding checked_total_def by (rule cadd.fold_total)

lemma checked_total_nonneg: "checked_total w field xs = Inr r \<Longrightarrow> 0 \<le> r"
  by (induction xs arbitrary: r) (auto simp: checked_total_Inr_iff intro: sum_list_nonneg)

text \<open>The ceiling quotient, written without a case distinction.\<close>

definition ceil_quot :: "int \<Rightarrow> int \<Rightarrow> int" where
  "ceil_quot v d = (v + d - 1) div d"

lemma div_mult_bounds:
  fixes v d :: int
  assumes "0 < d"
  shows "(v div d) * d \<le> v" and "v < (v div d) * d + d"
  using div_mult_mod_eq [of v d] pos_mod_bound [OF assms, of v] pos_mod_sign [OF assms, of v]
  by linarith+

lemma ceil_quot_alt: "0 < d \<Longrightarrow> v div d + (if v mod d \<noteq> 0 then 1 else 0) = ceil_quot v d"
proof -
  assume d: "0 < d"
  have v: "v + d - 1 = (v div d) * d + (v mod d + d - 1)" by (simp add: algebra_simps)
  have "(v + d - 1) div d = v div d + (v mod d + d - 1) div d"
    using d by (subst v) (simp add: div_plus_div_distrib_dvd_left)
  moreover have "(v mod d + d - 1) div d = (if v mod d \<noteq> 0 then 1 else 0)"
  proof (cases "v mod d = 0")
    case True
    then show ?thesis using d by simp
  next
    case False
    then have "1 \<le> v mod d" "v mod d < d"
      using d pos_mod_sign [of d v] pos_mod_bound [of d v] by linarith+
    then have "(v mod d - 1) div d = 0" by (intro div_pos_pos_trivial) linarith+
    moreover have "(v mod d - 1 + d) div d = (v mod d - 1) div d + 1" using d by simp
    ultimately have "(v mod d - 1 + d) div d = 1" by linarith
    with False show ?thesis by (simp add: algebra_simps)
  qed
  ultimately show ?thesis by (simp add: ceil_quot_def)
qed

lemma ceil_quot_bounds:
  assumes "0 < d"
  shows "v \<le> ceil_quot v d * d" and "ceil_quot v d * d < v + d"
  using div_mult_bounds [OF assms, of "v + d - 1"] by (simp_all add: ceil_quot_def)

lemma ceil_quot_nonneg: "0 \<le> v \<Longrightarrow> 0 < d \<Longrightarrow> 0 \<le> ceil_quot v d"
  by (simp add: ceil_quot_def pos_imp_zdiv_nonneg_iff)

lemma ceil_quot_le: "0 < d \<Longrightarrow> v \<le> k * d \<Longrightarrow> ceil_quot v d \<le> k"
  using ceil_quot_bounds(2) [of d v] mult_less_cancel_right_pos [of d "ceil_quot v d" "k + 1"]
  by (simp add: algebra_simps)

lemma ceil_quot_mono: "0 < d \<Longrightarrow> v \<le> w \<Longrightarrow> ceil_quot v d \<le> ceil_quot w d"
  by (simp add: ceil_quot_def zdiv_mono1)

lemma ceil_quot_pos: "0 < v \<Longrightarrow> 0 < d \<Longrightarrow> 0 < ceil_quot v d"
  using ceil_quot_bounds(1) [of d v] by (metis linorder_not_le mult_nonpos_nonneg order_less_imp_le order_less_le_trans)

lemma ceil_div_Inr_iff:
  "ceil_div v d field = Inr q \<longleftrightarrow>
     0 \<le> v \<and> v \<le> UINT64_MAX \<and> 1 \<le> d \<and> d \<le> UINT64_MAX \<and> q = ceil_quot v d"
  using ceil_quot_alt [of d v]
  by (auto simp: ceil_div_def result_simps planning_uint_Inr_iff)

lemma round_down_Inr_iff:
  "round_down v a field = Inr r \<longleftrightarrow>
     0 \<le> v \<and> v \<le> UINT64_MAX \<and> 1 \<le> a \<and> a \<le> UINT64_MAX \<and> r = (v div a) * a"
  by (auto simp: round_down_def result_simps planning_uint_Inr_iff minus_mod_eq_div_mult)

lemma ceil_quot_le_self: "0 \<le> v \<Longrightarrow> 1 \<le> d \<Longrightarrow> ceil_quot v d \<le> v"
  by (rule ceil_quot_le) (auto simp: mult_le_cancel_left1)

lemma round_up_Inr_iff:
  "round_up v a field = Inr r \<longleftrightarrow>
     0 \<le> v \<and> v \<le> UINT64_MAX \<and> 1 \<le> a \<and> a \<le> UINT64_MAX \<and>
     r = ceil_quot v a * a \<and> r \<le> UINT64_MAX"
  using ceil_quot_nonneg [of v a] ceil_quot_le_self [of v a]
  by (auto simp: round_up_def result_simps planning_uint_Inr_iff ceil_div_Inr_iff checked_mul_exact)

lemma round_up_exact:
  assumes "round_up v a field = Inr r"
  shows "v \<le> r" and "r < v + a" and "a dvd r" and "r \<le> UINT64_MAX"
  using assms ceil_quot_bounds [of a v] by (auto simp: round_up_Inr_iff)

lemma round_down_exact:
  assumes "round_down v a field = Inr r"
  shows "r \<le> v" and "v < r + a" and "a dvd r" and "0 \<le> r"
  using assms div_mult_bounds [of a v] by (auto simp: round_down_Inr_iff pos_imp_zdiv_nonneg_iff)

subsection \<open>Properties\<close>

text \<open>
  Rounding a block count up to the alignment either raises or returns the least multiple
  of the alignment that is at least the value, and it raises exactly when the operands are not
  unsigned 64-bit values (a positive one for the alignment) or that least multiple does not
  fit in 64 bits.
\<close>

theorem round_up_least_multiple:
  "round_up v a field = Inr r \<longleftrightarrow>
     0 \<le> v \<and> v \<le> UINT64_MAX \<and> 1 \<le> a \<and> a \<le> UINT64_MAX \<and> r \<le> UINT64_MAX \<and>
     v \<le> r \<and> a dvd r \<and> (\<forall>m. v \<le> m \<and> a dvd m \<longrightarrow> r \<le> m)"
proof
  assume *: "round_up v a field = Inr r"
  have "r \<le> m" if m: "v \<le> m" "a dvd m" for m
  proof -
    from m(2) obtain k where "m = a * k" ..
    with m * show ?thesis
      using ceil_quot_le [of a v k] by (auto simp: round_up_Inr_iff mult.commute)
  qed
  with * round_up_exact [OF *] show "0 \<le> v \<and> v \<le> UINT64_MAX \<and> 1 \<le> a \<and> a \<le> UINT64_MAX \<and>
     r \<le> UINT64_MAX \<and> v \<le> r \<and> a dvd r \<and> (\<forall>m. v \<le> m \<and> a dvd m \<longrightarrow> r \<le> m)"
    by (auto simp: round_up_Inr_iff)
next
  assume *: "0 \<le> v \<and> v \<le> UINT64_MAX \<and> 1 \<le> a \<and> a \<le> UINT64_MAX \<and> r \<le> UINT64_MAX \<and>
     v \<le> r \<and> a dvd r \<and> (\<forall>m. v \<le> m \<and> a dvd m \<longrightarrow> r \<le> m)"
  then obtain k where k: "r = a * k" by auto
  with * have "ceil_quot v a \<le> k" by (intro ceil_quot_le) (auto simp: mult.commute)
  with k * have "ceil_quot v a * a \<le> r" by (simp add: mult.commute)
  moreover have "r \<le> ceil_quot v a * a" using * ceil_quot_bounds(1) [of a v] by auto
  ultimately show "round_up v a field = Inr r" using * by (auto simp: round_up_Inr_iff)
qed

theorem round_up_least_multiple_witness:
  "round_up 33 16 ''minimum_blocks'' = Inr 48 \<and> (33::int) \<le> 48 \<and> (16::int) dvd 48 \<and> (48::int) \<le> 64"
proof -
  have r: "round_up 33 16 ''minimum_blocks'' = Inr 48"
    by (simp add: round_up_Inr_iff ceil_quot_def UINT64_MAX_def)
  then have "(33::int) \<le> 48 \<and> (16::int) dvd 48 \<and> (\<forall>m. 33 \<le> m \<and> (16::int) dvd m \<longrightarrow> 48 \<le> m)"
    using round_up_least_multiple [of 33 16 "''minimum_blocks''" 48] by blast
  then show ?thesis using r by simp
qed

end
