(* ===== verification/Cache_Geometry.thy ===== *)
theory Cache_Geometry
  imports Checked_Arith
begin

text \<open>
  The frozen dataclasses of \<open>planning.py\<close> that describe a resolved cache geometry:
  \<open>PlannerIdentity\<close>, \<open>ElementType\<close>, \<open>CacheGroupGeometry\<close>, \<open>RankGeometry\<close> and
  \<open>GeometryDescriptor\<close>, with their \<open>to_dict\<close> views.

  A dataclass is a record; its constructor, which runs \<open>__post_init__\<close>, is a
  \<open>mk_...\<close> function from the raw arguments to the validated record or the raise. The
  lemmas show what a constructed value satisfies and that construction does not depend on the
  order in which groups and ranks are supplied.
\<close>

subsection \<open>PlannerIdentity\<close>

definition PLANNER_SCHEMA_VERSION :: int where
  "PLANNER_SCHEMA_VERSION = 1"

definition PACKED_LAYOUT_SCHEMA_VERSION :: int where
  "PACKED_LAYOUT_SCHEMA_VERSION = 1"

record planner_identity =
  pi_adapter_id :: string
  pi_adapter_version :: string
  pi_backend_version :: string
  pi_profile_id :: string
  pi_layout_version :: int

definition mk_PlannerIdentity ::
  "pyval \<Rightarrow> pyval \<Rightarrow> pyval \<Rightarrow> pyval \<Rightarrow> pyval \<Rightarrow> planner_identity result" where
  "mk_PlannerIdentity adapter_id adapter_version backend_version profile_id layout_version =
     and_then (planning_text adapter_id ''adapter_id'') (\<lambda>aid.
     and_then (planning_text adapter_version ''adapter_version'') (\<lambda>aver.
     and_then (planning_text backend_version ''backend_version'') (\<lambda>bver.
     and_then (planning_text profile_id ''profile_id'') (\<lambda>pid.
     and_then (planning_uint layout_version ''layout_version'' False) (\<lambda>lver.
       if lver \<noteq> PACKED_LAYOUT_SCHEMA_VERSION
       then Raise PlanningError ''unsupported packed-layout contract version''
       else Inr \<lparr>pi_adapter_id = aid, pi_adapter_version = aver, pi_backend_version = bver,
                 pi_profile_id = pid, pi_layout_version = lver\<rparr>)))))"

definition identity_to_dict :: "planner_identity \<Rightarrow> pyval" where
  "identity_to_dict i = PDict
     [(''adapter_id'', PStr (pi_adapter_id i)),
      (''adapter_version'', PStr (pi_adapter_version i)),
      (''backend_version'', PStr (pi_backend_version i)),
      (''profile_id'', PStr (pi_profile_id i)),
      (''layout_version'', PInt (pi_layout_version i))]"

subsection \<open>ElementType\<close>

record element_type =
  et_name :: string
  et_bits :: int

definition mk_ElementType :: "pyval \<Rightarrow> pyval \<Rightarrow> element_type result" where
  "mk_ElementType name bits =
     and_then (planning_text name ''element_type.name'') (\<lambda>n.
     and_then (planning_uint bits ''element_type.bits'' False) (\<lambda>b.
       if b mod 8 \<noteq> 0
       then Raise PlanningError
         ''the certified packed CUDA-IPC profile requires byte-addressable elements''
       else Inr \<lparr>et_name = n, et_bits = b\<rparr>))"

definition element_to_dict :: "element_type \<Rightarrow> pyval" where
  "element_to_dict e = PDict
     [(''name'', PStr (et_name e)), (''bits'', PInt (et_bits e)),
      (''bytes'', PInt (et_bits e div 8))]"

subsection \<open>CacheGroupGeometry\<close>

record cache_group =
  cg_group_id :: string
  cg_layers :: "string list"
  cg_block_size_tokens :: int
  cg_bytes_per_group_block :: int
  cg_required_blocks_per_sequence :: int
  cg_kv_heads :: int
  cg_key_head_dim :: int
  cg_value_head_dim :: int
  cg_element_type :: element_type
  cg_policy_kind :: string
  cg_window_tokens :: "int option"
  cg_extra_retained_tokens :: int

text \<open>The window rules of the two certified policies.\<close>

definition check_window :: "string \<Rightarrow> pyval \<Rightarrow> int option result" where
  "check_window policy_kind window_tokens =
     (if policy_kind = ''sliding_window'' then
        (if window_tokens = PNone
         then Raise PlanningError ''sliding-window groups require window_tokens''
         else and_then (planning_uint window_tokens ''window_tokens'' False) (\<lambda>w. Inr (Some w)))
      else if window_tokens \<noteq> PNone
      then Raise PlanningError ''full-attention groups cannot set window_tokens''
      else Inr None)"

definition mk_CacheGroupGeometry ::
  "pyval \<Rightarrow> pyval list \<Rightarrow> pyval \<Rightarrow> pyval \<Rightarrow> pyval \<Rightarrow> pyval \<Rightarrow> pyval \<Rightarrow> pyval \<Rightarrow>
   element_type \<Rightarrow> string \<Rightarrow> pyval \<Rightarrow> pyval \<Rightarrow> cache_group result" where
  "mk_CacheGroupGeometry group_id layers block_size_tokens bytes_per_group_block
     required_blocks_per_sequence kv_heads key_head_dim value_head_dim element_type
     policy_kind window_tokens extra_retained_tokens =
     and_then (planning_text group_id ''group_id'') (\<lambda>gid.
     and_then (traverse (\<lambda>layer. planning_text layer ''layer name'') layers) (\<lambda>ls.
     if ls = [] \<or> \<not> distinct ls
     then Raise PlanningError ''cache-group layer names must be non-empty and unique''
     else
     and_then (planning_uint block_size_tokens ''block_size_tokens'' False) (\<lambda>bs.
     and_then (planning_uint bytes_per_group_block ''bytes_per_group_block'' False) (\<lambda>bb.
     and_then (planning_uint required_blocks_per_sequence
                 ''required_blocks_per_sequence'' False) (\<lambda>rb.
     and_then (planning_uint kv_heads ''kv_heads'' False) (\<lambda>kh.
     and_then (planning_uint key_head_dim ''key_head_dim'' False) (\<lambda>kd.
     and_then (planning_uint value_head_dim ''value_head_dim'' False) (\<lambda>vd.
     if policy_kind \<notin> {''full_attention'', ''sliding_window''}
     then Raise PlanningError ''unsupported certified cache policy''
     else
     and_then (check_window policy_kind window_tokens) (\<lambda>w.
     and_then (planning_uint extra_retained_tokens ''extra_retained_tokens'' True) (\<lambda>ex.
     if policy_kind \<noteq> ''sliding_window'' \<and> ex \<noteq> 0
     then Raise PlanningError ''only sliding-window groups can retain extra trailing tokens''
     else Inr \<lparr>cg_group_id = gid, cg_layers = ls, cg_block_size_tokens = bs,
               cg_bytes_per_group_block = bb, cg_required_blocks_per_sequence = rb,
               cg_kv_heads = kh, cg_key_head_dim = kd, cg_value_head_dim = vd,
               cg_element_type = element_type, cg_policy_kind = policy_kind,
               cg_window_tokens = w, cg_extra_retained_tokens = ex\<rparr>))))))))))"

definition group_to_dict :: "cache_group \<Rightarrow> pyval" where
  "group_to_dict g = PDict
     [(''group_id'', PStr (cg_group_id g)),
      (''layers'', PList (map PStr (cg_layers g))),
      (''block_size_tokens'', PInt (cg_block_size_tokens g)),
      (''bytes_per_group_block'', PInt (cg_bytes_per_group_block g)),
      (''required_blocks_per_sequence'', PInt (cg_required_blocks_per_sequence g)),
      (''kv_heads'', PInt (cg_kv_heads g)),
      (''key_head_dim'', PInt (cg_key_head_dim g)),
      (''value_head_dim'', PInt (cg_value_head_dim g)),
      (''element_type'', element_to_dict (cg_element_type g)),
      (''policy'', PDict
         ((''kind'', PStr (cg_policy_kind g)) #
          (case cg_window_tokens g of
             None \<Rightarrow> []
           | Some w \<Rightarrow> [(''window_tokens'', PInt w),
                         (''extra_retained_tokens'', PInt (cg_extra_retained_tokens g))])))]"

subsection \<open>RankGeometry\<close>

text \<open>
  \<open>shared_pool_block_stride\<close> accepts sized groups and group topologies alike; the first
  argument reads \<open>bytes_per_group_block\<close> of the kind of group at hand.
\<close>

definition shared_pool_block_stride :: "('a \<Rightarrow> int) \<Rightarrow> 'a list \<Rightarrow> int result" where
  "shared_pool_block_stride bytes_of groups =
     (if groups = [] then Raise PlanningError ''shared pool requires at least one cache group''
      else and_then
        (traverse (\<lambda>g. planning_uint (PInt (bytes_of g)) ''bytes_per_group_block'' False) groups)
        (\<lambda>strides. Inr (Max (set strides))))"

record rank_geometry =
  rg_rank :: int
  rg_device_id :: int
  rg_pool_bytes_per_block :: int
  rg_groups :: "cache_group list"
  rg_fixed_overhead_blocks :: int

definition mk_RankGeometry ::
  "pyval \<Rightarrow> pyval \<Rightarrow> pyval \<Rightarrow> cache_group list \<Rightarrow> pyval \<Rightarrow> rank_geometry result" where
  "mk_RankGeometry rank device_id pool_bytes_per_block raw_groups fixed_overhead_blocks =
     and_then (planning_uint rank ''rank'' True) (\<lambda>r.
     and_then (planning_uint device_id ''device_id'' True) (\<lambda>d.
     and_then (planning_uint pool_bytes_per_block ''pool_bytes_per_block'' False) (\<lambda>p.
     and_then (planning_uint fixed_overhead_blocks ''fixed_overhead_blocks'' True) (\<lambda>fo.
     let groups = sort_key cg_group_id raw_groups in
     if groups = []
     then Raise PlanningError ''rank geometry requires at least one cache group''
     else if \<not> distinct (map cg_group_id groups)
     then Raise PlanningError ''rank cache-group IDs must be unique''
     else and_then (shared_pool_block_stride cg_bytes_per_group_block groups) (\<lambda>stride.
     if p \<noteq> stride
     then Raise PlanningError ''shared pool block stride must equal the largest cache-group stride''
     else if \<not> distinct (concat (map cg_layers groups))
     then Raise PlanningError ''cache-group layer names must be globally unique within a rank''
     else Inr \<lparr>rg_rank = r, rg_device_id = d, rg_pool_bytes_per_block = p,
               rg_groups = groups, rg_fixed_overhead_blocks = fo\<rparr>)))))"

definition required_blocks_per_sequence :: "rank_geometry \<Rightarrow> int result" where
  "required_blocks_per_sequence r =
     checked_total cg_required_blocks_per_sequence ''required_blocks_per_sequence'' (rg_groups r)"

definition rank_to_dict :: "rank_geometry \<Rightarrow> pyval result" where
  "rank_to_dict r =
     and_then (required_blocks_per_sequence r) (\<lambda>seq. Inr (PDict
       [(''rank'', PInt (rg_rank r)),
        (''device_id'', PInt (rg_device_id r)),
        (''pool_bytes_per_block'', PInt (rg_pool_bytes_per_block r)),
        (''fixed_overhead_blocks'', PInt (rg_fixed_overhead_blocks r)),
        (''required_blocks_per_sequence'', PInt seq),
        (''cache_groups'', PList (map group_to_dict (rg_groups r)))]))"

subsection \<open>GeometryDescriptor\<close>

record geometry =
  gd_identity :: planner_identity
  gd_model_fingerprint :: string
  gd_max_model_len :: int
  gd_tensor_parallel_size :: int
  gd_attention_backend :: string
  gd_layout_id :: string
  gd_ranks :: "rank_geometry list"

definition same_shape :: "rank_geometry \<Rightarrow> rank_geometry \<Rightarrow> bool" where
  "same_shape a b =
     (rg_pool_bytes_per_block a = rg_pool_bytes_per_block b \<and>
      rg_fixed_overhead_blocks a = rg_fixed_overhead_blocks b \<and>
      map group_to_dict (rg_groups a) = map group_to_dict (rg_groups b))"

definition total_pool_bytes_per_block :: "rank_geometry list \<Rightarrow> int result" where
  "total_pool_bytes_per_block ranks =
     checked_total rg_pool_bytes_per_block ''total_pool_bytes_per_block'' ranks"

definition mk_GeometryDescriptor ::
  "planner_identity \<Rightarrow> pyval \<Rightarrow> pyval \<Rightarrow> pyval \<Rightarrow> pyval \<Rightarrow> pyval \<Rightarrow> rank_geometry list \<Rightarrow>
   geometry result" where
  "mk_GeometryDescriptor identity model_fingerprint max_model_len tensor_parallel_size
     attention_backend layout_id raw_ranks =
     and_then (planning_text model_fingerprint ''model_fingerprint'') (\<lambda>fp.
     and_then (planning_text attention_backend ''attention_backend'') (\<lambda>ab.
     if py_upper ab \<noteq> ''FLASH_ATTN''
     then Raise PlanningError ''the current certified shared-pool profile requires FLASH_ATTN''
     else
     and_then (planning_text layout_id ''layout_id'') (\<lambda>lid.
     and_then (planning_uint max_model_len ''max_model_len'' False) (\<lambda>ml.
     and_then (planning_uint tensor_parallel_size ''tensor_parallel_size'' False) (\<lambda>tp.
     let ranks = sort_key rg_rank raw_ranks in
     if int (length ranks) \<noteq> tp
     then Raise PlanningError ''rank geometry must cover the tensor-parallel world''
     else if set (map rg_rank ranks) \<noteq> {0..<tp}
     then Raise PlanningError ''rank geometry is duplicated or out of range''
     else if \<not> distinct (map rg_device_id ranks)
     then Raise PlanningError ''rank geometry must use distinct device IDs''
     else if list_ex (\<lambda>r. \<not> same_shape r (hd ranks)) (tl ranks)
     then Raise PlanningError (fmt
       [''the certified shared-pool profile requires identical cache '',
        ''geometry on every tensor-parallel rank''])
     else and_then (total_pool_bytes_per_block ranks) (\<lambda>_.
       Inr \<lparr>gd_identity = identity, gd_model_fingerprint = fp, gd_max_model_len = ml,
            gd_tensor_parallel_size = tp, gd_attention_backend = py_upper ab,
            gd_layout_id = lid, gd_ranks = ranks\<rparr>))))))"

definition geometry_to_dict :: "geometry \<Rightarrow> pyval result" where
  "geometry_to_dict g =
     and_then (total_pool_bytes_per_block (gd_ranks g)) (\<lambda>total.
     and_then (traverse rank_to_dict (gd_ranks g)) (\<lambda>ranks. Inr (PDict
       [(''identity'', identity_to_dict (gd_identity g)),
        (''model_fingerprint'', PStr (gd_model_fingerprint g)),
        (''max_model_len'', PInt (gd_max_model_len g)),
        (''tensor_parallel_size'', PInt (gd_tensor_parallel_size g)),
        (''attention_backend'', PStr (gd_attention_backend g)),
        (''layout_id'', PStr (gd_layout_id g)),
        (''total_pool_bytes_per_block'', PInt total),
        (''ranks'', PList ranks)])))"

definition canonical_payload :: "geometry \<Rightarrow> pyval result" where
  "canonical_payload g =
     and_then (geometry_to_dict g) (\<lambda>d. Inr (PDict
       [(''schema_version'', PInt PLANNER_SCHEMA_VERSION), (''geometry'', d)]))"

subsection \<open>What a constructed value satisfies\<close>

definition pos64 :: "int \<Rightarrow> bool" where
  "pos64 i \<longleftrightarrow> 1 \<le> i \<and> i \<le> UINT64_MAX"

definition nonneg64 :: "int \<Rightarrow> bool" where
  "nonneg64 i \<longleftrightarrow> 0 \<le> i \<and> i \<le> UINT64_MAX"

lemma planning_uint_pos [simp]:
  "planning_uint v field False = Inr i \<longleftrightarrow> v = PInt i \<and> pos64 i"
  by (auto simp: planning_uint_Inr_iff pos64_def)

lemma planning_uint_nonneg [simp]:
  "planning_uint v field True = Inr i \<longleftrightarrow> v = PInt i \<and> nonneg64 i"
  by (auto simp: planning_uint_Inr_iff nonneg64_def)

lemma pos64_nonneg64: "pos64 i \<Longrightarrow> nonneg64 i"
  by (simp add: pos64_def nonneg64_def)

definition text_ok :: "string \<Rightarrow> bool" where
  "text_ok s \<longleftrightarrow> s \<noteq> [] \<and> py_strip s = s"

lemma planning_text_ok: "planning_text v field = Inr t \<Longrightarrow> text_ok t"
  by (auto simp: planning_text_Inr_iff text_ok_def)

lemma planning_text_PStr: "text_ok t \<Longrightarrow> planning_text (PStr t) field = Inr t"
  by (auto simp: planning_text_Inr_iff text_ok_def)

definition cache_group_ok :: "cache_group \<Rightarrow> bool" where
  "cache_group_ok g \<longleftrightarrow>
     text_ok (cg_group_id g) \<and>
     cg_layers g \<noteq> [] \<and> distinct (cg_layers g) \<and> list_all text_ok (cg_layers g) \<and>
     pos64 (cg_block_size_tokens g) \<and> pos64 (cg_bytes_per_group_block g) \<and>
     pos64 (cg_required_blocks_per_sequence g) \<and> pos64 (cg_kv_heads g) \<and>
     pos64 (cg_key_head_dim g) \<and> pos64 (cg_value_head_dim g) \<and>
     nonneg64 (cg_extra_retained_tokens g) \<and>
     (if cg_policy_kind g = ''sliding_window''
      then (\<exists>w. cg_window_tokens g = Some w \<and> pos64 w)
      else cg_policy_kind g = ''full_attention'' \<and> cg_window_tokens g = None \<and>
           cg_extra_retained_tokens g = 0)"

definition rank_ok :: "rank_geometry \<Rightarrow> bool" where
  "rank_ok r \<longleftrightarrow>
     nonneg64 (rg_rank r) \<and> nonneg64 (rg_device_id r) \<and> nonneg64 (rg_fixed_overhead_blocks r) \<and>
     rg_groups r \<noteq> [] \<and> sorted (map cg_group_id (rg_groups r)) \<and>
     distinct (map cg_group_id (rg_groups r)) \<and> distinct (concat (map cg_layers (rg_groups r))) \<and>
     list_all cache_group_ok (rg_groups r) \<and>
     rg_pool_bytes_per_block r = Max (cg_bytes_per_group_block ` set (rg_groups r)) \<and>
     pos64 (rg_pool_bytes_per_block r)"

definition geometry_ok :: "geometry \<Rightarrow> bool" where
  "geometry_ok g \<longleftrightarrow>
     gd_attention_backend g = ''FLASH_ATTN'' \<and>
     text_ok (gd_model_fingerprint g) \<and> text_ok (gd_layout_id g) \<and> pos64 (gd_max_model_len g) \<and>
     pos64 (gd_tensor_parallel_size g) \<and>
     map rg_rank (gd_ranks g) = [0..gd_tensor_parallel_size g - 1] \<and>
     distinct (map rg_device_id (gd_ranks g)) \<and>
     list_all rank_ok (gd_ranks g) \<and>
     (\<forall>a \<in> set (gd_ranks g). \<forall>b \<in> set (gd_ranks g). same_shape a b) \<and>
     sum_list (map rg_pool_bytes_per_block (gd_ranks g)) \<le> UINT64_MAX"

lemma check_window_Inr_iff:
  "check_window pk w = Inr x \<longleftrightarrow>
     (if pk = ''sliding_window'' then \<exists>i. w = PInt i \<and> pos64 i \<and> x = Some i
      else w = PNone \<and> x = None)"
  by (auto simp: check_window_def result_simps)

lemma traverse_text_ok:
  "traverse (\<lambda>l. planning_text l field) ls = Inr ts \<Longrightarrow> list_all text_ok ts"
  by (auto simp: list_all_iff dest!: traverse_set planning_text_ok)

lemma mk_CacheGroupGeometry_ok:
  assumes "mk_CacheGroupGeometry gid ls bs bb rb kh kd vd et pk w ex = Inr g"
  shows "cache_group_ok g"
  using assms
  unfolding mk_CacheGroupGeometry_def result_simps check_window_Inr_iff planning_uint_pos
    planning_uint_nonneg
  apply (elim exE conjE)
  apply (drule planning_text_ok, drule traverse_text_ok, drule Inr_eqD)
  apply (cases "pk = ''sliding_window''"; simp add: cache_group_ok_def)
  apply (elim exE conjE)
  apply simp
  done

lemma shared_pool_block_stride_Inr_iff:
  "shared_pool_block_stride f groups = Inr s \<longleftrightarrow>
     groups \<noteq> [] \<and> (\<forall>g \<in> set groups. pos64 (f g)) \<and> s = Max (f ` set groups)"
proof -
  have "traverse (\<lambda>g. planning_uint (PInt (f g)) ''bytes_per_group_block'' False) groups = Inr ss \<longleftrightarrow>
      (\<forall>g \<in> set groups. pos64 (f g)) \<and> ss = map f groups" for ss
    by (induction groups arbitrary: ss) (auto simp: result_simps)
  then show ?thesis by (auto simp: shared_pool_block_stride_def result_simps)
qed

lemma mk_RankGeometry_ok:
  assumes "mk_RankGeometry rk d p gs fo = Inr r" and "list_all cache_group_ok gs"
  shows "rank_ok r"
  using assms
  by (auto simp: mk_RankGeometry_def result_simps Let_def rank_ok_def list_all_iff
      shared_pool_block_stride_Inr_iff)

lemma rank_ok_seq_pos:
  assumes "rank_ok r" and "required_blocks_per_sequence r = Inr n"
  shows "1 \<le> n \<and> n \<le> UINT64_MAX"
proof -
  obtain g gs where r: "rg_groups r = g # gs" using assms(1) by (cases "rg_groups r") (auto simp: rank_ok_def)
  have "0 \<le> sum_list (map cg_required_blocks_per_sequence gs)"
    using assms(2) r by (intro sum_list_nonneg)
      (auto simp: required_blocks_per_sequence_def checked_total_Inr_iff)
  then show ?thesis
    using assms r by (auto simp: required_blocks_per_sequence_def checked_total_Inr_iff rank_ok_def
        cache_group_ok_def pos64_def)
qed

lemma same_shape_refl [simp]: "same_shape a a"
  by (simp add: same_shape_def)

lemma same_shape_sym: "same_shape a b \<Longrightarrow> same_shape b a"
  by (simp add: same_shape_def)

lemma same_shape_trans: "same_shape a b \<Longrightarrow> same_shape b c \<Longrightarrow> same_shape a c"
  by (simp add: same_shape_def)

lemma length_set_range_distinct:
  assumes "int (length xs) = n" and "set xs = {0..<n}"
  shows "distinct xs"
proof -
  have "card (set xs) = length xs" using assms by auto
  then show ?thesis by (rule card_distinct)
qed

lemma sorted_range_eq_upto:
  assumes "sorted xs" and "int (length xs) = n" and "set xs = {0..<n}"
  shows "xs = [0..n - 1]"
proof (rule sorted_distinct_set_unique [OF assms(1)])
  show "distinct xs" using assms(2,3) by (rule length_set_range_distinct)
  have "{0..<n} = {0..n - 1}" by auto
  then show "set xs = set [0..n - 1]" using assms(3) by (simp only: set_upto)
qed simp_all

lemma mk_GeometryDescriptor_ok:
  assumes mk: "mk_GeometryDescriptor idt fp ml tp ab lid rs = Inr g" and rs: "list_all rank_ok rs"
  shows "geometry_ok g"
proof -
  let ?rs = "sort_key rg_rank rs"
  from mk obtain total where g: "gd_ranks g = ?rs"
      "gd_attention_backend g = ''FLASH_ATTN''" "pos64 (gd_tensor_parallel_size g)"
      "int (length ?rs) = gd_tensor_parallel_size g"
      "set (map rg_rank ?rs) = {0..<gd_tensor_parallel_size g}"
      "distinct (map rg_device_id ?rs)"
      "\<forall>r \<in> set (tl ?rs). same_shape r (hd ?rs)"
      "total_pool_bytes_per_block ?rs = Inr total"
      "planning_text fp ''model_fingerprint'' = Inr (gd_model_fingerprint g)"
      "planning_text lid ''layout_id'' = Inr (gd_layout_id g)" "pos64 (gd_max_model_len g)"
    by (auto simp: mk_GeometryDescriptor_def result_simps Let_def list_ex_iff)
  have shape_hd: "\<forall>r \<in> set ?rs. same_shape r (hd ?rs)"
    using g(7) by (cases ?rs) auto
  have "map rg_rank ?rs = [0..gd_tensor_parallel_size g - 1]"
    using g(4,5) by (intro sorted_range_eq_upto) auto
  moreover have "\<forall>a \<in> set ?rs. \<forall>b \<in> set ?rs. same_shape a b"
    using shape_hd by (blast intro: same_shape_trans same_shape_sym)
  ultimately show ?thesis
    using g(1-6,8,11) rs planning_text_ok [OF g(9)] planning_text_ok [OF g(10)]
    by (simp add: geometry_ok_def list_all_iff total_pool_bytes_per_block_def
        checked_total_Inr_iff)
qed

lemma mk_RankGeometry_perm:
  assumes "mset gs = mset gs'"
  shows "mk_RankGeometry rk d p gs fo = mk_RankGeometry rk d p gs' fo"
proof (cases "distinct (map cg_group_id gs)")
  case True
  with assms show ?thesis
    using sort_key_perm [OF assms True] by (simp add: mk_RankGeometry_def)
next
  case False
  moreover have "(gs = []) = (gs' = [])" using assms by (metis mset_zero_iff)
  moreover have "distinct (map cg_group_id gs') = distinct (map cg_group_id gs)"
    using assms by (metis mset_eq_imp_distinct_iff mset_map)
  ultimately show ?thesis by (simp add: mk_RankGeometry_def Let_def cong: if_cong)
qed

lemma mk_GeometryDescriptor_perm:
  assumes "mset rs = mset rs'"
  shows "mk_GeometryDescriptor idt fp ml tp ab lid rs = mk_GeometryDescriptor idt fp ml tp ab lid rs'"
proof -
  have len: "length rs = length rs'" and st: "set rs = set rs'"
    using assms by (auto dest: mset_eq_length mset_eq_setD)
  have "sort_key rg_rank rs = sort_key rg_rank rs'"
    if "int (length rs) = n" "rg_rank ` set rs = {0..<n}" for n
    using that assms length_set_range_distinct [of "map rg_rank rs" n]
    by (intro sort_key_perm) auto
  then show ?thesis
    using len st unfolding mk_GeometryDescriptor_def Let_def
    by (intro and_then_cong refl if_cong) (auto intro!: and_then_cong)
qed

end
