(* ===== verification/Canonical_Json.thy ===== *)
theory Canonical_Json
  imports Cache_Geometry
begin

text \<open>
  \<open>canonical_json\<close> and \<open>geometry_digest\<close> of \<open>planning.py\<close>: the one serialization
  of a geometry whose SHA-256 is the digest of a plan.

  \<open>json_text\<close> is \<open>json.dumps\<close> with sorted keys and compact separators, here without ASCII
  escaping and without NaN. The text of a finite float and the SHA-256 function are parameters; a geometry
  contains no float.
\<close>

subsection \<open>Definitions\<close>

definition json_escape_char :: "char \<Rightarrow> string" where
  "json_escape_char c =
     (let n = of_char c :: nat in
      if n = 34 then [CHR 92, CHR 34]
      else if n = 92 then [CHR 92, CHR 92]
      else if n = 8 then [CHR 92, CHR ''b'']
      else if n = 12 then [CHR 92, CHR ''f'']
      else if n = 10 then [CHR 92, CHR ''n'']
      else if n = 13 then [CHR 92, CHR ''r'']
      else if n = 9 then [CHR 92, CHR ''t'']
      else if n < 32 then [CHR 92, CHR ''u'', CHR ''0'', CHR ''0'',
                           hex_digit (n div 16), hex_digit (n mod 16)]
      else [c])"

definition json_string :: "(char \<Rightarrow> string) \<Rightarrow> string \<Rightarrow> string" where
  "json_string esc s = [CHR 34] @ concat (map esc s) @ [CHR 34]"

fun join_comma :: "string list \<Rightarrow> string" where
  "join_comma [] = []"
| "join_comma [t] = t"
| "join_comma (t # u # ts) = t @ [CHR '',''] @ join_comma (u # ts)"

definition not_serializable :: "'a result" where
  "not_serializable = Raise TypeError ''Object is not JSON serializable''"

text \<open>
  \<open>json.dumps(v, separators=(",", ":"), sort_keys=True)\<close>: \<open>esc\<close> is the text of a
  character inside a string, \<open>fl\<close> the text of a float or the error it raises.
\<close>

fun json_text :: "(char \<Rightarrow> string) \<Rightarrow> (pyfloat \<Rightarrow> string result) \<Rightarrow> pyval \<Rightarrow> string result"
  and json_list :: "(char \<Rightarrow> string) \<Rightarrow> (pyfloat \<Rightarrow> string result) \<Rightarrow> pyval list \<Rightarrow> string list result"
  and json_items :: "(char \<Rightarrow> string) \<Rightarrow> (pyfloat \<Rightarrow> string result) \<Rightarrow> pydict \<Rightarrow> (string \<times> string) list result" where
  "json_text esc fl PNone = Inr ''null''"
| "json_text esc fl (PBool b) = Inr (if b then ''true'' else ''false'')"
| "json_text esc fl (PInt i) = Inr (int_text i)"
| "json_text esc fl (PFloat f) = fl f"
| "json_text esc fl (PStr s) = Inr (json_string esc s)"
| "json_text esc fl (PList xs) =
     and_then (json_list esc fl xs) (\<lambda>ts. Inr (''['' @ join_comma ts @ '']''))"
| "json_text esc fl (PDict d) =
     and_then (json_items esc fl d) (\<lambda>items.
       Inr (''{'' @ join_comma (map (\<lambda>(k, t). json_string esc k @ '':'' @ t) (sort_key fst items)) @
            ''}''))"
| "json_text esc fl (PObj s attrs) = not_serializable"
| "json_text esc fl (PFun n) = not_serializable"
| "json_list esc fl [] = Inr []"
| "json_list esc fl (x # xs) =
     and_then (json_text esc fl x) (\<lambda>t. and_then (json_list esc fl xs) (\<lambda>ts. Inr (t # ts)))"
| "json_items esc fl [] = Inr []"
| "json_items esc fl ((k, v) # d) =
     and_then (json_text esc fl v) (\<lambda>t. and_then (json_items esc fl d) (\<lambda>ts. Inr ((k, t) # ts)))"

text \<open>\<open>allow_nan=False\<close>.\<close>

definition finite_text :: "(rat \<Rightarrow> string) \<Rightarrow> pyfloat \<Rightarrow> string result" where
  "finite_text fr f =
     (case f of
        Finite r \<Rightarrow> Inr (fr r)
      | _ \<Rightarrow> Raise ValueError ''Out of range float values are not JSON compliant'')"

definition canonical_json :: "(rat \<Rightarrow> string) \<Rightarrow> pyval \<Rightarrow> string result" where
  "canonical_json fr v =
     (case json_text json_escape_char (finite_text fr) v of
        Inl e \<Rightarrow> Raise PlanningError (fmt [''geometry is not canonical JSON: '', exn_msg e])
      | Inr t \<Rightarrow> Inr t)"

text \<open>UTF-8 bytes of a Latin-1 string.\<close>

definition utf8_char :: "char \<Rightarrow> nat list" where
  "utf8_char c = (let n = of_char c in if n < 128 then [n] else [192 + n div 64, 128 + n mod 64])"

definition utf8 :: "string \<Rightarrow> nat list" where
  "utf8 s = concat (map utf8_char s)"

definition geometry_digest ::
  "(rat \<Rightarrow> string) \<Rightarrow> (nat list \<Rightarrow> string) \<Rightarrow> geometry \<Rightarrow> string result" where
  "geometry_digest fr sha256_hex g =
     and_then (canonical_payload g) (\<lambda>payload.
     and_then (canonical_json fr payload) (\<lambda>encoded.
       Inr (''sha256:'' @ sha256_hex (utf8 encoded))))"


subsection \<open>Serialization is total on plain values\<close>

fun plain_json :: "pyval \<Rightarrow> bool" where
  "plain_json (PFloat f) = (\<exists>r. f = Finite r)"
| "plain_json (PList xs) = list_all plain_json xs"
| "plain_json (PDict d) = list_all (\<lambda>(k, v). plain_json v) d"
| "plain_json (PObj _ _) = False"
| "plain_json (PFun _) = False"
| "plain_json _ = True"

lemma json_total:
  "plain_json v \<Longrightarrow> \<exists>t. json_text esc (finite_text fr) v = Inr t"
  "list_all plain_json xs \<Longrightarrow> \<exists>ts. json_list esc (finite_text fr) xs = Inr ts"
  "list_all (\<lambda>(k, v). plain_json v) d \<Longrightarrow> \<exists>ts. json_items esc (finite_text fr) d = Inr ts"
  by (induction esc "finite_text fr" v and esc "finite_text fr" xs and esc "finite_text fr" d
      rule: json_text_json_list_json_items.induct)
    (auto simp: and_then_def finite_text_def split: sum.splits)

lemma plain_group_to_dict: "plain_json (group_to_dict g)"
  by (auto simp: group_to_dict_def element_to_dict_def list_all_iff split: option.splits)

lemma plain_rank_to_dict: "rank_to_dict r = Inr d \<Longrightarrow> plain_json d"
  by (auto simp: rank_to_dict_def result_simps list_all_iff plain_group_to_dict)

lemma plain_traverse_ranks: "traverse rank_to_dict rs = Inr ds \<Longrightarrow> list_all plain_json ds"
  by (auto simp: list_all_iff dest: traverse_set plain_rank_to_dict)

lemma plain_geometry_to_dict: "geometry_to_dict g = Inr d \<Longrightarrow> plain_json d"
  by (auto simp: geometry_to_dict_def result_simps identity_to_dict_def dest: plain_traverse_ranks)

lemma geometry_digest_total:
  assumes "geometry_to_dict g = Inr d"
  shows "\<exists>t. geometry_digest fr sha g = Inr t"
proof -
  let ?p = "PDict [(''schema_version'', PInt PLANNER_SCHEMA_VERSION), (''geometry'', d)]"
  have "plain_json ?p" using plain_geometry_to_dict [OF assms] by simp
  then obtain t where "json_text json_escape_char (finite_text fr) ?p = Inr t" using json_total(1) by blast
  then show ?thesis using assms
    by (simp add: geometry_digest_def canonical_payload_def canonical_json_def del: json_text.simps)
qed

end
