(* ===== verification/Sizing.thy ===== *)
theory Sizing
  imports Canonical_Json
begin

text \<open>
  The bounded sizing policy of \<open>planning.py\<close>: \<open>SizingPolicy\<close>, \<open>size_rank\<close>,
  \<open>PlanningResult\<close> and \<open>build_plan\<close>.
\<close>

subsection \<open>SizingPolicy\<close>

record sizing_policy =
  sp_target_concurrency :: int
  sp_maximum_concurrency :: "int option"
  sp_headroom_percent :: int
  sp_prefix_blocks :: int
  sp_alignment_blocks :: int
  sp_min_bytes :: "int option"
  sp_max_bytes :: "int option"
  sp_strict_concurrency :: bool

definition optional_uint :: "pyval \<Rightarrow> string \<Rightarrow> int option result" where
  "optional_uint v field =
     (if v = PNone then Inr None
      else and_then (planning_uint v field False) (\<lambda>i. Inr (Some i)))"

definition mk_SizingPolicy ::
  "pyval \<Rightarrow> pyval \<Rightarrow> pyval \<Rightarrow> pyval \<Rightarrow> pyval \<Rightarrow> pyval \<Rightarrow> pyval \<Rightarrow> pyval \<Rightarrow>
   sizing_policy result" where
  "mk_SizingPolicy target_concurrency maximum_concurrency headroom_percent prefix_blocks
     alignment_blocks min_bytes max_bytes strict_concurrency =
     and_then (planning_uint target_concurrency ''target_concurrency'' False) (\<lambda>target.
     and_then (optional_uint maximum_concurrency ''maximum_concurrency'') (\<lambda>maximum.
     if (case maximum of None \<Rightarrow> False | Some m \<Rightarrow> m < target)
     then Raise PlanningError ''maximum_concurrency cannot be below target_concurrency''
     else
     and_then (planning_uint headroom_percent ''headroom_percent'' True) (\<lambda>headroom.
     if headroom > 100 then Raise PlanningError ''headroom_percent cannot exceed 100''
     else
     and_then (planning_uint prefix_blocks ''prefix_blocks'' True) (\<lambda>prefix.
     and_then (planning_uint alignment_blocks ''alignment_blocks'' False) (\<lambda>alignment.
     and_then (optional_uint min_bytes ''min_bytes'') (\<lambda>minb.
     and_then (optional_uint max_bytes ''max_bytes'') (\<lambda>maxb.
     if (case (minb, maxb) of (Some a, Some b) \<Rightarrow> a > b | _ \<Rightarrow> False)
     then Raise PlanningError ''min_bytes cannot exceed max_bytes''
     else (case strict_concurrency of
       PBool strict \<Rightarrow> Inr
         \<lparr>sp_target_concurrency = target, sp_maximum_concurrency = maximum,
          sp_headroom_percent = headroom, sp_prefix_blocks = prefix,
          sp_alignment_blocks = alignment, sp_min_bytes = minb, sp_max_bytes = maxb,
          sp_strict_concurrency = strict\<rparr>
     | _ \<Rightarrow> Raise PlanningError ''strict_concurrency must be a boolean''))))))))"

definition policy_to_dict :: "sizing_policy \<Rightarrow> pyval" where
  "policy_to_dict p = PDict
     ([(''target_concurrency'', PInt (sp_target_concurrency p)),
       (''headroom_percent'', PInt (sp_headroom_percent p)),
       (''prefix_blocks'', PInt (sp_prefix_blocks p)),
       (''alignment_blocks'', PInt (sp_alignment_blocks p)),
       (''strict_concurrency'', PBool (sp_strict_concurrency p))] @
      (case sp_min_bytes p of None \<Rightarrow> [] | Some v \<Rightarrow> [(''min_bytes'', PInt v)]) @
      (case sp_max_bytes p of None \<Rightarrow> [] | Some v \<Rightarrow> [(''max_bytes'', PInt v)]) @
      (case sp_maximum_concurrency p of
         None \<Rightarrow> [] | Some v \<Rightarrow> [(''maximum_concurrency'', PInt v)]))"

subsection \<open>size\_rank\<close>

record rank_sizing =
  rs_rank :: int
  rs_device_id :: int
  rs_bytes_per_block :: int
  rs_sequence_blocks :: int
  rs_minimum_blocks :: int
  rs_minimum_bytes :: int
  rs_base_blocks :: int
  rs_headroom_blocks :: int
  rs_desired_blocks :: int
  rs_desired_bytes :: int
  rs_maximum_blocks :: int
  rs_maximum_bytes :: int
  rs_effective_target_concurrency :: int
  rs_concurrency_reduced :: bool

definition sizing_to_dict :: "rank_sizing \<Rightarrow> pyval" where
  "sizing_to_dict s = PDict
     [(''rank'', PInt (rs_rank s)),
      (''device_id'', PInt (rs_device_id s)),
      (''bytes_per_block'', PInt (rs_bytes_per_block s)),
      (''sequence_blocks'', PInt (rs_sequence_blocks s)),
      (''minimum_blocks'', PInt (rs_minimum_blocks s)),
      (''minimum_bytes'', PInt (rs_minimum_bytes s)),
      (''base_blocks'', PInt (rs_base_blocks s)),
      (''headroom_blocks'', PInt (rs_headroom_blocks s)),
      (''desired_blocks'', PInt (rs_desired_blocks s)),
      (''desired_bytes'', PInt (rs_desired_bytes s)),
      (''maximum_blocks'', PInt (rs_maximum_blocks s)),
      (''maximum_bytes'', PInt (rs_maximum_bytes s)),
      (''effective_target_concurrency'', PInt (rs_effective_target_concurrency s)),
      (''concurrency_reduced'', PBool (rs_concurrency_reduced s))]"

text \<open>
  The three conditional blocks of \<open>size_rank\<close>: the byte floor, which yields the floor in
  blocks and the raised block count; the byte cap; and the virtual maximum.
\<close>

definition apply_min_bytes ::
  "rank_geometry \<Rightarrow> sizing_policy \<Rightarrow> int \<Rightarrow> int \<Rightarrow> (int option \<times> int) result" where
  "apply_min_bytes rank policy minimum_bytes desired_blocks =
     (case sp_min_bytes policy of
        None \<Rightarrow> Inr (None, desired_blocks)
      | Some min_bytes \<Rightarrow>
          if min_bytes < minimum_bytes
          then Raise PlanningError (fmt [''rank '', int_text (rg_rank rank),
            '' min_bytes is below the one max_model_len sequence minimum''])
          else
          and_then (ceil_div min_bytes (rg_pool_bytes_per_block rank) ''min_bytes'') (\<lambda>b.
          and_then (round_up b (sp_alignment_blocks policy) ''min_bytes blocks'') (\<lambda>floor_blocks.
            Inr (Some floor_blocks, max desired_blocks floor_blocks))))"

definition apply_max_bytes ::
  "rank_geometry \<Rightarrow> sizing_policy \<Rightarrow> int \<Rightarrow> int option \<Rightarrow> int \<Rightarrow> int result" where
  "apply_max_bytes rank policy minimum_blocks floor_blocks desired_blocks =
     (case sp_max_bytes policy of
        None \<Rightarrow> Inr desired_blocks
      | Some max_bytes \<Rightarrow>
          and_then (round_down (max_bytes div rg_pool_bytes_per_block rank)
                      (sp_alignment_blocks policy) ''max_bytes blocks'') (\<lambda>cap_blocks.
          if cap_blocks < minimum_blocks
          then Raise PlanningError (fmt [''rank '', int_text (rg_rank rank),
            '' max_bytes cannot hold one max_model_len sequence''])
          else if (case floor_blocks of None \<Rightarrow> False | Some fb \<Rightarrow> cap_blocks < fb)
          then Raise PlanningError ''min_bytes and max_bytes conflict after block alignment''
          else Inr (min desired_blocks cap_blocks)))"

definition maximum_capacity ::
  "rank_geometry \<Rightarrow> sizing_policy \<Rightarrow> int \<Rightarrow> int \<Rightarrow> int result" where
  "maximum_capacity rank policy sequence_blocks desired_blocks =
     (case sp_maximum_concurrency policy of
        None \<Rightarrow> Inr desired_blocks
      | Some maximum_concurrency \<Rightarrow>
          and_then (checked_mul sequence_blocks maximum_concurrency
                      ''maximum workload blocks'') (\<lambda>w.
          and_then (checked_add w (sp_prefix_blocks policy)
                      ''maximum workload blocks'') (\<lambda>maximum_workload.
          and_then (checked_mul maximum_workload (sp_headroom_percent policy)
                      ''maximum headroom blocks'') (\<lambda>h.
          and_then (ceil_div h 100 ''maximum headroom blocks'') (\<lambda>maximum_headroom.
          and_then (checked_add (rg_fixed_overhead_blocks rank) maximum_workload
                      ''maximum blocks'') (\<lambda>b.
          and_then (checked_add b maximum_headroom ''maximum blocks'') (\<lambda>u.
          and_then (round_up u (sp_alignment_blocks policy) ''maximum blocks'') (\<lambda>maximum_blocks.
          and_then (case sp_max_bytes policy of
                      None \<Rightarrow> Inr maximum_blocks
                    | Some max_bytes \<Rightarrow>
                        and_then (round_down (max_bytes div rg_pool_bytes_per_block rank)
                                    (sp_alignment_blocks policy) ''maximum max_bytes blocks'')
                          (\<lambda>maximum_cap. Inr (min maximum_blocks maximum_cap)))
            (\<lambda>maximum_blocks.
          if maximum_blocks < desired_blocks
          then Raise PlanningError
            ''maximum_concurrency capacity cannot fit the initial target after caps''
          else Inr maximum_blocks)))))))))"

definition size_rank :: "rank_geometry \<Rightarrow> sizing_policy \<Rightarrow> rank_sizing result" where
  "size_rank rank policy =
     and_then (required_blocks_per_sequence rank) (\<lambda>sequence_blocks.
     and_then (checked_add (rg_fixed_overhead_blocks rank) sequence_blocks
                 ''minimum_blocks'') (\<lambda>minimum_unaligned.
     and_then (round_up minimum_unaligned (sp_alignment_blocks policy)
                 ''minimum_blocks'') (\<lambda>minimum_blocks.
     and_then (checked_mul minimum_blocks (rg_pool_bytes_per_block rank)
                 ''minimum_bytes'') (\<lambda>minimum_bytes.
     and_then (checked_mul sequence_blocks (sp_target_concurrency policy)
                 ''workload_blocks'') (\<lambda>workload_blocks.
     and_then (checked_add workload_blocks (sp_prefix_blocks policy)
                 ''base_blocks'') (\<lambda>workload_and_prefix.
     and_then (checked_mul workload_and_prefix (sp_headroom_percent policy)
                 ''headroom_blocks'') (\<lambda>headroom_numerator.
     and_then (ceil_div headroom_numerator 100 ''headroom_blocks'') (\<lambda>headroom_blocks.
     and_then (checked_add (rg_fixed_overhead_blocks rank) workload_and_prefix
                 ''base_blocks'') (\<lambda>base_blocks.
     and_then (checked_add base_blocks headroom_blocks ''desired_blocks'') (\<lambda>desired_unaligned.
     and_then (round_up desired_unaligned (sp_alignment_blocks policy)
                 ''desired_blocks'') (\<lambda>desired_blocks.
     and_then (apply_min_bytes rank policy minimum_bytes desired_blocks)
                 (\<lambda>(floor_blocks, desired_blocks).
     and_then (apply_max_bytes rank policy minimum_blocks floor_blocks desired_blocks)
                 (\<lambda>desired_blocks.
     and_then (checked_mul desired_blocks (rg_pool_bytes_per_block rank)
                 ''desired_bytes'') (\<lambda>desired_bytes.
     and_then (maximum_capacity rank policy sequence_blocks desired_blocks) (\<lambda>maximum_blocks.
     and_then (checked_mul maximum_blocks (rg_pool_bytes_per_block rank)
                 ''maximum_bytes'') (\<lambda>maximum_bytes.
     let usable_for_sequences = desired_blocks - rg_fixed_overhead_blocks rank;
         effective = min (sp_target_concurrency policy)
                         (usable_for_sequences div sequence_blocks);
         reduced = (effective < sp_target_concurrency policy)
     in
     if effective < 1
     then Raise PlanningError ''resolved plan cannot hold one max_model_len sequence''
     else if reduced \<and> sp_strict_concurrency policy
     then Raise PlanningError (fmt
       [''rank '', int_text (rg_rank rank), '' max_bytes reduces target concurrency from '',
        int_text (sp_target_concurrency policy), '' to '', int_text effective,
        '' in strict mode''])
     else Inr
       \<lparr>rs_rank = rg_rank rank, rs_device_id = rg_device_id rank,
        rs_bytes_per_block = rg_pool_bytes_per_block rank,
        rs_sequence_blocks = sequence_blocks,
        rs_minimum_blocks = minimum_blocks, rs_minimum_bytes = minimum_bytes,
        rs_base_blocks = base_blocks, rs_headroom_blocks = headroom_blocks,
        rs_desired_blocks = desired_blocks, rs_desired_bytes = desired_bytes,
        rs_maximum_blocks = maximum_blocks, rs_maximum_bytes = maximum_bytes,
        rs_effective_target_concurrency = effective,
        rs_concurrency_reduced = reduced\<rparr>))))))))))))))))"

subsection \<open>PlanningResult and build\_plan\<close>

record planning_result =
  pr_geometry :: geometry
  pr_policy :: sizing_policy
  pr_ranks :: "rank_sizing list"

definition total_desired_bytes :: "rank_sizing list \<Rightarrow> int result" where
  "total_desired_bytes ranks = checked_total rs_desired_bytes ''total_desired_bytes'' ranks"

definition total_maximum_bytes :: "rank_sizing list \<Rightarrow> int result" where
  "total_maximum_bytes ranks = checked_total rs_maximum_bytes ''total_maximum_bytes'' ranks"

definition mk_PlanningResult ::
  "geometry \<Rightarrow> sizing_policy \<Rightarrow> rank_sizing list \<Rightarrow> planning_result result" where
  "mk_PlanningResult geometry policy ranks =
     (if int (length ranks) \<noteq> gd_tensor_parallel_size geometry
      then Raise PlanningError ''sizing results must cover every rank''
      else if set (map rs_rank ranks) \<noteq> {0..<int (length ranks)}
      then Raise PlanningError ''sizing result ranks are duplicated or out of range''
      else if card (set (map rs_desired_blocks ranks)) \<noteq> 1
      then Raise PlanningError ''vLLM tensor-parallel ranks require one block count''
      else if card (set (map rs_desired_bytes ranks)) \<noteq> 1
      then Raise PlanningError
        ''the pinned vLLM exact-byte CLI requires the same byte grant on every rank''
      else if card (set (map rs_maximum_blocks ranks)) \<noteq> 1 \<or>
              card (set (map rs_maximum_bytes ranks)) \<noteq> 1
      then Raise PlanningError ''vLLM tensor-parallel ranks require one virtual maximum''
      else if list_ex (\<lambda>r. rs_maximum_blocks r < rs_desired_blocks r) ranks
      then Raise PlanningError ''virtual maximum cannot be below initial capacity''
      else and_then (total_desired_bytes ranks) (\<lambda>_.
        Inr \<lparr>pr_geometry = geometry, pr_policy = policy, pr_ranks = ranks\<rparr>))"

definition result_to_dict ::
  "(rat \<Rightarrow> string) \<Rightarrow> (nat list \<Rightarrow> string) \<Rightarrow> planning_result \<Rightarrow> pyval result" where
  "result_to_dict fr sha256_hex r =
     and_then (geometry_digest fr sha256_hex (pr_geometry r)) (\<lambda>digest.
     and_then (geometry_to_dict (pr_geometry r)) (\<lambda>geometry.
     and_then (total_desired_bytes (pr_ranks r)) (\<lambda>desired.
     and_then (total_maximum_bytes (pr_ranks r)) (\<lambda>maximum.
       Inr (PDict
         [(''schema_version'', PInt PLANNER_SCHEMA_VERSION),
          (''status'', PStr ''planned''),
          (''supported'', PBool True),
          (''geometry_digest'', PStr digest),
          (''geometry'', geometry),
          (''policy'', policy_to_dict (pr_policy r)),
          (''sizing'', PDict
             [(''ranks'', PList (map sizing_to_dict (pr_ranks r))),
              (''total_desired_bytes'', PInt desired),
              (''total_maximum_bytes'', PInt maximum)])])))))"

definition build_plan :: "geometry \<Rightarrow> sizing_policy \<Rightarrow> planning_result result" where
  "build_plan geometry policy =
     and_then (traverse (\<lambda>rank. size_rank rank policy) (gd_ranks geometry))
       (\<lambda>ranks. mk_PlanningResult geometry policy ranks)"


subsection \<open>What the policy guarantees\<close>

definition policy_ok :: "sizing_policy \<Rightarrow> bool" where
  "policy_ok p \<longleftrightarrow>
     pos64 (sp_target_concurrency p) \<and>
     (\<forall>m. sp_maximum_concurrency p = Some m \<longrightarrow> pos64 m \<and> sp_target_concurrency p \<le> m) \<and>
     0 \<le> sp_headroom_percent p \<and> sp_headroom_percent p \<le> 100 \<and>
     nonneg64 (sp_prefix_blocks p) \<and> pos64 (sp_alignment_blocks p) \<and>
     (\<forall>b. sp_min_bytes p = Some b \<longrightarrow> pos64 b) \<and> (\<forall>b. sp_max_bytes p = Some b \<longrightarrow> pos64 b) \<and>
     (\<forall>a b. sp_min_bytes p = Some a \<longrightarrow> sp_max_bytes p = Some b \<longrightarrow> a \<le> b)"

lemma optional_uint_Inr_iff:
  "optional_uint v field = Inr x \<longleftrightarrow>
     (v = PNone \<and> x = None) \<or> (\<exists>i. v = PInt i \<and> pos64 i \<and> x = Some i)"
  by (auto simp: optional_uint_def result_simps)

lemma mk_SizingPolicy_ok:
  "mk_SizingPolicy tc mc hp pb ab mn mx st = Inr p \<Longrightarrow> policy_ok p"
  unfolding mk_SizingPolicy_def result_simps planning_uint_pos planning_uint_nonneg
  apply (elim exE conjE)
  apply (drule Inr_eqD)
  apply (auto simp: optional_uint_Inr_iff policy_ok_def nonneg64_def)
  done

definition align_up :: "int \<Rightarrow> int \<Rightarrow> int" where
  "align_up a v = ceil_quot v a * a"

lemma align_up_ge: "pos64 a \<Longrightarrow> v \<le> align_up a v"
  using ceil_quot_bounds(1) [of a v] by (simp add: align_up_def pos64_def)

lemma align_up_dvd [simp]: "a dvd align_up a v"
  by (simp add: align_up_def)

lemma align_up_mono: "pos64 a \<Longrightarrow> v \<le> w \<Longrightarrow> align_up a v \<le> align_up a w"
  by (auto simp: align_up_def pos64_def intro!: mult_right_mono ceil_quot_mono)

lemma round_up_align:
  "round_up v a field = Inr r \<longleftrightarrow> nonneg64 v \<and> pos64 a \<and> r = align_up a v \<and> r \<le> UINT64_MAX"
  by (auto simp: round_up_Inr_iff align_up_def nonneg64_def pos64_def)

lemma round_down_align:
  "round_down v a field = Inr r \<longleftrightarrow> nonneg64 v \<and> pos64 a \<and> r = (v div a) * a"
  by (auto simp: round_down_Inr_iff nonneg64_def pos64_def)

lemma cap_le: "pos64 p \<Longrightarrow> pos64 a \<Longrightarrow> (b div p div a * a) * p \<le> b"
proof -
  assume p: "pos64 p" and a: "pos64 a"
  have "b div p div a * a \<le> b div p" using a div_mult_bounds(1) [of a "b div p"] by (simp add: pos64_def)
  then have "(b div p div a * a) * p \<le> (b div p) * p" using p by (simp add: pos64_def mult_right_mono)
  also have "\<dots> \<le> b" using p div_mult_bounds(1) [of p b] by (simp add: pos64_def)
  finally show ?thesis .
qed

lemma apply_min_bytes_sound:
  assumes "apply_min_bytes rank pol minb d = Inr (fb, d')"
    and "pos64 (rg_pool_bytes_per_block rank)" "pos64 (sp_alignment_blocks pol)"
    and "sp_alignment_blocks pol dvd d"
  shows "d \<le> d'" and "sp_alignment_blocks pol dvd d'"
    and "sp_min_bytes pol = None \<Longrightarrow> fb = None \<and> d' = d"
    and "\<And>b. sp_min_bytes pol = Some b \<Longrightarrow>
           minb \<le> b \<and> (\<exists>f. fb = Some f \<and> f \<le> d' \<and> b \<le> f * rg_pool_bytes_per_block rank)"
proof -
  let ?p = "rg_pool_bytes_per_block rank" and ?a = "sp_alignment_blocks pol"
  have floor: "b \<le> align_up ?a (ceil_quot b ?p) * ?p" for b
  proof -
    have "b \<le> ceil_quot b ?p * ?p" using assms(2) ceil_quot_bounds(1) [of ?p b] by (simp add: pos64_def)
    also have "\<dots> \<le> align_up ?a (ceil_quot b ?p) * ?p"
      using assms(2,3) align_up_ge by (simp add: pos64_def mult_right_mono)
    finally show ?thesis .
  qed
  show "d \<le> d'" "?a dvd d'"
    using assms by (auto simp: apply_min_bytes_def result_simps ceil_div_Inr_iff round_up_align max_def
        split: option.splits)
  show "sp_min_bytes pol = None \<Longrightarrow> fb = None \<and> d' = d"
    using assms(1) by (simp add: apply_min_bytes_def)
  show "minb \<le> b \<and> (\<exists>f. fb = Some f \<and> f \<le> d' \<and> b \<le> f * ?p)" if "sp_min_bytes pol = Some b" for b
    using assms(1) that floor [of b]
    by (auto simp: apply_min_bytes_def result_simps ceil_div_Inr_iff round_up_align)
qed

lemma apply_max_bytes_sound:
  assumes "apply_max_bytes rank pol mb fb d = Inr d'"
    and "pos64 (rg_pool_bytes_per_block rank)" "pos64 (sp_alignment_blocks pol)"
    and "sp_alignment_blocks pol dvd d"
  shows "d' \<le> d" and "sp_alignment_blocks pol dvd d'"
    and "mb \<le> d \<Longrightarrow> mb \<le> d'" and "\<And>f. fb = Some f \<Longrightarrow> f \<le> d \<Longrightarrow> f \<le> d'"
    and "sp_max_bytes pol = None \<Longrightarrow> d' = d"
    and "\<And>b. sp_max_bytes pol = Some b \<Longrightarrow> d' * rg_pool_bytes_per_block rank \<le> b"
proof -
  let ?p = "rg_pool_bytes_per_block rank" and ?a = "sp_alignment_blocks pol"
  have le: "min d (b div ?p div ?a * ?a) * ?p \<le> b" for b
    using cap_le [OF assms(2,3), of b] assms(2)
    by (meson min.cobounded2 mult_right_mono order_trans pos64_def zero_le_one)
  show "d' \<le> d" "?a dvd d'" "mb \<le> d \<Longrightarrow> mb \<le> d'"
    using assms(1,4)
    by (auto simp: apply_max_bytes_def result_simps round_down_align min_def split: option.splits if_splits)
  show "f \<le> d'" if "fb = Some f" "f \<le> d" for f
    using assms(1) that
    by (auto simp: apply_max_bytes_def result_simps round_down_align split: option.splits)
  show "sp_max_bytes pol = None \<Longrightarrow> d' = d"
    using assms(1) by (simp add: apply_max_bytes_def)
  show "d' * ?p \<le> b" if "sp_max_bytes pol = Some b" for b
    using assms(1) that le [of b] by (auto simp: apply_max_bytes_def result_simps round_down_align)
qed

lemma maximum_capacity_sound:
  assumes "maximum_capacity rank pol seq d = Inr m"
    and "pos64 (rg_pool_bytes_per_block rank)" "pos64 (sp_alignment_blocks pol)"
    and "sp_alignment_blocks pol dvd d"
  shows "d \<le> m" and "sp_alignment_blocks pol dvd m"
    and "sp_maximum_concurrency pol = None \<Longrightarrow> m = d"
    and "\<And>b. sp_max_bytes pol = Some b \<Longrightarrow> d * rg_pool_bytes_per_block rank \<le> b \<Longrightarrow>
            m * rg_pool_bytes_per_block rank \<le> b"
proof -
  let ?p = "rg_pool_bytes_per_block rank" and ?a = "sp_alignment_blocks pol"
  have le: "min x (b div ?p div ?a * ?a) * ?p \<le> b" for x b
    using cap_le [OF assms(2,3), of b] assms(2)
    by (meson min.cobounded2 mult_right_mono order_trans pos64_def zero_le_one)
  show "d \<le> m" "?a dvd m" "sp_maximum_concurrency pol = None \<Longrightarrow> m = d"
    using assms(1,4)
    by (auto simp: maximum_capacity_def result_simps round_down_align round_up_align min_def
        split: option.splits if_splits)
  show "m * ?p \<le> b" if "sp_max_bytes pol = Some b" "d * ?p \<le> b" for b
    using assms(1) that le [of _ b]
    by (auto simp: maximum_capacity_def result_simps round_down_align split: option.splits)
qed


text \<open>The workload, head room and aligned demand of a concurrency, in unbounded arithmetic.\<close>

definition workload :: "sizing_policy \<Rightarrow> int \<Rightarrow> int \<Rightarrow> int" where
  "workload pol seq c = seq * c + sp_prefix_blocks pol"

definition headroom_of :: "sizing_policy \<Rightarrow> int \<Rightarrow> int" where
  "headroom_of pol w = ceil_quot (w * sp_headroom_percent pol) 100"

definition demand :: "rank_geometry \<Rightarrow> sizing_policy \<Rightarrow> int \<Rightarrow> int \<Rightarrow> int" where
  "demand rank pol seq c =
     align_up (sp_alignment_blocks pol)
       (rg_fixed_overhead_blocks rank + workload pol seq c + headroom_of pol (workload pol seq c))"

lemma size_rank_elim:
  assumes "size_rank rank pol = Inr s"
  obtains seq fb d1 where
    "required_blocks_per_sequence rank = Inr seq" "rs_sequence_blocks s = seq"
    "rs_minimum_blocks s = align_up (sp_alignment_blocks pol) (rg_fixed_overhead_blocks rank + seq)"
    "rs_minimum_bytes s = rs_minimum_blocks s * rg_pool_bytes_per_block rank"
    "apply_min_bytes rank pol (rs_minimum_bytes s) (demand rank pol seq (sp_target_concurrency pol))
       = Inr (fb, d1)"
    "apply_max_bytes rank pol (rs_minimum_blocks s) fb d1 = Inr (rs_desired_blocks s)"
    "maximum_capacity rank pol seq (rs_desired_blocks s) = Inr (rs_maximum_blocks s)"
    "rs_desired_bytes s = rs_desired_blocks s * rg_pool_bytes_per_block rank"
    "rs_desired_bytes s \<le> UINT64_MAX"
    "rs_maximum_bytes s = rs_maximum_blocks s * rg_pool_bytes_per_block rank"
    "rs_maximum_bytes s \<le> UINT64_MAX"
    "rs_effective_target_concurrency s =
       min (sp_target_concurrency pol) ((rs_desired_blocks s - rg_fixed_overhead_blocks rank) div seq)"
    "1 \<le> rs_effective_target_concurrency s"
    "rs_concurrency_reduced s \<longleftrightarrow> rs_effective_target_concurrency s < sp_target_concurrency pol"
    "rs_concurrency_reduced s \<longrightarrow> \<not> sp_strict_concurrency pol"
    "rs_rank s = rg_rank rank" "rs_bytes_per_block s = rg_pool_bytes_per_block rank"
  using assms
  unfolding size_rank_def result_simps checked_add_exact checked_mul_exact round_up_align
    ceil_div_Inr_iff Let_def
  apply (elim exE conjE)
  apply (drule Inr_eqD)
  apply hypsubst
  apply (rule that, assumption)
  apply (simp_all only: rank_sizing.simps demand_def workload_def headroom_of_def not_less
      de_Morgan_conj imp_conv_disj not_False_eq_True simp_thms add.assoc)
  done


lemma demand_covers:
  assumes "policy_ok pol" and "0 \<le> seq" and "0 \<le> c" and "0 \<le> sp_headroom_percent pol"
  shows "rg_fixed_overhead_blocks rank + seq * c \<le> demand rank pol seq c"
proof -
  let ?w = "workload pol seq c"
  have w: "seq * c \<le> ?w" "0 \<le> ?w" using assms by (auto simp: workload_def policy_ok_def nonneg64_def)
  have "0 \<le> headroom_of pol ?w" using w assms(4) by (simp add: headroom_of_def ceil_quot_nonneg)
  then have "rg_fixed_overhead_blocks rank + seq * c \<le>
      rg_fixed_overhead_blocks rank + ?w + headroom_of pol ?w" using w by linarith
  also have "\<dots> \<le> demand rank pol seq c"
    using assms(1) by (simp add: demand_def align_up_ge policy_ok_def)
  finally show ?thesis .
qed

lemma demand_ge_minimum:
  assumes "policy_ok pol" and "0 \<le> seq" and "1 \<le> c"
  shows "align_up (sp_alignment_blocks pol) (rg_fixed_overhead_blocks rank + seq)
           \<le> demand rank pol seq c"
proof -
  let ?w = "workload pol seq c"
  have "seq * 1 \<le> seq * c" using assms(2,3) by (intro mult_left_mono) auto
  then have w: "seq \<le> ?w" "0 \<le> ?w" using assms by (auto simp: workload_def policy_ok_def nonneg64_def)
  moreover have "0 \<le> headroom_of pol ?w"
    using w assms(1) by (simp add: headroom_of_def ceil_quot_nonneg policy_ok_def)
  ultimately show ?thesis
    using assms(1) unfolding demand_def by (intro align_up_mono) (auto simp: policy_ok_def)
qed

text \<open>A concrete rank and policy, at which the properties below are instantiated.\<close>

definition sample_group :: cache_group where
  "sample_group = \<lparr>cg_group_id = ''vllm.group.0'', cg_layers = [''layer.0'', ''layer.1''],
     cg_block_size_tokens = 16, cg_bytes_per_group_block = 4096,
     cg_required_blocks_per_sequence = 8, cg_kv_heads = 4, cg_key_head_dim = 64,
     cg_value_head_dim = 64, cg_element_type = \<lparr>et_name = ''float16'', et_bits = 16\<rparr>,
     cg_policy_kind = ''full_attention'', cg_window_tokens = None,
     cg_extra_retained_tokens = 0\<rparr>"

definition sample_rank :: "int \<Rightarrow> rank_geometry" where
  "sample_rank r = \<lparr>rg_rank = r, rg_device_id = r, rg_pool_bytes_per_block = 4096,
     rg_groups = [sample_group], rg_fixed_overhead_blocks = 1\<rparr>"

definition sample_policy :: sizing_policy where
  "sample_policy = \<lparr>sp_target_concurrency = 4, sp_maximum_concurrency = Some 6,
     sp_headroom_percent = 20, sp_prefix_blocks = 0, sp_alignment_blocks = 4,
     sp_min_bytes = Some 65536, sp_max_bytes = Some 100000, sp_strict_concurrency = False\<rparr>"

lemma sample_rank_ok: "0 \<le> r \<Longrightarrow> r \<le> 100 \<Longrightarrow> rank_ok (sample_rank r)"
  by (simp add: rank_ok_def sample_rank_def sample_group_def cache_group_ok_def pos64_def
      nonneg64_def text_ok_def UINT64_MAX_def) code_simp

lemma sample_policy_ok: "policy_ok sample_policy"
  by (simp add: policy_ok_def sample_policy_def pos64_def nonneg64_def UINT64_MAX_def)

definition sample_sizing :: rank_sizing where
  "sample_sizing =
     \<lparr>rs_rank = 0, rs_device_id = 0, rs_bytes_per_block = 4096, rs_sequence_blocks = 8,
      rs_minimum_blocks = 12, rs_minimum_bytes = 49152, rs_base_blocks = 33,
      rs_headroom_blocks = 7, rs_desired_blocks = 24, rs_desired_bytes = 98304,
      rs_maximum_blocks = 24, rs_maximum_bytes = 98304, rs_effective_target_concurrency = 2,
      rs_concurrency_reduced = True\<rparr>"

lemma sample_size_rank: "size_rank (sample_rank 0) sample_policy = Inr sample_sizing"
  by code_simp

lemma size_rank_blocks:
  assumes "rank_ok rank" and "policy_ok pol" and "size_rank rank pol = Inr s"
  shows "sp_alignment_blocks pol dvd rs_minimum_blocks s"
    and "sp_alignment_blocks pol dvd rs_desired_blocks s"
    and "sp_alignment_blocks pol dvd rs_maximum_blocks s"
    and "rg_fixed_overhead_blocks rank + rs_sequence_blocks s \<le> rs_minimum_blocks s"
    and "rs_minimum_blocks s \<le> rs_desired_blocks s"
    and "rs_desired_blocks s \<le> rs_maximum_blocks s"
    and "\<And>b. sp_max_bytes pol = Some b \<Longrightarrow> rs_maximum_bytes s \<le> b"
    and "\<And>b. sp_min_bytes pol = Some b \<Longrightarrow> b \<le> rs_desired_bytes s"
    and "sp_max_bytes pol = None \<Longrightarrow>
      demand rank pol (rs_sequence_blocks s) (sp_target_concurrency pol) \<le> rs_desired_blocks s"
proof -
  let ?a = "sp_alignment_blocks pol" and ?p = "rg_pool_bytes_per_block rank"
  from assms(3) obtain seq fb d1 where
    seq: "required_blocks_per_sequence rank = Inr seq" "rs_sequence_blocks s = seq" and
    mn: "rs_minimum_blocks s = align_up ?a (rg_fixed_overhead_blocks rank + seq)" and
    d1: "apply_min_bytes rank pol (rs_minimum_bytes s)
           (demand rank pol seq (sp_target_concurrency pol)) = Inr (fb, d1)" and
    d2: "apply_max_bytes rank pol (rs_minimum_blocks s) fb d1 = Inr (rs_desired_blocks s)" and
    mx: "maximum_capacity rank pol seq (rs_desired_blocks s) = Inr (rs_maximum_blocks s)" and
    bytes: "rs_desired_bytes s = rs_desired_blocks s * ?p" "rs_maximum_bytes s = rs_maximum_blocks s * ?p"
    by (rule size_rank_elim)
  have p: "pos64 ?p" and a: "pos64 ?a" and t: "1 \<le> sp_target_concurrency pol"
    using assms(1,2) by (auto simp: rank_ok_def policy_ok_def pos64_def)
  have seq0: "0 \<le> seq" using rank_ok_seq_pos [OF assms(1) seq(1)] by simp
  have dvd0: "?a dvd demand rank pol seq (sp_target_concurrency pol)" by (simp add: demand_def)
  note mins = apply_min_bytes_sound [OF d1 p a dvd0]
  note maxs = apply_max_bytes_sound [OF d2 p a mins(2)]
  note caps = maximum_capacity_sound [OF mx p a maxs(2)]
  have ge: "rs_minimum_blocks s \<le> d1"
    using mins(1) demand_ge_minimum [OF assms(2) seq0 t, of rank] mn by simp
  show "?a dvd rs_minimum_blocks s" "?a dvd rs_desired_blocks s" "?a dvd rs_maximum_blocks s"
    by (simp_all add: mn maxs(2) caps(2))
  show "rg_fixed_overhead_blocks rank + rs_sequence_blocks s \<le> rs_minimum_blocks s"
    using align_up_ge [OF a] by (simp add: mn seq(2))
  show "rs_minimum_blocks s \<le> rs_desired_blocks s" by (rule maxs(3) [OF ge])
  show "rs_desired_blocks s \<le> rs_maximum_blocks s" by (rule caps(1))
  show "rs_maximum_bytes s \<le> b" if "sp_max_bytes pol = Some b" for b
    using caps(4) [OF that maxs(6) [OF that]] bytes by simp
  show "b \<le> rs_desired_bytes s" if b: "sp_min_bytes pol = Some b" for b
  proof -
    from mins(4) [OF b] obtain f where f: "fb = Some f" "f \<le> d1" "b \<le> f * ?p" by blast
    have "f * ?p \<le> rs_desired_blocks s * ?p"
      using maxs(4) [OF f(1,2)] p by (simp add: mult_right_mono pos64_def)
    with f(3) bytes show ?thesis by simp
  qed
  show "demand rank pol (rs_sequence_blocks s) (sp_target_concurrency pol) \<le> rs_desired_blocks s"
    if "sp_max_bytes pol = None"
    using mins(1) maxs(5) [OF that] seq(2) by simp
qed

subsection \<open>Properties\<close>

text \<open>
  C2. Every sizing the planner returns for a validated rank and policy is aligned and ordered:
  the minimum, desired and maximum block counts are multiples of the alignment, the minimum
  holds the fixed overhead and one full sequence, and minimum \<open>\<le>\<close> desired \<open>\<le>\<close>
  maximum.
\<close>

theorem size_rank_aligned_and_ordered:
  assumes "rank_ok rank" and "policy_ok pol" and "size_rank rank pol = Inr s"
  shows "sp_alignment_blocks pol dvd rs_minimum_blocks s \<and>
    sp_alignment_blocks pol dvd rs_desired_blocks s \<and>
    sp_alignment_blocks pol dvd rs_maximum_blocks s \<and>
    rg_fixed_overhead_blocks rank + rs_sequence_blocks s \<le> rs_minimum_blocks s \<and>
    rs_minimum_blocks s \<le> rs_desired_blocks s \<and> rs_desired_blocks s \<le> rs_maximum_blocks s"
  using size_rank_blocks [OF assms] by blast

theorem size_rank_aligned_and_ordered_witness:
  "rank_ok (sample_rank 0) \<and> policy_ok sample_policy \<and>
   size_rank (sample_rank 0) sample_policy = Inr sample_sizing \<and>
   (4::int) dvd rs_desired_blocks sample_sizing \<and>
   rs_minimum_blocks sample_sizing \<le> rs_desired_blocks sample_sizing"
  using size_rank_aligned_and_ordered [OF sample_rank_ok sample_policy_ok sample_size_rank]
    sample_rank_ok [of 0] sample_policy_ok sample_size_rank
  by (simp add: sample_policy_def)

text \<open>
  C23. The byte figures are exact products that fit in 64 bits, and they respect the operator's
  limits: a configured floor is met by the desired bytes and a configured cap bounds both the
  desired and the maximum bytes.
\<close>

theorem size_rank_respects_byte_limits:
  assumes "rank_ok rank" and "policy_ok pol" and "size_rank rank pol = Inr s"
  shows "rs_desired_bytes s = rs_desired_blocks s * rg_pool_bytes_per_block rank \<and>
    rs_maximum_bytes s = rs_maximum_blocks s * rg_pool_bytes_per_block rank \<and>
    rs_maximum_bytes s \<le> UINT64_MAX \<and> rs_desired_bytes s \<le> rs_maximum_bytes s \<and>
    (\<forall>b. sp_min_bytes pol = Some b \<longrightarrow> b \<le> rs_desired_bytes s) \<and>
    (\<forall>b. sp_max_bytes pol = Some b \<longrightarrow> rs_maximum_bytes s \<le> b)"
proof -
  have "rs_desired_blocks s * rg_pool_bytes_per_block rank
      \<le> rs_maximum_blocks s * rg_pool_bytes_per_block rank"
    using size_rank_blocks(6) [OF assms] assms(1) by (simp add: mult_right_mono rank_ok_def pos64_def)
  moreover from assms(3) have "rs_desired_bytes s = rs_desired_blocks s * rg_pool_bytes_per_block rank"
    "rs_maximum_bytes s = rs_maximum_blocks s * rg_pool_bytes_per_block rank"
    "rs_maximum_bytes s \<le> UINT64_MAX"
    by (auto elim: size_rank_elim)
  ultimately show ?thesis using size_rank_blocks(7,8) [OF assms] by simp
qed

theorem size_rank_respects_byte_limits_witness:
  "rank_ok (sample_rank 0) \<and> policy_ok sample_policy \<and>
   size_rank (sample_rank 0) sample_policy = Inr sample_sizing \<and>
   65536 \<le> rs_desired_bytes sample_sizing \<and> rs_maximum_bytes sample_sizing \<le> 100000"
  using size_rank_respects_byte_limits [OF sample_rank_ok sample_policy_ok sample_size_rank]
    sample_rank_ok [of 0] sample_policy_ok sample_size_rank
  by (simp add: sample_policy_def)

text \<open>
  The advertised concurrency is honest and maximal: the pool holds the fixed overhead plus
  that many full-length sequences, it is at least one and at most the target, it falls short of
  the target only when one more sequence would not fit, and in strict mode it never does.
\<close>

theorem size_rank_effective_concurrency:
  assumes "rank_ok rank" and "policy_ok pol" and "size_rank rank pol = Inr s"
  shows "let e = rs_effective_target_concurrency s; seq = rs_sequence_blocks s;
             fo = rg_fixed_overhead_blocks rank in
    1 \<le> e \<and> e \<le> sp_target_concurrency pol \<and> fo + e * seq \<le> rs_desired_blocks s \<and>
    (e < sp_target_concurrency pol \<longrightarrow> rs_desired_blocks s < fo + (e + 1) * seq) \<and>
    (rs_concurrency_reduced s \<longleftrightarrow> e < sp_target_concurrency pol) \<and>
    (sp_strict_concurrency pol \<longrightarrow> e = sp_target_concurrency pol)"
proof -
  let ?e = "rs_effective_target_concurrency s" and ?fo = "rg_fixed_overhead_blocks rank"
  from assms(3) obtain seq where
    seq: "required_blocks_per_sequence rank = Inr seq" "rs_sequence_blocks s = seq" and
    e: "?e = min (sp_target_concurrency pol) ((rs_desired_blocks s - ?fo) div seq)" and
    rest: "1 \<le> ?e" "rs_concurrency_reduced s \<longleftrightarrow> ?e < sp_target_concurrency pol"
      "rs_concurrency_reduced s \<longrightarrow> \<not> sp_strict_concurrency pol"
    by (rule size_rank_elim)
  have pos: "0 < seq" using rank_ok_seq_pos [OF assms(1) seq(1)] by simp
  let ?q = "(rs_desired_blocks s - ?fo) div seq"
  note q = div_mult_bounds [OF pos, of "rs_desired_blocks s - ?fo"]
  have "?e * seq \<le> ?q * seq" using e pos by (simp add: mult_right_mono)
  then have "?fo + ?e * seq \<le> rs_desired_blocks s" using q(1) by linarith
  moreover have "rs_desired_blocks s < ?fo + (?e + 1) * seq" if "?e < sp_target_concurrency pol"
    using that e q(2) by (auto simp: min_def algebra_simps split: if_splits)
  ultimately show ?thesis using e rest seq(2) by (auto simp: Let_def)
qed

theorem size_rank_effective_concurrency_witness:
  "rank_ok (sample_rank 0) \<and> policy_ok sample_policy \<and>
   size_rank (sample_rank 0) sample_policy = Inr sample_sizing \<and>
   rs_effective_target_concurrency sample_sizing = 2 \<and>
   rs_desired_blocks sample_sizing < 1 + (2 + 1) * rs_sequence_blocks sample_sizing"
  using size_rank_effective_concurrency [OF sample_rank_ok sample_policy_ok sample_size_rank]
    sample_rank_ok [of 0] sample_policy_ok sample_size_rank
  by (simp add: sample_policy_def sample_rank_def sample_sizing_def Let_def)

text \<open>
  Without a byte cap the planner never trades concurrency away: every plan it returns holds
  the full target concurrency.
\<close>

theorem size_rank_uncapped_keeps_target:
  assumes "rank_ok rank" and "policy_ok pol" and "sp_max_bytes pol = None"
    and "size_rank rank pol = Inr s"
  shows "rs_effective_target_concurrency s = sp_target_concurrency pol \<and> \<not> rs_concurrency_reduced s"
proof -
  let ?t = "sp_target_concurrency pol" and ?fo = "rg_fixed_overhead_blocks rank"
  from assms(4) obtain seq where
    seq: "required_blocks_per_sequence rank = Inr seq" "rs_sequence_blocks s = seq" and
    e: "rs_effective_target_concurrency s = min ?t ((rs_desired_blocks s - ?fo) div seq)"
      "rs_concurrency_reduced s \<longleftrightarrow> rs_effective_target_concurrency s < ?t"
    by (rule size_rank_elim)
  have pos: "0 < seq" using rank_ok_seq_pos [OF assms(1) seq(1)] by simp
  have "?fo + seq * ?t \<le> demand rank pol seq ?t"
    using assms(2) pos by (intro demand_covers) (auto simp: policy_ok_def pos64_def)
  also have "\<dots> \<le> rs_desired_blocks s"
    using size_rank_blocks(9) [OF assms(1,2,4,3)] seq(2) by simp
  finally have "?t * seq \<le> rs_desired_blocks s - ?fo" by (simp add: algebra_simps)
  then have "?t \<le> (rs_desired_blocks s - ?fo) div seq"
    using pos zdiv_mono1 [of "?t * seq" "rs_desired_blocks s - ?fo" seq] by simp
  with e show ?thesis by simp
qed

theorem size_rank_uncapped_keeps_target_witness:
  "\<exists>s. size_rank (sample_rank 0) (sample_policy\<lparr>sp_max_bytes := None\<rparr>) = Inr s \<and>
       rs_effective_target_concurrency s = 4"
proof -
  let ?p = "sample_policy\<lparr>sp_max_bytes := None\<rparr>"
  have ok: "policy_ok ?p"
    by (simp add: policy_ok_def sample_policy_def pos64_def nonneg64_def UINT64_MAX_def)
  obtain s where s: "size_rank (sample_rank 0) ?p = Inr s"
    by (rule that [of "sample_sizing\<lparr>rs_desired_blocks := 40, rs_desired_bytes := 163840,
      rs_maximum_blocks := 60, rs_maximum_bytes := 245760, rs_effective_target_concurrency := 4,
      rs_concurrency_reduced := False\<rparr>"]) code_simp
  have "sp_max_bytes ?p = None" by simp
  from size_rank_uncapped_keeps_target [OF sample_rank_ok ok this s] s show ?thesis
    by (simp add: sample_policy_def)
qed



lemma group_to_dict_required:
  "group_to_dict a = group_to_dict b \<Longrightarrow>
   cg_required_blocks_per_sequence a = cg_required_blocks_per_sequence b"
  by (simp add: group_to_dict_def)

lemma same_shape_required:
  assumes "same_shape a b"
  shows "required_blocks_per_sequence a = required_blocks_per_sequence b"
proof -
  have maps: "map cg_required_blocks_per_sequence gs = map cg_required_blocks_per_sequence hs"
    if "map group_to_dict gs = map group_to_dict hs" for gs hs
  proof (rule nth_equalityI)
    have len: "length gs = length hs" using that by (metis length_map)
    then show "length (map cg_required_blocks_per_sequence gs) =
        length (map cg_required_blocks_per_sequence hs)" by simp
    fix i assume "i < length (map cg_required_blocks_per_sequence gs)"
    with that len have "group_to_dict (gs ! i) = group_to_dict (hs ! i)"
      by (metis length_map nth_map)
    from group_to_dict_required [OF this]
    show "map cg_required_blocks_per_sequence gs ! i = map cg_required_blocks_per_sequence hs ! i"
      using \<open>i < _\<close> len by simp
  qed
  have totals: "checked_total w f xs = checked_total w f ys" if "map w xs = map w ys"
    for w :: "cache_group \<Rightarrow> int" and f xs ys
  proof -
    have "fold_r (\<lambda>t x. checked_add t (w x) f) t xs = fold_r (\<lambda>t x. checked_add t x f) t (map w xs)" for t xs
      by (induction xs arbitrary: t) auto
    then show ?thesis using that by (simp add: checked_total_def)
  qed
  show ?thesis
    using assms unfolding required_blocks_per_sequence_def same_shape_def
    by (intro totals maps) blast
qed

lemma ok_of_size_rank_same_shape:
  assumes "same_shape a b"
  shows "ok_of (size_rank b pol) =
    map_option (\<lambda>s. s\<lparr>rs_rank := rg_rank b, rs_device_id := rg_device_id b\<rparr>) (ok_of (size_rank a pol))"
proof -
  have eqs: "rg_pool_bytes_per_block b = rg_pool_bytes_per_block a"
      "rg_fixed_overhead_blocks b = rg_fixed_overhead_blocks a"
      "required_blocks_per_sequence b = required_blocks_per_sequence a"
    using assms same_shape_required [OF assms] by (auto simp: same_shape_def)
  have "ok_of (apply_min_bytes b pol x y) = ok_of (apply_min_bytes a pol x y)" for x y
    by (simp add: apply_min_bytes_def eqs split: option.splits)
  moreover have "ok_of (apply_max_bytes b pol x y z) = ok_of (apply_max_bytes a pol x y z)" for x y z
    by (simp add: apply_max_bytes_def eqs if_distrib [of ok_of] cong: if_cong split: option.splits)
  moreover have "maximum_capacity b pol x y = maximum_capacity a pol x y" for x y
    unfolding maximum_capacity_def eqs ..
  ultimately show ?thesis
    by (simp add: size_rank_def eqs Let_def if_distrib [of ok_of] if_distrib [of "map_option _"]
        map_option_bind comp_def split_def cong: if_cong)
qed


lemma size_rank_all_ranks:
  assumes "geometry_ok g" and "size_rank (hd (gd_ranks g)) pol = Inr s" and "r \<in> set (gd_ranks g)"
  shows "size_rank r pol = Inr (s\<lparr>rs_rank := rg_rank r, rs_device_id := rg_device_id r\<rparr>)"
proof -
  have "hd (gd_ranks g) \<in> set (gd_ranks g)" using assms(3) by (cases "gd_ranks g") auto
  then have "same_shape (hd (gd_ranks g)) r" using assms(1,3) by (auto simp: geometry_ok_def)
  from ok_of_size_rank_same_shape [OF this, of pol] assms(2)
  have "ok_of (size_rank r pol) = Some (s\<lparr>rs_rank := rg_rank r, rs_device_id := rg_device_id r\<rparr>)" by simp
  then show ?thesis by simp
qed

lemma geometry_ok_ranks:
  assumes "geometry_ok g"
  shows "gd_ranks g \<noteq> []" and "int (length (gd_ranks g)) = gd_tensor_parallel_size g"
    and "rg_rank ` set (gd_ranks g) = {0..<gd_tensor_parallel_size g}"
    and "rank_ok (hd (gd_ranks g))"
proof -
  have tp: "1 \<le> gd_tensor_parallel_size g" and m: "map rg_rank (gd_ranks g) = [0..gd_tensor_parallel_size g - 1]"
    using assms by (auto simp: geometry_ok_def pos64_def)
  have "length (gd_ranks g) = nat (gd_tensor_parallel_size g)"
    using m by (metis length_map length_upto diff_0_right diff_add_cancel)
  then show l: "int (length (gd_ranks g)) = gd_tensor_parallel_size g" using tp by simp
  show ne: "gd_ranks g \<noteq> []" using l tp by auto
  have "rg_rank ` set (gd_ranks g) = set [0..gd_tensor_parallel_size g - 1]" using m by (metis set_map)
  also have "\<dots> = {0..<gd_tensor_parallel_size g}" by auto
  finally show "rg_rank ` set (gd_ranks g) = {0..<gd_tensor_parallel_size g}" .
  show "rank_ok (hd (gd_ranks g))" using assms ne by (cases "gd_ranks g") (auto simp: geometry_ok_def)
qed

lemma sum_list_const: "(\<And>x. x \<in> set xs \<Longrightarrow> f x = c) \<Longrightarrow> sum_list (map f xs) = int (length xs) * c"
  by (induction xs) (auto simp: algebra_simps)

lemma size_rank_bytes_nonneg:
  assumes "rank_ok rank" and "policy_ok pol" and "size_rank rank pol = Inr s"
  shows "0 \<le> rs_desired_bytes s" and "0 \<le> rs_maximum_bytes s"
proof -
  from assms(3) obtain seq where "required_blocks_per_sequence rank = Inr seq"
      "rs_sequence_blocks s = seq"
      "rs_desired_bytes s = rs_desired_blocks s * rg_pool_bytes_per_block rank"
      "rs_maximum_bytes s = rs_maximum_blocks s * rg_pool_bytes_per_block rank"
    by (rule size_rank_elim)
  moreover from this(1) have "1 \<le> seq" using rank_ok_seq_pos [OF assms(1)] by blast
  moreover note size_rank_blocks(4-6) [OF assms]
  ultimately show "0 \<le> rs_desired_bytes s" "0 \<le> rs_maximum_bytes s"
    using assms(1) by (auto simp: rank_ok_def pos64_def nonneg64_def)
qed

lemma build_plan_uniform_lemma:
  assumes "geometry_ok g" and "policy_ok pol" and "size_rank (hd (gd_ranks g)) pol = Inr s"
  shows "build_plan g pol = Inr r \<longleftrightarrow>
    gd_tensor_parallel_size g * rs_desired_bytes s \<le> UINT64_MAX \<and>
    r = \<lparr>pr_geometry = g, pr_policy = pol,
         pr_ranks = map (\<lambda>k. s\<lparr>rs_rank := rg_rank k, rs_device_id := rg_device_id k\<rparr>) (gd_ranks g)\<rparr>"
proof -
  let ?f = "\<lambda>k. s\<lparr>rs_rank := rg_rank k, rs_device_id := rg_device_id k\<rparr>" and ?rs = "gd_ranks g"
  note rk = geometry_ok_ranks [OF assms(1)]
  have trav: "traverse (\<lambda>k. size_rank k pol) ?rs = Inr (map ?f ?rs)"
    using size_rank_all_ranks [OF assms(1,3)] by (rule traverse_pure)
  have le: "rs_desired_blocks s \<le> rs_maximum_blocks s"
    by (rule size_rank_blocks(6) [OF rk(4) assms(2,3)])
  note db = size_rank_bytes_nonneg(1) [OF rk(4) assms(2,3)]
  have const: "card ((\<lambda>_. c) ` set ?rs) = 1" for c :: int
    using rk(1) by (simp add: image_constant_conv)
  have total: "total_desired_bytes (map ?f ?rs) = Inr t \<longleftrightarrow>
      t = gd_tensor_parallel_size g * rs_desired_bytes s \<and> t \<le> UINT64_MAX" for t
    using db rk(2) sum_list_const [of ?rs "\<lambda>_. rs_desired_bytes s" "rs_desired_bytes s"]
    by (auto simp: total_desired_bytes_def checked_total_Inr_iff comp_def)
  have rk_set: "set (map rs_rank (map ?f ?rs)) = {0..<int (length (map ?f ?rs))}"
    using rk(2,3) by (simp add: image_image)
  have "mk_PlanningResult g pol (map ?f ?rs) =
      and_then (total_desired_bytes (map ?f ?rs)) (\<lambda>_.
        Inr \<lparr>pr_geometry = g, pr_policy = pol, pr_ranks = map ?f ?rs\<rparr>)"
    unfolding mk_PlanningResult_def rk_set using rk(2) const le
    by (simp add: image_image list_ex_iff)
  then show ?thesis using trav total by (auto simp: build_plan_def result_simps)
qed

text \<open>
  C27. On a validated geometry the plan is decided by its first rank: if that rank can be sized,
  every rank receives the same sizing under its own rank and device number, none of the
  cross-rank consistency checks of \<open>PlanningResult\<close> fires, and the plan is returned exactly
  when the desired bytes summed over the tensor-parallel world fit in 64 bits.
\<close>

theorem build_plan_uniform:
  assumes "geometry_ok g" and "policy_ok pol" and "size_rank (hd (gd_ranks g)) pol = Inr s"
  shows "build_plan g pol = Inr r \<longleftrightarrow>
    gd_tensor_parallel_size g * rs_desired_bytes s \<le> UINT64_MAX \<and>
    r = \<lparr>pr_geometry = g, pr_policy = pol,
         pr_ranks = map (\<lambda>k. s\<lparr>rs_rank := rg_rank k, rs_device_id := rg_device_id k\<rparr>) (gd_ranks g)\<rparr>"
  by (rule build_plan_uniform_lemma [OF assms])

definition sample_identity :: planner_identity where
  "sample_identity = \<lparr>pi_adapter_id = ''kapsl-vllm-connector'', pi_adapter_version = ''0.7.0'',
     pi_backend_version = ''0.11.0'', pi_profile_id = ''vllm-v1-packed-cuda-ipc/flash-attn'',
     pi_layout_version = 1\<rparr>"

definition sample_geometry :: geometry where
  "sample_geometry = \<lparr>gd_identity = sample_identity, gd_model_fingerprint = ''sha256:model'',
     gd_max_model_len = 128, gd_tensor_parallel_size = 2, gd_attention_backend = ''FLASH_ATTN'',
     gd_layout_id = ''BLNHC'', gd_ranks = [sample_rank 0, sample_rank 1]\<rparr>"

lemma sample_geometry_ok: "geometry_ok sample_geometry"
proof -
  have "text_ok ''sha256:model''" "text_ok ''BLNHC''" by (simp_all add: text_ok_def) code_simp+
  moreover have "same_shape (sample_rank a) (sample_rank b)" for a b
    by (simp add: same_shape_def sample_rank_def)
  moreover have "[0..1] = [0, 1::int]" by (simp add: upto.simps)
  ultimately show ?thesis
    using sample_rank_ok
    by (simp add: geometry_ok_def sample_geometry_def pos64_def UINT64_MAX_def)
      (simp add: sample_rank_def)
qed

theorem build_plan_uniform_witness:
  "build_plan sample_geometry sample_policy =
     Inr \<lparr>pr_geometry = sample_geometry, pr_policy = sample_policy,
          pr_ranks = [sample_sizing, sample_sizing\<lparr>rs_rank := 1, rs_device_id := 1\<rparr>]\<rparr>"
proof -
  have hd: "size_rank (hd (gd_ranks sample_geometry)) sample_policy = Inr sample_sizing"
    by (simp add: sample_geometry_def sample_size_rank)
  show ?thesis
    unfolding build_plan_uniform [OF sample_geometry_ok sample_policy_ok hd]
    by (simp add: sample_geometry_def sample_rank_def sample_sizing_def UINT64_MAX_def)
qed

lemma geometry_to_dict_total:
  assumes "geometry_ok g" and "size_rank (hd (gd_ranks g)) pol = Inr s"
  shows "\<exists>d. geometry_to_dict g = Inr d"
proof -
  have "\<exists>d. rank_to_dict k = Inr d" if "k \<in> set (gd_ranks g)" for k
    using size_rank_all_ranks [OF assms that]
    by (auto simp: rank_to_dict_def result_simps elim!: size_rank_elim)
  then obtain f where "\<And>k. k \<in> set (gd_ranks g) \<Longrightarrow> rank_to_dict k = Inr (f k)" by metis
  then have "traverse rank_to_dict (gd_ranks g) = Inr (map f (gd_ranks g))" by (rule traverse_pure)
  moreover have "\<exists>t. total_pool_bytes_per_block (gd_ranks g) = Inr t"
    using assms(1) by (auto simp: total_pool_bytes_per_block_def checked_total_Inr_iff geometry_ok_def
        rank_ok_def pos64_def list_all_iff)
  ultimately show ?thesis by (auto simp: geometry_to_dict_def)
qed

text \<open>
  C28. Construction of a plan checks only the desired total. A returned plan can be serialized
  exactly when the maximum bytes summed over the world fit in 64 bits as well; otherwise
  \<open>to_dict\<close> raises.
\<close>

theorem plan_serializes_iff:
  assumes "geometry_ok g" and "policy_ok pol" and "size_rank (hd (gd_ranks g)) pol = Inr s"
    and "build_plan g pol = Inr r"
  shows "(\<exists>d. result_to_dict fr sha r = Inr d) \<longleftrightarrow>
    gd_tensor_parallel_size g * rs_maximum_bytes s \<le> UINT64_MAX"
proof -
  let ?f = "\<lambda>k. s\<lparr>rs_rank := rg_rank k, rs_device_id := rg_device_id k\<rparr>"
  note rk = geometry_ok_ranks [OF assms(1)]
  have r: "r = \<lparr>pr_geometry = g, pr_policy = pol, pr_ranks = map ?f (gd_ranks g)\<rparr>"
    and db: "gd_tensor_parallel_size g * rs_desired_bytes s \<le> UINT64_MAX"
    using assms(4) build_plan_uniform_lemma [OF assms(1-3)] by blast+
  obtain d where d: "geometry_to_dict g = Inr d" using geometry_to_dict_total [OF assms(1,3)] by blast
  obtain t where t: "geometry_digest fr sha g = Inr t" using geometry_digest_total [OF d] by blast
  note bytes = size_rank_bytes_nonneg [OF rk(4) assms(2,3)]
  have sum: "sum_list (map (\<lambda>_. c) (gd_ranks g)) = gd_tensor_parallel_size g * c" for c
    using sum_list_const [of "gd_ranks g" "\<lambda>_. c" c] rk(2) by simp
  have "total_desired_bytes (pr_ranks r) = Inr (gd_tensor_parallel_size g * rs_desired_bytes s)"
    using bytes db sum by (simp add: r total_desired_bytes_def checked_total_Inr_iff comp_def)
  moreover have "total_maximum_bytes (pr_ranks r) = Inr m \<longleftrightarrow>
      m = gd_tensor_parallel_size g * rs_maximum_bytes s \<and> m \<le> UINT64_MAX" for m
    using bytes sum by (auto simp: r total_maximum_bytes_def checked_total_Inr_iff comp_def)
  ultimately show ?thesis
    using d t by (auto simp: result_to_dict_def result_simps r)
qed


text \<open>
  A policy whose virtual maximum is just above half of the 64-bit range: on two ranks the
  maximum total overflows although the desired total is small.
\<close>

definition huge_policy :: sizing_policy where
  "huge_policy = \<lparr>sp_target_concurrency = 1, sp_maximum_concurrency = Some 281474976710656,
     sp_headroom_percent = 0, sp_prefix_blocks = 0, sp_alignment_blocks = 1,
     sp_min_bytes = None, sp_max_bytes = None, sp_strict_concurrency = False\<rparr>"

definition huge_sizing :: rank_sizing where
  "huge_sizing =
     \<lparr>rs_rank = 0, rs_device_id = 0, rs_bytes_per_block = 4096, rs_sequence_blocks = 8,
      rs_minimum_blocks = 9, rs_minimum_bytes = 36864, rs_base_blocks = 9,
      rs_headroom_blocks = 0, rs_desired_blocks = 9, rs_desired_bytes = 36864,
      rs_maximum_blocks = 2251799813685249, rs_maximum_bytes = 9223372036854779904,
      rs_effective_target_concurrency = 1, rs_concurrency_reduced = False\<rparr>"

lemma huge_policy_ok: "policy_ok huge_policy"
  by (simp add: policy_ok_def huge_policy_def pos64_def nonneg64_def UINT64_MAX_def)

lemma huge_size_rank: "size_rank (hd (gd_ranks sample_geometry)) huge_policy = Inr huge_sizing"
  by code_simp

definition huge_plan :: planning_result where
  "huge_plan = \<lparr>pr_geometry = sample_geometry, pr_policy = huge_policy,
     pr_ranks = [huge_sizing, huge_sizing\<lparr>rs_rank := 1, rs_device_id := 1\<rparr>]\<rparr>"

lemma huge_build_plan: "build_plan sample_geometry huge_policy = Inr huge_plan"
  unfolding build_plan_uniform_lemma [OF sample_geometry_ok huge_policy_ok huge_size_rank]
  by (simp add: huge_plan_def sample_geometry_def sample_rank_def huge_sizing_def UINT64_MAX_def)

theorem plan_serializes_iff_witness:
  "build_plan sample_geometry huge_policy = Inr huge_plan \<and>
   \<not> (\<exists>d. result_to_dict (\<lambda>_. []) (\<lambda>_. []) huge_plan = Inr d)"
  using huge_build_plan
    plan_serializes_iff [OF sample_geometry_ok huge_policy_ok huge_size_rank huge_build_plan,
      of "\<lambda>_. []" "\<lambda>_. []"]
  by (simp add: sample_geometry_def huge_sizing_def UINT64_MAX_def)

end
