(* ===== verification/Contract_Base.thy ===== *)
theory Contract_Base
  imports Py_Base
begin

text \<open>
  The field validators of \<open>contract.py\<close>, the version check, and the segment lists shared
  by the elastic pool and by resize operations.

  Membership of an arbitrary JSON value in a Python set hashes the value first, so an
  unhashable one (a list or an object) raises \<open>TypeError\<close>; \<open>set_member\<close> keeps that
  branch.
\<close>

subsection \<open>Field validators\<close>

abbreviation RaiseC :: "string \<Rightarrow> 'a result" where
  "RaiseC m \<equiv> Raise ContractValidationError m"

definition contract_mapping :: "pyval \<Rightarrow> string \<Rightarrow> pydict result" where
  "contract_mapping v field =
     (case v of PDict d \<Rightarrow> Inr d | _ \<Rightarrow> RaiseC (fmt [field, '' must be an object'']))"

definition contract_nonempty :: "pyval \<Rightarrow> string \<Rightarrow> string result" where
  "contract_nonempty v field =
     (case v of
        PStr s \<Rightarrow> if py_strip s = [] then RaiseC (fmt [field, '' must be a non-empty string''])
                   else Inr s
      | _ \<Rightarrow> RaiseC (fmt [field, '' must be a non-empty string'']))"

definition contract_positive_int :: "pyval \<Rightarrow> string \<Rightarrow> int result" where
  "contract_positive_int v field =
     (case v of
        PInt i \<Rightarrow> if i \<le> 0 then RaiseC (fmt [field, '' must be a positive integer'']) else Inr i
      | _ \<Rightarrow> RaiseC (fmt [field, '' must be a positive integer'']))"

definition contract_nonnegative_int :: "pyval \<Rightarrow> string \<Rightarrow> int result" where
  "contract_nonnegative_int v field =
     (case v of
        PInt i \<Rightarrow> if i < 0 then RaiseC (fmt [field, '' must be a non-negative integer'']) else Inr i
      | _ \<Rightarrow> RaiseC (fmt [field, '' must be a non-negative integer'']))"

fun hashable :: "pyval \<Rightarrow> bool" where
  "hashable (PList _) = False"
| "hashable (PDict _) = False"
| "hashable _ = True"

definition set_member :: "pyval \<Rightarrow> string list \<Rightarrow> bool result" where
  "set_member v names =
     (if \<not> hashable v then Raise TypeError ''unhashable type''
      else Inr (py_in v (map PStr names)))"

text \<open>A value that must be a list: the caller supplies the message.\<close>

definition contract_list :: "pyval \<Rightarrow> string \<Rightarrow> pyval list result" where
  "contract_list v message = (case v of PList xs \<Rightarrow> Inr xs | _ \<Rightarrow> RaiseC message)"

definition contract_nonempty_list :: "pyval \<Rightarrow> string \<Rightarrow> pyval list result" where
  "contract_nonempty_list v message =
     (case v of PList xs \<Rightarrow> if xs = [] then RaiseC message else Inr xs | _ \<Rightarrow> RaiseC message)"

subsection \<open>Versions\<close>

definition ABI_MAJOR :: int where "ABI_MAJOR = 1"

definition ABI_MINOR :: int where "ABI_MINOR = 5"

definition abi_version :: pyval where
  "abi_version = PDict [(''major'', PInt ABI_MAJOR), (''minor'', PInt ABI_MINOR)]"

text \<open>\<open>isinstance(True, int)\<close> holds in Python, so a boolean minor version is accepted.\<close>

definition accepts_version :: "pydict \<Rightarrow> bool" where
  "accepts_version peer =
     (py_eq (d_get peer ''major'') (PInt ABI_MAJOR) \<and>
      (case d_get peer ''minor'' of
         PInt i \<Rightarrow> i \<le> ABI_MINOR
       | PBool b \<Rightarrow> (if b then 1 else 0) \<le> ABI_MINOR
       | _ \<Rightarrow> False))"

subsection \<open>Shards and adapter profiles\<close>

text \<open>
  The shard check repeated by attachments, detach requests and resize actors: all four fields
  must be present and each rank must lie inside its world.
\<close>

definition check_shard :: "pydict \<Rightarrow> string \<Rightarrow> unit result" where
  "check_shard shard message =
     and_then (contract_nonnegative_int (d_get shard ''tensor_parallel_rank'')
                 ''tensor_parallel_rank'') (\<lambda>tp_rank.
     and_then (contract_positive_int (d_get shard ''tensor_parallel_world_size'')
                 ''tensor_parallel_world_size'') (\<lambda>tp_world.
     and_then (contract_nonnegative_int (d_get shard ''pipeline_parallel_rank'')
                 ''pipeline_parallel_rank'') (\<lambda>pp_rank.
     and_then (contract_positive_int (d_get shard ''pipeline_parallel_world_size'')
                 ''pipeline_parallel_world_size'') (\<lambda>pp_world.
     if tp_rank \<ge> tp_world \<or> pp_rank \<ge> pp_world then RaiseC message else Inr ()))))"

definition validate_adapter_profile :: "pydict \<Rightarrow> unit result" where
  "validate_adapter_profile profile =
     fold_r (\<lambda>_ field.
        and_then (contract_nonempty (d_get profile field) (fmt [''adapter profile '', field]))
          (\<lambda>_. Inr ()))
       () [''adapter_id'', ''adapter_version'', ''backend_version'', ''profile_id'']"

subsection \<open>Segment lists\<close>

text \<open>
  One iteration of the segment loops. The state is the expected offset and the segment
  identifiers and handle indices seen so far. \<open>id_field\<close> and \<open>message\<close> are the two
  texts in which the loops of \<open>validate_resize_operation\<close> and
  \<open>_validate_elastic_pool\<close> differ.
\<close>

type_synonym segment_state = "int \<times> string set \<times> int set"

definition segment_step ::
  "string \<Rightarrow> string \<Rightarrow> int \<Rightarrow> segment_state \<Rightarrow> pydict \<Rightarrow> segment_state result" where
  "segment_step id_field message granularity st segment =
     (case st of (expected_offset, seen_ids, seen_handles) \<Rightarrow>
     and_then (contract_nonempty (d_get segment ''segment_id'') id_field) (\<lambda>segment_id.
     and_then (contract_nonnegative_int (d_get segment ''offset_bytes'') ''offset_bytes'') (\<lambda>offset.
     and_then (contract_positive_int (d_get segment ''length_bytes'') ''length_bytes'') (\<lambda>len.
     and_then (contract_nonnegative_int (d_get segment ''handle_index'') ''handle_index'') (\<lambda>handle_index.
     if segment_id \<in> seen_ids \<or> handle_index \<in> seen_handles \<or> offset \<noteq> expected_offset \<or>
        offset mod granularity \<noteq> 0 \<or> len mod granularity \<noteq> 0
     then RaiseC message
     else Inr (expected_offset + len, insert segment_id seen_ids,
               insert handle_index seen_handles))))))"

text \<open>
  \<open>sorted(..., key=...)\<close> with a key that may raise: every key is computed first, in the
  order of the input.
\<close>

definition sort_segments :: "string \<Rightarrow> pydict list \<Rightarrow> pydict list result" where
  "sort_segments field segments =
     and_then (traverse (\<lambda>s. and_then
         (contract_nonnegative_int (d_get s ''offset_bytes'') field) (\<lambda>k. Inr (k, s))) segments)
       (\<lambda>keyed. Inr (map snd (sort_key fst keyed)))"

text \<open>The sorted loop: its value is the offset after the last segment.\<close>

definition segments_end :: "string \<Rightarrow> string \<Rightarrow> string \<Rightarrow> int \<Rightarrow> int \<Rightarrow> pydict list \<Rightarrow> int result" where
  "segments_end key_field id_field message granularity start segments =
     and_then (sort_segments key_field segments) (\<lambda>ordered.
     and_then (fold_r (segment_step id_field message granularity) (start, {}, {}) ordered)
       (\<lambda>(expected_offset, seen_ids, seen_handles). Inr expected_offset))"

subsection \<open>What the validators establish\<close>

lemma contract_mapping_Inr [simp]: "contract_mapping v f = Inr d \<longleftrightarrow> v = PDict d"
  by (cases v) (auto simp: contract_mapping_def)

lemma contract_nonempty_Inr [simp]:
  "contract_nonempty v f = Inr s \<longleftrightarrow> v = PStr s \<and> py_strip s \<noteq> []"
  by (cases v) (auto simp: contract_nonempty_def)

lemma contract_positive_int_Inr [simp]: "contract_positive_int v f = Inr i \<longleftrightarrow> v = PInt i \<and> 0 < i"
  by (cases v) (auto simp: contract_positive_int_def)

lemma contract_nonnegative_int_Inr [simp]:
  "contract_nonnegative_int v f = Inr i \<longleftrightarrow> v = PInt i \<and> 0 \<le> i"
  by (cases v) (auto simp: contract_nonnegative_int_def)

lemma contract_list_Inr [simp]: "contract_list v m = Inr xs \<longleftrightarrow> v = PList xs"
  by (cases v) (auto simp: contract_list_def)

lemma contract_nonempty_list_Inr [simp]:
  "contract_nonempty_list v m = Inr xs \<longleftrightarrow> v = PList xs \<and> xs \<noteq> []"
  by (cases v) (auto simp: contract_nonempty_list_def)

lemma py_in_PStr: "py_in v (map PStr names) \<longleftrightarrow> (\<exists>n \<in> set names. py_eq v (PStr n))"
  by (auto simp: py_in_def list_ex_iff)

lemma py_eq_PStr [simp]: "py_eq v (PStr n) \<longleftrightarrow> v = PStr n"
  by (cases v) auto

lemma set_member_Inr [simp]:
  "set_member v names = Inr b \<longleftrightarrow> hashable v \<and> b = (\<exists>n \<in> set names. v = PStr n)"
  by (auto simp: set_member_def py_in_PStr)

definition shard_ok :: "pydict \<Rightarrow> bool" where
  "shard_ok shard \<longleftrightarrow>
     (\<exists>tr tw pr pw. d_get shard ''tensor_parallel_rank'' = PInt tr \<and>
        d_get shard ''tensor_parallel_world_size'' = PInt tw \<and>
        d_get shard ''pipeline_parallel_rank'' = PInt pr \<and>
        d_get shard ''pipeline_parallel_world_size'' = PInt pw \<and>
        0 \<le> tr \<and> tr < tw \<and> 0 \<le> pr \<and> pr < pw)"

lemma check_shard_iff: "check_shard shard m = Inr u \<longleftrightarrow> shard_ok shard"
  by (auto simp: check_shard_def result_simps shard_ok_def)

subsection \<open>Tilings\<close>

text \<open>
  \<open>tiles s e xs\<close>: the intervals \<open>xs\<close>, each given by its offset and length, follow each
  other without gap or overlap from \<open>s\<close> to \<open>e\<close>.
\<close>

fun tiles :: "int \<Rightarrow> int \<Rightarrow> (int \<times> int) list \<Rightarrow> bool" where
  "tiles s e [] = (s = e)"
| "tiles s e ((off, len) # xs) = (off = s \<and> 0 < len \<and> tiles (s + len) e xs)"

definition covers :: "int \<Rightarrow> int \<times> int \<Rightarrow> bool" where
  "covers b x = (fst x \<le> b \<and> b < fst x + snd x)"

lemma tiles_le: "tiles s e xs \<Longrightarrow> s \<le> e"
  by (induction s e xs rule: tiles.induct) auto

lemma tiles_outside: "tiles s e xs \<Longrightarrow> b < s \<or> e \<le> b \<Longrightarrow> filter (covers b) xs = []"
proof (induction s e xs rule: tiles.induct)
  case (2 s e off len xs)
  then have "s + len \<le> e" by (auto dest: tiles_le)
  with 2 show ?case by (auto simp: covers_def)
qed simp

lemma tiles_exactly_one: "tiles s e xs \<Longrightarrow> s \<le> b \<Longrightarrow> b < e \<Longrightarrow> length (filter (covers b) xs) = 1"
proof (induction s e xs rule: tiles.induct)
  case (2 s e off len xs)
  show ?case
  proof (cases "b < s + len")
    case True
    with 2 have "filter (covers b) xs = []" by (auto intro: tiles_outside)
    moreover have "covers b (off, len)" using True 2 by (simp add: covers_def)
    ultimately show ?thesis by simp
  next
    case False
    then have "\<not> covers b (off, len)" using 2 by (simp add: covers_def)
    then show ?thesis using False 2 by simp
  qed
qed simp

lemma tiles_total: "tiles s e xs \<Longrightarrow> sum_list (map snd xs) = e - s"
  by (induction s e xs rule: tiles.induct) auto

lemma tiles_append: "tiles s m xs \<Longrightarrow> tiles m e ys \<Longrightarrow> tiles s e (xs @ ys)"
  by (induction s m xs rule: tiles.induct) auto

text \<open>The interval, identifier and handle index a validated segment carries.\<close>

definition int_of :: "pyval \<Rightarrow> int" where
  "int_of v = (case v of PInt i \<Rightarrow> i | _ \<Rightarrow> 0)"

definition str_of :: "pyval \<Rightarrow> string" where
  "str_of v = (case v of PStr s \<Rightarrow> s | _ \<Rightarrow> [])"

definition seg_interval :: "pydict \<Rightarrow> int \<times> int" where
  "seg_interval d = (int_of (d_get d ''offset_bytes''), int_of (d_get d ''length_bytes''))"

definition seg_id :: "pydict \<Rightarrow> string" where
  "seg_id d = str_of (d_get d ''segment_id'')"

definition seg_handle :: "pydict \<Rightarrow> int" where
  "seg_handle d = int_of (d_get d ''handle_index'')"

lemma int_of_PInt [simp]: "int_of (PInt i) = i"
  by (simp add: int_of_def)

lemma str_of_PStr [simp]: "str_of (PStr s) = s"
  by (simp add: str_of_def)

definition seg_aligned :: "int \<Rightarrow> pydict \<Rightarrow> bool" where
  "seg_aligned g d \<longleftrightarrow> g dvd fst (seg_interval d) \<and> g dvd snd (seg_interval d)"

lemma sort_segments_mset: "sort_segments f ds = Inr es \<Longrightarrow> mset es = mset ds"
proof -
  assume "sort_segments f ds = Inr es"
  then obtain keyed where k: "traverse (\<lambda>s. and_then
         (contract_nonnegative_int (d_get s ''offset_bytes'') f) (\<lambda>k. Inr (k, s))) ds = Inr keyed"
    and es: "es = map snd (sort_key fst keyed)"
    by (auto simp: sort_segments_def result_simps)
  have "map snd keyed = ds"
    using traverse_map_eq [OF k, of snd id] by (auto simp: result_simps)
  then show ?thesis using es by (metis mset_map mset_sort)
qed

subsection \<open>Dense covers\<close>

text \<open>
  What the two segment loops decide, said without sorting: some arrangement of the segments
  tiles the range, identifiers and handle indices are unique, every boundary is aligned.
\<close>

definition seg_typed :: "pydict \<Rightarrow> bool" where
  "seg_typed d \<longleftrightarrow>
     (\<exists>i off len h. d_get d ''segment_id'' = PStr i \<and> py_strip i \<noteq> [] \<and>
        d_get d ''offset_bytes'' = PInt off \<and> 0 \<le> off \<and>
        d_get d ''length_bytes'' = PInt len \<and> 0 < len \<and>
        d_get d ''handle_index'' = PInt h \<and> 0 \<le> h)"

definition offset_typed :: "pydict \<Rightarrow> bool" where
  "offset_typed d \<longleftrightarrow> (\<exists>k. d_get d ''offset_bytes'' = PInt k \<and> 0 \<le> k)"

definition dense_cover :: "int \<Rightarrow> int \<Rightarrow> int \<Rightarrow> pydict list \<Rightarrow> bool" where
  "dense_cover g s e ds \<longleftrightarrow>
     (\<exists>es. mset es = mset ds \<and> tiles s e (map seg_interval es)) \<and>
     distinct (map seg_id ds) \<and> distinct (map seg_handle ds) \<and>
     list_all (seg_aligned g) ds \<and> list_all seg_typed ds"

lemma dense_cover_perm: "mset ds = mset ds' \<Longrightarrow> dense_cover g s e ds \<longleftrightarrow> dense_cover g s e ds'"
  unfolding dense_cover_def list_all_iff
  by (metis mset_eq_imp_distinct_iff mset_eq_setD mset_map)

lemma segment_step_iff:
  "segment_step idf msg g (e, ids, hs) d = Inr st \<longleftrightarrow>
     seg_typed d \<and> seg_id d \<notin> ids \<and> seg_handle d \<notin> hs \<and> fst (seg_interval d) = e \<and>
     seg_aligned g d \<and>
     st = (e + snd (seg_interval d), insert (seg_id d) ids, insert (seg_handle d) hs)"
  by (auto simp: segment_step_def result_simps seg_interval_def seg_id_def seg_handle_def
      seg_aligned_def mod_eq_0_iff_dvd seg_typed_def)

lemma seg_typed_len: "seg_typed d \<Longrightarrow> 0 < snd (seg_interval d)"
  by (auto simp: seg_typed_def seg_interval_def)

lemma segment_loop_iff:
  "fold_r (segment_step idf msg g) (e, ids, hs) ds = Inr (e', ids', hs') \<longleftrightarrow>
     list_all seg_typed ds \<and> tiles e e' (map seg_interval ds) \<and> list_all (seg_aligned g) ds \<and>
     distinct (map seg_id ds) \<and> set (map seg_id ds) \<inter> ids = {} \<and>
     distinct (map seg_handle ds) \<and> set (map seg_handle ds) \<inter> hs = {} \<and>
     ids' = ids \<union> set (map seg_id ds) \<and> hs' = hs \<union> set (map seg_handle ds)"
proof (induction ds arbitrary: e ids hs)
  case (Cons d ds)
  show ?case
    using seg_typed_len [of d]
    by (cases "seg_interval d") (auto simp: and_then_Inr_iff segment_step_iff Cons.IH)
qed auto

lemma tiles_sorted: "tiles s e xs \<Longrightarrow> sorted_wrt (<) (map fst xs) \<and> (\<forall>x \<in> set xs. s \<le> fst x)"
proof (induction s e xs rule: tiles.induct)
  case (2 s e off len xs)
  then have "\<forall>x \<in> set xs. s + len \<le> fst x" by simp
  with 2 show ?case by fastforce
qed simp

lemma sort_key_decorated: "sort_key fst (map (\<lambda>d. (k d, d)) ds) = map (\<lambda>d. (k d, d)) (sort_key k ds)"
proof -
  have "insort_key fst (k x, x) (map (\<lambda>d. (k d, d)) ys) = map (\<lambda>d. (k d, d)) (insort_key k x ys)" for x ys
    by (induction ys) auto
  then show ?thesis by (induction ds) simp_all
qed

lemma sort_segments_iff:
  "sort_segments f ds = Inr es \<longleftrightarrow>
     list_all offset_typed ds \<and>
     es = sort_key (\<lambda>d. fst (seg_interval d)) ds"
proof -
  let ?key = "\<lambda>s. and_then (contract_nonnegative_int (d_get s ''offset_bytes'') f) (\<lambda>k. Inr (k, s))"
  let ?pair = "\<lambda>d. (fst (seg_interval d), d)"
  have "traverse ?key ds = Inr keyed \<longleftrightarrow>
      list_all offset_typed ds \<and> keyed = map ?pair ds"
    for keyed
    by (induction ds arbitrary: keyed) (auto simp: result_simps seg_interval_def offset_typed_def)
  moreover have "map snd (sort_key fst (map ?pair ds)) = sort_key (\<lambda>d. fst (seg_interval d)) ds"
    by (simp add: sort_key_decorated comp_def)
  ultimately show ?thesis by (auto simp: sort_segments_def result_simps)
qed

text \<open>Sorting and looping together accept exactly the dense covers.\<close>

lemma sort_key_of_tiling:
  assumes "mset es = mset ds" and "tiles s e (map seg_interval es)"
  shows "sort_key (\<lambda>d. fst (seg_interval d)) ds = es"
proof -
  have lt: "sorted_wrt (<) (map (\<lambda>d. fst (seg_interval d)) es)"
    using tiles_sorted [OF assms(2)] by (simp add: comp_def)
  then have "distinct (map (\<lambda>d. fst (seg_interval d)) es)" by (simp add: strict_sorted_iff)
  then have "sort_key (\<lambda>d. fst (seg_interval d)) es = sort_key (\<lambda>d. fst (seg_interval d)) ds"
    using assms(1) by (intro sort_key_perm) simp_all
  moreover have "sort_key (\<lambda>d. fst (seg_interval d)) es = es"
    using lt by (intro sort_key_id_if_sorted) (simp add: strict_sorted_iff)
  ultimately show ?thesis by simp
qed

lemma segments_end_Inr [simp]:
  "segments_end f idf msg g s ds = Inr e \<longleftrightarrow> dense_cover g s e ds"
proof
  assume "segments_end f idf msg g s ds = Inr e"
  then obtain es ids hs where es: "sort_segments f ds = Inr es"
    and loop: "fold_r (segment_step idf msg g) (s, {}, {}) es = Inr (e, ids, hs)"
    by (auto simp: segments_end_def result_simps)
  have "mset es = mset ds" using sort_segments_mset [OF es] .
  moreover have "dense_cover g s e es"
    using loop unfolding segment_loop_iff dense_cover_def by auto
  ultimately show "dense_cover g s e ds" using dense_cover_perm by blast
next
  assume cover: "dense_cover g s e ds"
  then obtain es where es: "mset es = mset ds" "tiles s e (map seg_interval es)"
    by (auto simp: dense_cover_def)
  have "list_all offset_typed ds"
    using cover by (auto simp: dense_cover_def list_all_iff seg_typed_def offset_typed_def)
  then have sort: "sort_segments f ds = Inr es"
    by (simp add: sort_segments_iff sort_key_of_tiling [OF es])
  have "dense_cover g s e es" using cover dense_cover_perm [OF es(1)] by simp
  then have "fold_r (segment_step idf msg g) (s, {}, {}) es =
      Inr (e, set (map seg_id es), set (map seg_handle es))"
    using es(2) by (auto simp: segment_loop_iff dense_cover_def)
  then show "segments_end f idf msg g s ds = Inr e" by (simp add: segments_end_def sort)
qed

text \<open>How many of the segments cover byte \<open>b\<close>.\<close>

definition cover_count :: "int \<Rightarrow> pydict list \<Rightarrow> nat" where
  "cover_count b ds = length (filter (covers b) (map seg_interval ds))"

lemma cover_count_perm: "mset es = mset ds \<Longrightarrow> cover_count b es = cover_count b ds"
  unfolding cover_count_def by (metis mset_filter mset_map size_mset)

lemma tiles_count: "tiles s e xs \<Longrightarrow> length (filter (covers b) xs) = (if s \<le> b \<and> b < e then 1 else 0)"
  using tiles_exactly_one [of s e xs b] tiles_outside [of s e xs b]
  by (cases "s \<le> b \<and> b < e") auto

lemma cover_count_tiles:
  "tiles s e (map seg_interval ds) \<Longrightarrow> cover_count b ds = (if s \<le> b \<and> b < e then 1 else 0)"
  unfolding cover_count_def by (rule tiles_count)

text \<open>
  The interface a client of a validated segment list relies on. \<open>accepts\<close> is the validator,
  \<open>segs\<close> the list it looked at, \<open>lo\<close> and \<open>hi\<close> the byte range it had to cover.
\<close>

locale segment_cover =
  fixes accepts :: "'a \<Rightarrow> bool"
    and segs :: "'a \<Rightarrow> pydict list"
    and lo hi gran :: "'a \<Rightarrow> int"
  assumes cover: "accepts x \<Longrightarrow> dense_cover (gran x) (lo x) (hi x) (segs x)"
begin

lemma arranged:
  assumes "accepts x"
  obtains es where "mset es = mset (segs x)" "tiles (lo x) (hi x) (map seg_interval es)"
  using cover [OF assms] by (auto simp: dense_cover_def)

lemma byte_once:
  assumes "accepts x"
  shows "cover_count b (segs x) = (if lo x \<le> b \<and> b < hi x then 1 else 0)"
proof -
  obtain es where "mset es = mset (segs x)" "tiles (lo x) (hi x) (map seg_interval es)"
    using arranged [OF assms] .
  then show ?thesis using cover_count_perm cover_count_tiles by metis
qed

lemma total_bytes:
  assumes "accepts x"
  shows "sum_list (map (\<lambda>d. snd (seg_interval d)) (segs x)) = hi x - lo x"
proof -
  obtain es where es: "mset es = mset (segs x)" "tiles (lo x) (hi x) (map seg_interval es)"
    using arranged [OF assms] .
  have "sum_list (map (\<lambda>d. snd (seg_interval d)) (segs x)) =
      sum_list (map (\<lambda>d. snd (seg_interval d)) es)"
    using es(1) by (simp flip: sum_mset_sum_list)
  also have "\<dots> = hi x - lo x" using tiles_total [OF es(2)] by (simp add: comp_def)
  finally show ?thesis .
qed

lemma unique_keys:
  assumes "accepts x"
  shows "distinct (map seg_id (segs x))" "distinct (map seg_handle (segs x))"
  using cover [OF assms] by (auto simp: dense_cover_def)

end

end
