(* ===== verification/Contract_Pool.thy ===== *)
theory Contract_Pool
  imports Contract_Base
begin

text \<open>
  Shared-pool messages of \<open>contract.py\<close>: the elastic pool of a registration receipt, the
  receipt itself, attachments and detach requests.
\<close>

subsection \<open>Elastic pools\<close>

definition elastic_range_ok :: "int \<Rightarrow> int \<Rightarrow> int \<Rightarrow> int \<Rightarrow> bool" where
  "elastic_range_ok minimum_blocks mapped_blocks maximum_blocks block_count \<longleftrightarrow>
     maximum_blocks = block_count \<and> minimum_blocks \<le> mapped_blocks \<and>
     mapped_blocks \<le> maximum_blocks"

definition elastic_aligned :: "int \<Rightarrow> int \<Rightarrow> int \<Rightarrow> int \<Rightarrow> int \<Rightarrow> int \<Rightarrow> bool" where
  "elastic_aligned minimum_blocks mapped_blocks maximum_blocks bytes_per_block alignment granularity \<longleftrightarrow>
     minimum_blocks mod alignment = 0 \<and> mapped_blocks mod alignment = 0 \<and>
     (minimum_blocks * bytes_per_block) mod granularity = 0 \<and>
     (mapped_blocks * bytes_per_block) mod granularity = 0 \<and>
     (maximum_blocks * bytes_per_block) mod granularity = 0"

definition validate_elastic_pool :: "pydict \<Rightarrow> int \<Rightarrow> int \<Rightarrow> unit result" where
  "validate_elastic_pool elastic block_count bytes_per_block =
     and_then (contract_positive_int (d_get elastic ''minimum_block_count'') ''minimum_block_count'')
       (\<lambda>minimum_blocks.
     and_then (contract_positive_int (d_get elastic ''mapped_block_count'') ''mapped_block_count'')
       (\<lambda>mapped_blocks.
     and_then (contract_positive_int (d_get elastic ''maximum_block_count'') ''maximum_block_count'')
       (\<lambda>maximum_blocks.
     and_then (contract_positive_int (d_get elastic ''allocation_granularity_bytes'')
                 ''allocation_granularity_bytes'') (\<lambda>granularity.
     and_then (contract_positive_int (d_get elastic ''resize_alignment_blocks'')
                 ''resize_alignment_blocks'') (\<lambda>alignment.
     if \<not> elastic_range_ok minimum_blocks mapped_blocks maximum_blocks block_count
     then RaiseC ''elastic minimum and mapped block counts must fit and match the shared pool maximum''
     else if \<not> elastic_aligned minimum_blocks mapped_blocks maximum_blocks bytes_per_block
                  alignment granularity
     then RaiseC ''elastic pool geometry is not VMM aligned''
     else
     and_then (contract_nonempty_list (d_get elastic ''segments'')
                 ''elastic pool requires mapped segments'') (\<lambda>segments.
     and_then (traverse (\<lambda>segment. contract_mapping segment ''VMM segment'') segments) (\<lambda>mappings.
     and_then (segments_end ''VMM segment offset_bytes'' ''VMM segment_id''
                 ''VMM segments must uniquely and densely cover an aligned prefix''
                 granularity 0 mappings) (\<lambda>expected_offset.
     if expected_offset \<noteq> mapped_blocks * bytes_per_block
     then RaiseC ''VMM segments do not exactly cover mapped physical bytes''
     else Inr ()))))))))"

text \<open>The segments of an object as a list of mappings.\<close>

definition segments_of :: "pydict \<Rightarrow> pydict list" where
  "segments_of d =
     (case d_get d ''segments'' of
        PList xs \<Rightarrow> map (\<lambda>x. case x of PDict e \<Rightarrow> e | _ \<Rightarrow> []) xs
      | _ \<Rightarrow> [])"

lemma traverse_mapping_iff:
  "traverse (\<lambda>x. contract_mapping x f) xs = Inr ds \<longleftrightarrow> xs = map PDict ds"
  by (induction xs arbitrary: ds) (auto simp: result_simps Cons_eq_map_conv)

lemma segments_of_PDict: "d_get d ''segments'' = PList (map PDict ds) \<Longrightarrow> segments_of d = ds"
  by (simp add: segments_of_def comp_def)

text \<open>What an accepted elastic pool looks like.\<close>

definition elastic_pool_ok :: "pydict \<Rightarrow> int \<Rightarrow> int \<Rightarrow> bool" where
  "elastic_pool_ok elastic block_count bytes_per_block \<longleftrightarrow>
     (\<exists>mn mp g al ds.
        d_get elastic ''minimum_block_count'' = PInt mn \<and> 0 < mn \<and>
        d_get elastic ''mapped_block_count'' = PInt mp \<and>
        d_get elastic ''maximum_block_count'' = PInt block_count \<and>
        d_get elastic ''allocation_granularity_bytes'' = PInt g \<and> 0 < g \<and>
        d_get elastic ''resize_alignment_blocks'' = PInt al \<and> 0 < al \<and>
        mn \<le> mp \<and> mp \<le> block_count \<and> al dvd mn \<and> al dvd mp \<and>
        g dvd mn * bytes_per_block \<and> g dvd mp * bytes_per_block \<and>
        g dvd block_count * bytes_per_block \<and>
        d_get elastic ''segments'' = PList (map PDict ds) \<and> ds \<noteq> [] \<and>
        dense_cover g 0 (mp * bytes_per_block) ds)"

lemma validate_elastic_pool_iff:
  "validate_elastic_pool elastic bc bpb = Inr u \<longleftrightarrow> elastic_pool_ok elastic bc bpb"
  by (auto simp: validate_elastic_pool_def result_simps traverse_mapping_iff elastic_range_ok_def
      elastic_pool_ok_def elastic_aligned_def mod_eq_0_iff_dvd)

interpretation elastic_cover: segment_cover
  "\<lambda>(elastic, block_count, bytes_per_block).
     validate_elastic_pool elastic block_count bytes_per_block = Inr ()"
  "\<lambda>(elastic, _, _). segments_of elastic"
  "\<lambda>_. 0"
  "\<lambda>(elastic, _, bytes_per_block). int_of (d_get elastic ''mapped_block_count'') * bytes_per_block"
  "\<lambda>(elastic, _, _). int_of (d_get elastic ''allocation_granularity_bytes'')"
proof
  fix x :: "pydict \<times> int \<times> int"
  obtain elastic bc bpb where x: "x = (elastic, bc, bpb)" by (cases x)
  assume "case x of (elastic, bc, bpb) \<Rightarrow> validate_elastic_pool elastic bc bpb = Inr ()"
  then have "elastic_pool_ok elastic bc bpb" by (simp add: x validate_elastic_pool_iff)
  then obtain mp g ds where f: "d_get elastic ''mapped_block_count'' = PInt mp"
    "d_get elastic ''allocation_granularity_bytes'' = PInt g"
    "d_get elastic ''segments'' = PList (map PDict ds)" "dense_cover g 0 (mp * bpb) ds"
    unfolding elastic_pool_ok_def by (elim exE conjE)
  have "segments_of elastic = ds" using f(3) by (rule segments_of_PDict)
  with f show "dense_cover
      (case x of (elastic, _, _) \<Rightarrow> int_of (d_get elastic ''allocation_granularity_bytes'')) 0
      (case x of (elastic, _, bpb) \<Rightarrow> int_of (d_get elastic ''mapped_block_count'') * bpb)
      (case x of (elastic, _, _) \<Rightarrow> segments_of elastic)"
    by (simp add: x)
qed

subsection \<open>Registration receipts\<close>

text \<open>
  One iteration of the loop over \<open>shared_pools\<close>. The state is \<open>live_resize\<close>:
  unknown before the first pool, then whether the pools use CUDA VMM.
\<close>

definition receipt_pool_step :: "bool option \<Rightarrow> pyval \<Rightarrow> bool option result" where
  "receipt_pool_step live_resize raw_pool =
     and_then (contract_mapping raw_pool ''shared pool'') (\<lambda>pool.
     and_then (contract_nonempty (d_get pool ''binding_id'') ''binding_id'') (\<lambda>_.
     and_then (contract_nonempty (d_get pool ''capacity_pool_id'') ''capacity_pool_id'') (\<lambda>_.
     and_then (contract_positive_int (d_get pool ''generation'') ''generation'') (\<lambda>_.
     and_then (contract_positive_int (d_get pool ''block_count'') ''block_count'') (\<lambda>block_count.
     and_then (contract_positive_int (d_get pool ''bytes_per_block'') ''bytes_per_block'') (\<lambda>bytes_per_block.
     and_then (set_member (d_get_or pool ''allocation_mode'' (PStr ''runtime_leased''))
                 [''runtime_leased'', ''participant_managed'']) (\<lambda>known_mode.
     if \<not> known_mode then RaiseC ''unknown shared pool allocation_mode''
     else
     and_then (contract_nonempty (d_get pool ''descriptor'') ''descriptor'') (\<lambda>_.
     and_then (contract_nonempty_list (d_get pool ''group_ids'')
                 ''shared pool group_ids must be non-empty'') (\<lambda>group_ids.
     and_then (traverse (\<lambda>group_id. contract_nonempty group_id ''shared pool group_id'') group_ids) (\<lambda>_.
     and_then (contract_mapping (d_get pool ''memory_domain'') ''shared pool memory_domain'') (\<lambda>_.
     and_then (contract_mapping (d_get pool ''transport'') ''shared pool transport'') (\<lambda>transport.
     let elastic = d_get pool ''elastic'';
         pool_is_live = py_eq (d_get transport ''kind'') (PStr ''cuda_vmm'')
     in if (case live_resize of None \<Rightarrow> False | Some live \<Rightarrow> live \<noteq> pool_is_live)
        then RaiseC ''shared pool receipts cannot mix fixed and elastic transports''
        else if pool_is_live
        then and_then (contract_mapping elastic ''elastic shared pool'') (\<lambda>elastic_pool.
             and_then (validate_elastic_pool elastic_pool block_count bytes_per_block) (\<lambda>_.
             Inr (Some pool_is_live)))
        else if elastic \<noteq> PNone
        then RaiseC ''elastic shared pool metadata requires cuda_vmm transport''
        else Inr (Some pool_is_live)))))))))))))"

definition validate_registration_receipt :: "pydict \<Rightarrow> pyval \<Rightarrow> pydict result" where
  "validate_registration_receipt receipt participant_id =
     and_then (contract_nonempty participant_id ''participant_id'') (\<lambda>participant.
     if \<not> py_eq (d_get receipt ''participant_id'') (PStr participant)
     then RaiseC ''registration receipt participant_id does not match registration''
     else
     and_then (contract_positive_int (d_get receipt ''participant_epoch'') ''participant_epoch'') (\<lambda>_.
     and_then (contract_list (d_get_or receipt ''shared_pools'' (PList []))
                 ''shared_pools must be a list'') (\<lambda>pools.
     and_then (fold_r receipt_pool_step None pools) (\<lambda>_. Inr receipt))))"

subsection \<open>Attachments\<close>

text \<open>One iteration over the views: the group/layer pairs seen so far are the state.\<close>

definition attachment_view_step ::
  "int \<Rightarrow> (string \<times> int) set \<Rightarrow> pyval \<Rightarrow> (string \<times> int) set result" where
  "attachment_view_step imported_bytes layers raw_view =
     and_then (contract_mapping raw_view ''attachment view'') (\<lambda>view.
     and_then (contract_nonempty (d_get view ''group_id'') ''attachment view group_id'') (\<lambda>group_id.
     and_then (contract_mapping (d_get view ''layer'') ''attachment view layer'') (\<lambda>layer.
     and_then (contract_nonnegative_int (d_get layer ''index'') ''attachment layer index'') (\<lambda>layer_index.
     and_then (if d_get layer ''name'' \<noteq> PNone
               then and_then (contract_nonempty (d_get layer ''name'') ''attachment layer name'') (\<lambda>_. Inr ())
               else Inr ()) (\<lambda>_.
     if (group_id, layer_index) \<in> layers
     then RaiseC ''attachment group/layer pairs must be unique''
     else
     and_then (contract_nonnegative_int (d_get view ''offset_bytes'') ''attachment offset'') (\<lambda>offset.
     and_then (contract_positive_int (d_get view ''length_bytes'') ''attachment length'') (\<lambda>len.
     if offset + len > imported_bytes then RaiseC ''attachment view exceeds imported bytes''
     else Inr (insert (group_id, layer_index) layers))))))))"

definition validate_shared_pool_attachment :: "pydict \<Rightarrow> unit result" where
  "validate_shared_pool_attachment attachment =
     and_then (contract_positive_int (d_get attachment ''participant_epoch'') ''participant_epoch'') (\<lambda>_.
     and_then (contract_nonempty (d_get attachment ''binding_id'') ''binding_id'') (\<lambda>_.
     and_then (contract_positive_int (d_get attachment ''imported_bytes'') ''imported_bytes'') (\<lambda>imported_bytes.
     and_then (if d_get attachment ''mapped_bytes'' \<noteq> PNone
               then and_then (contract_positive_int (d_get attachment ''mapped_bytes'') ''mapped_bytes'')
                      (\<lambda>mapped_bytes. if mapped_bytes > imported_bytes
                                      then RaiseC ''mapped_bytes exceeds imported_bytes'' else Inr ())
               else Inr ()) (\<lambda>_.
     and_then (contract_mapping (d_get attachment ''shard'') ''attachment shard'') (\<lambda>shard.
     and_then (check_shard shard ''attachment shard rank is outside its world size'') (\<lambda>_.
     and_then (contract_mapping (d_get attachment ''profile'') ''adapter profile'') (\<lambda>profile.
     and_then (validate_adapter_profile profile) (\<lambda>_.
     and_then (contract_nonempty_list (d_get attachment ''views'')
                 ''attachment views must be a non-empty list'') (\<lambda>views.
     and_then (fold_r (attachment_view_step imported_bytes) {} views) (\<lambda>_. Inr ()))))))))))"

definition make_shared_pool_attachment ::
  "pyval \<Rightarrow> pyval \<Rightarrow> pydict \<Rightarrow> pydict \<Rightarrow> pyval \<Rightarrow> pyval \<Rightarrow> pydict list \<Rightarrow> pydict result" where
  "make_shared_pool_attachment participant_epoch binding_id shard profile imported_bytes
     mapped_bytes views =
     (let attachment =
        [(''participant_epoch'', participant_epoch), (''binding_id'', binding_id),
         (''shard'', PDict shard), (''profile'', PDict profile),
         (''imported_bytes'', imported_bytes), (''views'', PList (map PDict views))] @
        (if mapped_bytes \<noteq> PNone then [(''mapped_bytes'', mapped_bytes)] else [])
      in and_then (validate_shared_pool_attachment attachment) (\<lambda>_. Inr attachment))"

subsection \<open>Detach requests\<close>

definition validate_shared_pool_detach_request :: "pydict \<Rightarrow> unit result" where
  "validate_shared_pool_detach_request request =
     and_then (contract_positive_int (d_get request ''participant_epoch'') ''participant_epoch'') (\<lambda>_.
     and_then (contract_nonempty_list (d_get request ''binding_ids'')
                 ''detach binding_ids must be a non-empty list'') (\<lambda>binding_ids.
     and_then (traverse (\<lambda>v. contract_nonempty v ''detach binding_id'') binding_ids) (\<lambda>normalized.
     if length (remdups normalized) \<noteq> length normalized
     then RaiseC ''detach binding_ids must be unique''
     else
     and_then (contract_mapping (d_get request ''shard'') ''detach shard'') (\<lambda>shard.
     and_then (check_shard shard ''detach shard rank is outside its world size'') (\<lambda>_.
     and_then (contract_mapping (d_get request ''completion'') ''detach completion'') (\<lambda>completion.
     if \<not> py_eq (d_get completion ''kind'') (PStr ''backend_synchronized'')
     then RaiseC ''initial shared-pool detach requires backend_synchronized completion''
     else Inr ()))))))"

definition make_shared_pool_detach_request :: "pyval \<Rightarrow> pyval list \<Rightarrow> pydict \<Rightarrow> pydict result" where
  "make_shared_pool_detach_request participant_epoch binding_ids shard =
     (let request =
        [(''participant_epoch'', participant_epoch), (''binding_ids'', PList binding_ids),
         (''shard'', PDict shard),
         (''completion'', PDict [(''kind'', PStr ''backend_synchronized'')])]
      in and_then (validate_shared_pool_detach_request request) (\<lambda>_. Inr request))"

subsection \<open>What the messages guarantee\<close>

lemma traverse_nonempty_iff:
  "traverse (\<lambda>v. contract_nonempty v f) vs = Inr names \<longleftrightarrow>
     vs = map PStr names \<and> (\<forall>n \<in> set names. py_strip n \<noteq> [])"
  by (induction vs arbitrary: names) (auto simp: result_simps Cons_eq_map_conv)

lemma distinct_card_list: "length (remdups xs) = length xs \<longleftrightarrow> distinct xs"
  by (metis length_remdups_card_conv card_distinct distinct_card)

definition adapter_profile_ok :: "pydict \<Rightarrow> bool" where
  "adapter_profile_ok profile \<longleftrightarrow>
     (\<forall>field \<in> {''adapter_id'', ''adapter_version'', ''backend_version'', ''profile_id''}.
        \<exists>s. d_get profile field = PStr s \<and> py_strip s \<noteq> [])"

lemma validate_adapter_profile_iff: "validate_adapter_profile p = Inr u \<longleftrightarrow> adapter_profile_ok p"
  by (auto simp: validate_adapter_profile_def result_simps adapter_profile_ok_def)

text \<open>The group/layer pair of a view and what makes a view acceptable.\<close>

definition view_key :: "pyval \<Rightarrow> string \<times> int" where
  "view_key v =
     (case v of PDict d \<Rightarrow>
        (str_of (d_get d ''group_id''),
         case d_get d ''layer'' of PDict l \<Rightarrow> int_of (d_get l ''index'') | _ \<Rightarrow> 0)
      | _ \<Rightarrow> ([], 0))"

definition view_ok :: "int \<Rightarrow> pyval \<Rightarrow> bool" where
  "view_ok imported_bytes v \<longleftrightarrow>
     (\<exists>d l g i off len. v = PDict d \<and> d_get d ''group_id'' = PStr g \<and> py_strip g \<noteq> [] \<and>
        d_get d ''layer'' = PDict l \<and> d_get l ''index'' = PInt i \<and> 0 \<le> i \<and>
        (d_get l ''name'' = PNone \<or> (\<exists>n. d_get l ''name'' = PStr n \<and> py_strip n \<noteq> [])) \<and>
        d_get d ''offset_bytes'' = PInt off \<and> 0 \<le> off \<and>
        d_get d ''length_bytes'' = PInt len \<and> 0 < len \<and> off + len \<le> imported_bytes)"

interpretation view_loop: unique_loop "attachment_view_step n" view_key "view_ok n" for n
proof
  fix seen seen' :: "(string \<times> int) set" and x :: pyval
  have opt: "(if c then and_then m (\<lambda>_. Inr ()) else Inr ()) = Inr () \<longleftrightarrow> (c \<longrightarrow> (\<exists>y. m = Inr y))"
    for c and m :: "'b result"
    by (cases m) auto
  show "attachment_view_step n seen x = Inr seen' \<longleftrightarrow>
      view_ok n x \<and> view_key x \<notin> seen \<and> seen' = insert (view_key x) seen"
    by (cases x) (auto simp: attachment_view_step_def result_simps view_ok_def view_key_def opt
        split: if_splits)
qed

definition attachment_ok :: "pydict \<Rightarrow> bool" where
  "attachment_ok a \<longleftrightarrow>
     (\<exists>e b n s p vs.
        d_get a ''participant_epoch'' = PInt e \<and> 0 < e \<and>
        d_get a ''binding_id'' = PStr b \<and> py_strip b \<noteq> [] \<and>
        d_get a ''imported_bytes'' = PInt n \<and> 0 < n \<and>
        (d_get a ''mapped_bytes'' = PNone \<or>
           (\<exists>m. d_get a ''mapped_bytes'' = PInt m \<and> 0 < m \<and> m \<le> n)) \<and>
        d_get a ''shard'' = PDict s \<and> shard_ok s \<and>
        d_get a ''profile'' = PDict p \<and> adapter_profile_ok p \<and>
        d_get a ''views'' = PList vs \<and> vs \<noteq> [] \<and>
        list_all (view_ok n) vs \<and> distinct (map view_key vs))"

lemma validate_attachment_iff: "validate_shared_pool_attachment a = Inr u \<longleftrightarrow> attachment_ok a"
  by (auto simp: validate_shared_pool_attachment_def result_simps check_shard_iff
      validate_adapter_profile_iff view_loop.loop_from_empty attachment_ok_def split: if_splits)

text \<open>
  A worker's attachment message is built exactly when its numbers are positive integers,
  the mapped bytes fit in the imported bytes, the shard lies inside its world, the profile is
  complete, and the views name pairwise distinct group/layer pairs and stay inside the imported
  bytes; the message then carries the arguments unchanged.
\<close>

theorem make_attachment_iff:
  "make_shared_pool_attachment epoch binding shard profile imported mapped views = Inr a \<longleftrightarrow>
     (\<exists>e b n. epoch = PInt e \<and> 0 < e \<and> binding = PStr b \<and> py_strip b \<noteq> [] \<and>
        imported = PInt n \<and> 0 < n \<and>
        (mapped = PNone \<or> (\<exists>m. mapped = PInt m \<and> 0 < m \<and> m \<le> n)) \<and>
        shard_ok shard \<and> adapter_profile_ok profile \<and> views \<noteq> [] \<and>
        list_all (\<lambda>v. view_ok n (PDict v)) views \<and>
        distinct (map (\<lambda>v. view_key (PDict v)) views) \<and>
        a = [(''participant_epoch'', epoch), (''binding_id'', binding), (''shard'', PDict shard),
             (''profile'', PDict profile), (''imported_bytes'', imported),
             (''views'', PList (map PDict views))] @
            (if mapped = PNone then [] else [(''mapped_bytes'', mapped)]))"
  by (cases "mapped = PNone")
    (auto simp: make_shared_pool_attachment_def result_simps validate_attachment_iff
      attachment_ok_def d_get_def list.pred_map comp_def Let_def)

text \<open>
  A detach request is built exactly for a positive epoch, a non-empty list of pairwise
  distinct non-blank binding identifiers and a shard inside its world; it always states that the
  backend has synchronized.
\<close>

theorem make_detach_iff:
  "make_shared_pool_detach_request epoch bindings shard = Inr r \<longleftrightarrow>
     (\<exists>e names. epoch = PInt e \<and> 0 < e \<and> bindings = map PStr names \<and> names \<noteq> [] \<and>
        list_all (\<lambda>n. py_strip n \<noteq> []) names \<and> distinct names \<and> shard_ok shard \<and>
        r = [(''participant_epoch'', epoch), (''binding_ids'', PList bindings),
             (''shard'', PDict shard),
             (''completion'', PDict [(''kind'', PStr ''backend_synchronized'')])])"
  by (auto simp: make_shared_pool_detach_request_def validate_shared_pool_detach_request_def
      result_simps traverse_nonempty_iff check_shard_iff distinct_card_list d_get_def Let_def list_all_iff)

text \<open>The pools of a receipt, and the transport of one pool.\<close>

definition receipt_pools :: "pydict \<Rightarrow> pyval list" where
  "receipt_pools receipt =
     (case d_get_or receipt ''shared_pools'' (PList []) of PList xs \<Rightarrow> xs | _ \<Rightarrow> [])"

definition pool_is_live :: "pydict \<Rightarrow> bool" where
  "pool_is_live pool \<longleftrightarrow>
     (\<exists>t. d_get pool ''transport'' = PDict t \<and> d_get t ''kind'' = PStr ''cuda_vmm'')"

definition receipt_pool_ok :: "pyval \<Rightarrow> bool" where
  "receipt_pool_ok raw \<longleftrightarrow>
     (\<exists>pool bc bpb. raw = PDict pool \<and> d_get pool ''block_count'' = PInt bc \<and> 0 < bc \<and>
        d_get pool ''bytes_per_block'' = PInt bpb \<and> 0 < bpb \<and>
        (if pool_is_live pool
         then \<exists>el. d_get pool ''elastic'' = PDict el \<and> elastic_pool_ok el bc bpb
         else d_get pool ''elastic'' = PNone))"

lemma receipt_pool_step_Inr:
  assumes "receipt_pool_step live raw = Inr live'"
  shows "receipt_pool_ok raw" and "\<exists>pool. raw = PDict pool \<and> live' = Some (pool_is_live pool)"
    and "live = None \<or> live = live'"
  using assms
  by (auto simp: receipt_pool_step_def result_simps Let_def receipt_pool_ok_def pool_is_live_def
      validate_elastic_pool_iff split: if_splits option.splits)

lemma receipt_loop_Inr:
  assumes "fold_r receipt_pool_step live raws = Inr live'"
  shows "list_all receipt_pool_ok raws \<and> (live = None \<or> live = live') \<and>
    (\<forall>raw \<in> set raws. \<exists>pool. raw = PDict pool \<and> live' = Some (pool_is_live pool))"
  using assms
proof (induction raws arbitrary: live)
  case (Cons raw raws)
  then obtain mid where s: "receipt_pool_step live raw = Inr mid"
    and rest: "fold_r receipt_pool_step mid raws = Inr live'"
    by (auto simp: and_then_Inr_iff)
  from receipt_pool_step_Inr [OF s] Cons.IH [OF rest] show ?case by force
qed simp

lemma validate_receipt_Inr:
  assumes "validate_registration_receipt receipt pid = Inr r"
  shows "r = receipt" "list_all receipt_pool_ok (receipt_pools receipt)"
    "\<exists>live. \<forall>raw \<in> set (receipt_pools receipt). \<exists>pool. raw = PDict pool \<and> pool_is_live pool = live"
proof -
  from assms obtain live where r: "r = receipt"
    and l: "fold_r receipt_pool_step None (receipt_pools receipt) = Inr live"
    by (auto simp: validate_registration_receipt_def result_simps receipt_pools_def)
  show "r = receipt" by (rule r)
  from receipt_loop_Inr [OF l] show "list_all receipt_pool_ok (receipt_pools receipt)"
    "\<exists>live. \<forall>raw \<in> set (receipt_pools receipt). \<exists>pool. raw = PDict pool \<and> pool_is_live pool = live"
    by (simp, metis option.inject)
qed

definition live_pool_ok :: "pydict \<Rightarrow> bool" where
  "live_pool_ok pool \<longleftrightarrow>
     (\<exists>el mn mp mx stride. d_get pool ''elastic'' = PDict el \<and>
        d_get el ''minimum_block_count'' = PInt mn \<and> d_get el ''mapped_block_count'' = PInt mp \<and>
        d_get pool ''block_count'' = PInt mx \<and> d_get pool ''bytes_per_block'' = PInt stride \<and>
        0 < mn \<and> mn \<le> mp \<and> mp \<le> mx \<and>
        (\<forall>b. cover_count b (segments_of el) =
             (if 0 \<le> b \<and> b < mp * stride then 1 else 0)) \<and>
        distinct (map seg_id (segments_of el)) \<and> distinct (map seg_handle (segments_of el)))"

lemma elastic_pool_ok_live:
  assumes "elastic_pool_ok el bc bpb" and p: "d_get pool ''block_count'' = PInt bc"
    "d_get pool ''bytes_per_block'' = PInt bpb" "d_get pool ''elastic'' = PDict el"
  shows "live_pool_ok pool"
proof -
  from assms(1) obtain mn mp where m: "d_get el ''minimum_block_count'' = PInt mn"
    "d_get el ''mapped_block_count'' = PInt mp" "0 < mn" "mn \<le> mp" "mp \<le> bc"
    by (auto simp: elastic_pool_ok_def)
  have acc: "case (el, bc, bpb) of (el, bc, bpb) \<Rightarrow> validate_elastic_pool el bc bpb = Inr ()"
    using assms(1) by (simp add: validate_elastic_pool_iff)
  have "cover_count b (segments_of el) =
      (if 0 \<le> b \<and> b < mp * bpb then 1 else 0)" for b
    using elastic_cover.byte_once [OF acc, of b] m(2) by simp
  then show ?thesis
    unfolding live_pool_ok_def using p m elastic_cover.unique_keys [OF acc] by simp
qed

lemma receipt_pool_ok_cases:
  "receipt_pool_ok (PDict pool) \<Longrightarrow>
     if pool_is_live pool then live_pool_ok pool else d_get pool ''elastic'' = PNone"
  by (auto simp: receipt_pool_ok_def intro: elastic_pool_ok_live split: if_splits)

text \<open>
  C3. In an accepted receipt every pool uses the same kind of transport, and a pool on CUDA VMM
  carries elastic metadata whose segments cover each mapped byte exactly once and no other byte,
  under pairwise distinct segment identifiers and handle indices, with the mapped size between
  the minimum and the maximum. A pool on another transport carries no elastic metadata.
\<close>

theorem receipt_pools_cover:
  assumes "validate_registration_receipt receipt pid = Inr r"
    and "PDict pool \<in> set (receipt_pools receipt)"
  shows "(\<forall>raw \<in> set (receipt_pools receipt).
            \<exists>p. raw = PDict p \<and> pool_is_live p = pool_is_live pool) \<and>
    (if pool_is_live pool
     then \<exists>el mn mp mx stride. d_get pool ''elastic'' = PDict el \<and>
        d_get el ''minimum_block_count'' = PInt mn \<and> d_get el ''mapped_block_count'' = PInt mp \<and>
        d_get pool ''block_count'' = PInt mx \<and> d_get pool ''bytes_per_block'' = PInt stride \<and>
        0 < mn \<and> mn \<le> mp \<and> mp \<le> mx \<and>
        (\<forall>b. cover_count b (segments_of el) =
             (if 0 \<le> b \<and> b < mp * stride then 1 else 0)) \<and>
        distinct (map seg_id (segments_of el)) \<and> distinct (map seg_handle (segments_of el))
     else d_get pool ''elastic'' = PNone)"
proof
  note v = validate_receipt_Inr [OF assms(1)]
  show "\<forall>raw \<in> set (receipt_pools receipt). \<exists>p. raw = PDict p \<and> pool_is_live p = pool_is_live pool"
    using v(3) assms(2) by (metis pyval.inject(6))
  have "receipt_pool_ok (PDict pool)" using v(2) assms(2) by (simp add: list_all_iff)
  from receipt_pool_ok_cases [OF this] show "if pool_is_live pool
     then \<exists>el mn mp mx stride. d_get pool ''elastic'' = PDict el \<and>
        d_get el ''minimum_block_count'' = PInt mn \<and> d_get el ''mapped_block_count'' = PInt mp \<and>
        d_get pool ''block_count'' = PInt mx \<and> d_get pool ''bytes_per_block'' = PInt stride \<and>
        0 < mn \<and> mn \<le> mp \<and> mp \<le> mx \<and>
        (\<forall>b. cover_count b (segments_of el) =
             (if 0 \<le> b \<and> b < mp * stride then 1 else 0)) \<and>
        distinct (map seg_id (segments_of el)) \<and> distinct (map seg_handle (segments_of el))
     else d_get pool ''elastic'' = PNone"
    by (simp only: live_pool_ok_def)
qed

text \<open>A receipt of one elastic pool with two mapped segments, listed out of order.\<close>

definition sample_segment :: "string \<Rightarrow> int \<Rightarrow> int \<Rightarrow> int \<Rightarrow> pyval" where
  "sample_segment name off len h = PDict
     [(''segment_id'', PStr name), (''offset_bytes'', PInt off), (''length_bytes'', PInt len),
      (''handle_index'', PInt h)]"

definition sample_elastic :: pydict where
  "sample_elastic =
     [(''minimum_block_count'', PInt 2), (''mapped_block_count'', PInt 4),
      (''maximum_block_count'', PInt 8), (''allocation_granularity_bytes'', PInt 64),
      (''resize_alignment_blocks'', PInt 2),
      (''segments'', PList [sample_segment ''s1'' 64 64 1, sample_segment ''s0'' 0 64 0])]"

definition sample_live_pool :: pydict where
  "sample_live_pool =
     [(''binding_id'', PStr ''b''), (''capacity_pool_id'', PStr ''p''), (''generation'', PInt 1),
      (''block_count'', PInt 8), (''bytes_per_block'', PInt 32), (''descriptor'', PStr ''d''),
      (''group_ids'', PList [PStr ''g'']), (''memory_domain'', PDict []),
      (''transport'', PDict [(''kind'', PStr ''cuda_vmm'')]), (''elastic'', PDict sample_elastic)]"

definition sample_receipt :: pydict where
  "sample_receipt =
     [(''participant_id'', PStr ''vllm-0''), (''participant_epoch'', PInt 7),
      (''shared_pools'', PList [PDict sample_live_pool])]"

theorem receipt_pools_cover_witness:
  "validate_registration_receipt sample_receipt (PStr ''vllm-0'') = Inr sample_receipt \<and>
   pool_is_live sample_live_pool \<and>
   cover_count 100 (segments_of sample_elastic) = 1 \<and>
   cover_count 128 (segments_of sample_elastic) = 0"
proof -
  have v: "validate_registration_receipt sample_receipt (PStr ''vllm-0'') = Inr sample_receipt"
    by code_simp
  have m: "PDict sample_live_pool \<in> set (receipt_pools sample_receipt)"
    by (simp add: sample_receipt_def receipt_pools_def d_get_or_def)
  have l: "pool_is_live sample_live_pool"
    by (simp add: pool_is_live_def sample_live_pool_def d_get_def)
  have e: "d_get sample_live_pool ''elastic'' = PDict sample_elastic"
    "d_get sample_elastic ''mapped_block_count'' = PInt 4"
    "d_get sample_live_pool ''bytes_per_block'' = PInt 32"
    by (simp_all add: sample_live_pool_def sample_elastic_def d_get_def)
  from receipt_pools_cover [OF v m] l e
  have "\<forall>b. cover_count b (segments_of sample_elastic) =
      (if 0 \<le> b \<and> b < 4 * 32 then 1 else 0)"
    by auto
  with v l show ?thesis by simp
qed

end
