(* ===== verification/Contract_Resize.thy ===== *)
theory Contract_Resize
  imports Contract_Pool
begin

text \<open>
  Capacity leases, live-resize messages and the control envelope of \<open>contract.py\<close>.
\<close>

subsection \<open>Reserve requests and leases\<close>

definition reserve_group_step :: "string set \<Rightarrow> pyval \<Rightarrow> string set result" where
  "reserve_group_step seen raw_group =
     and_then (contract_mapping raw_group ''group'') (\<lambda>group.
     and_then (contract_nonempty (d_get group ''group_id'') ''group_id'') (\<lambda>group_id.
     if group_id \<in> seen then RaiseC ''group IDs must be unique''
     else
     and_then (contract_positive_int (d_get group ''token_capacity'') ''token_capacity'') (\<lambda>_.
     Inr (insert group_id seen))))"

definition validate_reserve_request :: "pydict \<Rightarrow> unit result" where
  "validate_reserve_request request =
     and_then (contract_mapping (d_get request ''sequence'') ''sequence'') (\<lambda>sequence.
     and_then (contract_nonempty (d_get sequence ''request_id'') ''sequence.request_id'') (\<lambda>_.
     and_then (contract_nonempty (d_get sequence ''sequence_id'') ''sequence.sequence_id'') (\<lambda>_.
     and_then (contract_nonempty_list (d_get request ''groups'') ''groups must be a non-empty list'') (\<lambda>groups.
     and_then (fold_r reserve_group_step {} groups) (\<lambda>_.
     if d_get request ''ttl_ms'' \<noteq> PNone
     then and_then (contract_positive_int (d_get request ''ttl_ms'') ''ttl_ms'') (\<lambda>_. Inr ())
     else Inr ())))))"

definition make_reserve_request ::
  "pyval \<Rightarrow> pyval \<Rightarrow> pyval \<Rightarrow> pyval list \<Rightarrow> int \<Rightarrow> pyval \<Rightarrow> pydict result" where
  "make_reserve_request request_id sequence_id token_capacity group_ids priority ttl_ms =
     and_then (contract_nonempty request_id ''request_id'') (\<lambda>rid.
     and_then (contract_nonempty sequence_id ''sequence_id'') (\<lambda>sid.
     and_then (traverse (\<lambda>group_id.
          and_then (contract_nonempty group_id ''group_id'') (\<lambda>gid.
          and_then (contract_positive_int token_capacity ''token_capacity'') (\<lambda>tokens.
          Inr (PDict [(''group_id'', PStr gid), (''token_capacity'', PInt tokens)])))) group_ids) (\<lambda>groups.
     let request =
       [(''sequence'', PDict [(''request_id'', PStr rid), (''sequence_id'', PStr sid)]),
        (''groups'', PList groups), (''priority'', PInt priority)]
     in
     and_then (if ttl_ms \<noteq> PNone
               then and_then (contract_positive_int ttl_ms ''ttl_ms'') (\<lambda>ttl.
                      Inr (request @ [(''ttl_ms'', PInt ttl)]))
               else Inr request) (\<lambda>request.
     and_then (validate_reserve_request request) (\<lambda>_. Inr request)))))"

definition validate_lease_block :: "pyval \<Rightarrow> unit result" where
  "validate_lease_block raw_block =
     and_then (contract_mapping raw_block ''lease block'') (\<lambda>block.
     if py_eq (d_get block ''kind'') (PStr ''runtime_pool'')
     then
       and_then (contract_nonempty (d_get block ''pool_id'') ''lease block pool_id'') (\<lambda>_.
       and_then (contract_nonnegative_int (d_get block ''block_index'') ''block_index'') (\<lambda>_.
       and_then (contract_positive_int (d_get block ''generation'') ''generation'') (\<lambda>_. Inr ())))
     else
       and_then (set_member (d_get block ''kind'') [''backend_opaque'', ''transport'']) (\<lambda>known.
       if known then Inr () else RaiseC ''unknown lease block handle kind''))"

definition validate_lease_group :: "pyval \<Rightarrow> unit result" where
  "validate_lease_group raw_group =
     and_then (contract_mapping raw_group ''lease group'') (\<lambda>group.
     and_then (contract_nonempty (d_get group ''group_id'') ''group_id'') (\<lambda>_.
     and_then (contract_positive_int (d_get group ''token_capacity'') ''token_capacity'') (\<lambda>_.
     and_then (contract_list (d_get_or group ''blocks'' (PList [])) ''lease blocks must be a list'') (\<lambda>blocks.
     fold_r (\<lambda>_. validate_lease_block) () blocks))))"

definition validate_lease :: "pydict \<Rightarrow> pydict result" where
  "validate_lease lease =
     and_then (contract_nonempty (d_get lease ''lease_id'') ''lease_id'') (\<lambda>_.
     and_then (contract_mapping (d_get lease ''sequence'') ''sequence'') (\<lambda>sequence.
     and_then (contract_nonempty (d_get sequence ''request_id'') ''sequence.request_id'') (\<lambda>_.
     and_then (contract_nonempty (d_get sequence ''sequence_id'') ''sequence.sequence_id'') (\<lambda>_.
     and_then (contract_nonempty_list (d_get lease ''groups'') ''lease groups must be a non-empty list'') (\<lambda>groups.
     and_then (fold_r (\<lambda>_. validate_lease_group) () groups) (\<lambda>_. Inr lease))))))"

subsection \<open>Resize actors, stages and requests\<close>

definition validate_resize_actor :: "pydict \<Rightarrow> unit result" where
  "validate_resize_actor actor =
     (let role = d_get actor ''role''
      in if py_eq role (PStr ''scheduler'')
         then if set (map fst actor) \<noteq> {''role''}
              then RaiseC ''scheduler resize actor has unknown fields'' else Inr ()
         else if \<not> py_eq role (PStr ''worker'')
         then RaiseC ''resize actor role is unsupported''
         else
           and_then (contract_mapping (d_get actor ''shard'') ''resize worker shard'') (\<lambda>shard.
           check_shard shard ''resize worker shard rank is outside its world size''))"

definition RESIZE_STAGES :: "string set" where
  "RESIZE_STAGES = {''map_workers'', ''activate_scheduler'', ''retire_scheduler'', ''unmap_workers''}"

definition validate_resize_stage :: "pyval \<Rightarrow> string result" where
  "validate_resize_stage v =
     and_then (contract_nonempty v ''resize stage'') (\<lambda>stage.
     if stage \<notin> RESIZE_STAGES then RaiseC ''resize stage is unsupported'' else Inr stage)"

definition validate_resize_poll_request :: "pydict \<Rightarrow> unit result" where
  "validate_resize_poll_request request =
     and_then (contract_positive_int (d_get request ''participant_epoch'') ''participant_epoch'') (\<lambda>_.
     and_then (contract_mapping (d_get request ''actor'') ''resize actor'') (\<lambda>actor.
     and_then (validate_resize_actor actor) (\<lambda>_.
     and_then (contract_nonnegative_int (d_get request ''applied_generation'') ''applied_generation'')
       (\<lambda>_. Inr ()))))"

definition make_resize_poll_request :: "pyval \<Rightarrow> pydict \<Rightarrow> pyval \<Rightarrow> pydict result" where
  "make_resize_poll_request participant_epoch actor applied_generation =
     (let request = [(''participant_epoch'', participant_epoch), (''actor'', PDict actor),
                     (''applied_generation'', applied_generation)]
      in and_then (validate_resize_poll_request request) (\<lambda>_. Inr request))"

definition validate_resize_ack_request :: "pydict \<Rightarrow> unit result" where
  "validate_resize_ack_request request =
     and_then (contract_positive_int (d_get request ''participant_epoch'') ''participant_epoch'') (\<lambda>_.
     and_then (contract_mapping (d_get request ''actor'') ''resize actor'') (\<lambda>actor.
     and_then (validate_resize_actor actor) (\<lambda>_.
     and_then (contract_nonempty (d_get request ''binding_id'') ''binding_id'') (\<lambda>_.
     and_then (contract_positive_int (d_get request ''resize_generation'') ''resize_generation'') (\<lambda>_.
     and_then (validate_resize_stage (d_get request ''stage'')) (\<lambda>_.
     and_then (contract_positive_int (d_get request ''applied_block_count'') ''applied_block_count'')
       (\<lambda>_. Inr ())))))))"

definition make_resize_ack_request ::
  "pyval \<Rightarrow> pydict \<Rightarrow> pyval \<Rightarrow> pyval \<Rightarrow> pyval \<Rightarrow> pyval \<Rightarrow> pydict result" where
  "make_resize_ack_request participant_epoch actor binding_id resize_generation stage
     applied_block_count =
     (let request = [(''participant_epoch'', participant_epoch), (''actor'', PDict actor),
                     (''binding_id'', binding_id), (''resize_generation'', resize_generation),
                     (''stage'', stage), (''applied_block_count'', applied_block_count)]
      in and_then (validate_resize_ack_request request) (\<lambda>_. Inr request))"

subsection \<open>Resize operations\<close>

definition physical_stage :: "string \<Rightarrow> bool" where
  "physical_stage stage \<longleftrightarrow> stage \<in> {''map_workers'', ''unmap_workers''}"

definition stage_matches :: "string \<Rightarrow> int \<Rightarrow> int \<Rightarrow> bool" where
  "stage_matches stage from_blocks target_blocks \<longleftrightarrow>
     (if from_blocks < target_blocks then stage \<in> {''map_workers'', ''activate_scheduler''}
      else stage \<in> {''retire_scheduler'', ''unmap_workers''})"

text \<open>
  The sort key of the loop checks that each element is a mapping and reads its offset, element by
  element; the sort that follows computes the same keys on the mappings.
\<close>

definition resize_segment_key :: "pyval \<Rightarrow> pydict result" where
  "resize_segment_key raw =
     and_then (contract_mapping raw ''resize segment'') (\<lambda>segment.
     and_then (contract_nonnegative_int (d_get segment ''offset_bytes'') ''offset_bytes'') (\<lambda>_.
     Inr segment))"

definition check_resize_segments :: "string \<Rightarrow> int \<Rightarrow> int \<Rightarrow> int \<Rightarrow> pyval list \<Rightarrow> unit result" where
  "check_resize_segments stage granularity start finish segments =
     (if physical_stage stage \<noteq> (segments \<noteq> [])
      then RaiseC ''worker resize phases require segments and scheduler phases forbid them''
      else
      and_then (traverse resize_segment_key segments) (\<lambda>mappings.
      and_then (segments_end ''offset_bytes'' ''segment_id''
                 ''resize segments must uniquely and densely cover the changed tail''
                 granularity start mappings) (\<lambda>expected_offset.
      if physical_stage stage \<and> expected_offset \<noteq> finish
      then RaiseC ''resize segments do not exactly cover the changed tail''
      else Inr ())))"

definition validate_resize_operation :: "pydict \<Rightarrow> pydict result" where
  "validate_resize_operation operation =
     and_then (contract_positive_int (d_get operation ''participant_epoch'') ''participant_epoch'') (\<lambda>_.
     and_then (contract_positive_int (d_get operation ''resize_generation'') ''resize_generation'') (\<lambda>_.
     and_then (contract_nonempty (d_get operation ''binding_id'') ''binding_id'') (\<lambda>_.
     and_then (validate_resize_stage (d_get operation ''stage'')) (\<lambda>stage.
     and_then (contract_positive_int (d_get operation ''from_block_count'') ''from_block_count'') (\<lambda>from_blocks.
     and_then (contract_positive_int (d_get operation ''target_block_count'') ''target_block_count'') (\<lambda>target_blocks.
     if from_blocks = target_blocks then RaiseC ''resize block counts must differ''
     else if \<not> stage_matches stage from_blocks target_blocks
     then RaiseC ''resize stage does not match direction''
     else
     and_then (contract_positive_int (d_get operation ''bytes_per_block'') ''bytes_per_block'') (\<lambda>stride.
     and_then (contract_positive_int (d_get operation ''allocation_granularity_bytes'')
                 ''allocation_granularity_bytes'') (\<lambda>granularity.
     let start = min from_blocks target_blocks * stride;
         finish = max from_blocks target_blocks * stride
     in if start mod granularity \<noteq> 0 \<or> finish mod granularity \<noteq> 0
     then RaiseC ''resize endpoints are not VMM aligned''
     else
     and_then (contract_list (d_get_or operation ''segments'' (PList []))
                 ''resize segments must be a list'') (\<lambda>segments.
     and_then (check_resize_segments stage granularity start finish segments) (\<lambda>_.
     Inr operation))))))))))"

subsection \<open>Envelopes and responses\<close>

definition make_envelope :: "pyval \<Rightarrow> pyval \<Rightarrow> pydict \<Rightarrow> pydict result" where
  "make_envelope request_id operation payload =
     and_then (contract_nonempty request_id ''request_id'') (\<lambda>rid.
     and_then (contract_nonempty operation ''operation'') (\<lambda>op.
     Inr (d_update [(''abi_version'', abi_version), (''request_id'', PStr rid),
                    (''operation'', PStr op)] payload)))"

definition validate_response :: "pydict \<Rightarrow> string \<Rightarrow> unit result" where
  "validate_response response request_id =
     and_then (contract_mapping (d_get response ''abi_version'') ''abi_version'') (\<lambda>version.
     if \<not> accepts_version version then RaiseC ''unsupported response ABI version''
     else if \<not> py_eq (d_get response ''request_id'') (PStr request_id)
     then RaiseC ''response request_id does not match request''
     else
     and_then (set_member (d_get response ''result'')
                 [''registered'', ''lease'', ''resize'', ''ack'', ''error'']) (\<lambda>known.
     if known then Inr () else RaiseC ''unknown control response result''))"

subsection \<open>What the messages guarantee\<close>

definition group_key :: "pyval \<Rightarrow> string" where
  "group_key v = (case v of PDict d \<Rightarrow> str_of (d_get d ''group_id'') | _ \<Rightarrow> [])"

definition reserve_group_ok :: "pyval \<Rightarrow> bool" where
  "reserve_group_ok v \<longleftrightarrow>
     (\<exists>d g n. v = PDict d \<and> d_get d ''group_id'' = PStr g \<and> py_strip g \<noteq> [] \<and>
        d_get d ''token_capacity'' = PInt n \<and> 0 < n)"

interpretation reserve_loop: unique_loop reserve_group_step group_key reserve_group_ok
proof
  fix seen seen' :: "string set" and x :: pyval
  show "reserve_group_step seen x = Inr seen' \<longleftrightarrow>
      reserve_group_ok x \<and> group_key x \<notin> seen \<and> seen' = insert (group_key x) seen"
    by (cases x) (auto simp: reserve_group_step_def result_simps reserve_group_ok_def group_key_def)
qed

lemma resize_stage_nonblank: "s \<in> RESIZE_STAGES \<Longrightarrow> py_strip s \<noteq> []"
proof -
  have "py_strip ''map_workers'' \<noteq> []" "py_strip ''activate_scheduler'' \<noteq> []"
    "py_strip ''retire_scheduler'' \<noteq> []" "py_strip ''unmap_workers'' \<noteq> []"
    by code_simp+
  then show "s \<in> RESIZE_STAGES \<Longrightarrow> py_strip s \<noteq> []" unfolding RESIZE_STAGES_def by blast
qed

lemma validate_resize_stage_Inr [simp]:
  "validate_resize_stage v = Inr s \<longleftrightarrow> v = PStr s \<and> s \<in> RESIZE_STAGES"
  by (auto simp: validate_resize_stage_def result_simps resize_stage_nonblank)

lemma resize_segment_key_Inr: "resize_segment_key raw = Inr d \<longleftrightarrow> raw = PDict d \<and> offset_typed d"
  by (auto simp: resize_segment_key_def result_simps offset_typed_def)

lemma resize_segment_key_iff:
  "traverse resize_segment_key xs = Inr ds \<longleftrightarrow> xs = map PDict ds \<and> list_all offset_typed ds"
  unfolding traverse_Inr_iff resize_segment_key_Inr
  by (induction ds arbitrary: xs) (auto simp: list_all2_Cons2)

text \<open>What an accepted resize operation looks like.\<close>

definition resize_segments_ok :: "string \<Rightarrow> int \<Rightarrow> int \<Rightarrow> int \<Rightarrow> pyval list \<Rightarrow> bool" where
  "resize_segments_ok stage g start finish xs \<longleftrightarrow>
     (\<exists>ds. xs = map PDict ds \<and>
        (if physical_stage stage then dense_cover g start finish ds else ds = []))"

definition resize_op_ok :: "pydict \<Rightarrow> bool" where
  "resize_op_ok op \<longleftrightarrow>
     (\<exists>epoch gen binding stage from target stride g xs.
        d_get op ''participant_epoch'' = PInt epoch \<and> 0 < epoch \<and>
        d_get op ''resize_generation'' = PInt gen \<and> 0 < gen \<and>
        d_get op ''binding_id'' = PStr binding \<and> py_strip binding \<noteq> [] \<and>
        d_get op ''stage'' = PStr stage \<and>
        d_get op ''from_block_count'' = PInt from \<and> 0 < from \<and>
        d_get op ''target_block_count'' = PInt target \<and> 0 < target \<and>
        from \<noteq> target \<and> stage_matches stage from target \<and>
        d_get op ''bytes_per_block'' = PInt stride \<and> 0 < stride \<and>
        d_get op ''allocation_granularity_bytes'' = PInt g \<and> 0 < g \<and>
        g dvd min from target * stride \<and> g dvd max from target * stride \<and>
        d_get_or op ''segments'' (PList []) = PList xs \<and>
        resize_segments_ok stage g (min from target * stride) (max from target * stride) xs)"

lemma dense_cover_Nil: "dense_cover g s e [] \<longleftrightarrow> s = e"
  by (simp add: dense_cover_def)

lemma dense_cover_offsets: "dense_cover g s e ds \<Longrightarrow> list_all offset_typed ds"
  by (auto simp: dense_cover_def list_all_iff seg_typed_def offset_typed_def)

lemma stage_matches_known:
  "stage_matches stage a b \<Longrightarrow> stage \<in> RESIZE_STAGES"
  by (auto simp: stage_matches_def RESIZE_STAGES_def split: if_splits)

lemma check_resize_segments_iff:
  assumes "start \<noteq> finish"
  shows "check_resize_segments stage g start finish xs = Inr u \<longleftrightarrow>
    resize_segments_ok stage g start finish xs"
  using assms unfolding resize_segments_ok_def
  by (cases "physical_stage stage")
    (auto simp: check_resize_segments_def result_simps resize_segment_key_iff dense_cover_Nil
      dense_cover_offsets)

lemma resize_endpoints_differ:
  fixes from_blocks :: int
  shows "from_blocks \<noteq> target \<Longrightarrow> 0 < stride \<Longrightarrow>
    min from_blocks target * stride \<noteq> max from_blocks target * stride"
  by (cases "from_blocks < target") (auto simp: min_def max_def)

lemma resize_operation_accepted:
  "validate_resize_operation op = Inr r \<longleftrightarrow> r = op \<and> resize_op_ok op"
  unfolding resize_op_ok_def
  by (auto simp: validate_resize_operation_def result_simps Let_def mod_eq_0_iff_dvd
      check_resize_segments_iff resize_endpoints_differ dest: stage_matches_known)

text \<open>
  A resize operation is accepted, unchanged, exactly when its fields are typed and positive,
  the block counts differ, the stage belongs to the direction (grow: map workers, then activate
  the scheduler; shrink: retire the scheduler, then unmap workers), both endpoints are aligned,
  and its segments, in any order, form a dense cover of the changed tail if the stage is physical
  and are absent otherwise.
\<close>

theorem resize_operation_accepted_iff:
  "validate_resize_operation op = Inr r \<longleftrightarrow> r = op \<and>
     (\<exists>epoch gen binding stage from target stride g xs.
        d_get op ''participant_epoch'' = PInt epoch \<and> 0 < epoch \<and>
        d_get op ''resize_generation'' = PInt gen \<and> 0 < gen \<and>
        d_get op ''binding_id'' = PStr binding \<and> py_strip binding \<noteq> [] \<and>
        d_get op ''stage'' = PStr stage \<and>
        d_get op ''from_block_count'' = PInt from \<and> 0 < from \<and>
        d_get op ''target_block_count'' = PInt target \<and> 0 < target \<and>
        from \<noteq> target \<and>
        stage \<in> (if from < target then {''map_workers'', ''activate_scheduler''}
                 else {''retire_scheduler'', ''unmap_workers''}) \<and>
        d_get op ''bytes_per_block'' = PInt stride \<and> 0 < stride \<and>
        d_get op ''allocation_granularity_bytes'' = PInt g \<and> 0 < g \<and>
        g dvd min from target * stride \<and> g dvd max from target * stride \<and>
        d_get_or op ''segments'' (PList []) = PList xs \<and>
        resize_segments_ok stage g (min from target * stride) (max from target * stride) xs)"
  unfolding resize_operation_accepted resize_op_ok_def stage_matches_def
  by (simp only: if_distrib [of "\<lambda>s. _ \<in> s"])

text \<open>The byte range a resize operation changes.\<close>

definition op_int :: "pydict \<Rightarrow> string \<Rightarrow> int" where
  "op_int op field = int_of (d_get op field)"

definition tail_start :: "pydict \<Rightarrow> int" where
  "tail_start op =
     min (op_int op ''from_block_count'') (op_int op ''target_block_count'') * op_int op ''bytes_per_block''"

definition tail_end :: "pydict \<Rightarrow> int" where
  "tail_end op =
     max (op_int op ''from_block_count'') (op_int op ''target_block_count'') * op_int op ''bytes_per_block''"

definition physical_op :: "pydict \<Rightarrow> bool" where
  "physical_op op \<longleftrightarrow> validate_resize_operation op = Inr op \<and> physical_stage (str_of (d_get op ''stage''))"

lemma segments_of_default:
  "d_get_or op ''segments'' (PList []) = PList (map PDict ds) \<Longrightarrow> segments_of op = ds"
  by (auto simp: segments_of_def d_get_def d_get_or_def comp_def split: option.splits)

interpretation resize_cover: segment_cover physical_op segments_of tail_start tail_end
  "\<lambda>op. op_int op ''allocation_granularity_bytes''"
proof
  fix op assume "physical_op op"
  then have ok: "resize_op_ok op" and ph: "physical_stage (str_of (d_get op ''stage''))"
    by (auto simp: physical_op_def resize_operation_accepted)
  from ok obtain stage fb tb stride g xs where f:
      "d_get op ''stage'' = PStr stage" "d_get op ''from_block_count'' = PInt fb"
      "d_get op ''target_block_count'' = PInt tb" "d_get op ''bytes_per_block'' = PInt stride"
      "d_get op ''allocation_granularity_bytes'' = PInt g"
      "d_get_or op ''segments'' (PList []) = PList xs"
    and "resize_segments_ok stage g (min fb tb * stride) (max fb tb * stride) xs"
    unfolding resize_op_ok_def by (elim exE conjE)
  then obtain ds where "xs = map PDict ds"
    "dense_cover g (min fb tb * stride) (max fb tb * stride) ds"
    using ph by (auto simp: resize_segments_ok_def)
  then show "dense_cover (op_int op ''allocation_granularity_bytes'') (tail_start op) (tail_end op)
      (segments_of op)"
    using f segments_of_default [of op ds] by (simp add: op_int_def tail_start_def tail_end_def)
qed

text \<open>
  C11. In an accepted worker-stage operation the segments cover every byte between the smaller
  and the larger pool size exactly once and no other byte, their lengths add up to the change in
  pool size, and no two share an identifier or a handle; an accepted scheduler-stage operation
  has no segments.
\<close>

theorem resize_tail_covered_once:
  assumes "validate_resize_operation op = Inr r"
  shows "if physical_stage (str_of (d_get op ''stage''))
     then (\<forall>b. cover_count b (segments_of op) = (if tail_start op \<le> b \<and> b < tail_end op then 1 else 0)) \<and>
       sum_list (map (\<lambda>d. snd (seg_interval d)) (segments_of op)) =
         \<bar>op_int op ''target_block_count'' - op_int op ''from_block_count''\<bar> * op_int op ''bytes_per_block'' \<and>
       distinct (map seg_id (segments_of op)) \<and> distinct (map seg_handle (segments_of op))
     else segments_of op = []"
proof (cases "physical_stage (str_of (d_get op ''stage''))")
  case True
  with assms have ph: "physical_op op" by (auto simp: physical_op_def resize_operation_accepted)
  have "tail_end op - tail_start op =
      \<bar>op_int op ''target_block_count'' - op_int op ''from_block_count''\<bar> * op_int op ''bytes_per_block''"
    by (auto simp: tail_end_def tail_start_def min_def max_def left_diff_distrib)
  then show ?thesis
    using True resize_cover.byte_once [OF ph] resize_cover.total_bytes [OF ph]
      resize_cover.unique_keys [OF ph] by simp
next
  case False
  have "resize_op_ok op" using assms by (simp add: resize_operation_accepted)
  then obtain stage g s e xs where f: "d_get op ''stage'' = PStr stage"
      "d_get_or op ''segments'' (PList []) = PList xs" and "resize_segments_ok stage g s e xs"
    unfolding resize_op_ok_def by (elim exE conjE)
  then have "xs = map PDict []" using False by (auto simp: resize_segments_ok_def)
  with f False show ?thesis using segments_of_default [of op "[]"] by simp
qed

definition sample_resize :: pydict where
  "sample_resize =
     [(''participant_epoch'', PInt 7), (''resize_generation'', PInt 3), (''binding_id'', PStr ''b''),
      (''stage'', PStr ''map_workers''), (''from_block_count'', PInt 4),
      (''target_block_count'', PInt 8), (''bytes_per_block'', PInt 32),
      (''allocation_granularity_bytes'', PInt 64),
      (''segments'', PList [sample_segment ''s3'' 192 64 1, sample_segment ''s2'' 128 64 0])]"

theorem resize_tail_covered_once_witness:
  "validate_resize_operation sample_resize = Inr sample_resize \<and>
   cover_count 200 (segments_of sample_resize) = 1 \<and> cover_count 127 (segments_of sample_resize) = 0"
proof -
  have v: "validate_resize_operation sample_resize = Inr sample_resize" by code_simp
  have ph: "physical_stage (str_of (d_get sample_resize ''stage''))"
    "tail_start sample_resize = 128" "tail_end sample_resize = 256" by code_simp+
  from resize_tail_covered_once [OF v] ph v show ?thesis by simp
qed

definition reserve_group :: "int \<Rightarrow> string \<Rightarrow> pyval" where
  "reserve_group n g = PDict [(''group_id'', PStr g), (''token_capacity'', PInt n)]"

lemma reserve_groups_iff:
  "traverse (\<lambda>g. and_then (contract_nonempty g f) (\<lambda>gid.
        and_then (contract_positive_int tokens f') (\<lambda>n. Inr (reserve_group n gid)))) gs = Inr out \<longleftrightarrow>
      (gs = [] \<and> out = []) \<or> (\<exists>n names. tokens = PInt n \<and> 0 < n \<and> gs = map PStr names \<and> names \<noteq> [] \<and>
        (\<forall>g \<in> set names. py_strip g \<noteq> []) \<and> out = map (reserve_group n) names)"
proof (cases "\<exists>n. tokens = PInt n \<and> 0 < n")
  case True
  then obtain n where n: "tokens = PInt n" "0 < n" by blast
  have "traverse (\<lambda>g. and_then (contract_nonempty g f) (\<lambda>gid. Inr (reserve_group n gid))) gs = Inr out \<longleftrightarrow>
      (\<exists>names. gs = map PStr names \<and> (\<forall>g \<in> set names. py_strip g \<noteq> []) \<and> out = map (reserve_group n) names)"
  proof (induction gs arbitrary: out)
    case (Cons g gs)
    show ?case unfolding traverse.simps and_then_Inr_iff Cons.IH
      by (fastforce simp: Cons_eq_map_conv)
  qed auto
  moreover have pos: "contract_positive_int tokens f' = Inr n" using n by simp
  ultimately show ?thesis unfolding pos and_then_simps(1) using n by auto
next
  case False
  then obtain e where "contract_positive_int tokens f' = Inl e"
    by (cases "contract_positive_int tokens f'") auto
  then show ?thesis using False by (cases gs) (auto simp: and_then_Inr_iff)
qed

lemma group_key_reserve_group [simp]: "group_key (reserve_group n g) = g"
  by (simp add: group_key_def reserve_group_def d_get_def)

lemma reserve_group_ok_iff [simp]: "reserve_group_ok (reserve_group n g) \<longleftrightarrow> py_strip g \<noteq> [] \<and> 0 < n"
  by (simp add: reserve_group_ok_def reserve_group_def d_get_def)

lemma distinct_group_keys [simp]: "map (group_key \<circ> reserve_group n) names = names"
  by (simp add: comp_def)

text \<open>
  A reserve request is built exactly from non-blank request and sequence identifiers, a
  positive token capacity, a non-empty list of pairwise distinct non-blank group identifiers and
  an absent or positive time to live; it names every group with the same capacity.
\<close>

theorem make_reserve_iff:
  "make_reserve_request request_id sequence_id tokens group_ids priority ttl = Inr r \<longleftrightarrow>
     (\<exists>rid sid n names. request_id = PStr rid \<and> py_strip rid \<noteq> [] \<and>
        sequence_id = PStr sid \<and> py_strip sid \<noteq> [] \<and> tokens = PInt n \<and> 0 < n \<and>
        group_ids = map PStr names \<and> names \<noteq> [] \<and> list_all (\<lambda>g. py_strip g \<noteq> []) names \<and>
        distinct names \<and> (ttl = PNone \<or> (\<exists>t. ttl = PInt t \<and> 0 < t)) \<and>
        r = [(''sequence'', PDict [(''request_id'', PStr rid), (''sequence_id'', PStr sid)]),
             (''groups'', PList (map (\<lambda>g. PDict [(''group_id'', PStr g), (''token_capacity'', PInt n)]) names)),
             (''priority'', PInt priority)] @ (if ttl = PNone then [] else [(''ttl_ms'', ttl)]))"
  unfolding list_all_iff make_reserve_request_def Let_def reserve_group_def [symmetric] and_then_Inr_iff
    reserve_groups_iff contract_nonempty_Inr
  apply (cases "ttl = PNone")
  apply (auto simp: result_simps validate_reserve_request_def d_get_def
      reserve_loop.loop_from_empty list_all_iff)
  done

end
