(* ===== verification/Contract_Registration.thy ===== *)
theory Contract_Registration
  imports Contract_Resize
begin

text \<open>
  Participant registrations of \<open>contract.py\<close>: the capabilities of the two tiers, the
  capacity model, the topology and the provisioning grant.
\<close>

subsection \<open>Capabilities\<close>

definition kind_dict :: "string \<Rightarrow> pyval" where
  "kind_dict k = PDict [(''kind'', PStr k)]"

definition opaque_capabilities :: pydict where
  "opaque_capabilities =
     [(''abi_version'', abi_version), (''tier'', PStr ''kv_connected''),
      (''metadata_mode'', PStr ''opaque''), (''ownership'', PStr ''backend''),
      (''features'', PList [PStr ''capacity_leasing'']),
      (''transports'', PList [kind_dict ''backend_opaque''])]"

text \<open>
  The extra features are appended by \<open>shared_pool_registration\<close> to the list of the
  capabilities, after \<open>live_pool_resize\<close>.
\<close>

definition shared_pool_capabilities :: "bool \<Rightarrow> pyval list \<Rightarrow> pydict" where
  "shared_pool_capabilities live_resize extra =
     [(''abi_version'', abi_version), (''tier'', PStr ''shared_pool''),
      (''metadata_mode'', PStr ''structured''), (''ownership'', PStr ''kapsl_runtime''),
      (''features'', PList ([PStr ''capacity_leasing'', PStr ''direct_attention_access'',
          PStr ''external_pool_attachment'', PStr ''participant_block_selection''] @
          (if live_resize then [PStr ''live_pool_resize''] else []) @ extra)),
      (''transports'', PList [kind_dict (if live_resize then ''cuda_vmm'' else ''cuda_ipc'')])]"

subsection \<open>Provisioning grants\<close>

definition is_lower_hex :: "char \<Rightarrow> bool" where
  "is_lower_hex c = (let n = of_char c :: nat in (48 \<le> n \<and> n \<le> 57) \<or> (97 \<le> n \<and> n \<le> 102))"

text \<open>\<open>re.fullmatch(r"sha256:[0-9a-f]{64}", digest)\<close>.\<close>

definition canonical_sha256 :: "string \<Rightarrow> bool" where
  "canonical_sha256 s \<longleftrightarrow>
     take 7 s = ''sha256:'' \<and> length s = 71 \<and> list_all is_lower_hex (drop 7 s)"

definition validate_provisioning_grant :: "pydict \<Rightarrow> unit result" where
  "validate_provisioning_grant grant =
     and_then (contract_nonempty (d_get grant ''token'') ''provisioning grant token'') (\<lambda>token.
     if 256 < length token then RaiseC ''provisioning grant token is too long''
     else
     and_then (contract_nonempty (d_get grant ''geometry_digest'') ''provisioning grant geometry_digest'') (\<lambda>digest.
     if \<not> canonical_sha256 digest
     then RaiseC ''provisioning grant geometry_digest must be canonical sha256''
     else
     and_then (contract_positive_int (d_get grant ''authority_generation'')
                 ''provisioning grant authority_generation'') (\<lambda>_.
     and_then (contract_positive_int (d_get grant ''expires_at_unix_ms'')
                 ''provisioning grant expires_at_unix_ms'') (\<lambda>_. Inr ()))))"

subsection \<open>Topology\<close>

definition topology_layer_step :: "int set \<Rightarrow> pyval \<Rightarrow> int set result" where
  "topology_layer_step layer_indices raw_layer =
     and_then (contract_mapping raw_layer ''topology layer'') (\<lambda>layer.
     and_then (contract_nonnegative_int (d_get layer ''index'') ''topology layer index'') (\<lambda>index.
     if index \<in> layer_indices then RaiseC ''topology layer indices must be unique''
     else
     and_then (if d_get layer ''name'' \<noteq> PNone
               then and_then (contract_nonempty (d_get layer ''name'') ''topology layer name'') (\<lambda>_. Inr ())
               else Inr ()) (\<lambda>_.
     Inr (insert index layer_indices))))"

definition check_element_type :: "pydict \<Rightarrow> unit result" where
  "check_element_type element_type =
     and_then (contract_nonempty (d_get element_type ''kind'') ''topology element_type kind'') (\<lambda>element_kind.
     if element_kind = ''custom''
     then and_then (contract_nonempty (d_get element_type ''name'') ''topology element_type custom name'')
            (\<lambda>_. Inr ())
     else if element_kind \<notin> {''f16'', ''bf16'', ''f32'', ''i8'', ''fp8_e4m3''}
     then RaiseC (fmt [''unsupported topology element_type kind '', py_repr element_kind])
     else Inr ())"

definition check_paged_geometry :: "pydict \<Rightarrow> unit result" where
  "check_paged_geometry geometry =
     (if \<not> py_eq (d_get geometry ''kind'') (PStr ''paged_attention'')
      then RaiseC ''initial vLLM shared_pool support requires paged_attention geometry''
      else
      and_then (fold_r (\<lambda>_ field.
          and_then (contract_positive_int (d_get geometry field) (fmt [''topology geometry '', field]))
            (\<lambda>_. Inr ()))
          () [''block_size_tokens'', ''kv_heads'', ''key_head_dim'', ''value_head_dim'']) (\<lambda>_.
      and_then (contract_mapping (d_get geometry ''element_type'') ''topology element_type'') (\<lambda>element_type.
      and_then (check_element_type element_type) (\<lambda>_.
      and_then (contract_mapping (d_get geometry ''layout'') ''topology layout'') (\<lambda>layout.
      and_then (contract_nonempty (d_get layout ''kind'') ''topology layout kind'') (\<lambda>_. Inr ()))))))"

definition check_cache_policy :: "pydict \<Rightarrow> unit result" where
  "check_cache_policy policy =
     and_then (set_member (d_get policy ''kind'') [''full_attention'', ''sliding_window'']) (\<lambda>known.
     if \<not> known then RaiseC ''unsupported vLLM cache policy''
     else if py_eq (d_get policy ''kind'') (PStr ''sliding_window'')
     then and_then (contract_positive_int (d_get policy ''window_tokens'') ''sliding window tokens'')
            (\<lambda>_. Inr ())
     else Inr ())"

definition topology_group_step :: "string set \<Rightarrow> pyval \<Rightarrow> string set result" where
  "topology_group_step topology_ids raw_group =
     and_then (contract_mapping raw_group ''topology cache group'') (\<lambda>group.
     and_then (contract_nonempty (d_get group ''group_id'') ''topology group_id'') (\<lambda>group_id.
     if group_id \<in> topology_ids then RaiseC ''topology cache group IDs must be unique''
     else
     and_then (contract_nonempty_list (d_get group ''layers'')
                 ''topology cache group layers must be non-empty'') (\<lambda>layers.
     and_then (fold_r topology_layer_step {} layers) (\<lambda>_.
     and_then (contract_mapping (d_get group ''geometry'') ''topology geometry'') (\<lambda>geometry.
     and_then (check_paged_geometry geometry) (\<lambda>_.
     and_then (contract_mapping (d_get group ''policy'') ''topology policy'') (\<lambda>policy.
     and_then (check_cache_policy policy) (\<lambda>_.
     Inr (insert group_id topology_ids)))))))))"

definition check_topology_shard :: "pydict \<Rightarrow> unit result" where
  "check_topology_shard shard =
     and_then (contract_positive_int (d_get_or shard ''tensor_parallel_world_size'' (PInt 1))
                 ''tensor_parallel_world_size'') (\<lambda>tp_world.
     and_then (contract_positive_int (d_get_or shard ''pipeline_parallel_world_size'' (PInt 1))
                 ''pipeline_parallel_world_size'') (\<lambda>pp_world.
     and_then (contract_nonnegative_int (d_get_or shard ''tensor_parallel_rank'' (PInt 0))
                 ''tensor_parallel_rank'') (\<lambda>tp_rank.
     and_then (contract_nonnegative_int (d_get_or shard ''pipeline_parallel_rank'' (PInt 0))
                 ''pipeline_parallel_rank'') (\<lambda>pp_rank.
     if tp_rank \<ge> tp_world \<or> pp_rank \<ge> pp_world
     then RaiseC ''topology shard rank is outside its world size'' else Inr ()))))"

definition validate_topology :: "pydict \<Rightarrow> string \<Rightarrow> string set \<Rightarrow> pydict \<Rightarrow> unit result" where
  "validate_topology topology model_fingerprint capacity_group_ids capabilities =
     and_then (contract_mapping (d_get topology ''abi_version'') ''topology abi_version'') (\<lambda>topology_version.
     if \<not> accepts_version topology_version then RaiseC ''unsupported topology ABI version''
     else
     and_then (contract_mapping (d_get capabilities ''abi_version'') ''capability ABI version'') (\<lambda>capability_version.
     if \<not> py_eq (PDict topology_version) (PDict capability_version)
     then RaiseC ''topology and capability ABI versions must match''
     else if \<not> py_eq (d_get topology ''model_fingerprint'') (PStr model_fingerprint)
     then RaiseC ''topology model fingerprint must match registration''
     else
     and_then (contract_mapping (d_get_or topology ''shard'' (PDict [])) ''topology shard'') (\<lambda>shard.
     and_then (check_topology_shard shard) (\<lambda>_.
     and_then (contract_nonempty_list (d_get topology ''cache_groups'')
                 ''topology cache_groups must be non-empty'') (\<lambda>cache_groups.
     if 1 < length cache_groups \<and>
        \<not> (case d_get_or capabilities ''features'' (PList []) of
             PList fs \<Rightarrow> py_in (PStr ''multiple_cache_groups'') fs | _ \<Rightarrow> False)
     then RaiseC ''multiple topology groups require a capability''
     else
     and_then (fold_r topology_group_step {} cache_groups) (\<lambda>topology_ids.
     if topology_ids \<noteq> capacity_group_ids
     then RaiseC ''topology and capacity model must describe the same groups''
     else Inr ()))))))"

subsection \<open>Capacity groups\<close>

text \<open>The tuples by which memory domains are compared.\<close>

datatype domain_identity =
    HostDomain
  | CudaDomain int
  | ProviderDomain string string "int option"

definition domain_identity_of :: "pyval \<Rightarrow> domain_identity result" where
  "domain_identity_of raw_domain =
     and_then (contract_mapping raw_domain ''memory domain'') (\<lambda>domain.
     and_then (contract_nonempty (d_get domain ''kind'') ''memory domain kind'') (\<lambda>kind.
     if kind = ''host'' then Inr HostDomain
     else if kind = ''cuda''
     then and_then (contract_nonnegative_int (d_get domain ''device_id'') ''device_id'')
            (\<lambda>device. Inr (CudaDomain device))
     else if kind \<in> {''host_pinned'', ''host_mapped'', ''provider''}
     then and_then (contract_nonempty (d_get domain ''provider'') ''memory domain provider'') (\<lambda>provider.
          if d_get domain ''device_id'' \<noteq> PNone
          then and_then (contract_nonnegative_int (d_get domain ''device_id'') ''device_id'')
                 (\<lambda>device. Inr (ProviderDomain kind provider (Some device)))
          else Inr (ProviderDomain kind provider None))
     else RaiseC (fmt [''unknown KV memory domain kind '', py_repr kind])))"

definition memory_domain_step :: "domain_identity set \<Rightarrow> pyval \<Rightarrow> domain_identity set result" where
  "memory_domain_step seen_domains raw_domain =
     and_then (domain_identity_of raw_domain) (\<lambda>identity.
     if identity \<in> seen_domains then RaiseC ''capacity memory domains must be unique''
     else Inr (insert identity seen_domains))"

definition check_max_allocations :: "bool \<Rightarrow> pydict \<Rightarrow> unit result" where
  "check_max_allocations is_shared_pool grp =
     (if d_get grp ''max_allocations'' \<noteq> PNone
      then and_then (contract_positive_int (d_get grp ''max_allocations'') ''max_allocations'')
             (\<lambda>_. Inr ())
      else if is_shared_pool then RaiseC ''shared_pool groups require max_allocations''
      else Inr ())"

type_synonym pool_domains = "string \<rightharpoonup> domain_identity set"

definition capacity_group_step ::
  "bool \<Rightarrow> string set \<times> pool_domains \<Rightarrow> pyval \<Rightarrow> (string set \<times> pool_domains) result" where
  "capacity_group_step is_shared_pool st raw_group =
     (case st of (seen, pool_domains) \<Rightarrow>
     and_then (contract_mapping raw_group ''capacity group'') (\<lambda>group.
     and_then (contract_nonempty (d_get group ''group_id'') ''capacity group_id'') (\<lambda>group_id.
     and_then (contract_nonempty (d_get group ''pool_id'') ''capacity pool_id'') (\<lambda>pool_id.
     if group_id \<in> seen then RaiseC ''capacity group IDs must be unique''
     else
     and_then (contract_positive_int (d_get group ''allocation_granularity_tokens'')
                 ''allocation_granularity_tokens'') (\<lambda>_.
     and_then (contract_positive_int (d_get group ''bytes_per_allocation'') ''bytes_per_allocation'') (\<lambda>_.
     and_then (contract_nonempty_list (d_get group ''memory_domains'')
                 ''capacity group memory_domains must be a non-empty list'') (\<lambda>memory_domains.
     and_then (fold_r memory_domain_step {} memory_domains) (\<lambda>seen_domains.
     let previous_domains = (case pool_domains pool_id of None \<Rightarrow> seen_domains | Some s \<Rightarrow> s)
     in if previous_domains \<noteq> seen_domains
     then RaiseC ''capacity groups sharing a pool must name the same memory domains''
     else
     and_then (check_max_allocations is_shared_pool group) (\<lambda>_.
     Inr (insert group_id seen, pool_domains(pool_id \<mapsto> previous_domains)))))))))))"

subsection \<open>Registrations\<close>

definition validate_opaque_tier :: "pydict \<Rightarrow> pydict \<Rightarrow> pyval list \<Rightarrow> unit result" where
  "validate_opaque_tier registration capabilities transports =
     (if \<not> py_eq (d_get capabilities ''metadata_mode'') (PStr ''opaque'')
      then RaiseC ''kv_connected vLLM must use opaque metadata''
      else if \<not> py_eq (d_get capabilities ''ownership'') (PStr ''backend'')
      then RaiseC ''opaque vLLM KV must remain backend owned''
      else if \<not> py_in (kind_dict ''backend_opaque'') transports
      then RaiseC ''backend_opaque transport is required''
      else if d_has registration ''topology''
      then RaiseC ''opaque registrations cannot include a topology''
      else if d_has registration ''adapter_profile''
      then RaiseC ''opaque registrations cannot include an adapter_profile''
      else Inr ())"

definition required_shared_features :: "pyval list" where
  "required_shared_features =
     [PStr ''direct_attention_access'', PStr ''external_pool_attachment'',
      PStr ''participant_block_selection'']"

definition validate_shared_tier ::
  "pydict \<Rightarrow> pydict \<Rightarrow> pyval list \<Rightarrow> pyval list \<Rightarrow> unit result" where
  "validate_shared_tier registration capabilities features transports =
     (if \<not> py_eq (d_get capabilities ''metadata_mode'') (PStr ''structured'')
      then RaiseC ''shared_pool vLLM requires structured metadata''
      else if \<not> py_eq (d_get capabilities ''ownership'') (PStr ''kapsl_runtime'')
      then RaiseC ''shared_pool KV must be Kapsl owned''
      else if \<not> list_all hashable features then Raise TypeError ''unhashable type''
      else if \<not> list_all (\<lambda>f. py_in f features) required_shared_features
      then RaiseC ''shared_pool requires direct attention, attachment, and participant block selection''
      else
      let live_resize = py_in (PStr ''live_pool_resize'') features
      in if \<not> py_in (kind_dict (if live_resize then ''cuda_vmm'' else ''cuda_ipc'')) transports
         then RaiseC ''shared_pool vLLM transport does not match live-resize capabilities''
         else if live_resize \<and> \<not> py_eq (PList transports) (PList [kind_dict ''cuda_vmm''])
         then RaiseC ''live-resize shared_pool vLLM requires only cuda_vmm transport''
         else
           and_then (contract_mapping (d_get registration ''adapter_profile'') ''adapter profile'')
             validate_adapter_profile)"

definition validate_grant_section :: "pydict \<Rightarrow> pydict \<Rightarrow> pyval list \<Rightarrow> bool \<Rightarrow> unit result" where
  "validate_grant_section registration capabilities features is_shared_pool =
     (let grant = d_get registration ''provisioning_grant''
      in if py_in (PStr ''provisioning_grant'') features \<noteq> (grant \<noteq> PNone)
         then RaiseC ''provisioning_grant capability and proof must be present together''
         else if grant \<noteq> PNone
         then if \<not> is_shared_pool \<or> \<not> py_eq (d_get capabilities ''ownership'') (PStr ''kapsl_runtime'')
              then RaiseC ''provisioning grants require a runtime-owned shared pool''
              else and_then (contract_mapping grant ''provisioning grant'') validate_provisioning_grant
         else Inr ())"

definition validate_registration :: "pydict \<Rightarrow> unit result" where
  "validate_registration registration =
     and_then (contract_nonempty (d_get registration ''participant_id'') ''participant_id'') (\<lambda>_.
     and_then (contract_nonempty (d_get registration ''backend'') ''backend'') (\<lambda>_.
     and_then (contract_nonempty (d_get registration ''model_fingerprint'') ''model_fingerprint'') (\<lambda>model_fingerprint.
     and_then (contract_mapping (d_get registration ''capabilities'') ''capabilities'') (\<lambda>capabilities.
     and_then (contract_mapping (d_get capabilities ''abi_version'') ''abi_version'') (\<lambda>version.
     if \<not> accepts_version version then RaiseC ''unsupported capability ABI version''
     else
     and_then (contract_list (d_get capabilities ''features'')
                 ''capability features and transports must be lists'') (\<lambda>features.
     and_then (contract_list (d_get capabilities ''transports'')
                 ''capability features and transports must be lists'') (\<lambda>transports.
     if \<not> py_in (PStr ''capacity_leasing'') features
     then RaiseC ''capacity_leasing feature is required''
     else
     let tier = d_get capabilities ''tier'';
         is_shared_pool = py_eq tier (PStr ''shared_pool'')
     in
     and_then (if py_eq tier (PStr ''kv_connected'')
               then validate_opaque_tier registration capabilities transports
               else if is_shared_pool
               then validate_shared_tier registration capabilities features transports
               else RaiseC ''vLLM connector has an unsupported KV tier'') (\<lambda>_.
     and_then (contract_mapping (d_get registration ''capacity_model'') ''capacity_model'') (\<lambda>capacity_model.
     and_then (contract_nonempty_list (d_get capacity_model ''groups'')
                 ''capacity_model.groups must be a non-empty list'') (\<lambda>groups.
     and_then (fold_r (capacity_group_step is_shared_pool) ({}, \<lambda>_. None) groups)
       (\<lambda>(seen, pool_domains).
     and_then (if is_shared_pool
               then and_then (contract_mapping (d_get registration ''topology'') ''topology'') (\<lambda>topology.
                      validate_topology topology model_fingerprint seen capabilities)
               else Inr ()) (\<lambda>_.
     validate_grant_section registration capabilities features is_shared_pool))))))))))))"

definition opaque_registration :: "pyval \<Rightarrow> pyval \<Rightarrow> pydict list \<Rightarrow> pyval \<Rightarrow> pydict result" where
  "opaque_registration participant_id model_fingerprint capacity_groups backend =
     and_then (contract_nonempty participant_id ''participant_id'') (\<lambda>participant.
     and_then (contract_nonempty backend ''backend'') (\<lambda>backend_name.
     and_then (contract_nonempty model_fingerprint ''model_fingerprint'') (\<lambda>fingerprint.
     let registration =
       [(''participant_id'', PStr participant), (''backend'', PStr backend_name),
        (''model_fingerprint'', PStr fingerprint), (''capabilities'', PDict opaque_capabilities),
        (''capacity_model'', PDict [(''groups'', PList (map PDict capacity_groups))])]
     in and_then (validate_registration registration) (\<lambda>_. Inr registration))))"

definition shared_pool_registration ::
  "pyval \<Rightarrow> pyval \<Rightarrow> pydict list \<Rightarrow> pydict \<Rightarrow> pydict \<Rightarrow> pyval \<Rightarrow> pydict option \<Rightarrow> bool \<Rightarrow>
   pydict result" where
  "shared_pool_registration participant_id model_fingerprint capacity_groups topology profile
     backend provisioning_grant live_resize =
     and_then (contract_nonempty participant_id ''participant_id'') (\<lambda>participant.
     and_then (contract_nonempty backend ''backend'') (\<lambda>backend_name.
     and_then (contract_nonempty model_fingerprint ''model_fingerprint'') (\<lambda>fingerprint.
     let capabilities = shared_pool_capabilities live_resize
           ((if 1 < length capacity_groups then [PStr ''multiple_cache_groups''] else []) @
            (if provisioning_grant \<noteq> None then [PStr ''provisioning_grant''] else []));
         registration =
       [(''participant_id'', PStr participant), (''backend'', PStr backend_name),
        (''model_fingerprint'', PStr fingerprint), (''capabilities'', PDict capabilities),
        (''capacity_model'', PDict [(''groups'', PList (map PDict capacity_groups))]),
        (''adapter_profile'', PDict profile), (''topology'', PDict topology)] @
       (case provisioning_grant of None \<Rightarrow> [] | Some g \<Rightarrow> [(''provisioning_grant'', PDict g)])
     in and_then (validate_registration registration) (\<lambda>_. Inr registration))))"

subsection \<open>What an accepted registration guarantees\<close>

lemma optional_name_iff:
  "(if v \<noteq> PNone then and_then (contract_nonempty v f) (\<lambda>_. Inr ()) else Inr ()) = Inr () \<longleftrightarrow>
     v = PNone \<or> (\<exists>n. v = PStr n \<and> py_strip n \<noteq> [])"
  by (cases "v = PNone") (auto simp: result_simps)

definition layer_key :: "pyval \<Rightarrow> int" where
  "layer_key v = (case v of PDict d \<Rightarrow> int_of (d_get d ''index'') | _ \<Rightarrow> 0)"

definition layer_ok :: "pyval \<Rightarrow> bool" where
  "layer_ok v \<longleftrightarrow>
     (\<exists>d i. v = PDict d \<and> d_get d ''index'' = PInt i \<and> 0 \<le> i \<and>
        (d_get d ''name'' = PNone \<or> (\<exists>n. d_get d ''name'' = PStr n \<and> py_strip n \<noteq> [])))"

interpretation layer_loop: unique_loop topology_layer_step layer_key layer_ok
proof
  fix seen seen' :: "int set" and x :: pyval
  show "topology_layer_step seen x = Inr seen' \<longleftrightarrow>
      layer_ok x \<and> layer_key x \<notin> seen \<and> seen' = insert (layer_key x) seen"
    by (cases x) (auto simp: topology_layer_step_def result_simps layer_ok_def layer_key_def
        optional_name_iff)
qed

text \<open>A topology group apart from its identifier.\<close>

definition topology_group_body_ok :: "pydict \<Rightarrow> bool" where
  "topology_group_body_ok d \<longleftrightarrow>
     (\<exists>ls g p. d_get d ''layers'' = PList ls \<and> ls \<noteq> [] \<and> list_all layer_ok ls \<and>
        distinct (map layer_key ls) \<and>
        d_get d ''geometry'' = PDict g \<and> check_paged_geometry g = Inr () \<and>
        d_get d ''policy'' = PDict p \<and> check_cache_policy p = Inr ())"

definition topology_group_ok :: "pyval \<Rightarrow> bool" where
  "topology_group_ok v \<longleftrightarrow>
     (\<exists>d gid. v = PDict d \<and> d_get d ''group_id'' = PStr gid \<and> py_strip gid \<noteq> [] \<and>
        topology_group_body_ok d)"

interpretation topology_loop: unique_loop topology_group_step group_key topology_group_ok
proof
  fix seen seen' :: "string set" and x :: pyval
  show "topology_group_step seen x = Inr seen' \<longleftrightarrow>
      topology_group_ok x \<and> group_key x \<notin> seen \<and> seen' = insert (group_key x) seen"
    by (cases x) (auto simp: topology_group_step_def result_simps topology_group_ok_def
        topology_group_body_ok_def group_key_def layer_loop.loop_from_empty)
qed

lemma domain_step_iff:
  "memory_domain_step seen x = Inr seen' \<longleftrightarrow>
     (\<exists>i. domain_identity_of x = Inr i \<and> i \<notin> seen \<and> seen' = insert i seen)"
  by (auto simp: memory_domain_step_def result_simps)

lemma domain_loop_Inr:
  "fold_r memory_domain_step seen xs = Inr seen' \<longleftrightarrow>
     (\<exists>ids. traverse domain_identity_of xs = Inr ids \<and> distinct ids \<and> set ids \<inter> seen = {} \<and>
        seen' = seen \<union> set ids)"
  by (induction xs arbitrary: seen) (auto simp: and_then_Inr_iff domain_step_iff)

text \<open>What is read off a capacity group: its pool, its memory domains, its block limit.\<close>

definition dict_of :: "pyval \<Rightarrow> pydict" where
  "dict_of v = (case v of PDict d \<Rightarrow> d | _ \<Rightarrow> [])"

definition list_of :: "pyval \<Rightarrow> pyval list" where
  "list_of v = (case v of PList xs \<Rightarrow> xs | _ \<Rightarrow> [])"

lemma dict_list_of [simp]: "dict_of (PDict d) = d" "list_of (PList xs) = xs"
  by (simp_all add: dict_of_def list_of_def)

definition group_pool :: "pyval \<Rightarrow> string" where
  "group_pool v = str_of (d_get (dict_of v) ''pool_id'')"

definition group_domains :: "pyval \<Rightarrow> domain_identity set" where
  "group_domains v =
     (case traverse domain_identity_of (list_of (d_get (dict_of v) ''memory_domains'')) of
        Inl _ \<Rightarrow> {} | Inr ids \<Rightarrow> set ids)"

definition max_allocations_ok :: "bool \<Rightarrow> pyval \<Rightarrow> bool" where
  "max_allocations_ok is_shared_pool v \<longleftrightarrow>
     (\<exists>n. d_get (dict_of v) ''max_allocations'' = PInt n \<and> 0 < n) \<or>
     (\<not> is_shared_pool \<and> d_get (dict_of v) ''max_allocations'' = PNone)"

lemma check_max_allocations_Inr:
  "check_max_allocations sp d = Inr u \<longleftrightarrow> max_allocations_ok sp (PDict d)"
  by (cases "d_get d ''max_allocations'' = PNone")
    (auto simp: check_max_allocations_def max_allocations_ok_def result_simps)

lemma setdefault_agrees:
  "\<not> (case m of None \<Rightarrow> x | Some s \<Rightarrow> s) \<noteq> x \<longleftrightarrow> (\<forall>s. m = Some s \<longrightarrow> s = x)"
  by (cases m) auto

lemma capacity_group_step_Inr:
  assumes "capacity_group_step sp (seen, pd) v = Inr (seen', pd')"
  shows "group_key v \<notin> seen \<and> seen' = insert (group_key v) seen \<and>
    pd' = pd(group_pool v \<mapsto> group_domains v) \<and>
    (\<forall>s. pd (group_pool v) = Some s \<longrightarrow> s = group_domains v) \<and> max_allocations_ok sp v"
  using assms
  unfolding capacity_group_step_def result_simps Let_def domain_loop_Inr setdefault_agrees
    check_max_allocations_Inr
  apply (elim exE conjE)
  apply (simp add: group_key_def group_pool_def group_domains_def del: fun_upd_apply)
  apply (elim conjE)
  apply hypsubst
  apply (simp split: option.splits)
  done

lemma capacity_loop_Inr:
  assumes "fold_r (capacity_group_step sp) (seen, pd) gs = Inr (seen', pd')"
  shows "distinct (map group_key gs) \<and> set (map group_key gs) \<inter> seen = {} \<and>
    seen' = seen \<union> set (map group_key gs) \<and> pd \<subseteq>\<^sub>m pd' \<and>
    (\<forall>g \<in> set gs. pd' (group_pool g) = Some (group_domains g) \<and> max_allocations_ok sp g)"
  using assms
proof (induction gs arbitrary: seen pd)
  case (Cons g gs)
  then obtain s1 p1 where st: "capacity_group_step sp (seen, pd) g = Inr (s1, p1)"
    and rest: "fold_r (capacity_group_step sp) (s1, p1) gs = Inr (seen', pd')"
    by (auto simp: and_then_Inr_iff)
  note s = capacity_group_step_Inr [OF st]
  note ih = Cons.IH [OF rest]
  have "p1 (group_pool g) = Some (group_domains g)" using s by simp
  then have "pd' (group_pool g) = Some (group_domains g)" using ih by (metis domI map_le_def)
  moreover have "pd \<subseteq>\<^sub>m p1" using s by (auto simp: map_le_def)
  then have "pd \<subseteq>\<^sub>m pd'" using ih by (blast intro: map_le_trans)
  ultimately show ?case using s ih by auto
qed simp

definition registration_groups :: "pydict \<Rightarrow> pyval list" where
  "registration_groups reg =
     list_of (d_get (dict_of (d_get reg ''capacity_model'')) ''groups'')"

definition capabilities_of :: "pydict \<Rightarrow> pydict" where
  "capabilities_of reg = dict_of (d_get reg ''capabilities'')"

definition features_of :: "pydict \<Rightarrow> pyval list" where
  "features_of reg = list_of (d_get (capabilities_of reg) ''features'')"

definition transports_of :: "pydict \<Rightarrow> pyval list" where
  "transports_of reg = list_of (d_get (capabilities_of reg) ''transports'')"

definition tier_of :: "pydict \<Rightarrow> pyval" where
  "tier_of reg = d_get (capabilities_of reg) ''tier''"

definition topology_groups :: "pydict \<Rightarrow> pyval list" where
  "topology_groups reg = list_of (d_get (dict_of (d_get reg ''topology'')) ''cache_groups'')"

text \<open>The stages of an accepted validation.\<close>

lemma validate_registration_stages:
  assumes "validate_registration reg = Inr u"
  obtains fp pd where
    "tier_of reg = PStr ''kv_connected'' \<and>
       validate_opaque_tier reg (capabilities_of reg) (transports_of reg) = Inr () \<or>
     tier_of reg = PStr ''shared_pool'' \<and>
       validate_shared_tier reg (capabilities_of reg) (features_of reg) (transports_of reg) = Inr ()"
    "registration_groups reg \<noteq> []"
    "fold_r (capacity_group_step (tier_of reg = PStr ''shared_pool'')) ({}, \<lambda>_. None)
       (registration_groups reg) = Inr (set (map group_key (registration_groups reg)), pd)"
    "tier_of reg = PStr ''shared_pool'' \<longrightarrow>
       validate_topology (dict_of (d_get reg ''topology'')) fp
         (set (map group_key (registration_groups reg))) (capabilities_of reg) = Inr ()"
    "validate_grant_section reg (capabilities_of reg) (features_of reg)
       (tier_of reg = PStr ''shared_pool'') = Inr ()"
proof -
  from assms obtain fp cap fs ts cm gs seen pd xg xk where
    c: "d_get reg ''capabilities'' = PDict cap" "d_get cap ''features'' = PList fs"
      "d_get cap ''transports'' = PList ts" "d_get reg ''capacity_model'' = PDict cm"
      "d_get cm ''groups'' = PList gs" "gs \<noteq> []"
    and t: "(if py_eq (d_get cap ''tier'') (PStr ''kv_connected'') then validate_opaque_tier reg cap ts
         else if py_eq (d_get cap ''tier'') (PStr ''shared_pool'') then validate_shared_tier reg cap fs ts
         else RaiseC ''vLLM connector has an unsupported KV tier'') = Inr xg"
    and l: "fold_r (capacity_group_step (py_eq (d_get cap ''tier'') (PStr ''shared_pool'')))
        ({}, \<lambda>_. None) gs = Inr (seen, pd)"
    and top: "(if py_eq (d_get cap ''tier'') (PStr ''shared_pool'')
         then and_then (contract_mapping (d_get reg ''topology'') ''topology'')
                (\<lambda>topology. validate_topology topology fp seen cap)
         else Inr ()) = Inr xk"
    and g: "validate_grant_section reg cap fs (py_eq (d_get cap ''tier'') (PStr ''shared_pool'')) = Inr u"
    unfolding validate_registration_def result_simps Let_def contract_mapping_Inr contract_list_Inr
      contract_nonempty_list_Inr
    by (elim exE conjE, hypsubst)
  have seen: "seen = set (map group_key gs)" using capacity_loop_Inr [OF l] by simp
  have names: "capabilities_of reg = cap" "features_of reg = fs" "transports_of reg = ts"
    "registration_groups reg = gs" "tier_of reg = d_get cap ''tier''"
    using c by (simp_all add: capabilities_of_def features_of_def transports_of_def
        registration_groups_def tier_of_def)
  show thesis
    by (rule that [of pd fp]) (use t l top g c seen in \<open>auto simp: names result_simps split: if_splits\<close>)
qed

text \<open>
  C10. In an accepted registration the capacity groups have pairwise distinct identifiers, groups
  that share a pool name the same memory domains, and a shared-pool registration limits every
  group, describes exactly the capacity groups in its topology, and uses the CUDA VMM transport
  alone if it announces live resize and offers the CUDA IPC transport otherwise. A provisioning
  grant is present exactly when its capability is announced, and only for a shared pool.
\<close>

theorem registration_consistent:
  assumes "validate_registration reg = Inr ()"
  shows "distinct (map group_key (registration_groups reg)) \<and>
    (\<forall>g \<in> set (registration_groups reg). \<forall>h \<in> set (registration_groups reg).
       group_pool g = group_pool h \<longrightarrow> group_domains g = group_domains h) \<and>
    (tier_of reg = PStr ''shared_pool'' \<longrightarrow>
       (\<forall>g \<in> set (registration_groups reg).
          \<exists>n. d_get (dict_of g) ''max_allocations'' = PInt n \<and> 0 < n) \<and>
       distinct (map group_key (topology_groups reg)) \<and>
       set (map group_key (topology_groups reg)) = set (map group_key (registration_groups reg)) \<and>
       (if py_in (PStr ''live_pool_resize'') (features_of reg)
        then py_eq (PList (transports_of reg)) (PList [kind_dict ''cuda_vmm''])
        else py_in (kind_dict ''cuda_ipc'') (transports_of reg))) \<and>
    (py_in (PStr ''provisioning_grant'') (features_of reg) \<longleftrightarrow>
       d_get reg ''provisioning_grant'' \<noteq> PNone) \<and>
    (d_get reg ''provisioning_grant'' \<noteq> PNone \<longrightarrow> tier_of reg = PStr ''shared_pool'')"
proof -
  from assms obtain fp pd where
    tier: "tier_of reg = PStr ''kv_connected'' \<and>
       validate_opaque_tier reg (capabilities_of reg) (transports_of reg) = Inr () \<or>
     tier_of reg = PStr ''shared_pool'' \<and>
       validate_shared_tier reg (capabilities_of reg) (features_of reg) (transports_of reg) = Inr ()"
    and loop: "fold_r (capacity_group_step (tier_of reg = PStr ''shared_pool'')) ({}, \<lambda>_. None)
       (registration_groups reg) = Inr (set (map group_key (registration_groups reg)), pd)"
    and top: "tier_of reg = PStr ''shared_pool'' \<longrightarrow>
       validate_topology (dict_of (d_get reg ''topology'')) fp
         (set (map group_key (registration_groups reg))) (capabilities_of reg) = Inr ()"
    and grant: "validate_grant_section reg (capabilities_of reg) (features_of reg)
       (tier_of reg = PStr ''shared_pool'') = Inr ()"
    by (rule validate_registration_stages)
  note l = capacity_loop_Inr [OF loop]
  have topo: "distinct (map group_key (topology_groups reg)) \<and>
      set (map group_key (topology_groups reg)) = set (map group_key (registration_groups reg))"
    if "tier_of reg = PStr ''shared_pool''"
    using top that
    by (auto simp: validate_topology_def result_simps topology_groups_def topology_loop.loop_from_empty)
  have trans: "if py_in (PStr ''live_pool_resize'') (features_of reg)
      then py_eq (PList (transports_of reg)) (PList [kind_dict ''cuda_vmm''])
      else py_in (kind_dict ''cuda_ipc'') (transports_of reg)"
    if "tier_of reg = PStr ''shared_pool''"
    using tier that by (auto simp: validate_shared_tier_def result_simps Let_def split: if_splits)
  have g: "py_in (PStr ''provisioning_grant'') (features_of reg) \<longleftrightarrow>
       d_get reg ''provisioning_grant'' \<noteq> PNone"
    "d_get reg ''provisioning_grant'' \<noteq> PNone \<longrightarrow> tier_of reg = PStr ''shared_pool''"
    using grant by (auto simp: validate_grant_section_def result_simps Let_def split: if_splits)
  have pools: "\<forall>g \<in> set (registration_groups reg). \<forall>h \<in> set (registration_groups reg).
       group_pool g = group_pool h \<longrightarrow> group_domains g = group_domains h"
  proof (intro ballI impI)
    fix g h assume in_groups: "g \<in> set (registration_groups reg)" "h \<in> set (registration_groups reg)"
      and same: "group_pool g = group_pool h"
    from l have all: "\<forall>g \<in> set (registration_groups reg). pd (group_pool g) = Some (group_domains g)"
      by simp
    have "Some (group_domains g) = Some (group_domains h)"
      using all [rule_format, OF in_groups(1)] all [rule_format, OF in_groups(2)] same by metis
    then show "group_domains g = group_domains h" by simp
  qed
  have maxa: "\<forall>g \<in> set (registration_groups reg).
          \<exists>n. d_get (dict_of g) ''max_allocations'' = PInt n \<and> 0 < n"
    if "tier_of reg = PStr ''shared_pool''"
    using l that by (simp add: max_allocations_ok_def)
  have ids: "distinct (map group_key (registration_groups reg))" using l by simp
  show ?thesis
    by (intro conjI impI) (rule ids pools maxa trans g(1) g(2) [rule_format] conjunct1 [OF topo]
        conjunct2 [OF topo]; assumption?)+
qed

definition sample_capacity_group :: "string \<Rightarrow> pydict" where
  "sample_capacity_group gid =
     [(''group_id'', PStr gid), (''pool_id'', PStr ''pool''),
      (''allocation_granularity_tokens'', PInt 16), (''bytes_per_allocation'', PInt 4096),
      (''memory_domains'', PList [PDict [(''kind'', PStr ''cuda''), (''device_id'', PInt 0)]]),
      (''max_allocations'', PInt 128)]"

definition sample_topology_group :: "string \<Rightarrow> pyval" where
  "sample_topology_group gid = PDict
     [(''group_id'', PStr gid),
      (''layers'', PList [PDict [(''index'', PInt 0)], PDict [(''index'', PInt 1)]]),
      (''geometry'', PDict [(''kind'', PStr ''paged_attention''), (''block_size_tokens'', PInt 16),
         (''kv_heads'', PInt 8), (''key_head_dim'', PInt 64), (''value_head_dim'', PInt 64),
         (''element_type'', PDict [(''kind'', PStr ''f16'')]),
         (''layout'', PDict [(''kind'', PStr ''nhd'')])]),
      (''policy'', PDict [(''kind'', PStr ''full_attention'')])]"

definition sample_registration :: pydict where
  "sample_registration =
     [(''participant_id'', PStr ''vllm-0''), (''backend'', PStr ''vllm''),
      (''model_fingerprint'', PStr ''m''),
      (''capabilities'', PDict (shared_pool_capabilities True [PStr ''multiple_cache_groups''])),
      (''capacity_model'', PDict [(''groups'', PList
         [PDict (sample_capacity_group ''a''), PDict (sample_capacity_group ''b'')])]),
      (''adapter_profile'', PDict [(''adapter_id'', PStr ''x''), (''adapter_version'', PStr ''1''),
         (''backend_version'', PStr ''1''), (''profile_id'', PStr ''p'')]),
      (''topology'', PDict [(''abi_version'', abi_version), (''model_fingerprint'', PStr ''m''),
         (''cache_groups'', PList [sample_topology_group ''b'', sample_topology_group ''a''])])]"

theorem registration_consistent_witness:
  "validate_registration sample_registration = Inr () \<and>
   tier_of sample_registration = PStr ''shared_pool'' \<and>
   set (map group_key (topology_groups sample_registration)) =
     set (map group_key (registration_groups sample_registration)) \<and>
   py_eq (PList (transports_of sample_registration)) (PList [kind_dict ''cuda_vmm''])"
proof -
  have v: "validate_registration sample_registration = Inr ()" by code_simp
  have t: "tier_of sample_registration = PStr ''shared_pool''"
    "py_in (PStr ''live_pool_resize'') (features_of sample_registration)" by code_simp+
  from registration_consistent [OF v] v t show ?thesis by simp
qed

end
