(* ===== verification/Py_Effects.thy ===== *)
theory Py_Effects
  imports Py_Base
begin

text \<open>
  Conversions and statements of Python that the stateful modules share.

  \<^item> \<open>py_int\<close>, \<open>py_str\<close> and \<open>item\<close> are \<open>int(x)\<close>, \<open>str(x)\<close> and \<open>x[k]\<close>
    on dynamic values. The text of a float is the parameter \<open>fr\<close>.
  \<^item> An effectful computation maps a state to a state and a result. A raise keeps the state
    reached so far, so \<open>try\<close>, \<open>except\<close> and \<open>finally\<close> are functions on computations:
    the handler runs in the state the failing statement left behind.
\<close>

subsection \<open>Conversions\<close>

definition digit_value :: "char \<Rightarrow> nat option" where
  "digit_value c =
     (let n = of_char c :: nat
      in if 48 \<le> n \<and> n \<le> 57 then Some (n - 48)
         else if 97 \<le> n \<and> n \<le> 122 then Some (n - 87)
         else if 65 \<le> n \<and> n \<le> 90 then Some (n - 55)
         else None)"

text \<open>Digits in a base, with single underscores allowed between them.\<close>

fun parse_digits :: "nat \<Rightarrow> nat \<Rightarrow> string \<Rightarrow> nat option" where
  "parse_digits base acc [] = Some acc"
| "parse_digits base acc (c # cs) =
     (case digit_value c of
        Some v \<Rightarrow> if v < base then parse_digits base (acc * base + v) cs else None
      | None \<Rightarrow>
          if c = CHR ''_''
          then (case cs of
                  [] \<Rightarrow> None
                | d # ds \<Rightarrow>
                    (case digit_value d of
                       Some v \<Rightarrow> if v < base then parse_digits base (acc * base + v) ds else None
                     | None \<Rightarrow> None))
          else None)"

definition parse_nat :: "nat \<Rightarrow> string \<Rightarrow> nat option" where
  "parse_nat base s =
     (case s of
        [] \<Rightarrow> None
      | c # cs \<Rightarrow>
          (case digit_value c of
             Some v \<Rightarrow> if v < base then parse_digits base v cs else None
           | None \<Rightarrow> None))"

text \<open>
  \<open>int(s, 16)\<close> accepts a \<open>0x\<close> prefix, after which one underscore may stand; \<open>int(s)\<close>
  accepts none. Both accept a sign and surrounding white space.
\<close>

definition strip_base_prefix :: "nat \<Rightarrow> string \<Rightarrow> string" where
  "strip_base_prefix base s =
     (if base = 16 \<and> (take 2 s = ''0x'' \<or> take 2 s = ''0X'')
      then (if take 1 (drop 2 s) = ''_'' then drop 3 s else drop 2 s)
      else s)"

definition parse_int :: "nat \<Rightarrow> string \<Rightarrow> int option" where
  "parse_int base s =
     (let t = py_strip s
      in if take 1 t = ''-''
         then map_option (\<lambda>n. - int n) (parse_nat base (strip_base_prefix base (drop 1 t)))
         else map_option int (parse_nat base
                (strip_base_prefix base (if take 1 t = ''+'' then drop 1 t else t))))"

definition rat_trunc :: "rat \<Rightarrow> int" where
  "rat_trunc q = (if q < 0 then - \<lfloor>- q\<rfloor> else \<lfloor>q\<rfloor>)"

definition py_int :: "pyval \<Rightarrow> int result" where
  "py_int v =
     (case v of
        PInt i \<Rightarrow> Inr i
      | PBool b \<Rightarrow> Inr (if b then 1 else 0)
      | PFloat (Finite q) \<Rightarrow> Inr (rat_trunc q)
      | PFloat NaN \<Rightarrow> Raise ValueError ''cannot convert float NaN to integer''
      | PFloat _ \<Rightarrow> Raise OverflowError ''cannot convert float infinity to integer''
      | PStr s \<Rightarrow> (case parse_int 10 s of
                    Some i \<Rightarrow> Inr i
                  | None \<Rightarrow> Raise ValueError (fmt [''invalid literal for int() with base 10: '', py_repr s]))
      | _ \<Rightarrow> Raise TypeError ''int() argument must be a string or a real number'')"

fun join_with :: "string \<Rightarrow> string list \<Rightarrow> string" where
  "join_with sep [] = []"
| "join_with sep [t] = t"
| "join_with sep (t # u # ts) = t @ sep @ join_with sep (u # ts)"

fun repr_val :: "(pyfloat \<Rightarrow> string) \<Rightarrow> pyval \<Rightarrow> string"
  and repr_vals :: "(pyfloat \<Rightarrow> string) \<Rightarrow> pyval list \<Rightarrow> string list"
  and repr_items :: "(pyfloat \<Rightarrow> string) \<Rightarrow> pydict \<Rightarrow> string list" where
  "repr_val fr PNone = ''None''"
| "repr_val fr (PBool b) = (if b then ''True'' else ''False'')"
| "repr_val fr (PInt i) = int_text i"
| "repr_val fr (PFloat f) = fr f"
| "repr_val fr (PStr s) = py_repr s"
| "repr_val fr (PList xs) = ''['' @ join_with '', '' (repr_vals fr xs) @ '']''"
| "repr_val fr (PDict d) = ''{'' @ join_with '', '' (repr_items fr d) @ ''}''"
| "repr_val fr (PObj s _) = s"
| "repr_val fr (PFun n) = ''<function>''"
| "repr_vals fr [] = []"
| "repr_vals fr (x # xs) = repr_val fr x # repr_vals fr xs"
| "repr_items fr [] = []"
| "repr_items fr ((k, v) # d) = (py_repr k @ '': '' @ repr_val fr v) # repr_items fr d"

definition py_str :: "(pyfloat \<Rightarrow> string) \<Rightarrow> pyval \<Rightarrow> string" where
  "py_str fr v = (case v of PStr s \<Rightarrow> s | _ \<Rightarrow> repr_val fr v)"

definition item :: "pyval \<Rightarrow> string \<Rightarrow> pyval result" where
  "item v k =
     (case v of
        PDict d \<Rightarrow> (case map_of d k of Some x \<Rightarrow> Inr x | None \<Rightarrow> Raise KeyError (py_repr k))
      | _ \<Rightarrow> Raise TypeError ''object is not subscriptable'')"

definition int_item :: "pyval \<Rightarrow> string \<Rightarrow> int result" where
  "int_item v k = and_then (item v k) py_int"

definition str_item :: "(pyfloat \<Rightarrow> string) \<Rightarrow> pyval \<Rightarrow> string \<Rightarrow> string result" where
  "str_item fr v k = and_then (item v k) (\<lambda>x. Inr (py_str fr x))"

lemma py_int_simps [simp]: "py_int (PInt i) = Inr i"
  by (simp add: py_int_def)

lemma py_str_simps [simp]: "py_str fr (PStr s) = s"
  by (simp add: py_str_def)

subsection \<open>Effects\<close>

type_synonym ('s, 'a) eff = "'s \<Rightarrow> 's \<times> 'a result"

definition ret :: "'a \<Rightarrow> ('s, 'a) eff" where
  "ret x s = (s, Inr x)"

definition lift :: "'a result \<Rightarrow> ('s, 'a) eff" where
  "lift r s = (s, r)"

definition bind :: "('s, 'a) eff \<Rightarrow> ('a \<Rightarrow> ('s, 'b) eff) \<Rightarrow> ('s, 'b) eff" where
  "bind m f s = (case m s of (s', Inl e) \<Rightarrow> (s', Inl e) | (s', Inr x) \<Rightarrow> f x s')"

definition gets :: "('s \<Rightarrow> 'a) \<Rightarrow> ('s, 'a) eff" where
  "gets f s = (s, Inr (f s))"

definition modify :: "('s \<Rightarrow> 's) \<Rightarrow> ('s, unit) eff" where
  "modify f s = (f s, Inr ())"

text \<open>\<open>try: m except Exception as e: h e\<close>.\<close>

definition try_except :: "('s, 'a) eff \<Rightarrow> (exn \<Rightarrow> ('s, 'a) eff) \<Rightarrow> ('s, 'a) eff" where
  "try_except m h s = (case m s of (s', Inl e) \<Rightarrow> h e s' | (s', Inr x) \<Rightarrow> (s', Inr x))"

text \<open>\<open>try: m finally: f\<close>: an exception of \<open>f\<close> replaces the outcome of \<open>m\<close>.\<close>

definition try_finally :: "('s, 'a) eff \<Rightarrow> ('s, unit) eff \<Rightarrow> ('s, 'a) eff" where
  "try_finally m f s =
     (case m s of (s', r) \<Rightarrow>
        (case f s' of (s'', Inl e) \<Rightarrow> (s'', Inl e) | (s'', Inr _) \<Rightarrow> (s'', r)))"

text \<open>A \<open>for\<close> loop: \<open>for_each\<close> over effects, \<open>fold_e\<close> with an accumulator.\<close>

fun for_each :: "('a \<Rightarrow> ('s, unit) eff) \<Rightarrow> 'a list \<Rightarrow> ('s, unit) eff" where
  "for_each f [] = ret ()"
| "for_each f (x # xs) = bind (f x) (\<lambda>_. for_each f xs)"

fun fold_e :: "('acc \<Rightarrow> 'a \<Rightarrow> ('s, 'acc) eff) \<Rightarrow> 'acc \<Rightarrow> 'a list \<Rightarrow> ('s, 'acc) eff" where
  "fold_e f acc [] = ret acc"
| "fold_e f acc (x # xs) = bind (f acc x) (\<lambda>acc'. fold_e f acc' xs)"

named_theorems eff_simps \<open>evaluation of effects\<close>

lemma ret_eq [eff_simps]: "ret x s = (s, Inr x)"
  by (simp add: ret_def)

lemma lift_eq [eff_simps]: "lift r s = (s, r)"
  by (simp add: lift_def)

lemma gets_eq [eff_simps]: "gets f s = (s, Inr (f s))"
  by (simp add: gets_def)

lemma modify_eq [eff_simps]: "modify f s = (f s, Inr ())"
  by (simp add: modify_def)

lemma bind_Inr [eff_simps]: "m s = (s', Inr x) \<Longrightarrow> bind m f s = f x s'"
  by (simp add: bind_def)

lemma bind_Inl [eff_simps]: "m s = (s', Inl e) \<Longrightarrow> bind m f s = (s', Inl e)"
  by (simp add: bind_def)

lemma lift_Inr_iff: "lift r s = (t, q) \<longleftrightarrow> t = s \<and> r = q"
  by (auto simp: lift_def)

lemma bind_Inr_iff:
  "bind m f s = (t, Inr y) \<longleftrightarrow> (\<exists>s' x. m s = (s', Inr x) \<and> f x s' = (t, Inr y))"
  by (auto simp: bind_def split: prod.splits sum.splits)

lemma bind_Inl_iff:
  "bind m f s = (t, Inl e) \<longleftrightarrow>
     m s = (t, Inl e) \<or> (\<exists>s' x. m s = (s', Inr x) \<and> f x s' = (t, Inl e))"
  by (auto simp: bind_def split: prod.splits sum.splits)

lemma try_except_Inr [eff_simps]: "m s = (s', Inr x) \<Longrightarrow> try_except m h s = (s', Inr x)"
  by (simp add: try_except_def)

lemma try_except_Inl [eff_simps]: "m s = (s', Inl e) \<Longrightarrow> try_except m h s = h e s'"
  by (simp add: try_except_def)

lemma bind_assoc: "bind (bind m f) g = bind m (\<lambda>x. bind (f x) g)"
  by (auto simp: bind_def fun_eq_iff split: prod.splits sum.splits)

lemma bind_ret [simp]: "bind (ret x) f = f x"
  by (simp add: bind_def ret_def fun_eq_iff)

lemma bind_cong: "(\<And>x. f x = g x) \<Longrightarrow> bind m f = bind m g"
  by (rule arg_cong [where f = "bind m"]) (rule ext)

lemma try_finally_eq:
  "try_finally m f = bind (\<lambda>s. case m s of (s', r) \<Rightarrow> (s', Inr r)) (\<lambda>r. bind f (\<lambda>_. lift r))"
  by (auto simp: try_finally_def bind_def lift_def fun_eq_iff split: prod.splits sum.splits)

subsection \<open>Invariants of effects\<close>

text \<open>
  \<open>keeps P m\<close>: the computation keeps \<open>P\<close> whether it returns or raises. The rules follow
  the structure of a computation, so that a statement list is checked one call at a time.
\<close>

definition keeps :: "('s \<Rightarrow> bool) \<Rightarrow> ('s, 'a) eff \<Rightarrow> bool" where
  "keeps P m \<longleftrightarrow> (\<forall>s. P s \<longrightarrow> P (fst (m s)))"

named_theorems keeps_intros \<open>structural rules for invariants\<close>

lemma keepsD: "keeps P m \<Longrightarrow> P s \<Longrightarrow> m s = (s', r) \<Longrightarrow> P s'"
  by (metis fst_conv keeps_def)

lemma keeps_ret [keeps_intros]: "keeps P (ret x)"
  by (simp add: keeps_def ret_def)

lemma keeps_lift [keeps_intros]: "keeps P (lift r)"
  by (simp add: keeps_def lift_def)

lemma keeps_gets [keeps_intros]: "keeps P (gets f)"
  by (simp add: keeps_def gets_def)

lemma keeps_modify: "(\<And>s. P s \<Longrightarrow> P (f s)) \<Longrightarrow> keeps P (modify f)"
  by (simp add: keeps_def modify_def)

lemma keeps_bind [keeps_intros]: "keeps P m \<Longrightarrow> (\<And>x. keeps P (f x)) \<Longrightarrow> keeps P (bind m f)"
  unfolding keeps_def bind_def
  by (metis (mono_tags, lifting) case_prod_unfold fst_conv sum.case_eq_if)

lemma keeps_try_except [keeps_intros]:
  "keeps P m \<Longrightarrow> (\<And>e. keeps P (h e)) \<Longrightarrow> keeps P (try_except m h)"
  unfolding keeps_def try_except_def
  by (metis (mono_tags, lifting) case_prod_unfold fst_conv sum.case_eq_if)

lemma keeps_try_finally [keeps_intros]:
  "keeps P m \<Longrightarrow> keeps P f \<Longrightarrow> keeps P (try_finally m f)"
  unfolding keeps_def try_finally_def
  by (auto split: prod.splits sum.splits)

lemma keeps_if [keeps_intros]: "keeps P m \<Longrightarrow> keeps P n \<Longrightarrow> keeps P (if c then m else n)"
  by simp

lemma keeps_case_option [keeps_intros]:
  "keeps P m \<Longrightarrow> (\<And>y. keeps P (f y)) \<Longrightarrow> keeps P (case v of None \<Rightarrow> m | Some y \<Rightarrow> f y)"
  by (cases v) simp_all

lemma keeps_case_prod [keeps_intros]: "(\<And>a b. keeps P (f a b)) \<Longrightarrow> keeps P (case p of (a, b) \<Rightarrow> f a b)"
  by (cases p) simp

lemma keeps_case_prod_app [keeps_intros]:
  "(\<And>a b. keeps P (f a b c)) \<Longrightarrow> keeps P ((case p of (a, b) \<Rightarrow> f a b) c)"
  by (cases p) simp

lemma keeps_for_each [keeps_intros]: "(\<And>x. keeps P (f x)) \<Longrightarrow> keeps P (for_each f xs)"
  by (induction xs) (auto intro!: keeps_intros)

lemma keeps_fold_e [keeps_intros]: "(\<And>acc x. keeps P (f acc x)) \<Longrightarrow> keeps P (fold_e f acc xs)"
  by (induction xs arbitrary: acc) (auto intro!: keeps_intros)

end
