(* ===== verification/Vmm_Import.thy ===== *)
theory Vmm_Import
  imports Py_Effects "HOL-Library.AList" "HOL-Library.Multiset"
begin

text \<open>
  \<open>_CudaVmmDriver\<close> and \<open>_ManagedVmmImport\<close> of \<open>shared_pool.py\<close>: importing physical
  segments into one reserved range of virtual addresses.

  The CUDA driver library is a parameter: it answers a call with a result code and a value,
  and may answer every call differently depending on all calls before it. The record keeps the
  events (calls with their answers), so that what is mapped on the device is a function of the
  events and not of what the Python object believes.
\<close>

subsection \<open>The driver\<close>

datatype cuda_call =
    CuMemAddressReserve int int
  | CuMemImportFromShareableHandle int
  | CuMemMap int int int
  | CuMemSetAccess int int int
  | CuMemUnmap int int
  | CuMemRelease int
  | CuMemAddressFree int int

type_synonym cuda_event = "cuda_call \<times> int \<times> int"

type_synonym cuda_driver = "cuda_event list \<Rightarrow> cuda_call \<Rightarrow> int \<times> int"

text \<open>A segment table entry: identifier, offset, length, allocation handle.\<close>

type_synonym vmm_entry = "string \<times> int \<times> int \<times> int"

text \<open>
  \<open>vmm_imported\<close> is the local list \<open>imported\<close> of a running \<open>map_segments\<close>: it lives
  in the state because the exception handler reads it.
\<close>

record vmm =
  vmm_pointer :: int
  virtual_bytes :: int
  vmm_granularity :: int
  vmm_device_id :: int
  vmm_segments :: "vmm_entry list"
  vmm_imported :: "vmm_entry list"
  cuda_log :: "cuda_event list"

definition logged :: "cuda_event \<Rightarrow> vmm \<Rightarrow> vmm" where
  "logged e s = s\<lparr>cuda_log := cuda_log s @ [e]\<rparr>"

definition cuda :: "cuda_driver \<Rightarrow> cuda_call \<Rightarrow> (vmm, int \<times> int) eff" where
  "cuda drv c s =
     (case drv (cuda_log s) c of (code, v) \<Rightarrow>
        (logged (c, code, v) s, Inr (code, v)))"

abbreviation RaiseP :: "string \<Rightarrow> 'a result" where
  "RaiseP m \<equiv> Raise SharedPoolImportError m"

definition cuda_check :: "int \<Rightarrow> string \<Rightarrow> unit result" where
  "cuda_check code operation =
     (if code \<noteq> 0 then RaiseP (fmt [''failed to '', operation, '': CUDA error '', int_text code])
      else Inr ())"

definition cuda_checked :: "cuda_driver \<Rightarrow> cuda_call \<Rightarrow> string \<Rightarrow> (vmm, int) eff" where
  "cuda_checked drv c operation =
     bind (cuda drv c) (\<lambda>(code, v). bind (lift (cuda_check code operation)) (\<lambda>_. ret v))"

definition drv_reserve :: "cuda_driver \<Rightarrow> int \<Rightarrow> int \<Rightarrow> (vmm, int) eff" where
  "drv_reserve drv nbytes alignment =
     bind (cuda_checked drv (CuMemAddressReserve nbytes alignment) ''reserve CUDA virtual address'') (\<lambda>p.
     if p = 0 then lift (RaiseP ''CUDA VMM reservation returned a null address'') else ret p)"

definition drv_import_fd :: "cuda_driver \<Rightarrow> int \<Rightarrow> (vmm, int) eff" where
  "drv_import_fd drv descriptor =
     cuda_checked drv (CuMemImportFromShareableHandle descriptor) ''import CUDA VMM allocation handle''"

definition drv_unmap :: "cuda_driver \<Rightarrow> int \<Rightarrow> int \<Rightarrow> (vmm, unit) eff" where
  "drv_unmap drv address len =
     bind (cuda_checked drv (CuMemUnmap address len) ''unmap CUDA VMM range'') (\<lambda>_. ret ())"

definition drv_release :: "cuda_driver \<Rightarrow> int \<Rightarrow> (vmm, unit) eff" where
  "drv_release drv handle =
     bind (cuda_checked drv (CuMemRelease handle) ''release CUDA VMM handle'') (\<lambda>_. ret ())"

definition drv_free_address :: "cuda_driver \<Rightarrow> int \<Rightarrow> int \<Rightarrow> (vmm, unit) eff" where
  "drv_free_address drv address len =
     bind (cuda_checked drv (CuMemAddressFree address len) ''free CUDA virtual address'') (\<lambda>_. ret ())"

text \<open>If access cannot be set the range is unmapped again, without checking the answer.\<close>

definition drv_map :: "cuda_driver \<Rightarrow> int \<Rightarrow> int \<Rightarrow> int \<Rightarrow> int \<Rightarrow> (vmm, unit) eff" where
  "drv_map drv address len handle device =
     bind (cuda_checked drv (CuMemMap address len handle) ''map CUDA VMM allocation'') (\<lambda>_.
     try_except
       (bind (cuda_checked drv (CuMemSetAccess address len device) ''set CUDA VMM access'') (\<lambda>_. ret ()))
       (\<lambda>e. bind (cuda drv (CuMemUnmap address len)) (\<lambda>_. lift (Inl e))))"

subsection \<open>The import\<close>

definition new_vmm_import :: "cuda_driver \<Rightarrow> cuda_event list \<Rightarrow> int \<Rightarrow> int \<Rightarrow> int \<Rightarrow> vmm \<times> unit result" where
  "new_vmm_import drv evs nbytes gran device =
     bind (drv_reserve drv nbytes gran) (\<lambda>p. modify (\<lambda>s. s\<lparr>vmm_pointer := p\<rparr>))
       \<lparr>vmm_pointer = 0, virtual_bytes = nbytes, vmm_granularity = gran, vmm_device_id = device,
        vmm_segments = [], vmm_imported = [], cuda_log = evs\<rparr>"

text \<open>The granularity comes from a validated receipt, so it is positive and \<open>%\<close> cannot raise.\<close>

definition segment_rejected :: "vmm \<Rightarrow> int list \<Rightarrow> string \<Rightarrow> int \<Rightarrow> int \<Rightarrow> int \<Rightarrow> bool" where
  "segment_rejected s handles segment_id offset len handle_index \<longleftrightarrow>
     segment_id = [] \<or> segment_id \<in> fst ` set (vmm_segments s) \<or> offset < 0 \<or> len \<le> 0 \<or>
     offset mod vmm_granularity s \<noteq> 0 \<or> len mod vmm_granularity s \<noteq> 0 \<or>
     offset + len > virtual_bytes s \<or> handle_index < 0 \<or> handle_index \<ge> int (length handles)"

definition import_segment ::
  "(pyfloat \<Rightarrow> string) \<Rightarrow> cuda_driver \<Rightarrow> int list \<Rightarrow> pyval \<Rightarrow> (vmm, unit) eff" where
  "import_segment fr drv handles segment =
     bind (lift (str_item fr segment ''segment_id'')) (\<lambda>segment_id.
     bind (lift (int_item segment ''offset_bytes'')) (\<lambda>offset.
     bind (lift (int_item segment ''length_bytes'')) (\<lambda>len.
     bind (lift (int_item segment ''handle_index'')) (\<lambda>handle_index.
     bind (gets id) (\<lambda>self.
     if segment_rejected self handles segment_id offset len handle_index
     then lift (RaiseP ''invalid CUDA VMM segment descriptor'')
     else
     bind (drv_import_fd drv (handles ! nat handle_index)) (\<lambda>handle.
     bind (try_except
             (drv_map drv (vmm_pointer self + offset) len handle (vmm_device_id self))
             (\<lambda>e. bind (drv_release drv handle) (\<lambda>_. lift (Inl e)))) (\<lambda>_.
     modify (\<lambda>s. s\<lparr>vmm_imported := vmm_imported s @ [(segment_id, offset, len, handle)]\<rparr>))))))))"

definition rollback_entry :: "cuda_driver \<Rightarrow> vmm_entry \<Rightarrow> (vmm, unit) eff" where
  "rollback_entry drv entry =
     (case entry of (_, offset, len, handle) \<Rightarrow>
        bind (gets vmm_pointer) (\<lambda>p.
        try_finally (drv_unmap drv (p + offset) len) (drv_release drv handle)))"

definition sort_by_offset :: "pyval list \<Rightarrow> pyval list result" where
  "sort_by_offset segments =
     and_then (traverse (\<lambda>seg. and_then (int_item seg ''offset_bytes'') (\<lambda>k. Inr (k, seg))) segments)
       (\<lambda>keyed. Inr (map snd (sort_key fst keyed)))"

definition commit_imported :: "vmm \<Rightarrow> vmm" where
  "commit_imported s =
     s\<lparr>vmm_segments := foldl (\<lambda>d (k, v). AList.update k v d) (vmm_segments s) (vmm_imported s)\<rparr>"

text \<open>The body of the \<open>try\<close> statement and its handler.\<close>

definition import_batch ::
  "(pyfloat \<Rightarrow> string) \<Rightarrow> cuda_driver \<Rightarrow> pyval list \<Rightarrow> int list \<Rightarrow> (vmm, unit) eff" where
  "import_batch fr drv segments handles =
     bind (lift (sort_by_offset segments)) (\<lambda>ordered.
     bind (for_each (import_segment fr drv handles) ordered) (\<lambda>_.
     modify commit_imported))"

definition undo_batch :: "cuda_driver \<Rightarrow> exn \<Rightarrow> (vmm, unit) eff" where
  "undo_batch drv e =
     bind (gets (\<lambda>s. rev (vmm_imported s))) (\<lambda>undo.
     bind (for_each (rollback_entry drv) undo) (\<lambda>_. lift (Inl e)))"

definition map_segments ::
  "(pyfloat \<Rightarrow> string) \<Rightarrow> cuda_driver \<Rightarrow> pyval list \<Rightarrow> int list \<Rightarrow> (vmm, unit) eff" where
  "map_segments fr drv segments handles =
     bind (modify (\<lambda>s. s\<lparr>vmm_imported := []\<rparr>)) (\<lambda>_.
     try_except (import_batch fr drv segments handles) (undo_batch drv))"

text \<open>\<open>sorted(xs, key=f, reverse=True)\<close>: descending, equal keys in their original order.\<close>

definition sort_desc :: "('a \<Rightarrow> int) \<Rightarrow> 'a list \<Rightarrow> 'a list" where
  "sort_desc f xs = rev (sort_key f (rev xs))"

definition resolve_segment :: "(pyfloat \<Rightarrow> string) \<Rightarrow> vmm_entry list \<Rightarrow> pyval \<Rightarrow> vmm_entry result" where
  "resolve_segment fr table segment =
     and_then (str_item fr segment ''segment_id'') (\<lambda>segment_id.
     case map_of table segment_id of
       None \<Rightarrow> RaiseP ''CUDA VMM unmap does not match an imported segment''
     | Some (offset, len, handle) \<Rightarrow>
         and_then (int_item segment ''offset_bytes'') (\<lambda>off.
         and_then (int_item segment ''length_bytes'') (\<lambda>n.
         if (offset, len) \<noteq> (off, n)
         then RaiseP ''CUDA VMM unmap does not match an imported segment''
         else Inr (segment_id, offset, len, handle))))"

definition unmap_entry :: "cuda_driver \<Rightarrow> vmm_entry \<Rightarrow> (vmm, unit) eff" where
  "unmap_entry drv entry =
     (case entry of (segment_id, offset, len, handle) \<Rightarrow>
        bind (gets vmm_pointer) (\<lambda>p.
        bind (drv_unmap drv (p + offset) len) (\<lambda>_.
        bind (drv_release drv handle) (\<lambda>_.
        bind (gets vmm_segments) (\<lambda>table.
        if segment_id \<in> fst ` set table
        then modify (\<lambda>s. s\<lparr>vmm_segments := AList.delete segment_id table\<rparr>)
        else lift (Raise KeyError (py_repr segment_id)))))))"

definition unmap_segments ::
  "(pyfloat \<Rightarrow> string) \<Rightarrow> cuda_driver \<Rightarrow> pyval list \<Rightarrow> (vmm, unit) eff" where
  "unmap_segments fr drv segments =
     bind (gets vmm_segments) (\<lambda>table.
     bind (lift (traverse (resolve_segment fr table) segments)) (\<lambda>resolved.
     for_each (unmap_entry drv) (sort_desc (\<lambda>(_, offset, _). offset) resolved)))"

text \<open>
  \<open>close\<close> collects the first error and continues; the accumulator is \<open>first_error\<close>.
\<close>

definition note_error :: "exn option \<Rightarrow> (vmm, unit) eff \<Rightarrow> (vmm, exn option) eff" where
  "note_error first_error m =
     try_except (bind m (\<lambda>_. ret first_error))
       (\<lambda>e. ret (case first_error of None \<Rightarrow> Some e | Some f \<Rightarrow> Some f))"

definition close_entry :: "cuda_driver \<Rightarrow> int \<Rightarrow> exn option \<Rightarrow> vmm_entry \<Rightarrow> (vmm, exn option) eff" where
  "close_entry drv pointer first_error entry =
     (case entry of (segment_id, offset, len, handle) \<Rightarrow>
        bind (note_error first_error (drv_unmap drv (pointer + offset) len)) (\<lambda>e1.
        bind (note_error e1 (drv_release drv handle)) (\<lambda>e2.
        bind (modify (\<lambda>s. s\<lparr>vmm_segments := AList.delete segment_id (vmm_segments s)\<rparr>)) (\<lambda>_.
        ret e2))))"

definition close_import :: "cuda_driver \<Rightarrow> (vmm, unit) eff" where
  "close_import drv =
     bind (gets id) (\<lambda>self.
     let pointer = vmm_pointer self
     in bind (modify (\<lambda>s. s\<lparr>vmm_pointer := 0\<rparr>)) (\<lambda>_.
        if pointer = 0 then ret ()
        else
          bind (fold_e (close_entry drv pointer) None
                  (sort_desc (\<lambda>(_, offset, _). offset) (vmm_segments self))) (\<lambda>first_error.
          bind (note_error first_error (drv_free_address drv pointer (virtual_bytes self))) (\<lambda>err.
          case err of None \<Rightarrow> ret () | Some e \<Rightarrow> lift (Inl e)))))"

subsection \<open>What is on the device\<close>

text \<open>
  The mapped ranges and the live allocation handles after a list of events. Only calls answered
  with code 0 have an effect.
\<close>

type_synonym device_view = "(int \<times> int) multiset \<times> int multiset"

fun apply_event :: "device_view \<Rightarrow> cuda_event \<Rightarrow> device_view" where
  "apply_event (M, H) (c, code, v) =
     (if code \<noteq> 0 then (M, H)
      else case c of
          CuMemMap a n _ \<Rightarrow> (add_mset (a, n) M, H)
        | CuMemUnmap a n \<Rightarrow> (M - {#(a, n)#}, H)
        | CuMemImportFromShareableHandle _ \<Rightarrow> (M, add_mset v H)
        | CuMemRelease h \<Rightarrow> (M, H - {#h#})
        | _ \<Rightarrow> (M, H))"

definition device_view :: "cuda_event list \<Rightarrow> device_view" where
  "device_view evs = foldl apply_event ({#}, {#}) evs"

lemma device_view_append [simp]: "device_view (evs @ es) = foldl apply_event (device_view evs) es"
  by (simp add: device_view_def)

lemma device_view_Nil [simp]: "device_view [] = ({#}, {#})"
  by (simp add: device_view_def)

text \<open>
  \<open>holds s xs\<close>: the device has mapped exactly the ranges of the entries \<open>xs\<close>, shifted to
  the reserved address, and holds exactly their handles.
\<close>

fun entry_range :: "int \<Rightarrow> vmm_entry \<Rightarrow> int \<times> int" where
  "entry_range p (k, off, n, h) = (p + off, n)"

fun entry_handle :: "vmm_entry \<Rightarrow> int" where
  "entry_handle (k, off, n, h) = h"

definition holds :: "vmm \<Rightarrow> vmm_entry list \<Rightarrow> bool" where
  "holds s xs \<longleftrightarrow>
     device_view (cuda_log s) =
       (image_mset (entry_range (vmm_pointer s)) (mset xs), image_mset entry_handle (mset xs))"

lemma holds_perm: "mset xs = mset ys \<Longrightarrow> holds s xs \<longleftrightarrow> holds s ys"
  by (simp add: holds_def)

definition entry_fits :: "vmm \<Rightarrow> vmm_entry \<Rightarrow> bool" where
  "entry_fits s entry =
     (case entry of (k, off, n, h) \<Rightarrow>
        k \<noteq> [] \<and> 0 \<le> off \<and> 0 < n \<and> off + n \<le> virtual_bytes s \<and>
        vmm_granularity s dvd off \<and> vmm_granularity s dvd n)"

text \<open>The invariant of an import: the table is exactly what the device holds.\<close>

definition vmm_inv :: "vmm \<Rightarrow> bool" where
  "vmm_inv s \<longleftrightarrow>
     holds s (vmm_segments s) \<and> distinct (map fst (vmm_segments s)) \<and>
     list_all (entry_fits s) (vmm_segments s)"

text \<open>
  A driver whose unmap and release calls always succeed. It is the first step of the proofs only;
  the section on failing drivers transfers them to every driver.
\<close>

definition undo_succeeds :: "cuda_driver \<Rightarrow> bool" where
  "undo_succeeds drv \<longleftrightarrow>
     (\<forall>evs a n h. fst (drv evs (CuMemUnmap a n)) = 0 \<and> fst (drv evs (CuMemRelease h)) = 0)"

text \<open>Everything but the event list and the list \<open>imported\<close>.\<close>

definition same_import :: "vmm \<Rightarrow> vmm \<Rightarrow> bool" where
  "same_import s t \<longleftrightarrow>
     vmm_pointer t = vmm_pointer s \<and> virtual_bytes t = virtual_bytes s \<and>
     vmm_granularity t = vmm_granularity s \<and> vmm_device_id t = vmm_device_id s \<and>
     vmm_segments t = vmm_segments s"

lemma same_import_refl [simp]: "same_import s s"
  by (simp add: same_import_def)

lemma same_import_trans [trans]: "same_import s t \<Longrightarrow> same_import t u \<Longrightarrow> same_import s u"
  by (simp add: same_import_def)

lemma logged_simps [simp]:
  "cuda_log (logged e s) = cuda_log s @ [e]"
  "vmm_pointer (logged e s) = vmm_pointer s"
  "virtual_bytes (logged e s) = virtual_bytes s"
  "vmm_granularity (logged e s) = vmm_granularity s"
  "vmm_device_id (logged e s) = vmm_device_id s"
  "vmm_segments (logged e s) = vmm_segments s"
  "vmm_imported (logged e s) = vmm_imported s"
  "same_import s' (logged e s) \<longleftrightarrow> same_import s' s"
  by (simp_all add: logged_def same_import_def)

lemma cuda_checked_eq:
  "cuda_checked drv c op s =
     (case drv (cuda_log s) c of (code, v) \<Rightarrow>
        (logged (c, code, v) s,
         if code = 0 then Inr v
         else RaiseP (fmt [''failed to '', op, '': CUDA error '', int_text code])))"
  by (simp add: cuda_checked_def cuda_def bind_def lift_def ret_def cuda_check_def split: prod.splits)

text \<open>The undoing calls of an import whose driver undoes reliably.\<close>

lemma drv_unmap_ok:
  assumes "undo_succeeds drv"
  shows "\<exists>v. drv_unmap drv a n s = (logged (CuMemUnmap a n, 0, v) s, Inr ())"
proof -
  obtain v where "drv (cuda_log s) (CuMemUnmap a n) = (0, v)"
    using assms by (metis prod.collapse undo_succeeds_def)
  then show ?thesis by (auto simp: drv_unmap_def bind_def cuda_checked_eq ret_def)
qed

lemma drv_release_ok:
  assumes "undo_succeeds drv"
  shows "\<exists>v. drv_release drv h s = (logged (CuMemRelease h, 0, v) s, Inr ())"
proof -
  obtain v where "drv (cuda_log s) (CuMemRelease h) = (0, v)"
    using assms by (metis prod.collapse undo_succeeds_def)
  then show ?thesis by (auto simp: drv_release_def bind_def cuda_checked_eq ret_def)
qed

text \<open>Unmapping and releasing one entry removes it from what the device holds.\<close>

lemma holds_undo:
  assumes "holds s (xs @ (k, off, n, h) # ys)"
  shows "holds (logged (CuMemRelease h, 0, w) (logged (CuMemUnmap (vmm_pointer s + off) n, 0, v) s))
    (xs @ ys)"
  using assms by (simp add: holds_def)

lemma rollback_entry_ok:
  assumes "undo_succeeds drv" and "holds s (xs @ [x])"
  shows "\<exists>t. rollback_entry drv x s = (t, Inr ()) \<and> holds t xs \<and> same_import s t"
proof -
  obtain k off n h where x: "x = (k, off, n, h)" by (cases x)
  obtain v where u: "drv_unmap drv (vmm_pointer s + off) n s =
      (logged (CuMemUnmap (vmm_pointer s + off) n, 0, v) s, Inr ())"
    using drv_unmap_ok [OF assms(1)] by blast
  obtain w where r: "drv_release drv h (logged (CuMemUnmap (vmm_pointer s + off) n, 0, v) s) =
      (logged (CuMemRelease h, 0, w) (logged (CuMemUnmap (vmm_pointer s + off) n, 0, v) s), Inr ())"
    using drv_release_ok [OF assms(1)] by blast
  show ?thesis
    using holds_undo [of s xs k off n h "[]" w v] assms(2)
    by (simp add: rollback_entry_def x bind_def gets_def try_finally_def u r)
qed

lemma rollback_all_ok:
  assumes "undo_succeeds drv" and "holds s (xs @ ys)"
  shows "\<exists>t. for_each (rollback_entry drv) (rev ys) s = (t, Inr ()) \<and> holds t xs \<and> same_import s t"
  using assms(2)
proof (induction ys arbitrary: s rule: rev_induct)
  case Nil
  then show ?case by (auto simp: ret_def)
next
  case (snoc y ys)
  then have "holds s ((xs @ ys) @ [y])" by simp
  from rollback_entry_ok [OF assms(1) this] obtain t where
    t: "rollback_entry drv y s = (t, Inr ())" "holds t (xs @ ys)" "same_import s t" by blast
  from snoc.IH [OF t(2)] obtain u where
    "for_each (rollback_entry drv) (rev ys) t = (u, Inr ())" "holds u xs" "same_import t u" by blast
  with t show ?case by (auto simp: bind_def intro: same_import_trans)
qed

text \<open>
  Mapping one range: on success the range is mapped, on failure nothing has changed on the
  device.
\<close>

lemma drv_map_cases:
  assumes "undo_succeeds drv" and "drv_map drv a n h dev s = (t, r)" and "device_view (cuda_log s) = (M, H)"
  shows "same_import s t \<and> vmm_imported t = vmm_imported s \<and>
    device_view (cuda_log t) = (case r of Inr _ \<Rightarrow> (add_mset (a, n) M, H) | Inl _ \<Rightarrow> (M, H))"
proof -
  have undo: "apply_event (M', H') (CuMemUnmap a n, drv evs (CuMemUnmap a n)) = (M' - {#(a, n)#}, H')"
    for evs M' H'
  proof -
    have "fst (drv evs (CuMemUnmap a n)) = 0" using assms(1) by (simp add: undo_succeeds_def)
    then show ?thesis by (cases "drv evs (CuMemUnmap a n)") simp
  qed
  from assms(2) show ?thesis
    by (auto simp: drv_map_def bind_def cuda_checked_eq try_except_def ret_def lift_def cuda_def
        assms(3) undo split: prod.splits if_splits)
qed

lemma drv_import_fd_cases:
  assumes "drv_import_fd drv fd s = (t, r)" and "device_view (cuda_log s) = (M, H)"
  shows "same_import s t \<and> vmm_imported t = vmm_imported s \<and>
    device_view (cuda_log t) = (case r of Inr h \<Rightarrow> (M, add_mset h H) | Inl _ \<Rightarrow> (M, H))"
  using assms
  by (auto simp: drv_import_fd_def cuda_checked_eq split: prod.splits if_splits)

text \<open>One iteration of the import loop, on every exit.\<close>

definition seg_data :: "(pyfloat \<Rightarrow> string) \<Rightarrow> pyval \<Rightarrow> (string \<times> int \<times> int) result" where
  "seg_data fr seg =
     and_then (str_item fr seg ''segment_id'') (\<lambda>sid.
     and_then (int_item seg ''offset_bytes'') (\<lambda>off.
     and_then (int_item seg ''length_bytes'') (\<lambda>len. Inr (sid, off, len))))"

fun entry_key :: "vmm_entry \<Rightarrow> string \<times> int \<times> int" where
  "entry_key (k, off, n, h) = (k, off, n)"

lemma seg_data_Inr:
  "seg_data fr seg = Inr (entry_key x) \<Longrightarrow>
     str_item fr seg ''segment_id'' = Inr (fst x) \<and> int_item seg ''offset_bytes'' = Inr (fst (snd x)) \<and>
     int_item seg ''length_bytes'' = Inr (fst (snd (snd x)))"
  by (cases x) (auto simp: seg_data_def and_then_Inr_iff)

lemma map_eq_map_imp:
  "map f xs = map g ys \<Longrightarrow> (\<And>x y. f x = g y \<Longrightarrow> f' x = g' y) \<Longrightarrow> map f' xs = map g' ys"
  by (induction xs arbitrary: ys) (auto simp: Cons_eq_map_conv)

definition importing :: "vmm \<Rightarrow> bool" where
  "importing s \<longleftrightarrow> holds s (vmm_segments s @ vmm_imported s)"

lemma import_segment_cases:
  assumes undo: "undo_succeeds drv" and inv: "importing s"
    and run: "import_segment fr drv handles seg s = (t, r)"
  shows "same_import s t \<and> importing t \<and>
    (case r of
       Inl _ \<Rightarrow> vmm_imported t = vmm_imported s
     | Inr _ \<Rightarrow> \<exists>x. vmm_imported t = vmm_imported s @ [x] \<and> entry_fits s x \<and>
         fst x \<notin> fst ` set (vmm_segments s) \<and> seg_data fr seg = Inr (entry_key x))"
proof (cases "\<exists>k off n i. str_item fr seg ''segment_id'' = Inr k \<and> int_item seg ''offset_bytes'' = Inr off \<and>
    int_item seg ''length_bytes'' = Inr n \<and> int_item seg ''handle_index'' = Inr i \<and>
    \<not> segment_rejected s handles k off n i")
  case False
  then have "t = s \<and> (\<exists>e. r = Inl e)"
    using run
    by (auto simp: import_segment_def bind_def lift_def gets_def split: sum.splits if_splits)
  with inv show ?thesis by auto
next
  case True
  then obtain k off n i where p: "str_item fr seg ''segment_id'' = Inr k"
    "int_item seg ''offset_bytes'' = Inr off" "int_item seg ''length_bytes'' = Inr n"
    "int_item seg ''handle_index'' = Inr i" "\<not> segment_rejected s handles k off n i" by blast
  have fits: "entry_fits s (k, off, n, h)" "k \<notin> fst ` set (vmm_segments s)" for h
    using p(5) by (auto simp: segment_rejected_def entry_fits_def)
  obtain M H where d: "device_view (cuda_log s) = (M, H)" by fastforce
  obtain s1 r1 where i: "drv_import_fd drv (handles ! nat i) s = (s1, r1)" by fastforce
  note ic = drv_import_fd_cases [OF i d]
  have tail: "(t, r) = bind (drv_import_fd drv (handles ! nat i)) (\<lambda>h.
     bind (try_except (drv_map drv (vmm_pointer s + off) n h (vmm_device_id s))
             (\<lambda>e. bind (drv_release drv h) (\<lambda>_. lift (Inl e)))) (\<lambda>_.
     modify (\<lambda>s. s\<lparr>vmm_imported := vmm_imported s @ [(k, off, n, h)]\<rparr>))) s"
    using run p by (simp add: import_segment_def bind_def lift_def gets_def)
  show ?thesis
  proof (cases r1)
    case (Inl e)
    then have "t = s1" "r = Inl e" using tail i by (simp_all add: bind_def)
    with ic Inl inv d show ?thesis by (auto simp: importing_def holds_def same_import_def)
  next
    case (Inr h)
    obtain s2 r2 where m: "drv_map drv (vmm_pointer s + off) n h (vmm_device_id s) s1 = (s2, r2)" by fastforce
    have d1: "device_view (cuda_log s1) = (M, add_mset h H)" using ic Inr by simp
    note mc = drv_map_cases [OF undo m d1]
    show ?thesis
    proof (cases r2)
      case (Inl e)
      obtain v where "drv_release drv h s2 = (logged (CuMemRelease h, 0, v) s2, Inr ())"
        using drv_release_ok [OF undo] by blast
      then have "t = logged (CuMemRelease h, 0, v) s2" "r = Inl e"
        using tail i Inr m Inl by (simp_all add: bind_def try_except_def lift_def)
      with mc ic Inl inv d show ?thesis by (auto simp: importing_def holds_def same_import_def)
    next
      case (Inr u)
      then have "t = s2\<lparr>vmm_imported := vmm_imported s2 @ [(k, off, n, h)]\<rparr>" "r = Inr ()"
        using tail i \<open>r1 = Inr h\<close> m by (simp_all add: bind_def try_except_def modify_def)
      with mc ic Inr inv d fits p(1-3) \<open>r1 = Inr h\<close> show ?thesis
        by (auto simp: importing_def holds_def same_import_def seg_data_def)
    qed
  qed
qed

lemma import_loop_cases:
  assumes undo: "undo_succeeds drv"
    and "importing s" and "for_each (import_segment fr drv handles) segs s = (t, r)"
  shows "same_import s t \<and> importing t \<and>
    (\<exists>xs. vmm_imported t = vmm_imported s @ xs \<and> list_all (entry_fits s) xs \<and>
       fst ` set xs \<inter> fst ` set (vmm_segments s) = {} \<and>
       (case r of
          Inl _ \<Rightarrow> True
        | Inr _ \<Rightarrow> map (seg_data fr) segs = map (\<lambda>x. Inr (entry_key x)) xs))"
  using assms(2,3)
proof (induction segs arbitrary: s)
  case Nil
  then show ?case by (auto simp: ret_def)
next
  case (Cons g segs)
  obtain s1 r1 where one: "import_segment fr drv handles g s = (s1, r1)" by fastforce
  note c = import_segment_cases [OF undo Cons.prems(1) one]
  show ?case
  proof (cases r1)
    case (Inl e)
    then have "t = s1" "r = Inl e" using Cons.prems(2) one by (simp_all add: bind_def)
    with c Inl show ?thesis by auto
  next
    case (Inr u)
    then have rest: "for_each (import_segment fr drv handles) segs s1 = (t, r)"
      using Cons.prems(2) one by (simp add: bind_def)
    from c Inr obtain x where x: "vmm_imported s1 = vmm_imported s @ [x]" "entry_fits s x"
      "fst x \<notin> fst ` set (vmm_segments s)" "seg_data fr g = Inr (entry_key x)" by auto
    from c have same: "same_import s s1" and "importing s1" by auto
    from Cons.IH [OF this(2) rest] obtain xs where xs: "same_import s1 t" "importing t"
      "vmm_imported t = vmm_imported s1 @ xs" "list_all (entry_fits s1) xs"
      "fst ` set xs \<inter> fst ` set (vmm_segments s1) = {}"
      "case r of Inl _ \<Rightarrow> True
        | Inr _ \<Rightarrow> map (seg_data fr) segs = map (\<lambda>x. Inr (entry_key x)) xs"
      by blast
    have "list_all (entry_fits s) xs" "vmm_segments s1 = vmm_segments s"
      using xs(4) same by (auto simp: entry_fits_def same_import_def list_all_iff)
    with x xs same show ?thesis
      by (intro conjI exI [of _ "x # xs"]) (auto intro: same_import_trans split: sum.splits)
  qed
qed

text \<open>A table update with fresh distinct keys appends.\<close>

lemma update_fresh: "k \<notin> fst ` set d \<Longrightarrow> AList.update k v d = d @ [(k, v)]"
  by (induction d) auto

lemma foldl_update_fresh:
  "distinct (map fst xs) \<Longrightarrow> fst ` set xs \<inter> fst ` set d = {} \<Longrightarrow>
   foldl (\<lambda>d (k, v). AList.update k v d) d xs = d @ xs"
  by (induction xs arbitrary: d) (auto simp: update_fresh)

lemma sort_by_offset_perm:
  assumes "sort_by_offset segs = Inr ordered"
  shows "mset ordered = mset segs"
proof -
  from assms obtain keyed where
    k: "traverse (\<lambda>seg. and_then (int_item seg ''offset_bytes'') (\<lambda>k. Inr (k, seg))) segs = Inr keyed"
    and o: "ordered = map snd (sort_key fst keyed)"
    by (auto simp: sort_by_offset_def and_then_Inr_iff)
  have "map snd keyed = segs" using traverse_map_eq [OF k, of snd id] by (auto simp: and_then_Inr_iff)
  then show ?thesis using o by (metis mset_map mset_sort)
qed

lemma entry_fits_cong: "same_import s t \<Longrightarrow> entry_fits t = entry_fits s"
  by (auto simp: entry_fits_def same_import_def fun_eq_iff)

lemma vmm_inv_same:
  "same_import s t \<Longrightarrow> vmm_inv s \<Longrightarrow> holds t (vmm_segments s) \<Longrightarrow> vmm_inv t"
  by (simp add: vmm_inv_def entry_fits_cong) (simp add: same_import_def)

lemma undo_batch_ok:
  assumes "undo_succeeds drv" and "importing t1"
  shows "\<exists>t2. undo_batch drv e t1 = (t2, Inl e) \<and> holds t2 (vmm_segments t1) \<and> same_import t1 t2"
proof -
  obtain t2 where "for_each (rollback_entry drv) (rev (vmm_imported t1)) t1 = (t2, Inr ())"
    "holds t2 (vmm_segments t1)" "same_import t1 t2"
    using rollback_all_ok [OF assms(1)] assms(2) importing_def by blast
  then show ?thesis by (auto simp: undo_batch_def bind_def gets_def lift_def)
qed

lemma import_batch_raise:
  assumes "undo_succeeds drv" and "importing s" and "import_batch fr drv segments handles s = (t, Inl e)"
  shows "same_import s t \<and> importing t"
proof (cases "sort_by_offset segments")
  case (Inl e')
  then have "t = s" using assms(3) by (simp add: import_batch_def bind_def lift_def)
  then show ?thesis using assms(2) by simp
next
  case (Inr ordered)
  obtain t1 r1 where l: "for_each (import_segment fr drv handles) ordered s = (t1, r1)" by fastforce
  have "t1 = t" using assms(3) Inr l
    by (auto simp: import_batch_def bind_def lift_def modify_def split: sum.splits)
  then show ?thesis using import_loop_cases [OF assms(1,2) l] by simp
qed

definition start_batch :: "vmm \<Rightarrow> vmm" where
  "start_batch s = s\<lparr>vmm_imported := []\<rparr>"

lemma map_segments_eq:
  "map_segments fr drv segments handles s =
     (case import_batch fr drv segments handles (start_batch s) of
        (t, Inr u) \<Rightarrow> (t, Inr u) | (t, Inl e) \<Rightarrow> undo_batch drv e t)"
  by (simp add: map_segments_def start_batch_def bind_def modify_def try_except_def
      split: prod.splits sum.splits)

lemma start_batch:
  assumes "vmm_inv s"
  shows "same_import s (start_batch s)" "importing (start_batch s)" "vmm_imported (start_batch s) = []"
    "vmm_segments (start_batch s) = vmm_segments s"
  using assms by (simp_all add: start_batch_def same_import_def importing_def vmm_inv_def holds_def)

lemma map_segments_raise:
  assumes undo: "undo_succeeds drv" and inv: "vmm_inv s"
    and run: "map_segments fr drv segments handles s = (t, Inl e)"
  shows "vmm_inv t \<and> same_import s t"
proof -
  note s0 = start_batch [OF inv]
  obtain t1 r1 where b: "import_batch fr drv segments handles (start_batch s) = (t1, r1)" by fastforce
  with run obtain e1 where r1: "r1 = Inl e1" by (cases r1) (simp_all add: map_segments_eq)
  have t1: "same_import s t1" "importing t1"
    using import_batch_raise [OF undo s0(2)] b r1 s0(1) same_import_trans by blast+
  obtain t2 where t2: "undo_batch drv e1 t1 = (t2, Inl e1)" "holds t2 (vmm_segments t1)" "same_import t1 t2"
    using undo_batch_ok [OF undo t1(2)] by blast
  have "t = t2" using run b r1 t2(1) by (simp add: map_segments_eq)
  moreover have st: "same_import s t2" using t1 t2 by (meson same_import_trans)
  moreover have "vmm_segments t1 = vmm_segments s" using t1 by (simp add: same_import_def)
  ultimately show ?thesis using vmm_inv_same [OF st inv] t2(2) by simp
qed

lemma import_batch_Inr:
  assumes "import_batch fr drv segments handles s = (t, Inr u)"
  obtains ordered t1 where "sort_by_offset segments = Inr ordered"
    "for_each (import_segment fr drv handles) ordered s = (t1, Inr ())" "t = commit_imported t1"
  using assms that by (auto simp: import_batch_def bind_Inr_iff lift_def modify_def)

lemma undo_batch_raises: "isl (snd (undo_batch drv e s))"
  by (auto simp: undo_batch_def bind_def gets_def lift_def split: prod.splits sum.splits)

lemma map_segments_Inr:
  assumes "map_segments fr drv segments handles s = (t, Inr u)"
  shows "import_batch fr drv segments handles (start_batch s) = (t, Inr ())"
proof -
  obtain t1 r1 where b: "import_batch fr drv segments handles (start_batch s) = (t1, r1)" by fastforce
  show ?thesis
  proof (cases r1)
    case (Inl e)
    then show ?thesis using assms b undo_batch_raises [of drv e t1] by (simp add: map_segments_eq)
  next
    case (Inr v)
    then show ?thesis using assms b by (simp add: map_segments_eq)
  qed
qed

lemma map_segments_return:
  assumes undo: "undo_succeeds drv" and inv: "vmm_inv s"
    and run: "map_segments fr drv segments handles s = (t, Inr u)"
  shows "vmm_pointer t = vmm_pointer s \<and>
    (\<exists>new. mset (map (seg_data fr) segments) = mset (map (\<lambda>x. Inr (entry_key x)) new) \<and>
       fst ` set new \<inter> fst ` set (vmm_segments s) = {} \<and> holds t (vmm_segments s @ new) \<and>
       (distinct (map (\<lambda>g. str_item fr g ''segment_id'') segments) \<longrightarrow>
          vmm_inv t \<and> vmm_segments t = vmm_segments s @ new))"
proof -
  define s0 where "s0 = start_batch s"
  note s0 = start_batch [OF inv, folded s0_def]
  obtain ordered t1 where ord: "sort_by_offset segments = Inr ordered"
    and l: "for_each (import_segment fr drv handles) ordered s0 = (t1, Inr ())"
    and t: "t = commit_imported t1"
    using import_batch_Inr [OF map_segments_Inr [OF run]] unfolding s0_def by blast
  obtain xs where xs: "same_import s0 t1" "importing t1" "vmm_imported t1 = xs"
    "list_all (entry_fits s0) xs" "fst ` set xs \<inter> fst ` set (vmm_segments s) = {}"
    "map (seg_data fr) ordered = map (\<lambda>x. Inr (entry_key x)) xs"
    using import_loop_cases [OF undo s0(2) l] s0(3,4) by auto
  have data: "mset (map (seg_data fr) segments) = mset (map (\<lambda>x. Inr (entry_key x)) xs)"
    unfolding xs(6) [symmetric] by (simp add: sort_by_offset_perm [OF ord])
  have ids: "map (\<lambda>g. str_item fr g ''segment_id'') ordered = map (\<lambda>x. Inr (fst x)) xs"
    by (rule map_eq_map_imp [OF xs(6)]) (simp add: seg_data_Inr)
  have m: "mset (map (\<lambda>g. str_item fr g ''segment_id'') segments) = mset (map (\<lambda>x. Inr (fst x)) xs)"
    unfolding ids [symmetric] by (simp add: sort_by_offset_perm [OF ord])
  have seg1: "vmm_segments t1 = vmm_segments s" using xs(1) s0 by (simp add: same_import_def)
  have same: "vmm_pointer t = vmm_pointer s" "entry_fits t = entry_fits s"
    using xs(1) s0(1) by (auto simp: t commit_imported_def same_import_def entry_fits_def fun_eq_iff)
  have hold: "holds t (vmm_segments s @ xs)"
    using xs(2,3) seg1 by (simp add: importing_def t commit_imported_def holds_def)
  have fits: "entry_fits s0 = entry_fits s" using s0(1) by (rule entry_fits_cong)
  have "vmm_inv t \<and> vmm_segments t = vmm_segments s @ xs"
    if dist: "distinct (map (\<lambda>g. str_item fr g ''segment_id'') segments)"
  proof -
    have "distinct (map (\<lambda>x. Inr (fst x) :: string result) xs)" using dist m mset_eq_imp_distinct_iff by blast
    then have dx: "distinct (map fst xs)" by (simp add: distinct_map inj_on_def)
    have tab: "vmm_segments t = vmm_segments s @ xs"
      using foldl_update_fresh [OF dx, of "vmm_segments s"] xs(3,5) seg1 by (simp add: t commit_imported_def)
    then show ?thesis using inv dx xs(4,5) same hold fits by (auto simp: vmm_inv_def)
  qed
  then show ?thesis using same data xs(5) hold by blast
qed

subsection \<open>Unmapping\<close>

lemma mset_sort_desc [simp]: "mset (sort_desc f xs) = mset xs"
  by (simp add: sort_desc_def)

lemma set_sort_desc [simp]: "set (sort_desc f xs) = set xs"
  by (metis mset_sort_desc set_mset_mset)

lemma distinct_map_sort_desc [simp]: "distinct (map g (sort_desc f xs)) \<longleftrightarrow> distinct (map g xs)"
  by (metis mset_eq_imp_distinct_iff mset_map mset_sort_desc)

lemma resolve_segment_Inr:
  assumes "resolve_segment fr table seg = Inr x"
  shows "x \<in> set table \<and> str_item fr seg ''segment_id'' = Inr (fst x) \<and>
    int_item seg ''offset_bytes'' = Inr (fst (snd x)) \<and>
    int_item seg ''length_bytes'' = Inr (fst (snd (snd x)))"
  using assms
  by (auto simp: resolve_segment_def and_then_Inr_iff split: option.splits if_splits dest: map_of_SomeD)

lemma delete_filter: "AList.delete k xs = filter (\<lambda>x. fst x \<noteq> k) xs"
  by (induction xs) auto

lemma unmap_entry_ok:
  assumes undo: "undo_succeeds drv" and inv: "vmm_inv s" and x: "x \<in> set (vmm_segments s)"
  shows "\<exists>t. unmap_entry drv x s = (t, Inr ()) \<and> vmm_inv t \<and> vmm_pointer t = vmm_pointer s \<and>
    vmm_segments t = filter (\<lambda>y. fst y \<noteq> fst x) (vmm_segments s)"
proof -
  obtain k off n h where xx: "x = (k, off, n, h)" by (cases x)
  from x obtain ys zs where split: "vmm_segments s = ys @ (k, off, n, h) # zs"
    unfolding xx by (meson split_list)
  have "fst y \<noteq> k" if "y \<in> set (ys @ zs)" for y
    using inv that by (auto simp: vmm_inv_def split image_iff)
  then have keep: "filter (\<lambda>y. fst y \<noteq> k) ys = ys" "filter (\<lambda>y. fst y \<noteq> k) zs = zs"
    by (simp_all add: filter_id_conv)
  then have del: "filter (\<lambda>y. fst y \<noteq> k) (vmm_segments s) = ys @ zs" by (simp add: split)
  obtain v where u: "drv_unmap drv (vmm_pointer s + off) n s =
      (logged (CuMemUnmap (vmm_pointer s + off) n, 0, v) s, Inr ())"
    using drv_unmap_ok [OF undo] by blast
  obtain w where r: "drv_release drv h (logged (CuMemUnmap (vmm_pointer s + off) n, 0, v) s) =
      (logged (CuMemRelease h, 0, w) (logged (CuMemUnmap (vmm_pointer s + off) n, 0, v) s), Inr ())"
    using drv_release_ok [OF undo] by blast
  define t0 where "t0 = logged (CuMemRelease h, 0, w) (logged (CuMemUnmap (vmm_pointer s + off) n, 0, v) s)"
  define t where "t = t0\<lparr>vmm_segments := ys @ zs\<rparr>"
  have "unmap_entry drv x s = (t, Inr ())"
    using u r by (simp add: unmap_entry_def xx bind_def gets_def split modify_def t_def t0_def
        delete_filter keep)
  moreover have "holds t0 (ys @ zs)"
    using inv holds_undo [of s ys k off n h zs w v] by (simp add: vmm_inv_def split t0_def)
  then have "vmm_inv t"
    using inv by (auto simp: vmm_inv_def holds_def t_def t0_def split entry_fits_def list_all_iff)
  moreover have "vmm_pointer t = vmm_pointer s" by (simp add: t_def t0_def)
  ultimately show ?thesis using del by (simp add: xx t_def)
qed

lemma unmap_loop_ok:
  assumes undo: "undo_succeeds drv"
    and "vmm_inv s" and "set xs \<subseteq> set (vmm_segments s)" and "distinct (map fst xs)"
  shows "\<exists>t. for_each (unmap_entry drv) xs s = (t, Inr ()) \<and> vmm_inv t \<and>
    vmm_pointer t = vmm_pointer s \<and>
    vmm_segments t = filter (\<lambda>y. fst y \<notin> fst ` set xs) (vmm_segments s)"
  using assms(2-4)
proof (induction xs arbitrary: s)
  case Nil
  then show ?case by (simp add: ret_def)
next
  case (Cons x xs)
  from unmap_entry_ok [OF undo Cons.prems(1), of x] Cons.prems(2) obtain t where
    t: "unmap_entry drv x s = (t, Inr ())" "vmm_inv t" "vmm_pointer t = vmm_pointer s"
      "vmm_segments t = filter (\<lambda>y. fst y \<noteq> fst x) (vmm_segments s)" by auto
  have "set xs \<subseteq> set (vmm_segments t)" using Cons.prems(2,3) t(4) by (auto simp: image_iff)
  from Cons.IH [OF t(2) this] Cons.prems(3) obtain u where
    u: "for_each (unmap_entry drv) xs t = (u, Inr ())" "vmm_inv u" "vmm_pointer u = vmm_pointer t"
      "vmm_segments u = filter (\<lambda>y. fst y \<notin> fst ` set xs) (vmm_segments t)" by auto
  have "filter (\<lambda>y. fst y \<notin> fst ` set xs) (filter (\<lambda>y. fst y \<noteq> fst x) (vmm_segments s)) =
      filter (\<lambda>y. fst y \<notin> fst ` set (x # xs)) (vmm_segments s)"
    by (auto intro: filter_cong)
  with t u show ?case by (simp add: bind_def)
qed

lemma resolve_segment_data: "resolve_segment fr table seg = Inr x \<Longrightarrow> seg_data fr seg = Inr (entry_key x)"
  using resolve_segment_Inr [of fr table seg x] by (cases x) (simp add: seg_data_def)

lemma unmap_cases:
  assumes "undo_succeeds drv" and "vmm_inv s"
    and "distinct (map (\<lambda>g. str_item fr g ''segment_id'') segments)"
    and "unmap_segments fr drv segments s = (t, r)"
  shows "vmm_inv t \<and>
    (case r of
       Inl _ \<Rightarrow> t = s
     | Inr _ \<Rightarrow> \<exists>gone. set gone \<subseteq> set (vmm_segments s) \<and> distinct (map fst gone) \<and>
         map (seg_data fr) segments = map (\<lambda>x. Inr (entry_key x)) gone \<and>
         vmm_segments t = filter (\<lambda>y. fst y \<notin> fst ` set gone) (vmm_segments s))"
proof (cases "traverse (resolve_segment fr (vmm_segments s)) segments")
  case (Inl e)
  then have "t = s" "r = Inl e" using assms(4) by (simp_all add: unmap_segments_def bind_def gets_def lift_def)
  with assms(2) show ?thesis by simp
next
  case (Inr gone)
  have ids: "map (\<lambda>x. Inr (fst x)) gone = map (\<lambda>g. str_item fr g ''segment_id'') segments"
    and data: "map (\<lambda>x. Inr (entry_key x)) gone = map (seg_data fr) segments"
    by (rule traverse_map_eq [OF Inr]; simp add: resolve_segment_Inr resolve_segment_data)+
  have sub: "set gone \<subseteq> set (vmm_segments s)"
    using traverse_set [OF Inr] resolve_segment_Inr by blast
  have "distinct (map (\<lambda>x. Inr (fst x) :: string result) gone)" using assms(3) ids by simp
  then have dist: "distinct (map fst gone)" by (simp add: distinct_map inj_on_def)
  let ?xs = "sort_desc (\<lambda>(_, offset, _). offset) gone"
  from unmap_loop_ok [OF assms(1,2), of ?xs] sub dist obtain u where
    u: "for_each (unmap_entry drv) ?xs s = (u, Inr ())" "vmm_inv u"
      "vmm_segments u = filter (\<lambda>y. fst y \<notin> fst ` set gone) (vmm_segments s)" by auto
  have "t = u" "r = Inr ()"
    using assms(4) u(1) Inr by (simp_all add: unmap_segments_def bind_def gets_def lift_def)
  with u data dist sub show ?thesis by auto
qed

subsection \<open>Failing drivers\<close>

text \<open>
  The driver may refuse any call. \<open>undo_failed\<close> marks an unmap or release call it refused;
  \<open>reliable drv\<close> answers like \<open>drv\<close> but refuses none of those. A run in which no such call
  was refused is also a run of the reliable driver.
\<close>

definition undo_failed :: "cuda_event \<Rightarrow> bool" where
  "undo_failed e =
     (case e of (c, code, _) \<Rightarrow> code \<noteq> 0 \<and> (case c of CuMemUnmap _ _ \<Rightarrow> True | CuMemRelease _ \<Rightarrow> True | _ \<Rightarrow> False))"

definition reliable :: "cuda_driver \<Rightarrow> cuda_driver" where
  "reliable drv evs c =
     (case c of
        CuMemUnmap _ _ \<Rightarrow> (0, snd (drv evs c))
      | CuMemRelease _ \<Rightarrow> (0, snd (drv evs c))
      | _ \<Rightarrow> drv evs c)"

lemma reliable_undo: "undo_succeeds (reliable drv)"
  by (simp add: undo_succeeds_def reliable_def)

definition tracks :: "(vmm, 'a) eff \<Rightarrow> (vmm, 'a) eff \<Rightarrow> bool" where
  "tracks m m' \<longleftrightarrow>
     (\<forall>s. \<exists>evs. cuda_log (fst (m s)) = cuda_log s @ evs \<and> (list_ex undo_failed evs \<or> m' s = m s))"

named_theorems tracks_intros \<open>structural rules for runs of two drivers\<close>

lemma tracksE:
  assumes "tracks m m'" and "m s = (t, r)"
  obtains evs where "cuda_log t = cuda_log s @ evs" "list_ex undo_failed evs \<or> m' s = (t, r)"
  using assms unfolding tracks_def by (metis fst_conv)

lemma tracksI:
  assumes "\<And>s t r. m s = (t, r) \<Longrightarrow> \<exists>evs. cuda_log t = cuda_log s @ evs \<and> (list_ex undo_failed evs \<or> m' s = (t, r))"
  shows "tracks m m'"
  unfolding tracks_def by (metis assms prod.collapse)

lemma tracks_pure [tracks_intros]:
  "tracks (ret x) (ret x)" "tracks (lift r) (lift r)" "tracks (gets f) (gets f)"
  by (simp_all add: tracks_def ret_def lift_def gets_def)

lemma tracks_modify: "(\<And>s. cuda_log (f s) = cuda_log s) \<Longrightarrow> tracks (modify f) (modify f)"
  by (simp add: tracks_def modify_def)

lemma tracks_cuda [tracks_intros]: "tracks (cuda drv c) (cuda (reliable drv) c)"
  by (rule tracksI)
    (auto simp: cuda_def reliable_def undo_failed_def logged_def split: prod.splits cuda_call.splits)

lemma tracks_bind [tracks_intros]:
  assumes m: "tracks m m'" and f: "\<And>x. tracks (f x) (f' x)"
  shows "tracks (bind m f) (bind m' f')"
proof (rule tracksI)
  fix s t r assume run: "bind m f s = (t, r)"
  obtain s1 q where q: "m s = (s1, q)" by fastforce
  obtain ev1 where ev1: "cuda_log s1 = cuda_log s @ ev1" "list_ex undo_failed ev1 \<or> m' s = (s1, q)"
    by (rule tracksE [OF m q])
  show "\<exists>evs. cuda_log t = cuda_log s @ evs \<and> (list_ex undo_failed evs \<or> bind m' f' s = (t, r))"
  proof (cases q)
    case (Inl e)
    then show ?thesis using run q ev1 by (intro exI [of _ ev1]) (auto simp: bind_def)
  next
    case (Inr x)
    then have "f x s1 = (t, r)" using run q by (simp add: bind_def)
    then obtain ev2 where "cuda_log t = cuda_log s1 @ ev2" "list_ex undo_failed ev2 \<or> f' x s1 = (t, r)"
      by (rule tracksE [OF f])
    then show ?thesis using ev1 Inr by (intro exI [of _ "ev1 @ ev2"]) (auto simp: bind_def)
  qed
qed

lemma tracks_try_except [tracks_intros]:
  assumes m: "tracks m m'" and h: "\<And>e. tracks (h e) (h' e)"
  shows "tracks (try_except m h) (try_except m' h')"
proof (rule tracksI)
  fix s t r assume run: "try_except m h s = (t, r)"
  obtain s1 q where q: "m s = (s1, q)" by fastforce
  obtain ev1 where ev1: "cuda_log s1 = cuda_log s @ ev1" "list_ex undo_failed ev1 \<or> m' s = (s1, q)"
    by (rule tracksE [OF m q])
  show "\<exists>evs. cuda_log t = cuda_log s @ evs \<and> (list_ex undo_failed evs \<or> try_except m' h' s = (t, r))"
  proof (cases q)
    case (Inr x)
    then show ?thesis using run q ev1 by (intro exI [of _ ev1]) (auto simp: try_except_def)
  next
    case (Inl e)
    then have "h e s1 = (t, r)" using run q by (simp add: try_except_def)
    then obtain ev2 where "cuda_log t = cuda_log s1 @ ev2" "list_ex undo_failed ev2 \<or> h' e s1 = (t, r)"
      by (rule tracksE [OF h])
    then show ?thesis using ev1 Inl by (intro exI [of _ "ev1 @ ev2"]) (auto simp: try_except_def)
  qed
qed

lemma tracks_try_finally [tracks_intros]:
  assumes "tracks m m'" and "tracks f f'"
  shows "tracks (try_finally m f) (try_finally m' f')"
proof -
  have "tracks (\<lambda>s. case m s of (s', r) \<Rightarrow> (s', Inr r)) (\<lambda>s. case m' s of (s', r) \<Rightarrow> (s', Inr r))"
  proof (rule tracksI)
    fix s t q assume run: "(case m s of (s', r) \<Rightarrow> (s', Inr r)) = (t, q)"
    obtain s1 r1 where m: "m s = (s1, r1)" by fastforce
    then have q: "t = s1" "q = Inr r1" using run by simp_all
    show "\<exists>evs. cuda_log t = cuda_log s @ evs \<and>
        (list_ex undo_failed evs \<or> (case m' s of (s', r) \<Rightarrow> (s', Inr r)) = (t, q))"
      by (rule tracksE [OF assms(1) m]) (auto simp: q)
  qed
  then show ?thesis unfolding try_finally_eq by (intro tracks_intros assms(2))
qed

lemma tracks_if [tracks_intros]: "tracks m m' \<Longrightarrow> tracks n n' \<Longrightarrow> tracks (if c then m else n) (if c then m' else n')"
  by simp

lemma tracks_case_prod [tracks_intros]:
  "(\<And>a b. tracks (f a b) (f' a b)) \<Longrightarrow> tracks (case p of (a, b) \<Rightarrow> f a b) (case p of (a, b) \<Rightarrow> f' a b)"
  by (cases p) simp

lemma tracks_for_each [tracks_intros]:
  "(\<And>x. tracks (f x) (f' x)) \<Longrightarrow> tracks (for_each f xs) (for_each f' xs)"
  by (induction xs) (auto intro!: tracks_intros)

lemma tracks_map_segments:
  "tracks (map_segments fr drv segments handles) (map_segments fr (reliable drv) segments handles)"
  unfolding map_segments_def import_batch_def undo_batch_def import_segment_def rollback_entry_def drv_import_fd_def
    drv_map_def drv_release_def drv_unmap_def cuda_checked_def
  by (intro tracks_intros tracks_modify) (simp_all add: commit_imported_def)

lemma tracks_unmap_segments:
  "tracks (unmap_segments fr drv segments) (unmap_segments fr (reliable drv) segments)"
  unfolding unmap_segments_def unmap_entry_def drv_release_def drv_unmap_def cuda_checked_def
  by (intro tracks_intros tracks_modify) simp_all

text \<open>A call that returns has met no refused unmap or release.\<close>

definition cleanly :: "(vmm, 'a) eff \<Rightarrow> bool" where
  "cleanly m \<longleftrightarrow>
     (\<forall>s t x. m s = (t, Inr x) \<longrightarrow> (\<exists>evs. cuda_log t = cuda_log s @ evs \<and> \<not> list_ex undo_failed evs))"

lemma clean_pure: "cleanly (ret x)" "cleanly (lift r)" "cleanly (gets f)"
  by (simp_all add: cleanly_def ret_def lift_def gets_def)

lemma clean_modify: "(\<And>s. cuda_log (f s) = cuda_log s) \<Longrightarrow> cleanly (modify f)"
  by (simp add: cleanly_def modify_def)

lemma clean_checked: "cleanly (cuda_checked drv c op)"
  by (auto simp: cleanly_def cuda_checked_eq undo_failed_def split: prod.splits if_splits)

lemma cleanE:
  assumes "cleanly m" and "m s = (t, Inr x)"
  obtains evs where "cuda_log t = cuda_log s @ evs" "\<not> list_ex undo_failed evs"
  using assms unfolding cleanly_def by blast

lemma cleanI:
  assumes "\<And>s t x. m s = (t, Inr x) \<Longrightarrow> \<exists>evs. cuda_log t = cuda_log s @ evs \<and> \<not> list_ex undo_failed evs"
  shows "cleanly m"
  using assms unfolding cleanly_def by blast

lemma clean_bind:
  assumes "cleanly m" and "\<And>x. cleanly (f x)"
  shows "cleanly (bind m f)"
proof (rule cleanI)
  fix s t y assume "bind m f s = (t, Inr y)"
  then obtain s1 x where 1: "m s = (s1, Inr x)" and 2: "f x s1 = (t, Inr y)" by (auto simp: bind_Inr_iff)
  obtain ev1 ev2 where "cuda_log s1 = cuda_log s @ ev1" "\<not> list_ex undo_failed ev1"
      "cuda_log t = cuda_log s1 @ ev2" "\<not> list_ex undo_failed ev2"
    using cleanE [OF assms(1) 1] cleanE [OF assms(2) 2] by metis
  then show "\<exists>evs. cuda_log t = cuda_log s @ evs \<and> \<not> list_ex undo_failed evs"
    by (intro exI [of _ "ev1 @ ev2"]) simp
qed

lemma clean_if: "cleanly m \<Longrightarrow> cleanly n \<Longrightarrow> cleanly (if c then m else n)"
  by simp

lemma clean_case_prod: "(\<And>a b. cleanly (f a b)) \<Longrightarrow> cleanly (case p of (a, b) \<Rightarrow> f a b)"
  by (cases p) simp

lemma clean_try_except:
  assumes "cleanly m" and "\<And>e s. isl (snd (h e s))"
  shows "cleanly (try_except m h)"
proof (rule cleanI)
  fix s t x assume run: "try_except m h s = (t, Inr x)"
  obtain s1 r where m: "m s = (s1, r)" by fastforce
  show "\<exists>evs. cuda_log t = cuda_log s @ evs \<and> \<not> list_ex undo_failed evs"
  proof (cases r)
    case (Inl e)
    then show ?thesis using run m assms(2) [of e s1] by (simp add: try_except_def)
  next
    case (Inr y)
    then have "m s = (t, Inr x)" using run m by (simp add: try_except_def)
    then show ?thesis by (rule cleanE [OF assms(1)]) blast
  qed
qed

lemma clean_for_each: "(\<And>x. cleanly (f x)) \<Longrightarrow> cleanly (for_each f xs)"
  by (induction xs) (auto intro!: clean_pure clean_bind)

lemmas clean_intros = clean_pure clean_checked clean_bind clean_if clean_case_prod clean_try_except clean_for_each

lemma raise_bind: "(\<And>x s. isl (snd (f x s))) \<Longrightarrow> isl (snd (bind m f s))"
  by (auto simp: bind_def split: prod.splits sum.splits)

lemma raise_lift: "isl (snd (lift (Inl e) s))"
  by (simp add: lift_def)

lemma clean_map_segments: "cleanly (map_segments fr drv segments handles)"
  unfolding map_segments_def import_batch_def import_segment_def drv_import_fd_def drv_map_def
  by (intro clean_intros clean_modify raise_bind raise_lift undo_batch_raises) (simp_all add: commit_imported_def)

lemma clean_unmap_segments: "cleanly (unmap_segments fr drv segments)"
  unfolding unmap_segments_def unmap_entry_def drv_release_def drv_unmap_def
  by (intro clean_intros clean_modify) simp_all

lemma reliable_return:
  assumes "tracks m m'" and "cleanly m" and "m s = (t, Inr x)"
  shows "m' s = (t, Inr x) \<and> (\<exists>evs. cuda_log t = cuda_log s @ evs)"
proof -
  obtain evs where "cuda_log t = cuda_log s @ evs" "\<not> list_ex undo_failed evs"
    using assms(2,3) unfolding cleanly_def by blast
  then show ?thesis using tracksE [OF assms(1,3)] by (metis same_append_eq)
qed

text \<open>Nothing but the last statement of an import changes the table.\<close>

lemma map_segments_table:
  assumes "map_segments fr drv segments handles s = (t, Inl e)"
  shows "vmm_segments t = vmm_segments s \<and> vmm_pointer t = vmm_pointer s"
proof -
  let ?P = "\<lambda>u. vmm_segments u = vmm_segments s \<and> vmm_pointer u = vmm_pointer s"
  have cuda: "keeps ?P (cuda drv c)" for c by (simp add: keeps_def cuda_def split: prod.splits)
  have loop: "keeps ?P (for_each (import_segment fr drv handles) ordered)" for ordered
    unfolding import_segment_def drv_import_fd_def drv_map_def drv_release_def cuda_checked_def
    by (intro keeps_intros keeps_modify cuda) simp_all
  have undo: "keeps ?P (undo_batch drv e1)" for e1
    unfolding undo_batch_def rollback_entry_def drv_release_def drv_unmap_def cuda_checked_def
    by (intro keeps_intros cuda)
  obtain t1 r1 where b: "import_batch fr drv segments handles (start_batch s) = (t1, r1)" by fastforce
  with assms obtain e1 where r1: "r1 = Inl e1" by (cases r1) (simp_all add: map_segments_eq)
  have "?P t1"
  proof (cases "sort_by_offset segments")
    case (Inl e')
    then have "t1 = start_batch s" using b by (simp add: import_batch_def bind_def lift_def)
    then show ?thesis by (simp add: start_batch_def)
  next
    case (Inr ordered)
    obtain t2 r2 where l: "for_each (import_segment fr drv handles) ordered (start_batch s) = (t2, r2)" by fastforce
    have "?P t2" by (rule keepsD [OF loop _ l]) (simp add: start_batch_def)
    moreover have "t1 = t2" using b r1 Inr l
      by (auto simp: import_batch_def bind_def lift_def modify_def split: sum.splits)
    ultimately show ?thesis by simp
  qed
  moreover have "undo_batch drv e1 t1 = (t, Inl e)" using assms b r1 by (simp add: map_segments_eq)
  ultimately show ?thesis by (rule keepsD [OF undo])
qed

lemma map_segments_cases:
  assumes inv: "vmm_inv s" and run: "map_segments fr drv segments handles s = (t, r)"
  shows "vmm_pointer t = vmm_pointer s \<and>
    (\<exists>evs. cuda_log t = cuda_log s @ evs \<and>
      (case r of
         Inl _ \<Rightarrow> vmm_segments t = vmm_segments s \<and> (vmm_inv t \<or> list_ex undo_failed evs)
       | Inr _ \<Rightarrow> \<exists>new. mset (map (seg_data fr) segments) = mset (map (\<lambda>x. Inr (entry_key x)) new) \<and>
           fst ` set new \<inter> fst ` set (vmm_segments s) = {} \<and> holds t (vmm_segments s @ new) \<and>
           (distinct (map (\<lambda>g. str_item fr g ''segment_id'') segments) \<longrightarrow>
              vmm_inv t \<and> vmm_segments t = vmm_segments s @ new)))"
proof (cases r)
  case (Inl e)
  obtain evs where evs: "cuda_log t = cuda_log s @ evs"
      "list_ex undo_failed evs \<or> map_segments fr (reliable drv) segments handles s = (t, Inl e)"
    using run Inl by (auto elim: tracksE [OF tracks_map_segments])
  then have "vmm_inv t \<or> list_ex undo_failed evs" using map_segments_raise [OF reliable_undo inv] by blast
  then show ?thesis using map_segments_table run evs(1) Inl by auto
next
  case (Inr u)
  have run': "map_segments fr (reliable drv) segments handles s = (t, Inr u)" "\<exists>evs. cuda_log t = cuda_log s @ evs"
    using reliable_return [OF tracks_map_segments clean_map_segments] run Inr by blast+
  show ?thesis unfolding Inr sum.case using map_segments_return [OF reliable_undo inv run'(1)] run'(2) by blast
qed

text \<open>
  C6. \<open>map_segments\<close> is all or nothing, whatever the driver answers. If it returns, the device
  holds exactly what the table held and one new range with its handle for every segment of the
  batch, and the identifiers are new; if the identifiers of the batch are distinct (the contract
  guarantees it), the table gains exactly these entries and describes the device. If it raises, at
  whatever segment and driver call, the table is unchanged, and the device holds exactly the table
  again unless the driver refused an unmap or release call of this very run.
\<close>

theorem map_segments_all_or_nothing:
  assumes "vmm_inv s" and "map_segments fr drv segments handles s = (t, r)"
  shows "vmm_pointer t = vmm_pointer s \<and>
    (\<exists>evs. cuda_log t = cuda_log s @ evs \<and>
      (case r of
         Inl _ \<Rightarrow> vmm_segments t = vmm_segments s \<and> (vmm_inv t \<or> list_ex undo_failed evs)
       | Inr _ \<Rightarrow> \<exists>new. mset (map (seg_data fr) segments) = mset (map (\<lambda>x. Inr (entry_key x)) new) \<and>
           fst ` set new \<inter> fst ` set (vmm_segments s) = {} \<and> holds t (vmm_segments s @ new) \<and>
           (distinct (map (\<lambda>g. str_item fr g ''segment_id'') segments) \<longrightarrow>
              vmm_inv t \<and> vmm_segments t = vmm_segments s @ new)))"
  using assms by (rule map_segments_cases)

lemma unmap_segments_cases:
  assumes inv: "vmm_inv s" and dist: "distinct (map (\<lambda>g. str_item fr g ''segment_id'') segments)"
    and run: "unmap_segments fr drv segments s = (t, r)"
  shows "\<exists>evs. cuda_log t = cuda_log s @ evs \<and>
    (case r of
       Inl _ \<Rightarrow> t = s \<or> list_ex undo_failed evs
     | Inr _ \<Rightarrow> vmm_inv t \<and>
         (\<exists>gone. set gone \<subseteq> set (vmm_segments s) \<and> distinct (map fst gone) \<and>
            map (seg_data fr) segments = map (\<lambda>x. Inr (entry_key x)) gone \<and>
            vmm_segments t = filter (\<lambda>y. fst y \<notin> fst ` set gone) (vmm_segments s)))"
proof (cases r)
  case (Inl e)
  obtain evs where "cuda_log t = cuda_log s @ evs"
      "list_ex undo_failed evs \<or> unmap_segments fr (reliable drv) segments s = (t, Inl e)"
    using run Inl by (auto elim: tracksE [OF tracks_unmap_segments])
  then show ?thesis using unmap_cases [OF reliable_undo inv dist] Inl by fastforce
next
  case (Inr u)
  have run': "unmap_segments fr (reliable drv) segments s = (t, Inr u)" "\<exists>evs. cuda_log t = cuda_log s @ evs"
    using reliable_return [OF tracks_unmap_segments clean_unmap_segments] run Inr by blast+
  show ?thesis unfolding Inr sum.case using unmap_cases [OF reliable_undo inv dist run'(1)] run'(2) by auto
qed

text \<open>
  \<open>unmap_segments\<close> checks the whole batch before its first driver call: if it raises, nothing
  changed unless the driver refused an unmap or release call. If it returns, every segment of the
  batch was in the table with the same offset and length, exactly those entries are gone, and the
  device holds exactly the remaining table. (No identifier is repeated.)
\<close>

theorem unmap_segments_exact:
  assumes inv: "vmm_inv s" and dist: "distinct (map (\<lambda>g. str_item fr g ''segment_id'') segments)"
    and run: "unmap_segments fr drv segments s = (t, r)"
  shows "\<exists>evs. cuda_log t = cuda_log s @ evs \<and>
    (case r of
       Inl _ \<Rightarrow> t = s \<or> list_ex undo_failed evs
     | Inr _ \<Rightarrow> vmm_inv t \<and>
         (\<exists>gone. set gone \<subseteq> set (vmm_segments s) \<and> distinct (map fst gone) \<and>
            map (seg_data fr) segments = map (\<lambda>x. Inr (entry_key x)) gone \<and>
            vmm_segments t = filter (\<lambda>y. fst y \<notin> fst ` set gone) (vmm_segments s)))"
  using assms by (rule unmap_segments_cases)

subsection \<open>Closing\<close>

text \<open>The calls that close one entry, and what each step of the closing loop does.\<close>

definition close_calls :: "int \<Rightarrow> vmm_entry list \<Rightarrow> cuda_call list" where
  "close_calls p xs = concat (map (\<lambda>(_, off, n, h). [CuMemUnmap (p + off) n, CuMemRelease h]) xs)"

definition failed :: "cuda_event \<Rightarrow> bool" where
  "failed e = (case e of (_, code, _) \<Rightarrow> code \<noteq> 0)"

lemma note_error_call:
  "\<exists>code v err. note_error first (bind (cuda_checked drv c op) (\<lambda>_. ret ())) s =
     (logged (c, code, v) s, Inr err) \<and> (err = None \<longleftrightarrow> first = None \<and> code = 0)"
  by (cases "drv (cuda_log s) c")
    (auto simp: note_error_def try_except_def bind_def ret_def cuda_checked_eq split: option.splits)

definition closing :: "cuda_event list \<Rightarrow> vmm_entry list \<Rightarrow> vmm \<Rightarrow> vmm" where
  "closing evs table s = s\<lparr>cuda_log := cuda_log s @ evs, vmm_segments := table\<rparr>"

lemma closing_simps [simp]:
  "cuda_log (closing evs table s) = cuda_log s @ evs"
  "vmm_segments (closing evs table s) = table"
  "vmm_pointer (closing evs table s) = vmm_pointer s"
  "virtual_bytes (closing evs table s) = virtual_bytes s"
  "closing ev2 tab2 (closing ev1 tab1 s) = closing (ev1 @ ev2) tab2 s"
  "closing [] (vmm_segments s) s = s"
  by (simp_all add: closing_def)

lemma close_entry_step:
  "\<exists>evs err. close_entry drv p first x s =
     (closing evs (filter (\<lambda>y. fst y \<noteq> fst x) (vmm_segments s)) s, Inr err) \<and>
     map fst evs = close_calls p [x] \<and> (err = None \<longleftrightarrow> first = None \<and> \<not> list_ex failed evs)"
proof -
  obtain k off n h where x: "x = (k, off, n, h)" by (cases x)
  obtain c1 v1 e1 where u: "note_error first (drv_unmap drv (p + off) n) s =
      (logged (CuMemUnmap (p + off) n, c1, v1) s, Inr e1)" "e1 = None \<longleftrightarrow> first = None \<and> c1 = 0"
    unfolding drv_unmap_def using note_error_call by blast
  obtain c2 v2 e2 where r: "note_error e1 (drv_release drv h) (logged (CuMemUnmap (p + off) n, c1, v1) s) =
      (logged (CuMemRelease h, c2, v2) (logged (CuMemUnmap (p + off) n, c1, v1) s), Inr e2)"
      "e2 = None \<longleftrightarrow> e1 = None \<and> c2 = 0"
    unfolding drv_release_def using note_error_call by blast
  let ?evs = "[(CuMemUnmap (p + off) n, c1, v1), (CuMemRelease h, c2, v2)]"
  have "close_entry drv p first x s =
      (logged (CuMemRelease h, c2, v2) (logged (CuMemUnmap (p + off) n, c1, v1) s)
         \<lparr>vmm_segments := AList.delete k (vmm_segments s)\<rparr>, Inr e2)"
    by (simp add: close_entry_def x bind_def modify_def ret_def u(1) r(1))
  also have "\<dots> = (closing ?evs (filter (\<lambda>y. fst y \<noteq> fst x) (vmm_segments s)) s, Inr e2)"
    by (simp add: logged_def closing_def delete_filter x)
  finally have run: "close_entry drv p first x s =
      (closing ?evs (filter (\<lambda>y. fst y \<noteq> fst x) (vmm_segments s)) s, Inr e2)" .
  moreover have "map fst ?evs = close_calls p [x]" by (simp add: close_calls_def x)
  moreover have "e2 = None \<longleftrightarrow> first = None \<and> \<not> list_ex failed ?evs"
    using u(2) r(2) by (simp add: failed_def)
  ultimately show ?thesis by blast
qed

lemma close_loop_steps:
  "\<exists>evs err. fold_e (close_entry drv p) first xs s =
     (closing evs (filter (\<lambda>y. fst y \<notin> fst ` set xs) (vmm_segments s)) s, Inr err) \<and>
     map fst evs = close_calls p xs \<and> (err = None \<longleftrightarrow> first = None \<and> \<not> list_ex failed evs)"
proof (induction xs arbitrary: first s)
  case Nil
  have "fold_e (close_entry drv p) first [] s = (closing [] (vmm_segments s) s, Inr first)"
    by (simp add: ret_def)
  then show ?case by (intro exI [of _ "[]"] exI [of _ first]) (simp add: close_calls_def)
next
  case (Cons x xs)
  let ?t1 = "filter (\<lambda>y. fst y \<noteq> fst x) (vmm_segments s)"
  obtain ev1 e1 where one: "close_entry drv p first x s = (closing ev1 ?t1 s, Inr e1)"
     "map fst ev1 = close_calls p [x]" "e1 = None \<longleftrightarrow> first = None \<and> \<not> list_ex failed ev1"
    using close_entry_step [of drv p first x s] by (elim exE conjE)
  obtain ev2 e2 where two: "fold_e (close_entry drv p) e1 xs (closing ev1 ?t1 s) =
     (closing ev2 (filter (\<lambda>y. fst y \<notin> fst ` set xs) ?t1) (closing ev1 ?t1 s), Inr e2)"
     "map fst ev2 = close_calls p xs" "e2 = None \<longleftrightarrow> e1 = None \<and> \<not> list_ex failed ev2"
    using Cons.IH [of e1 "closing ev1 ?t1 s"] unfolding closing_simps(2) by (elim exE conjE)
  have t2: "filter (\<lambda>y. fst y \<notin> fst ` set xs) ?t1 =
      filter (\<lambda>y. fst y \<notin> fst ` set (x # xs)) (vmm_segments s)"
    by (auto intro: filter_cong)
  have "fold_e (close_entry drv p) first (x # xs) s =
      (closing (ev1 @ ev2) (filter (\<lambda>y. fst y \<notin> fst ` set (x # xs)) (vmm_segments s)) s, Inr e2)"
    using one(1) two(1) unfolding t2 by (simp add: bind_def)
  moreover have "map fst (ev1 @ ev2) = close_calls p (x # xs)"
    using one(2) two(2) by (simp add: close_calls_def)
  moreover have "e2 = None \<longleftrightarrow> first = None \<and> \<not> list_ex failed (ev1 @ ev2)"
    using one(3) two(3) by auto
  ultimately show ?case by (intro exI [of _ "ev1 @ ev2"] exI [of _ e2] conjI)
qed

text \<open>
  C30. Closing an open import always runs to the end, whatever the driver answers: it unmaps and
  releases every segment of the table, from the highest offset down, then frees the reserved
  addresses; afterwards the table is empty and the pointer is cleared, so a second close makes no
  call. It raises exactly if some call failed.
\<close>

theorem close_import_complete:
  assumes "vmm_pointer s \<noteq> 0"
  shows "\<exists>t r evs. close_import drv s = (t, r) \<and>
    cuda_log t = cuda_log s @ evs \<and>
    map fst evs = close_calls (vmm_pointer s) (sort_desc (\<lambda>(_, offset, _). offset) (vmm_segments s)) @
      [CuMemAddressFree (vmm_pointer s) (virtual_bytes s)] \<and>
    vmm_segments t = [] \<and> vmm_pointer t = 0 \<and>
    (r = Inr () \<longleftrightarrow> (\<forall>(c, code, v) \<in> set evs. code = 0)) \<and>
    close_import drv t = (t, Inr ())"
proof -
  let ?xs = "sort_desc (\<lambda>(_, offset, _). offset) (vmm_segments s)"
  let ?s0 = "s\<lparr>vmm_pointer := 0\<rparr>"
  have "filter (\<lambda>y. fst y \<notin> fst ` set ?xs) (vmm_segments s) = []"
    by (simp add: filter_empty_conv)
  then obtain ev1 e1 where l: "fold_e (close_entry drv (vmm_pointer s)) None ?xs ?s0 =
     (closing ev1 [] ?s0, Inr e1)"
     "map fst ev1 = close_calls (vmm_pointer s) ?xs" "e1 = None \<longleftrightarrow> \<not> list_ex failed ev1"
    using close_loop_steps [of drv "vmm_pointer s" None ?xs ?s0]
    by (elim exE conjE) (simp del: set_sort_desc)
  let ?s1 = "closing ev1 [] ?s0"
  let ?free = "CuMemAddressFree (vmm_pointer s) (virtual_bytes s)"
  obtain code v e2 where f: "note_error e1 (drv_free_address drv (vmm_pointer s) (virtual_bytes s)) ?s1 =
      (logged (?free, code, v) ?s1, Inr e2)" "e2 = None \<longleftrightarrow> e1 = None \<and> code = 0"
    unfolding drv_free_address_def using note_error_call by blast
  define r where "r = (case e2 of None \<Rightarrow> Inr () | Some e \<Rightarrow> Inl e)"
  have run: "close_import drv s = (logged (?free, code, v) ?s1, r)"
    using assms l(1) f(1)
    by (auto simp: close_import_def bind_def gets_def modify_def Let_def r_def ret_def lift_def
        split: option.splits)
  have ok: "r = Inr () \<longleftrightarrow> (\<forall>(c, code, v) \<in> set (ev1 @ [(?free, code, v)]). code = 0)"
    using l(3) f(2) by (auto simp: r_def list_ex_iff failed_def split: option.splits)
  have again: "close_import drv (logged (?free, code, v) ?s1) = (logged (?free, code, v) ?s1, Inr ())"
    by (simp add: close_import_def bind_def gets_def modify_def Let_def ret_def logged_def closing_def)
  show ?thesis
    by (rule exI [of _ "logged (?free, code, v) ?s1"], rule exI [of _ r],
        rule exI [of _ "ev1 @ [(?free, code, v)]"])
      (use run l(2) ok again in simp)
qed

subsection \<open>Concrete runs\<close>

text \<open>
  A driver that reserves at 4096, imports descriptor \<open>fd\<close> as handle \<open>fd + 100\<close> and fails
  to map the range at \<open>bad\<close>.
\<close>

definition sample_driver :: "int \<Rightarrow> cuda_driver" where
  "sample_driver bad evs c =
     (case c of
        CuMemAddressReserve _ _ \<Rightarrow> (0, 4096)
      | CuMemImportFromShareableHandle fd \<Rightarrow> (0, fd + 100)
      | CuMemMap a _ _ \<Rightarrow> (if a = bad then (2, 0) else (0, 0))
      | _ \<Rightarrow> (0, 0))"

definition sample_vmm :: "vmm_entry list \<Rightarrow> cuda_event list \<Rightarrow> vmm" where
  "sample_vmm table evs =
     \<lparr>vmm_pointer = 4096, virtual_bytes = 256, vmm_granularity = 64, vmm_device_id = 0,
      vmm_segments = table, vmm_imported = [], cuda_log = evs\<rparr>"

definition sample_batch :: "pyval list" where
  "sample_batch =
     [PDict [(''segment_id'', PStr ''b''), (''offset_bytes'', PInt 64), (''length_bytes'', PInt 64),
             (''handle_index'', PInt 1)],
      PDict [(''segment_id'', PStr ''a''), (''offset_bytes'', PInt 0), (''length_bytes'', PInt 64),
             (''handle_index'', PInt 0)]]"

definition no_float :: "pyfloat \<Rightarrow> string" where
  "no_float f = []"

lemma sample_vmm_inv: "vmm_inv (sample_vmm [] [])"
  by (simp add: vmm_inv_def sample_vmm_def holds_def)

lemma sample_batch_distinct: "distinct (map (\<lambda>g. str_item fr g ''segment_id'') sample_batch)"
  by (simp add: sample_batch_def str_item_def item_def)

theorem map_segments_all_or_nothing_witness:
  "vmm_inv (sample_vmm [] []) \<and>
   (case map_segments no_float (sample_driver 4160) sample_batch [3, 4] (sample_vmm [] []) of
      (t, r) \<Rightarrow> isl r \<and> vmm_inv t \<and> vmm_segments t = [] \<and> length (cuda_log t) = 8)"
proof -
  obtain t r where run: "map_segments no_float (sample_driver 4160) sample_batch [3, 4] (sample_vmm [] []) = (t, r)"
    by fastforce
  have "isl (snd (map_segments no_float (sample_driver 4160) sample_batch [3, 4] (sample_vmm [] []))) \<and>
      (\<lambda>l. length l = 8 \<and> \<not> list_ex undo_failed l)
        (cuda_log (fst (map_segments no_float (sample_driver 4160) sample_batch [3, 4] (sample_vmm [] []))))"
    by code_simp
  then have r: "isl r" "length (cuda_log t) = 8" "\<not> list_ex undo_failed (cuda_log t)" by (simp_all add: run)
  from map_segments_all_or_nothing [OF sample_vmm_inv run] r
  have "vmm_inv t" "vmm_segments t = []" by (cases r; auto simp: sample_vmm_def)+
  with r sample_vmm_inv show ?thesis by (simp add: run)
qed

definition sample_entries :: "vmm_entry list" where
  "sample_entries = [(''a'', 0, 64, 103), (''b'', 64, 64, 104)]"

definition sample_events :: "cuda_event list" where
  "sample_events =
     [(CuMemImportFromShareableHandle 3, 0, 103), (CuMemMap 4096 64 103, 0, 0),
      (CuMemImportFromShareableHandle 4, 0, 104), (CuMemMap 4160 64 104, 0, 0)]"

lemma sample_loaded_inv: "vmm_inv (sample_vmm sample_entries sample_events)"
  by (simp add: vmm_inv_def sample_vmm_def holds_def sample_entries_def sample_events_def
      device_view_def entry_fits_def)

theorem unmap_segments_exact_witness:
  "vmm_inv (sample_vmm sample_entries sample_events) \<and>
   (case unmap_segments no_float (sample_driver 0) [hd sample_batch] (sample_vmm sample_entries sample_events) of
      (t, r) \<Rightarrow> r = Inr () \<and> vmm_inv t \<and> vmm_segments t = [(''a'', 0, 64, 103)])"
proof -
  let ?s = "sample_vmm sample_entries sample_events"
  obtain t r where run: "unmap_segments no_float (sample_driver 0) [hd sample_batch] ?s = (t, r)" by fastforce
  have "snd (unmap_segments no_float (sample_driver 0) [hd sample_batch] ?s) = Inr () \<and>
      vmm_segments (fst (unmap_segments no_float (sample_driver 0) [hd sample_batch] ?s)) = [(''a'', 0, 64, 103)]"
    by code_simp
  then have r: "r = Inr ()" "vmm_segments t = [(''a'', 0, 64, 103)]" by (simp_all add: run)
  have "distinct (map (\<lambda>g. str_item no_float g ''segment_id'') [hd sample_batch])" by simp
  from unmap_segments_exact [OF sample_loaded_inv this run] r sample_loaded_inv
  show ?thesis by (simp add: run)
qed

theorem close_import_complete_witness:
  "\<exists>t r evs. close_import (sample_driver 0) (sample_vmm sample_entries sample_events) = (t, r) \<and>
     cuda_log t = sample_events @ evs \<and>
     map fst evs = [CuMemUnmap 4160 64, CuMemRelease 104, CuMemUnmap 4096 64, CuMemRelease 103,
       CuMemAddressFree 4096 256] \<and> vmm_segments t = [] \<and> vmm_pointer t = 0"
proof -
  let ?s = "sample_vmm sample_entries sample_events"
  have p: "vmm_pointer ?s \<noteq> 0" by (simp add: sample_vmm_def)
  have c: "close_calls (vmm_pointer ?s) (sort_desc (\<lambda>(_, offset, _). offset) (vmm_segments ?s)) @
      [CuMemAddressFree (vmm_pointer ?s) (virtual_bytes ?s)] =
      [CuMemUnmap 4160 64, CuMemRelease 104, CuMemUnmap 4096 64, CuMemRelease 103,
       CuMemAddressFree 4096 256]"
    by code_simp
  have l: "cuda_log ?s = sample_events" by (simp add: sample_vmm_def)
  obtain t r evs where "close_import (sample_driver 0) ?s = (t, r)" "cuda_log t = sample_events @ evs"
    "map fst evs = [CuMemUnmap 4160 64, CuMemRelease 104, CuMemUnmap 4096 64, CuMemRelease 103,
       CuMemAddressFree 4096 256]" "vmm_segments t = []" "vmm_pointer t = 0"
    using close_import_complete [OF p, of "sample_driver 0"] unfolding c l by (elim exE conjE)
  then show ?thesis by (intro exI conjI)
qed

text \<open>
  A batch that repeats an identifier is accepted: the second entry replaces the first in the
  table, and the first range stays mapped with no entry that could unmap it.
\<close>

definition repeated_batch :: "pyval list" where
  "repeated_batch =
     [PDict [(''segment_id'', PStr ''a''), (''offset_bytes'', PInt 0), (''length_bytes'', PInt 64),
             (''handle_index'', PInt 0)],
      PDict [(''segment_id'', PStr ''a''), (''offset_bytes'', PInt 64), (''length_bytes'', PInt 64),
             (''handle_index'', PInt 1)]]"

lemma repeated_identifier_leaks:
  "case map_segments no_float (sample_driver 0) repeated_batch [3, 4] (sample_vmm [] []) of
     (t, r) \<Rightarrow> r = Inr () \<and> vmm_segments t = [(''a'', 64, 64, 104)] \<and>
       map fst (cuda_log t) =
         [CuMemImportFromShareableHandle 3, CuMemMap 4096 64 103, CuMemSetAccess 4096 64 0,
          CuMemImportFromShareableHandle 4, CuMemMap 4160 64 104, CuMemSetAccess 4160 64 0]"
  by code_simp

end
