(* ===== verification/Block_Pool.thy ===== *)
theory Block_Pool
  imports Vmm_Import
begin

text \<open>
  \<open>VllmElasticBlockPool\<close> of \<open>shared_pool.py\<close>: the adapter that keeps vLLM's block
  allocator inside the mapped prefix of an elastic pool.

  vLLM's free queue and its eviction function are a parameter (\<open>queue_ops\<close>) over a queue
  state of any type; blocks are named by their index in \<open>pool.blocks\<close>. What the code relies on
  is \<open>queue_laws\<close>, for an abstraction \<open>free\<close> of the queue to the multiset of free blocks:
  removing takes out the block or raises and changes nothing, appending adds the blocks, evicting
  does not touch the queue.
\<close>

subsection \<open>State and operations\<close>

record 'q queue_ops =
  q_remove :: "nat \<Rightarrow> 'q \<Rightarrow> 'q \<times> unit result"
  q_append_n :: "nat list \<Rightarrow> 'q \<Rightarrow> 'q \<times> unit result"
  q_evict :: "nat \<Rightarrow> 'q \<Rightarrow> 'q \<times> unit result"

text \<open>\<open>ref_cnt\<close> is \<open>None\<close> for a block without that attribute.\<close>

record pool_block =
  ref_cnt :: "int option"
  is_null :: bool

text \<open>Which attributes of the vLLM pool exist and are callable.\<close>

record pool_surface =
  blocks_is_list :: bool
  has_queue :: bool
  remove_callable :: bool
  append_callable :: bool
  evict_callable :: bool

text \<open>
  The adapter with the vLLM pool it is bound to. \<open>bp_removed\<close> is the local list
  \<open>removed\<close> of a running call, which its exception handler reads.
\<close>

record 'q block_pool =
  bp_initial :: int
  bp_maximum :: int
  bp_current :: int
  bp_bound :: bool
  bp_blocks :: "pool_block list"
  bp_num_gpu_blocks :: int
  bp_queue :: 'q
  bp_removed :: "nat list"

definition check_elastic_block_pool :: "int \<Rightarrow> int \<Rightarrow> unit result" where
  "check_elastic_block_pool initial_blocks maximum_blocks =
     (if initial_blocks \<le> 1 \<or> initial_blocks > maximum_blocks
      then RaiseP ''elastic block pool requires room for vLLM's null block'' else Inr ())"

definition block_ref :: "pool_block \<Rightarrow> int" where
  "block_ref b = (case ref_cnt b of None \<Rightarrow> -1 | Some n \<Rightarrow> n)"

text \<open>The index range of the slice \<open>blocks[a:b]\<close> for non-negative bounds.\<close>

definition block_slice :: "int \<Rightarrow> int \<Rightarrow> pool_block list \<Rightarrow> nat list" where
  "block_slice a b blocks = [nat a ..< min (nat b) (length blocks)]"

definition on_queue :: "('q \<Rightarrow> 'q \<times> unit result) \<Rightarrow> ('q block_pool, unit) eff" where
  "on_queue f s = (case f (bp_queue s) of (q, r) \<Rightarrow> (s\<lparr>bp_queue := q\<rparr>, r))"

definition remove_block :: "'q queue_ops \<Rightarrow> nat \<Rightarrow> ('q block_pool, unit) eff" where
  "remove_block ops b =
     bind (on_queue (q_remove ops b)) (\<lambda>_. modify (\<lambda>s. s\<lparr>bp_removed := bp_removed s @ [b]\<rparr>))"

text \<open>The handler shared by \<open>bind\<close> and \<open>apply\<close>: restore what was removed, then raise.\<close>

definition restore_removed :: "'q queue_ops \<Rightarrow> string \<Rightarrow> string \<Rightarrow> ('q block_pool, unit) eff" where
  "restore_removed ops ambiguous restored =
     bind (gets bp_removed) (\<lambda>removed.
     bind (try_except (on_queue (q_append_n ops removed)) (\<lambda>_. lift (RaiseP ambiguous))) (\<lambda>_.
     lift (RaiseP restored)))"

definition remove_inactive :: "'q queue_ops \<Rightarrow> nat list \<Rightarrow> ('q block_pool, unit) eff" where
  "remove_inactive ops inactive =
     bind (modify (\<lambda>s. s\<lparr>bp_removed := []\<rparr>)) (\<lambda>_.
     try_except (for_each (remove_block ops) inactive) (\<lambda>_.
       restore_removed ops
         ''vLLM inactive-block setup failed and its free-queue rollback was ambiguous; the engine must restart''
         ''vLLM inactive-block setup could not update the free queue''))"

definition bind_pool :: "'q queue_ops \<Rightarrow> pool_surface \<Rightarrow> ('q block_pool, unit) eff" where
  "bind_pool ops surface =
     bind (gets id) (\<lambda>self.
     if bp_bound self then lift (RaiseP ''vLLM block pool was bound more than once'')
     else if \<not> blocks_is_list surface \<or> int (length (bp_blocks self)) \<noteq> bp_maximum self \<or>
             bp_num_gpu_blocks self \<noteq> bp_maximum self \<or> \<not> has_queue surface \<or>
             \<not> remove_callable surface \<or> \<not> append_callable surface
     then lift (RaiseP ''this vLLM build has no certified resizable BlockPool surface'')
     else
     let inactive = block_slice (bp_initial self) (int (length (bp_blocks self))) (bp_blocks self)
     in if list_ex (\<lambda>i. block_ref (bp_blocks self ! i) \<noteq> 0) inactive
        then lift (RaiseP ''inactive vLLM block is unexpectedly referenced at startup'')
        else
        bind (remove_inactive ops inactive) (\<lambda>_.
        modify (\<lambda>s. s\<lparr>bp_num_gpu_blocks := bp_initial s, bp_bound := True\<rparr>)))"

definition retire_blocks :: "'q queue_ops \<Rightarrow> nat list \<Rightarrow> ('q block_pool, unit) eff" where
  "retire_blocks ops retired =
     bind (modify (\<lambda>s. s\<lparr>bp_removed := []\<rparr>)) (\<lambda>_.
     try_except
       (bind (for_each (remove_block ops) retired) (\<lambda>_.
        for_each (\<lambda>b. on_queue (q_evict ops b)) retired))
       (\<lambda>_. restore_removed ops
         ''vLLM tail retirement failed and its free-queue rollback was ambiguous; the engine must restart''
         ''vLLM tail retirement was rolled back before resize acknowledgement''))"

definition move_blocks ::
  "'q queue_ops \<Rightarrow> pool_surface \<Rightarrow> int \<Rightarrow> 'q block_pool \<Rightarrow> ('q block_pool, unit) eff" where
  "move_blocks ops surface target self =
     (if target > bp_current self
      then
        let activated = block_slice (bp_current self) target (bp_blocks self)
        in if list_ex (\<lambda>i. block_ref (bp_blocks self ! i) \<noteq> 0) activated
           then lift (RaiseP ''inactive vLLM tail block became referenced before activation'')
           else on_queue (q_append_n ops activated)
      else
        let retired = block_slice target (bp_current self) (bp_blocks self)
        in if list_ex (\<lambda>i. block_ref (bp_blocks self ! i) \<noteq> 0 \<or> is_null (bp_blocks self ! i)) retired
           then lift (RaiseP ''vLLM cannot retire a live or null cache block'')
           else if \<not> evict_callable surface
           then lift (RaiseP ''this vLLM build lacks the certified cache-eviction seam'')
           else retire_blocks ops retired)"

definition apply_pool :: "'q queue_ops \<Rightarrow> pool_surface \<Rightarrow> int \<Rightarrow> ('q block_pool, unit) eff" where
  "apply_pool ops surface target =
     bind (gets id) (\<lambda>self.
     if \<not> bp_bound self then lift (RaiseP ''vLLM block pool is not bound'')
     else if target \<le> 1 \<or> target > bp_maximum self
     then lift (RaiseP ''resize target is outside virtual block capacity'')
     else if target = bp_current self then ret ()
     else
     bind (move_blocks ops surface target self) (\<lambda>_.
     modify (\<lambda>s. s\<lparr>bp_num_gpu_blocks := target, bp_current := target\<rparr>)))"

subsection \<open>What the code relies on\<close>

definition queue_laws :: "'q queue_ops \<Rightarrow> ('q \<Rightarrow> nat multiset) \<Rightarrow> bool" where
  "queue_laws ops free \<longleftrightarrow>
     (\<forall>b q q'. q_remove ops b q = (q', Inr ()) \<longrightarrow> b \<in># free q \<and> free q' = free q - {#b#}) \<and>
     (\<forall>b q q' e. q_remove ops b q = (q', Inl e) \<longrightarrow> free q' = free q) \<and>
     (\<forall>bs q q'. q_append_n ops bs q = (q', Inr ()) \<longrightarrow> free q' = free q + mset bs) \<and>
     (\<forall>b q. free (fst (q_evict ops b q)) = free q)"

definition append_total :: "'q queue_ops \<Rightarrow> bool" where
  "append_total ops \<longleftrightarrow> (\<forall>bs q. \<exists>q'. q_append_n ops bs q = (q', Inr ()))"

subsection \<open>Loops over the queue\<close>

text \<open>Everything but the queue and the list \<open>removed\<close>.\<close>

definition same_pool :: "'q block_pool \<Rightarrow> 'q block_pool \<Rightarrow> bool" where
  "same_pool s t \<longleftrightarrow>
     bp_initial t = bp_initial s \<and> bp_maximum t = bp_maximum s \<and> bp_current t = bp_current s \<and>
     bp_bound t = bp_bound s \<and> bp_blocks t = bp_blocks s \<and>
     bp_num_gpu_blocks t = bp_num_gpu_blocks s"

lemma same_pool_refl [simp]: "same_pool s s"
  by (simp add: same_pool_def)

lemma same_pool_trans: "same_pool s t \<Longrightarrow> same_pool t u \<Longrightarrow> same_pool s u"
  by (simp add: same_pool_def)

lemma same_pool_updates [simp]:
  "same_pool s (t\<lparr>bp_queue := q\<rparr>) \<longleftrightarrow> same_pool s t"
  "same_pool s (t\<lparr>bp_removed := bs\<rparr>) \<longleftrightarrow> same_pool s t"
  by (simp_all add: same_pool_def)

lemma on_queue_same: "on_queue f s = (t, r) \<Longrightarrow> same_pool s t \<and> bp_removed t = bp_removed s"
  by (auto simp: on_queue_def split: prod.splits)

text \<open>
  The removal loop keeps free blocks and removed blocks together constant; if it returns, it
  removed exactly the listed blocks.
\<close>

lemma remove_block_cases:
  assumes "queue_laws ops free" and "remove_block ops b s = (t, r)"
  shows "same_pool s t \<and> free (bp_queue t) + mset (bp_removed t) = free (bp_queue s) + mset (bp_removed s) \<and>
    (r = Inr () \<longrightarrow> bp_removed t = bp_removed s @ [b])"
proof (cases "q_remove ops b (bp_queue s)")
  case (Pair q r0)
  show ?thesis
  proof (cases r0)
    case (Inl e)
    then have "free q = free (bp_queue s)" using assms(1) Pair unfolding queue_laws_def by blast
    then show ?thesis using assms(2) Pair Inl by (auto simp: remove_block_def bind_def on_queue_def)
  next
    case (Inr u)
    then have "b \<in># free (bp_queue s)" "free q = free (bp_queue s) - {#b#}"
      using assms(1) Pair by (auto simp: queue_laws_def)
    then show ?thesis using assms(2) Pair Inr
      by (auto simp: remove_block_def bind_def on_queue_def modify_def)
  qed
qed

lemma remove_loop_cases:
  assumes "queue_laws ops free" and "for_each (remove_block ops) bs s = (t, r)"
  shows "same_pool s t \<and> free (bp_queue t) + mset (bp_removed t) = free (bp_queue s) + mset (bp_removed s) \<and>
    (r = Inr () \<longrightarrow> bp_removed t = bp_removed s @ bs)"
  using assms(2)
proof (induction bs arbitrary: s)
  case Nil
  then show ?case by (auto simp: ret_def)
next
  case (Cons b bs)
  obtain s1 r1 where one: "remove_block ops b s = (s1, r1)" by fastforce
  note c = remove_block_cases [OF assms(1) one]
  show ?case
  proof (cases r1)
    case (Inl e)
    then have "t = s1" "r = Inl e" using Cons.prems one by (simp_all add: bind_def)
    with c show ?thesis by simp
  next
    case (Inr u)
    then have "for_each (remove_block ops) bs s1 = (t, r)" using Cons.prems one by (simp add: bind_def)
    from Cons.IH [OF this] c Inr show ?thesis by (auto intro: same_pool_trans)
  qed
qed

lemma evict_loop_cases:
  assumes "queue_laws ops free" and "for_each (\<lambda>b. on_queue (q_evict ops b)) bs s = (t, r)"
  shows "same_pool s t \<and> bp_removed t = bp_removed s \<and> free (bp_queue t) = free (bp_queue s)"
  using assms(2)
proof (induction bs arbitrary: s)
  case Nil
  then show ?case by (auto simp: ret_def)
next
  case (Cons b bs)
  obtain s1 r1 where one: "on_queue (q_evict ops b) s = (s1, r1)" by fastforce
  have "free (fst (q_evict ops b (bp_queue s))) = free (bp_queue s)" using assms(1) by (simp add: queue_laws_def)
  then have c: "same_pool s s1 \<and> bp_removed s1 = bp_removed s \<and> free (bp_queue s1) = free (bp_queue s)"
    using one by (auto simp: on_queue_def split: prod.splits)
  show ?case
  proof (cases r1)
    case (Inl e)
    then have "t = s1" using Cons.prems one by (simp add: bind_def)
    with c show ?thesis by simp
  next
    case (Inr u)
    then have "for_each (\<lambda>b. on_queue (q_evict ops b)) bs s1 = (t, r)" using Cons.prems one by (simp add: bind_def)
    from Cons.IH [OF this] c show ?thesis by (auto intro: same_pool_trans)
  qed
qed

lemma restore_removed_cases:
  assumes "queue_laws ops free" and "restore_removed ops a b s = (t, r)"
  shows "isl r \<and> same_pool s t \<and>
    (append_total ops \<longrightarrow> free (bp_queue t) = free (bp_queue s) + mset (bp_removed s))"
proof (cases "q_append_n ops (bp_removed s) (bp_queue s)")
  case (Pair q r0)
  have "append_total ops \<Longrightarrow> r0 = Inr ()" using Pair by (metis append_total_def prod.inject)
  moreover have "r0 = Inr () \<Longrightarrow> free q = free (bp_queue s) + mset (bp_removed s)"
    using assms(1) Pair by (auto simp: queue_laws_def)
  ultimately show ?thesis using assms(2) Pair
    by (cases r0) (auto simp: restore_removed_def bind_def gets_def on_queue_def try_except_def lift_def)
qed

subsection \<open>Correctness of a resize\<close>

text \<open>
  The invariant of a bound pool: vLLM believes in exactly the current number of blocks, every
  free block lies below it, and no block is free twice.
\<close>

definition pool_inv :: "('q \<Rightarrow> nat multiset) \<Rightarrow> 'q block_pool \<Rightarrow> bool" where
  "pool_inv free s \<longleftrightarrow>
     bp_bound s \<and> 1 < bp_current s \<and> bp_current s \<le> bp_maximum s \<and>
     bp_maximum s = int (length (bp_blocks s)) \<and> bp_num_gpu_blocks s = bp_current s \<and>
     (\<forall>b \<in># free (bp_queue s). int b < bp_current s \<and> count (free (bp_queue s)) b = 1)"

lemma count_mset_upt: "count (mset [a ..< b]) x = (if a \<le> x \<and> x < b then 1 else 0)"
  using distinct_count_atmost_1 [of "[a ..< b]"] by auto

lemma guarded_removal_cases:
  assumes laws: "queue_laws ops free"
    and body: "\<And>s t r. m s = (t, r) \<Longrightarrow> same_pool s t \<and>
      free (bp_queue t) + mset (bp_removed t) = free (bp_queue s) + mset (bp_removed s) \<and>
      (r = Inr () \<longrightarrow> bp_removed t = bp_removed s @ bs)"
    and run: "bind (modify (\<lambda>s. s\<lparr>bp_removed := []\<rparr>)) (\<lambda>_.
      try_except m (\<lambda>_. restore_removed ops a1 a2)) s = (t, r)"
  shows "same_pool s t \<and>
    (case r of Inr _ \<Rightarrow> free (bp_queue s) = free (bp_queue t) + mset bs
             | Inl _ \<Rightarrow> append_total ops \<longrightarrow> free (bp_queue t) = free (bp_queue s))"
proof -
  let ?s0 = "s\<lparr>bp_removed := []\<rparr>"
  obtain s1 r1 where one: "m ?s0 = (s1, r1)" by fastforce
  note c = body [OF one]
  show ?thesis
  proof (cases r1)
    case (Inr u)
    then have "t = s1" "r = Inr ()" using run one by (simp_all add: bind_def modify_def try_except_def)
    with c Inr show ?thesis by (auto simp: same_pool_def)
  next
    case (Inl e)
    then have "restore_removed ops a1 a2 s1 = (t, r)"
      using run one by (simp add: bind_def modify_def try_except_def)
    note d = restore_removed_cases [OF laws this]
    then show ?thesis using c by (cases r) (auto simp: same_pool_def)
  qed
qed

lemma retire_blocks_cases:
  assumes "queue_laws ops free" and "retire_blocks ops bs s = (t, r)"
  shows "same_pool s t \<and>
    (case r of Inr _ \<Rightarrow> free (bp_queue s) = free (bp_queue t) + mset bs
             | Inl _ \<Rightarrow> append_total ops \<longrightarrow> free (bp_queue t) = free (bp_queue s))"
proof (rule guarded_removal_cases [OF assms(1) _ assms(2) [unfolded retire_blocks_def]])
  fix s t r
  assume run: "bind (for_each (remove_block ops) bs) (\<lambda>_. for_each (\<lambda>b. on_queue (q_evict ops b)) bs) s = (t, r)"
  obtain s1 r1 where one: "for_each (remove_block ops) bs s = (s1, r1)" by fastforce
  note c = remove_loop_cases [OF assms(1) one]
  show "same_pool s t \<and>
      free (bp_queue t) + mset (bp_removed t) = free (bp_queue s) + mset (bp_removed s) \<and>
      (r = Inr () \<longrightarrow> bp_removed t = bp_removed s @ bs)"
  proof (cases r1)
    case (Inl e)
    then have "t = s1" "r = Inl e" using run one by (simp_all add: bind_def)
    with c show ?thesis by simp
  next
    case (Inr u)
    then have "for_each (\<lambda>b. on_queue (q_evict ops b)) bs s1 = (t, r)" using run one by (simp add: bind_def)
    from evict_loop_cases [OF assms(1) this] c Inr show ?thesis by (auto intro: same_pool_trans)
  qed
qed

lemma move_blocks_cases:
  assumes laws: "queue_laws ops free" and inv: "pool_inv free s"
    and target: "1 < target" "target \<le> bp_maximum s"
    and run: "move_blocks ops surface target s s = (t, r)"
  shows "same_pool s t \<and>
    (case r of
       Inr _ \<Rightarrow> if bp_current s < target
         then free (bp_queue t) = free (bp_queue s) + mset [nat (bp_current s) ..< nat target] \<and>
           (\<forall>i \<in> {nat (bp_current s) ..< nat target}. block_ref (bp_blocks s ! i) = 0)
         else free (bp_queue s) = free (bp_queue t) + mset [nat target ..< nat (bp_current s)] \<and>
           (\<forall>i \<in> {nat target ..< nat (bp_current s)}.
              block_ref (bp_blocks s ! i) = 0 \<and> \<not> is_null (bp_blocks s ! i))
     | Inl _ \<Rightarrow> append_total ops \<longrightarrow> free (bp_queue t) = free (bp_queue s))"
proof (cases "bp_current s < target")
  case True
  have slice: "block_slice (bp_current s) target (bp_blocks s) = [nat (bp_current s) ..< nat target]"
    using inv target by (simp add: block_slice_def pool_inv_def min_def nat_le_iff)
  obtain q r0 where q: "q_append_n ops [nat (bp_current s) ..< nat target] (bp_queue s) = (q, r0)" by fastforce
  have ok: "r0 = Inr () \<Longrightarrow> free q = free (bp_queue s) + mset [nat (bp_current s) ..< nat target]"
    using laws q unfolding queue_laws_def by blast
  have tot: "append_total ops \<Longrightarrow> r0 = Inr ()" using q by (metis append_total_def prod.inject)
  show ?thesis
    using run True q ok tot
    by (cases r0) (auto simp: move_blocks_def slice Let_def lift_def on_queue_def list_ex_iff split: if_splits)
next
  case False
  have slice: "block_slice target (bp_current s) (bp_blocks s) = [nat target ..< nat (bp_current s)]"
    using inv target by (simp add: block_slice_def pool_inv_def min_def nat_le_iff)
  show ?thesis
    using run False retire_blocks_cases [OF laws, of "[nat target ..< nat (bp_current s)]" s t r]
    by (cases r) (auto simp: move_blocks_def slice Let_def lift_def list_ex_iff split: if_splits)
qed

lemma free_after_grow:
  fixes cur :: int
  assumes "\<forall>b \<in># F. int b < cur \<and> count F b = 1" and "0 \<le> cur" and "cur \<le> target"
  shows "\<forall>b \<in># F + mset [nat cur ..< nat target].
    int b < target \<and> count (F + mset [nat cur ..< nat target]) b = 1"
proof
  fix b assume b: "b \<in># F + mset [nat cur ..< nat target]"
  consider "b \<in># F" | "b \<notin># F" "nat cur \<le> b" "b < nat target" using b by auto
  then show "int b < target \<and> count (F + mset [nat cur ..< nat target]) b = 1"
  proof cases
    case 1
    then have "int b < cur" "count F b = 1" using assms(1) by auto
    then show ?thesis using assms(2,3) by (simp add: count_mset_upt)
  next
    case 2
    then show ?thesis using assms(2,3) by (auto simp: count_mset_upt not_in_iff)
  qed
qed

lemma free_after_shrink:
  fixes cur :: int
  assumes all: "\<forall>b \<in># F. int b < cur \<and> count F b = 1" and "F = G + mset [nat target ..< nat cur]"
    and "0 \<le> target"
  shows "\<forall>b \<in># G. int b < target \<and> count G b = 1"
proof
  fix b assume b: "b \<in># G"
  then have f: "int b < cur" "count F b = 1" using all assms(2) by auto
  have pos: "0 < count G b" using b by simp
  have "count G b + count (mset [nat target ..< nat cur]) b = 1" using f(2) assms(2) by simp
  then have "count (mset [nat target ..< nat cur]) b = 0" "count G b = 1" using pos by linarith+
  then have "\<not> (nat target \<le> b \<and> b < nat cur)" "count G b = 1"
    unfolding count_mset_upt by (simp_all split: if_splits)
  then show "int b < target \<and> count G b = 1" using f(1) assms(3) by auto
qed

lemma apply_pool_effect:
  assumes "queue_laws ops free" and "pool_inv free s"
    and "apply_pool ops surface target s = (t, r)"
  shows "bp_blocks t = bp_blocks s \<and> (case r of
      Inr _ \<Rightarrow> pool_inv free t \<and> bp_current t = target \<and> bp_num_gpu_blocks t = target \<and>
        (if bp_current s \<le> target
         then free (bp_queue t) = free (bp_queue s) + mset [nat (bp_current s) ..< nat target] \<and>
           (\<forall>i \<in> {nat (bp_current s) ..< nat target}. block_ref (bp_blocks s ! i) = 0)
         else free (bp_queue s) = free (bp_queue t) + mset [nat target ..< nat (bp_current s)] \<and>
           (\<forall>i \<in> {nat target ..< nat (bp_current s)}.
              block_ref (bp_blocks s ! i) = 0 \<and> \<not> is_null (bp_blocks s ! i)))
    | Inl _ \<Rightarrow> bp_current t = bp_current s \<and> bp_num_gpu_blocks t = bp_num_gpu_blocks s \<and>
        (append_total ops \<longrightarrow> pool_inv free t \<and> free (bp_queue t) = free (bp_queue s)))"
proof -
  have bound: "bp_bound s" using assms(2) by (simp add: pool_inv_def)
  consider (refused) "target \<le> 1 \<or> target > bp_maximum s"
    | (same) "1 < target" "target \<le> bp_maximum s" "target = bp_current s"
    | (move) "1 < target" "target \<le> bp_maximum s" "target \<noteq> bp_current s" by linarith
  then show ?thesis
  proof cases
    case refused
    then have "t = s" "isl r" using assms(3) bound by (auto simp: apply_pool_def bind_def gets_def lift_def)
    then show ?thesis using assms(2) by (cases r) auto
  next
    case same
    then have "t = s" "r = Inr ()" using assms(3) bound by (auto simp: apply_pool_def bind_def gets_def ret_def)
    then show ?thesis using assms(2) same by (auto simp: pool_inv_def)
  next
    case move
    obtain s1 r1 where m: "move_blocks ops surface target s s = (s1, r1)" by fastforce
    note c = move_blocks_cases [OF assms(1,2) move(1,2) m]
    show ?thesis
    proof (cases r1)
      case (Inl e)
      then have "t = s1" "r = Inl e"
        using assms(3) bound move m by (auto simp: apply_pool_def bind_def gets_def)
      then show ?thesis using c Inl assms(2) by (auto simp: same_pool_def pool_inv_def)
    next
      case (Inr u)
      then have t: "t = s1\<lparr>bp_num_gpu_blocks := target, bp_current := target\<rparr>" "r = Inr ()"
        using assms(3) bound move m by (auto simp: apply_pool_def bind_def gets_def modify_def)
      have cur: "\<forall>b \<in># free (bp_queue s). int b < bp_current s \<and> count (free (bp_queue s)) b = 1"
        "1 < bp_current s" using assms(2) by (auto simp: pool_inv_def)
      have "\<forall>b \<in># free (bp_queue s1). int b < target \<and> count (free (bp_queue s1)) b = 1"
      proof (cases "bp_current s < target")
        case True
        then show ?thesis using c Inr free_after_grow [OF cur(1), of target] cur(2) by simp
      next
        case False
        then show ?thesis using c Inr free_after_shrink [OF cur(1), of "free (bp_queue s1)" target] move(1) by simp
      qed
      then show ?thesis
        using c Inr assms(2) move t by (auto simp: same_pool_def pool_inv_def)
    qed
  qed
qed

text \<open>
  C7. A resize of a bound block pool keeps every free block below the block count vLLM sees. If
  \<open>apply\<close> returns, the count is the target and the free queue gained exactly the activated
  blocks, or lost exactly the retired ones, all of which were unreferenced. If it raises, the
  count is unchanged and, whenever appending to the queue succeeds, so is the set of free blocks.
\<close>

theorem apply_pool_correct:
  assumes "queue_laws ops free" and "pool_inv free s"
    and "apply_pool ops surface target s = (t, r)"
  shows "case r of
      Inr _ \<Rightarrow> pool_inv free t \<and> bp_current t = target \<and> bp_num_gpu_blocks t = target \<and>
        (if bp_current s \<le> target
         then free (bp_queue t) = free (bp_queue s) + mset [nat (bp_current s) ..< nat target]
         else free (bp_queue s) = free (bp_queue t) + mset [nat target ..< nat (bp_current s)] \<and>
           (\<forall>i \<in> {nat target ..< nat (bp_current s)}.
              block_ref (bp_blocks s ! i) = 0 \<and> \<not> is_null (bp_blocks s ! i)))
    | Inl _ \<Rightarrow> bp_current t = bp_current s \<and> bp_num_gpu_blocks t = bp_num_gpu_blocks s \<and>
        (append_total ops \<longrightarrow> pool_inv free t \<and> free (bp_queue t) = free (bp_queue s))"
  using apply_pool_effect [OF assms] by (cases r) (auto split: if_splits)

lemma bind_pool_effect:
  assumes laws: "queue_laws ops free"
    and unbound: "\<not> bp_bound s" "bp_current s = bp_initial s" "1 < bp_initial s" "bp_initial s \<le> bp_maximum s"
    and all_free: "\<forall>b \<in># free (bp_queue s). b < length (bp_blocks s) \<and> count (free (bp_queue s)) b = 1"
    and run: "bind_pool ops surface s = (t, r)"
  shows "bp_blocks t = bp_blocks s \<and> bp_initial t = bp_initial s \<and> bp_maximum t = bp_maximum s \<and>
    bp_current t = bp_initial s \<and>
    (case r of
       Inr _ \<Rightarrow> pool_inv free t \<and>
         free (bp_queue s) = free (bp_queue t) + mset [nat (bp_initial s) ..< length (bp_blocks s)] \<and>
         (\<forall>i \<in> {nat (bp_initial s) ..< length (bp_blocks s)}. block_ref (bp_blocks s ! i) = 0)
     | Inl _ \<Rightarrow> \<not> bp_bound t \<and> bp_num_gpu_blocks t = bp_num_gpu_blocks s \<and>
         (append_total ops \<longrightarrow> free (bp_queue t) = free (bp_queue s)))"
proof -
  let ?inactive = "[nat (bp_initial s) ..< length (bp_blocks s)]"
  have slice: "block_slice (bp_initial s) (int (length (bp_blocks s))) (bp_blocks s) = ?inactive"
    by (simp add: block_slice_def)
  have slice': "block_slice (bp_initial s) (bp_maximum s) (bp_blocks s) = ?inactive"
    if "int (length (bp_blocks s)) = bp_maximum s" by (simp add: that [symmetric] slice)
  obtain s1 r1 where m: "remove_inactive ops ?inactive s = (s1, r1)" by fastforce
  have c: "same_pool s s1 \<and>
    (case r1 of Inr _ \<Rightarrow> free (bp_queue s) = free (bp_queue s1) + mset ?inactive
             | Inl _ \<Rightarrow> append_total ops \<longrightarrow> free (bp_queue s1) = free (bp_queue s))"
    using m unfolding remove_inactive_def
    by (rule guarded_removal_cases [OF laws remove_loop_cases [OF laws], rotated])
  consider (refused) "t = s" "isl r" | (failed) e where "t = s1" "r = Inl e" "r1 = Inl e"
    | (removed) "bp_maximum s = int (length (bp_blocks s))" "r = Inr ()" "r1 = Inr ()"
        "\<not> list_ex (\<lambda>i. block_ref (bp_blocks s ! i) \<noteq> 0) ?inactive"
        "t = s1\<lparr>bp_num_gpu_blocks := bp_initial s1, bp_bound := True\<rparr>"
    using run unbound(1) m
    by (cases r1) (auto simp: bind_pool_def bind_def gets_def Let_def slice slice' lift_def modify_def split: if_splits)
  then show ?thesis
  proof cases
    case refused
    then show ?thesis using unbound by (cases r) auto
  next
    case failed
    then show ?thesis using c unbound by (simp add: same_pool_def)
  next
    case removed
    have "\<forall>b \<in># free (bp_queue s1). int b < bp_initial s \<and> count (free (bp_queue s1)) b = 1"
      by (rule free_after_shrink [of "free (bp_queue s)" "int (length (bp_blocks s))"])
        (use all_free c removed unbound in simp_all)
    moreover have "\<forall>i \<in> {nat (bp_initial s) ..< length (bp_blocks s)}. block_ref (bp_blocks s ! i) = 0"
      using removed(4) by (auto simp: list_ex_iff)
    ultimately show ?thesis
      using removed c unbound by (simp add: pool_inv_def same_pool_def)
  qed
qed

text \<open>
  Binding removes every block beyond the initial count from the free queue. If it returns, none of
  these blocks was referenced and the pool is in its invariant at the initial size; if it raises, the pool is not bound, vLLM's block
  count is unchanged and, whenever appending succeeds, so is the set of free blocks.
\<close>

theorem bind_pool_correct:
  assumes laws: "queue_laws ops free"
    and unbound: "\<not> bp_bound s" "bp_current s = bp_initial s" "1 < bp_initial s" "bp_initial s \<le> bp_maximum s"
    and all_free: "\<forall>b \<in># free (bp_queue s). b < length (bp_blocks s) \<and> count (free (bp_queue s)) b = 1"
    and run: "bind_pool ops surface s = (t, r)"
  shows "bp_blocks t = bp_blocks s \<and> bp_initial t = bp_initial s \<and> bp_maximum t = bp_maximum s \<and>
    bp_current t = bp_initial s \<and>
    (case r of
       Inr _ \<Rightarrow> pool_inv free t \<and>
         free (bp_queue s) = free (bp_queue t) + mset [nat (bp_initial s) ..< length (bp_blocks s)] \<and>
         (\<forall>i \<in> {nat (bp_initial s) ..< length (bp_blocks s)}. block_ref (bp_blocks s ! i) = 0)
     | Inl _ \<Rightarrow> \<not> bp_bound t \<and> bp_num_gpu_blocks t = bp_num_gpu_blocks s \<and>
         (append_total ops \<longrightarrow> free (bp_queue t) = free (bp_queue s)))"
  using assms by (rule bind_pool_effect)

subsection \<open>Resizes interleaved with allocation\<close>

text \<open>
  The life of a pool: vLLM takes blocks from the free queue, shares them and puts them back, and the
  connector binds the pool and resizes it. A step is an attempt to bind or to resize, returned or
  raised, or one of vLLM's own moves.
\<close>

definition set_ref :: "nat \<Rightarrow> int \<Rightarrow> 'q block_pool \<Rightarrow> 'q block_pool" where
  "set_ref b n s = s\<lparr>bp_blocks := (bp_blocks s)[b := (bp_blocks s ! b)\<lparr>ref_cnt := Some n\<rparr>]\<rparr>"

inductive pool_step ::
  "'q queue_ops \<Rightarrow> ('q \<Rightarrow> nat multiset) \<Rightarrow> pool_surface \<Rightarrow> 'q block_pool \<Rightarrow> 'q block_pool \<Rightarrow> bool"
  for ops free surface where
    binding: "bind_pool ops surface s = (t, r) \<Longrightarrow> pool_step ops free surface s t"
  | resize: "apply_pool ops surface target s = (t, r) \<Longrightarrow> pool_step ops free surface s t"
  | allocate: "b \<in># free (bp_queue s) \<Longrightarrow> free q = free (bp_queue s) - {#b#} \<Longrightarrow>
      pool_step ops free surface s (set_ref b 1 (s\<lparr>bp_queue := q\<rparr>))"
  | share: "b < length (bp_blocks s) \<Longrightarrow> 0 < block_ref (bp_blocks s ! b) \<Longrightarrow> 0 < n \<Longrightarrow>
      pool_step ops free surface s (set_ref b n s)"
  | give_back: "b < length (bp_blocks s) \<Longrightarrow> block_ref (bp_blocks s ! b) = 1 \<Longrightarrow>
      free q = free (bp_queue s) + {#b#} \<Longrightarrow>
      pool_step ops free surface s (set_ref b 0 (s\<lparr>bp_queue := q\<rparr>))"

definition pool_ok :: "('q \<Rightarrow> nat multiset) \<Rightarrow> 'q block_pool \<Rightarrow> bool" where
  "pool_ok free s \<longleftrightarrow>
     pool_inv free s \<and>
     (\<forall>i < length (bp_blocks s). block_ref (bp_blocks s ! i) \<noteq> 0 \<longrightarrow> int i < bp_current s) \<and>
     (\<forall>b \<in># free (bp_queue s). block_ref (bp_blocks s ! b) = 0)"

text \<open>A pool that is not bound yet: the adapter as constructed, over whatever vLLM has free.\<close>

definition unbound_ok :: "('q \<Rightarrow> nat multiset) \<Rightarrow> 'q block_pool \<Rightarrow> bool" where
  "unbound_ok free s \<longleftrightarrow>
     \<not> bp_bound s \<and> check_elastic_block_pool (bp_initial s) (bp_maximum s) = Inr () \<and>
     bp_current s = bp_initial s \<and>
     (\<forall>b \<in># free (bp_queue s). b < length (bp_blocks s) \<and> count (free (bp_queue s)) b = 1 \<and>
        block_ref (bp_blocks s ! b) = 0)"

lemma set_ref_simps [simp]:
  "bp_queue (set_ref b n s) = bp_queue s" "bp_current (set_ref b n s) = bp_current s"
  "bp_maximum (set_ref b n s) = bp_maximum s" "bp_bound (set_ref b n s) = bp_bound s"
  "bp_num_gpu_blocks (set_ref b n s) = bp_num_gpu_blocks s" "bp_initial (set_ref b n s) = bp_initial s"
  "length (bp_blocks (set_ref b n s)) = length (bp_blocks s)"
  by (simp_all add: set_ref_def)

lemma block_ref_set_ref:
  "i < length (bp_blocks s) \<Longrightarrow>
     block_ref (bp_blocks (set_ref b n s) ! i) = (if i = b then n else block_ref (bp_blocks s ! i))"
  by (auto simp: set_ref_def block_ref_def nth_list_update)

lemma pool_inv_lengths: "pool_inv free s \<Longrightarrow> b \<in># free (bp_queue s) \<Longrightarrow> b < length (bp_blocks s)"
  by (auto simp: pool_inv_def)

lemma apply_pool_ok:
  assumes laws: "queue_laws ops free" "append_total ops" and ok: "pool_ok free s"
    and run: "apply_pool ops surface target s = (t, r)"
  shows "pool_ok free t"
proof -
  have inv: "pool_inv free s" using ok by (simp add: pool_ok_def)
  note c = apply_pool_effect [OF laws(1) inv run]
  have blocks: "bp_blocks t = bp_blocks s" using c by simp
  show ?thesis
  proof (cases r)
    case (Inl e)
    then show ?thesis using c ok laws(2) by (simp add: pool_ok_def)
  next
    case (Inr u)
    then have p: "pool_inv free t" "bp_current t = target" using c by simp_all
    show ?thesis
    proof (cases "bp_current s \<le> target")
      case True
      then have "free (bp_queue t) = free (bp_queue s) + mset [nat (bp_current s) ..< nat target]"
        "\<forall>i \<in> {nat (bp_current s) ..< nat target}. block_ref (bp_blocks s ! i) = 0"
        using c Inr by simp_all
      then show ?thesis using p ok True by (fastforce simp: pool_ok_def blocks)
    next
      case False
      then have f: "free (bp_queue s) = free (bp_queue t) + mset [nat target ..< nat (bp_current s)]"
        "\<forall>i \<in> {nat target ..< nat (bp_current s)}. block_ref (bp_blocks s ! i) = 0"
        using c Inr by simp_all
      have "int i < target" if "i < length (bp_blocks s)" "block_ref (bp_blocks s ! i) \<noteq> 0" for i
      proof -
        have "int i < bp_current s" using ok that by (simp add: pool_ok_def)
        then show ?thesis using f(2) that(2) by (cases "nat target \<le> i") auto
      qed
      then show ?thesis using p ok f(1) by (auto simp: pool_ok_def blocks)
    qed
  qed
qed

lemma pool_ok_update:
  assumes ok: "pool_ok free s"
    and F: "\<forall>x \<in># free q. x < length (bp_blocks s) \<and> int x < bp_current s \<and> count (free q) x = 1 \<and>
      (if x = b then n = 0 else block_ref (bp_blocks s ! x) = 0)"
    and b: "n \<noteq> 0 \<Longrightarrow> int b < bp_current s"
  shows "pool_ok free (set_ref b n (s\<lparr>bp_queue := q\<rparr>))"
proof -
  let ?t = "set_ref b n (s\<lparr>bp_queue := q\<rparr>)"
  have ref: "block_ref (bp_blocks ?t ! i) = (if i = b then n else block_ref (bp_blocks s ! i))"
    if "i < length (bp_blocks s)" for i
    using that block_ref_set_ref [of i "s\<lparr>bp_queue := q\<rparr>" b n] by simp
  have inv: "pool_inv free ?t" using ok F by (simp add: pool_ok_def pool_inv_def)
  have refs: "int i < bp_current s" if "i < length (bp_blocks s)" "block_ref (bp_blocks ?t ! i) \<noteq> 0" for i
    using that ref [OF that(1)] ok b by (auto simp: pool_ok_def split: if_splits)
  have "block_ref (bp_blocks ?t ! x) = 0" if "x \<in># free q" for x
    using F that ref by (auto split: if_splits)
  with inv refs show ?thesis by (auto simp: pool_ok_def)
qed

lemma allocate_ok:
  assumes ok: "pool_ok free s" and b: "b \<in># free (bp_queue s)" and q: "free q = free (bp_queue s) - {#b#}"
  shows "pool_ok free (set_ref b 1 (s\<lparr>bp_queue := q\<rparr>))"
proof (rule pool_ok_update [OF ok])
  have inv: "\<forall>x \<in># free (bp_queue s). int x < bp_current s \<and> count (free (bp_queue s)) x = 1"
    "\<forall>x \<in># free (bp_queue s). block_ref (bp_blocks s ! x) = 0" "pool_inv free s"
    using ok by (auto simp: pool_ok_def pool_inv_def)
  have gone: "b \<notin># free q" using b inv(1) q by (simp add: not_in_iff)
  show "\<forall>x \<in># free q. x < length (bp_blocks s) \<and> int x < bp_current s \<and> count (free q) x = 1 \<and>
      (if x = b then (1 :: int) = 0 else block_ref (bp_blocks s ! x) = 0)"
  proof
    fix x assume x: "x \<in># free q"
    then have "x \<in># free (bp_queue s)" using q by (metis in_diffD)
    moreover have "x \<noteq> b" using x gone by blast
    ultimately show "x < length (bp_blocks s) \<and> int x < bp_current s \<and> count (free q) x = 1 \<and>
      (if x = b then (1 :: int) = 0 else block_ref (bp_blocks s ! x) = 0)"
      using inv pool_inv_lengths [OF inv(3)] q by simp
  qed
  show "int b < bp_current s" using inv(1) b by blast
qed

lemma share_ok:
  assumes ok: "pool_ok free s" and b: "b < length (bp_blocks s)" "0 < block_ref (bp_blocks s ! b)"
  shows "pool_ok free (set_ref b n s)"
proof -
  have inv: "\<forall>x \<in># free (bp_queue s). int x < bp_current s \<and> count (free (bp_queue s)) x = 1"
    "\<forall>x \<in># free (bp_queue s). block_ref (bp_blocks s ! x) = 0" "pool_inv free s" "int b < bp_current s"
    using ok b by (auto simp: pool_ok_def pool_inv_def)
  have "b \<notin># free (bp_queue s)" using inv(2) b(2) by auto
  then have "pool_ok free (set_ref b n (s\<lparr>bp_queue := bp_queue s\<rparr>))"
    using inv pool_inv_lengths [OF inv(3)] by (intro pool_ok_update [OF ok]) auto
  then show ?thesis by simp
qed

lemma give_back_ok:
  assumes ok: "pool_ok free s" and b: "b < length (bp_blocks s)" "block_ref (bp_blocks s ! b) = 1"
    and q: "free q = free (bp_queue s) + {#b#}"
  shows "pool_ok free (set_ref b 0 (s\<lparr>bp_queue := q\<rparr>))"
proof -
  have inv: "\<forall>x \<in># free (bp_queue s). int x < bp_current s \<and> count (free (bp_queue s)) x = 1"
    "\<forall>x \<in># free (bp_queue s). block_ref (bp_blocks s ! x) = 0" "pool_inv free s" "int b < bp_current s"
    using ok b by (auto simp: pool_ok_def pool_inv_def)
  have new: "b \<notin># free (bp_queue s)" using inv(2) b(2) by auto
  show ?thesis
  proof (rule pool_ok_update [OF ok])
    show "\<forall>x \<in># free q. x < length (bp_blocks s) \<and> int x < bp_current s \<and> count (free q) x = 1 \<and>
      (if x = b then (0 :: int) = 0 else block_ref (bp_blocks s ! x) = 0)"
      using inv pool_inv_lengths [OF inv(3)] q b(1) new by (auto simp: not_in_iff)
  qed simp
qed

lemma unbound_ok_update:
  assumes ok: "unbound_ok free s"
    and F: "\<forall>x \<in># free q. x < length (bp_blocks s) \<and> count (free q) x = 1 \<and>
      (if x = b then n = 0 else block_ref (bp_blocks s ! x) = 0)"
  shows "unbound_ok free (set_ref b n (s\<lparr>bp_queue := q\<rparr>))"
proof -
  have "block_ref (bp_blocks (set_ref b n (s\<lparr>bp_queue := q\<rparr>)) ! x) = 0" if "x \<in># free q" for x
    using F that block_ref_set_ref [of x "s\<lparr>bp_queue := q\<rparr>" b n] by (auto split: if_splits)
  then show ?thesis using ok F by (auto simp: unbound_ok_def)
qed

lemma unbound_step_ok:
  assumes laws: "queue_laws ops free" "append_total ops" and step: "pool_step ops free surface s t"
    and ok: "unbound_ok free s"
  shows "unbound_ok free t \<or> pool_ok free t"
proof -
  have free: "x < length (bp_blocks s) \<and> count (free (bp_queue s)) x = 1 \<and> block_ref (bp_blocks s ! x) = 0"
    if "x \<in># free (bp_queue s)" for x using ok that by (simp add: unbound_ok_def)
  have range: "1 < bp_initial s" "bp_initial s \<le> bp_maximum s"
    using ok by (auto simp: unbound_ok_def check_elastic_block_pool_def split: if_splits)
  from step show ?thesis
  proof (cases rule: pool_step.cases)
    case (binding r)
    have e: "bp_blocks t = bp_blocks s" "bp_initial t = bp_initial s" "bp_maximum t = bp_maximum s"
        "bp_current t = bp_initial s"
        "case r of
           Inr _ \<Rightarrow> pool_inv free t \<and>
             free (bp_queue s) = free (bp_queue t) + mset [nat (bp_initial s) ..< length (bp_blocks s)] \<and>
             (\<forall>i \<in> {nat (bp_initial s) ..< length (bp_blocks s)}. block_ref (bp_blocks s ! i) = 0)
         | Inl _ \<Rightarrow> \<not> bp_bound t \<and> bp_num_gpu_blocks t = bp_num_gpu_blocks s \<and>
             (append_total ops \<longrightarrow> free (bp_queue t) = free (bp_queue s))"
      using bind_pool_effect [OF laws(1) _ _ range _ binding] ok free by (simp_all add: unbound_ok_def)
    show ?thesis
    proof (cases r)
      case (Inl x)
      then have "unbound_ok free t" using e ok laws(2) by (simp add: unbound_ok_def)
      then show ?thesis ..
    next
      case (Inr u)
      then have f: "free (bp_queue s) = free (bp_queue t) + mset [nat (bp_initial s) ..< length (bp_blocks s)]"
          "\<forall>i \<in> {nat (bp_initial s) ..< length (bp_blocks s)}. block_ref (bp_blocks s ! i) = 0" "pool_inv free t"
        using e(5) by simp_all
      have "int i < bp_initial s" if "i < length (bp_blocks s)" "block_ref (bp_blocks s ! i) \<noteq> 0" for i
        using f(2) that by (cases "nat (bp_initial s) \<le> i") auto
      then have "pool_ok free t" using f e(1,4) free by (auto simp: pool_ok_def)
      then show ?thesis ..
    qed
  next
    case (resize target r)
    then have "t = s" using ok by (simp add: apply_pool_def bind_def gets_def lift_def unbound_ok_def)
    then show ?thesis using ok by simp
  next
    case (allocate b q)
    have "b \<notin># free q" using allocate(2,3) free [OF allocate(2)] by (simp add: not_in_iff)
    then have "\<forall>x \<in># free q. x \<noteq> b \<and> x \<in># free (bp_queue s)" using allocate(3) by (metis in_diffD)
    then have "unbound_ok free t" using free allocate(3) unfolding allocate(1)
      by (intro unbound_ok_update [OF ok]) auto
    then show ?thesis ..
  next
    case (share b n)
    have "b \<notin># free (bp_queue s)" using free share(3) by auto
    then have "unbound_ok free (set_ref b n (s\<lparr>bp_queue := bp_queue s\<rparr>))"
      using free by (intro unbound_ok_update [OF ok]) auto
    then show ?thesis using share(1) by simp
  next
    case (give_back b q)
    have "b \<notin># free (bp_queue s)" using free give_back(3) by auto
    then have "unbound_ok free t" using free give_back(2,4) unfolding give_back(1)
      by (intro unbound_ok_update [OF ok]) (auto simp: not_in_iff)
    then show ?thesis ..
  qed
qed

lemma pool_step_ok:
  assumes "queue_laws ops free" "append_total ops" and "pool_step ops free surface s t" and "pool_ok free s"
  shows "pool_ok free t"
  using assms(3)
proof (cases rule: pool_step.cases)
  case (binding r)
  then have "t = s" using assms(4) by (simp add: bind_pool_def bind_def gets_def lift_def pool_ok_def pool_inv_def)
  then show ?thesis using assms(4) by simp
next
  case (resize target r)
  then show ?thesis using apply_pool_ok [OF assms(1,2,4)] by blast
next
  case (allocate b q)
  then show ?thesis using allocate_ok [OF assms(4)] by simp
next
  case (share b n)
  then show ?thesis using share_ok [OF assms(4)] by simp
next
  case (give_back b q)
  then show ?thesis using give_back_ok [OF assms(4)] by simp
qed

text \<open>
  C25. The pool starts unbound, as constructed, over vLLM's own free queue, in which every block is
  unreferenced and free once. However attempts to bind it, resizes and vLLM's own allocation,
  sharing and freeing of blocks follow one another, and whichever of them raise: once the pool is
  bound, the block count vLLM sees is the current size of the mapped prefix, and every free block
  and every referenced block lies below it. (Appending blocks to vLLM's queue succeeds.)
\<close>

theorem pool_blocks_stay_mapped:
  assumes "queue_laws ops free" and "append_total ops"
    and "\<not> bp_bound s" and "check_elastic_block_pool (bp_initial s) (bp_maximum s) = Inr ()"
    and "bp_current s = bp_initial s"
    and "\<forall>b \<in># free (bp_queue s). b < length (bp_blocks s) \<and> count (free (bp_queue s)) b = 1 \<and>
      block_ref (bp_blocks s ! b) = 0"
    and "(pool_step ops free surface)\<^sup>*\<^sup>* s t" and "bp_bound t"
  shows "bp_num_gpu_blocks t = bp_current t \<and>
    (\<forall>b \<in># free (bp_queue t). int b < bp_num_gpu_blocks t) \<and>
    (\<forall>i < length (bp_blocks t). block_ref (bp_blocks t ! i) \<noteq> 0 \<longrightarrow> int i < bp_num_gpu_blocks t)"
proof -
  have "unbound_ok free s \<or> pool_ok free s" using assms(3-6) by (simp add: unbound_ok_def)
  with assms(7) have "unbound_ok free t \<or> pool_ok free t"
    by (induction rule: rtranclp_induct) (auto dest: pool_step_ok [OF assms(1,2)] unbound_step_ok [OF assms(1,2)])
  then have "pool_ok free t" using assms(8) by (auto simp: unbound_ok_def)
  then show ?thesis by (auto simp: pool_ok_def pool_inv_def)
qed

subsection \<open>Concrete runs\<close>

text \<open>A queue as a list of block indices; removing an absent block raises.\<close>

definition list_queue :: "nat list queue_ops" where
  "list_queue =
     \<lparr>q_remove = (\<lambda>b q. if b \<in> set q then (remove1 b q, Inr ()) else (q, Raise RuntimeError ''not in queue'')),
      q_append_n = (\<lambda>bs q. (q @ bs, Inr ())),
      q_evict = (\<lambda>b q. (q, Inr ()))\<rparr>"

lemma list_queue_laws: "queue_laws list_queue mset" "append_total list_queue"
  by (auto simp: queue_laws_def append_total_def list_queue_def split: if_splits)

definition full_surface :: pool_surface where
  "full_surface = \<lparr>blocks_is_list = True, has_queue = True, remove_callable = True,
     append_callable = True, evict_callable = True\<rparr>"

definition sample_pool :: "bool \<Rightarrow> nat list \<Rightarrow> nat list block_pool" where
  "sample_pool bound q =
     \<lparr>bp_initial = 4, bp_maximum = 6, bp_current = 4, bp_bound = bound,
      bp_blocks = \<lparr>ref_cnt = Some 1, is_null = True\<rparr> # replicate 5 \<lparr>ref_cnt = Some 0, is_null = False\<rparr>,
      bp_num_gpu_blocks = (if bound then 4 else 6), bp_queue = q, bp_removed = []\<rparr>"

lemma sample_pool_ok: "pool_ok mset (sample_pool True [1, 2, 3])"
  by (auto simp: pool_ok_def pool_inv_def sample_pool_def block_ref_def less_Suc_eq numeral_eq_Suc)

theorem apply_pool_correct_witness:
  "case apply_pool list_queue full_surface 2 (sample_pool True [1, 2, 3]) of
     (t, r) \<Rightarrow> r = Inr () \<and> pool_inv mset t \<and> bp_current t = 2 \<and> mset (bp_queue t) = {#1#}"
proof -
  let ?s = "sample_pool True [1, 2, 3]"
  obtain t r where run: "apply_pool list_queue full_surface 2 ?s = (t, r)" by fastforce
  have "snd (apply_pool list_queue full_surface 2 ?s) = Inr () \<and>
      bp_queue (fst (apply_pool list_queue full_surface 2 ?s)) = [1]" by code_simp
  then have r: "r = Inr ()" "bp_queue t = [1]" unfolding run by simp_all
  have inv: "pool_inv mset ?s" using sample_pool_ok by (simp add: pool_ok_def)
  from apply_pool_correct [OF list_queue_laws(1) inv run] r show ?thesis unfolding run by simp
qed

theorem bind_pool_correct_witness:
  "case bind_pool list_queue full_surface (sample_pool False [1, 2, 3, 4, 5]) of
     (t, r) \<Rightarrow> r = Inr () \<and> pool_inv mset t \<and> bp_current t = 4"
proof -
  let ?s = "sample_pool False [1, 2, 3, 4, 5]"
  obtain t r where run: "bind_pool list_queue full_surface ?s = (t, r)" by fastforce
  have "snd (bind_pool list_queue full_surface ?s) = Inr ()" by code_simp
  then have r: "r = Inr ()" unfolding run by simp
  have s: "\<not> bp_bound ?s" "bp_current ?s = bp_initial ?s" "1 < bp_initial ?s" "bp_initial ?s \<le> bp_maximum ?s"
    "\<forall>b \<in># mset (bp_queue ?s). b < length (bp_blocks ?s) \<and> count (mset (bp_queue ?s)) b = 1"
    by (auto simp: sample_pool_def)
  from bind_pool_correct [OF list_queue_laws(1) s run] r show ?thesis
    unfolding run by (simp add: sample_pool_def)
qed

definition sample_bound :: "nat list block_pool" where
  "sample_bound = fst (bind_pool list_queue full_surface (sample_pool False [1, 2, 3, 4, 5]))"

definition sample_grown :: "nat list block_pool" where
  "sample_grown = fst (apply_pool list_queue full_surface 6 sample_bound)"

theorem pool_blocks_stay_mapped_witness:
  "(pool_step list_queue mset full_surface)\<^sup>*\<^sup>* (sample_pool False [1, 2, 3, 4, 5]) sample_grown \<and>
   bp_bound sample_grown \<and> bp_num_gpu_blocks sample_grown = 6 \<and> bp_current sample_grown = 6 \<and>
   bp_queue sample_bound = [1, 2, 3] \<and> bp_queue sample_grown = [1, 2, 3, 4, 5]"
proof -
  let ?s = "sample_pool False [1, 2, 3, 4, 5]"
  have "pool_step list_queue mset full_surface ?s sample_bound"
    unfolding sample_bound_def by (rule pool_step.binding) (rule prod.collapse [symmetric])
  moreover have "pool_step list_queue mset full_surface sample_bound sample_grown"
    unfolding sample_grown_def by (rule pool_step.resize) (rule prod.collapse [symmetric])
  ultimately have reach: "(pool_step list_queue mset full_surface)\<^sup>*\<^sup>* ?s sample_grown"
    by (meson converse_rtranclp_into_rtranclp r_into_rtranclp)
  have v: "bp_bound sample_grown \<and> bp_num_gpu_blocks sample_grown = 6 \<and> bp_queue sample_bound = [1, 2, 3] \<and>
      bp_queue sample_grown = [1, 2, 3, 4, 5]" by code_simp
  have s: "\<not> bp_bound ?s" "check_elastic_block_pool (bp_initial ?s) (bp_maximum ?s) = Inr ()"
    "bp_current ?s = bp_initial ?s"
    "\<forall>b \<in># mset (bp_queue ?s). b < length (bp_blocks ?s) \<and> count (mset (bp_queue ?s)) b = 1 \<and>
       block_ref (bp_blocks ?s ! b) = 0"
    by (auto simp: sample_pool_def check_elastic_block_pool_def block_ref_def)
  from pool_blocks_stay_mapped [OF list_queue_laws s reach] v reach show ?thesis by simp
qed

end
