(* ===== verification/Shared_Pool.thy ===== *)
theory Shared_Pool
  imports Contract_Resize Vmm_Import
begin

text \<open>
  The worker side of \<open>shared_pool.py\<close>: the backing geometry vLLM publishes, the choice of the
  CUDA binding, the elastic buffer, resize operations applied to it, and the tensor views that are
  reported to the coordinator.

  vLLM's configuration objects are dynamic values. A tensor is a record of the numbers the code
  reads from it. \<open>torch.cuda.synchronize\<close> has no effect on the state; reading its argument
  \<open>self.tensor.device\<close> raises once the tensor is released, which \<open>synchronize\<close> models.
  \<open>torch.count_nonzero\<close> of a byte range is the parameter \<open>nonzero\<close>.
\<close>

subsection \<open>Backing geometry\<close>

text \<open>\<open>int(v or 0)\<close>, iteration, and \<open>len(set(xs))\<close>.\<close>

definition int_or_zero :: "pyval \<Rightarrow> int result" where
  "int_or_zero v = py_int (if truthy v then v else PInt 0)"

definition py_iter :: "pyval \<Rightarrow> pyval list result" where
  "py_iter v =
     (case v of
        PList xs \<Rightarrow> Inr xs
      | PDict d \<Rightarrow> Inr (map (\<lambda>(k, _). PStr k) d)
      | PStr s \<Rightarrow> Inr (map (\<lambda>c. PStr [c]) s)
      | _ \<Rightarrow> Raise TypeError ''object is not iterable'')"

text \<open>The element of a one-element list.\<close>

definition the_only :: "'a list \<Rightarrow> 'a option" where
  "the_only xs = (case xs of [x] \<Rightarrow> Some x | _ \<Rightarrow> None)"

definition vllm_backing_geometry :: "pyval \<Rightarrow> (int \<times> int \<times> int) result" where
  "vllm_backing_geometry kv_cache_config =
     and_then (int_or_zero (getattr_or kv_cache_config ''num_blocks'' (PInt 0))) (\<lambda>num_blocks.
     let tensors = getattr_or kv_cache_config ''kv_cache_tensors'' PNone
     in if num_blocks \<le> 0 \<or> \<not> truthy tensors
     then RaiseP ''shared_pool requires vLLM KVCacheConfig.num_blocks and kv_cache_tensors''
     else
     and_then (py_iter tensors) (\<lambda>placements.
     and_then (traverse (\<lambda>tensor. int_or_zero (getattr_or tensor ''size'' (PInt 0))) placements) (\<lambda>sizes.
     case the_only (remdups sizes) of
       Some allocation_bytes \<Rightarrow>
         if allocation_bytes \<le> 0
         then RaiseP ''shared_pool requires every vLLM KV tensor placement to share one backing size''
         else
         let bytes_per_block = allocation_bytes div num_blocks;
             remainder = allocation_bytes mod num_blocks
         in if remainder \<noteq> 0 \<or> bytes_per_block \<le> 0
            then RaiseP ''vLLM packed KV allocation is not an integral number of blocks''
            else Inr (allocation_bytes, num_blocks, bytes_per_block)
     | None \<Rightarrow> RaiseP ''shared_pool requires every vLLM KV tensor placement to share one backing size'')))"

subsection \<open>Choice of the CUDA binding\<close>

text \<open>
  The rank of this process: the rank \<open>torch.distributed\<close> reports, if it is importable and
  initialized, else the \<open>RANK\<close> variable.
\<close>

definition vllm_distributed_rank :: "int option \<Rightarrow> string option \<Rightarrow> int result" where
  "vllm_distributed_rank torch_rank environ_rank =
     (case torch_rank of
        Some r \<Rightarrow> Inr r
      | None \<Rightarrow>
          (case environ_rank of
             Some raw \<Rightarrow>
               (case parse_int 10 raw of
                  Some r \<Rightarrow> Inr r
                | None \<Rightarrow> RaiseP ''RANK must be an integer'')
           | None \<Rightarrow> RaiseP ''cannot determine the vLLM global rank for CUDA binding selection''))"

datatype rank_key = RankInt int | RankStr string

definition cuda_candidate :: "bool \<Rightarrow> pyval \<Rightarrow> bool" where
  "cuda_candidate live_resize raw =
     (case raw of
        PDict pool \<Rightarrow>
          py_eq (d_get pool ''capacity_pool_id'') (PStr ''vllm.pool.0'') \<and>
          (case d_get pool ''memory_domain'' of
             PDict m \<Rightarrow> py_eq (d_get m ''kind'') (PStr ''cuda'') | _ \<Rightarrow> False) \<and>
          (case d_get pool ''transport'' of
             PDict tr \<Rightarrow> py_eq (d_get tr ''kind'') (PStr (if live_resize then ''cuda_vmm'' else ''cuda_ipc''))
           | _ \<Rightarrow> False)
      | _ \<Rightarrow> False)"

fun as_dict :: "pyval \<Rightarrow> pydict" where
  "as_dict (PDict d) = d"
| "as_dict _ = []"

text \<open>\<open>raw_device_id\<close>: the entry under the integer rank, else under its decimal text.\<close>

definition rank_device :: "(rank_key \<times> pyval) list \<Rightarrow> int \<Rightarrow> pyval" where
  "rank_device m rank =
     (case map_of m (RankInt rank) of
        Some v \<Rightarrow> if v \<noteq> PNone then v
                   else (case map_of m (RankStr (int_text rank)) of Some w \<Rightarrow> w | None \<Rightarrow> PNone)
      | None \<Rightarrow> (case map_of m (RankStr (int_text rank)) of Some w \<Rightarrow> w | None \<Rightarrow> PNone))"

definition device_of :: "pydict \<Rightarrow> pyval" where
  "device_of pool = d_get (as_dict (d_get pool ''memory_domain'')) ''device_id''"

definition choose_binding ::
  "pydict list \<Rightarrow> (rank_key \<times> pyval) list option \<Rightarrow> int result \<Rightarrow> pydict result" where
  "choose_binding candidates rank_device_map rank =
     (case the_only candidates of
        Some binding \<Rightarrow> Inr binding
      | None \<Rightarrow>
          and_then rank (\<lambda>global_rank.
          case rank_device_map of
            None \<Rightarrow> RaiseP ''multiple CUDA bindings require kapsl_rank_device_map''
          | Some m \<Rightarrow>
              if rank_device m global_rank = PNone
              then RaiseP (fmt [''kapsl_rank_device_map has no entry for global rank '', int_text global_rank])
              else
              and_then (py_int (rank_device m global_rank)) (\<lambda>device_id.
              let matches = filter (\<lambda>pool. py_eq (device_of pool) (PInt device_id)) candidates
              in case the_only matches of
                Some binding \<Rightarrow> Inr binding
              | None \<Rightarrow> RaiseP (fmt [''rank '', int_text global_rank, '' maps to CUDA device '',
                  int_text device_id, '', but the receipt has '', nat_text (length matches), '' matching bindings'']))))"

definition check_elastic_binding :: "pyval \<Rightarrow> bool \<Rightarrow> int \<Rightarrow> unit result" where
  "check_elastic_binding elastic live_resize num_blocks =
     (if live_resize
      then (case elastic of
          PDict el \<Rightarrow>
            and_then (py_int (d_get_or el ''maximum_block_count'' (PInt 0))) (\<lambda>maximum_blocks.
            if maximum_blocks \<noteq> num_blocks
            then RaiseP ''Kapsl elastic maximum does not match vLLM's virtual allocator''
            else
            and_then (py_int (d_get_or el ''minimum_block_count'' (PInt 0))) (\<lambda>minimum_blocks.
            and_then (py_int (d_get_or el ''mapped_block_count'' (PInt 0))) (\<lambda>mapped_blocks.
            if minimum_blocks \<le> 0 \<or> minimum_blocks > mapped_blocks \<or> mapped_blocks > num_blocks
            then RaiseP ''Kapsl elastic minimum/mapped block counts are outside virtual capacity''
            else Inr ())))
        | _ \<Rightarrow> RaiseP ''CUDA VMM binding is missing elastic pool geometry'')
      else if elastic \<noteq> PNone
      then RaiseP ''fixed CUDA IPC binding cannot carry elastic pool geometry''
      else Inr ())"

definition select_cuda_binding ::
  "pydict \<Rightarrow> pyval \<Rightarrow> (rank_key \<times> pyval) list option \<Rightarrow> int result \<Rightarrow> bool \<Rightarrow> pydict result" where
  "select_cuda_binding receipt kv_cache_config rank_device_map rank live_resize =
     and_then (vllm_backing_geometry kv_cache_config) (\<lambda>(allocation_bytes, num_blocks, bytes_per_block).
     case d_get receipt ''shared_pools'' of
       PList pools \<Rightarrow>
         if pools = [] then RaiseP ''Kapsl returned no shared-pool bindings''
         else
         let candidates = map as_dict (filter (cuda_candidate live_resize) pools)
         in if candidates = []
         then RaiseP (fmt [''Kapsl receipt has no '', if live_resize then ''cuda_vmm'' else ''cuda_ipc'',
                '' binding for vllm.pool.0''])
         else
         and_then (choose_binding candidates rank_device_map rank) (\<lambda>binding.
         if \<not> py_eq (d_get binding ''allocation_mode'') (PStr ''participant_managed'')
         then RaiseP ''vLLM shared_pool requires participant_managed block selection''
         else
         and_then (py_int (d_get_or binding ''block_count'' (PInt 0))) (\<lambda>block_count.
         if block_count \<noteq> num_blocks
         then RaiseP ''Kapsl block count does not match vLLM's configured allocator''
         else
         and_then (py_int (d_get_or binding ''bytes_per_block'' (PInt 0))) (\<lambda>stride.
         if stride \<noteq> bytes_per_block
         then RaiseP ''Kapsl block stride does not match vLLM's packed allocation''
         else if allocation_bytes \<noteq> num_blocks * bytes_per_block
         then Raise AssertionError ''validated vLLM backing geometry changed''
         else
         and_then (check_elastic_binding (d_get binding ''elastic'') live_resize num_blocks) (\<lambda>_.
         Inr binding))))
     | _ \<Rightarrow> RaiseP ''Kapsl returned no shared-pool bindings'')"

subsection \<open>Tensor spans\<close>

record tensor =
  t_shape :: "int list"
  t_strides :: "int list"
  t_element_size :: int
  t_data_ptr :: int
  t_storage_ptr :: int

definition tensor_span_bytes :: "tensor \<Rightarrow> int result" where
  "tensor_span_bytes t =
     (if t_shape t = [] \<or> length (t_shape t) \<noteq> length (t_strides t) \<or> list_ex (\<lambda>n. n \<le> 0) (t_shape t)
      then RaiseP ''vLLM KV tensors must have a non-empty shape''
      else if list_ex (\<lambda>n. n < 0) (t_strides t)
      then RaiseP ''negative-stride vLLM KV tensors are unsupported''
      else if t_element_size t \<le> 0
      then RaiseP ''vLLM KV tensor element size must be positive''
      else Inr ((sum_list (map2 (\<lambda>n st. (n - 1) * st) (t_shape t) (t_strides t)) + 1) * t_element_size t))"

subsection \<open>Layers and views\<close>

type_synonym layer_identity = "(string \<times> (string \<times> int)) list"

text \<open>
  The loop of the hook's constructor over groups and their layers: names are unique over all
  groups, and layers are numbered across the groups.
\<close>

definition identity_step ::
  "string \<Rightarrow> layer_identity \<times> int \<Rightarrow> string \<Rightarrow> (layer_identity \<times> int) result" where
  "identity_step group_id st name =
     (case st of (table, next_index) \<Rightarrow>
        if name \<in> fst ` set table
        then RaiseP (fmt [''vLLM KV layer '', py_repr name, '' appears in more than one cache group''])
        else Inr (table @ [(name, (group_id, next_index))], next_index + 1))"

definition layer_identities :: "string list list \<Rightarrow> layer_identity result" where
  "layer_identities groups =
     and_then
       (fold_r (\<lambda>st (index, names). fold_r (identity_step (''vllm.group.'' @ nat_text index)) st names)
          ([], 0) (enumerate 0 groups))
       (\<lambda>(table, next_index). Inr table)"

definition layer_view :: "layer_identity \<Rightarrow> int \<Rightarrow> int \<Rightarrow> (string \<times> tensor) list \<Rightarrow> string \<Rightarrow> pydict result" where
  "layer_view identity raw_base expected_bytes kv_caches layer_name =
     (case (map_of kv_caches layer_name, map_of identity layer_name) of
        (Some tensor, Some (group_id, layer_index)) \<Rightarrow>
          if t_storage_ptr tensor \<noteq> raw_base
          then RaiseP (fmt [''vLLM KV tensor '', py_repr layer_name, '' does not alias the imported CUDA storage''])
          else
          let offset_bytes = t_data_ptr tensor - raw_base
          in and_then (tensor_span_bytes tensor) (\<lambda>length_bytes.
             if offset_bytes < 0 \<or> offset_bytes + length_bytes > expected_bytes
             then RaiseP (fmt [''vLLM KV tensor '', py_repr layer_name, '' extends outside the imported allocation''])
             else Inr
               [(''group_id'', PStr group_id),
                (''layer'', PDict [(''index'', PInt layer_index), (''name'', PStr layer_name)]),
                (''offset_bytes'', PInt offset_bytes), (''length_bytes'', PInt length_bytes)])
      | _ \<Rightarrow> Raise KeyError (py_repr layer_name))"

definition names_repr :: "string list \<Rightarrow> string" where
  "names_repr names = repr_val (\<lambda>_. []) (PList (map PStr (sort (remdups names))))"

text \<open>
  \<open>raw\<close> is the imported tensor: \<open>None\<close> once released, else its storage address and size.
\<close>

definition attachment_views ::
  "bool \<Rightarrow> (int \<times> int) option \<Rightarrow> int \<Rightarrow> layer_identity \<Rightarrow> (string \<times> tensor) list \<Rightarrow> pydict list result" where
  "attachment_views used raw expected_bytes identity kv_caches =
     (if \<not> used
      then RaiseP ''vLLM cannot attach before consuming the imported KV allocation''
      else case raw of
        None \<Rightarrow> RaiseP ''CUDA IPC mapping was released before attachment''
      | Some (raw_base, raw_bytes) \<Rightarrow>
          if fst ` set kv_caches \<noteq> fst ` set identity
          then RaiseP (fmt
            [''vLLM registered KV layers that differ from the negotiated topology: missing='',
             names_repr (filter (\<lambda>n. n \<notin> fst ` set kv_caches) (map fst identity)), '', unexpected='',
             names_repr (filter (\<lambda>n. n \<notin> fst ` set identity) (map fst kv_caches))])
          else if raw_bytes \<noteq> expected_bytes
          then RaiseP ''imported CUDA storage size changed before attachment''
          else traverse (layer_view identity raw_base expected_bytes kv_caches)
                 (map fst (sort_key (\<lambda>(_, (_, index)). index) identity)))"

subsection \<open>The elastic buffer and worker resizes\<close>

text \<open>
  \<open>CudaVmmBuffer\<close> keeps the import and the number of bytes it believes mapped; the hook adds
  the binding and the key of the last resize. \<open>fixed\<close> holds for a CUDA IPC buffer.
\<close>

type_synonym resize_key = "int \<times> string \<times> int \<times> (string \<times> int \<times> int \<times> int) list"

record hook =
  hk_import :: vmm
  hk_mapped_bytes :: int
  hk_virtual_bytes :: int
  hk_conformance :: bool
  hk_fixed :: bool
  hk_released :: bool
  hk_binding_id :: string
  hk_last_resize :: "resize_key option"

definition on_import :: "(vmm, unit) eff \<Rightarrow> (hook, unit) eff" where
  "on_import m s = (case m (hk_import s) of (v, r) \<Rightarrow> (s\<lparr>hk_import := v\<rparr>, r))"

definition synchronize :: "(hook, unit) eff" where
  "synchronize s =
     (if hk_released s then (s, Raise AttributeError ''NoneType object has no attribute device'')
      else (s, Inr ()))"

definition verify_zero_segments ::
  "(pyfloat \<Rightarrow> string) \<Rightarrow> (int \<Rightarrow> int \<Rightarrow> int) \<Rightarrow> pyval list \<Rightarrow> string \<Rightarrow> unit result" where
  "verify_zero_segments fr nonzero segments phase =
     fold_r (\<lambda>_ segment.
        and_then (int_item segment ''offset_bytes'') (\<lambda>start.
        and_then (int_item segment ''length_bytes'') (\<lambda>len.
        if nonzero start len \<noteq> 0
        then and_then (item segment ''segment_id'') (\<lambda>sid.
               RaiseP (fmt [''CUDA VMM '', phase, '' segment '', repr_val fr sid, '' was not zeroed'']))
        else Inr ()))) () segments"

definition buffer_map_segments ::
  "(pyfloat \<Rightarrow> string) \<Rightarrow> cuda_driver \<Rightarrow> (int \<Rightarrow> int \<Rightarrow> int) \<Rightarrow> pyval list \<Rightarrow> int list \<Rightarrow> int \<Rightarrow> (hook, unit) eff" where
  "buffer_map_segments fr drv nonzero segments handles target_bytes =
     bind (gets id) (\<lambda>self.
     if target_bytes \<le> hk_mapped_bytes self \<or> target_bytes > hk_virtual_bytes self
     then lift (RaiseP ''invalid CUDA VMM growth target'')
     else
     bind synchronize (\<lambda>_.
     bind (on_import (map_segments fr drv segments handles)) (\<lambda>_.
     bind (if hk_conformance self then lift (verify_zero_segments fr nonzero segments ''grow'') else ret ()) (\<lambda>_.
     modify (\<lambda>s. s\<lparr>hk_mapped_bytes := target_bytes\<rparr>)))))"

definition buffer_unmap_segments ::
  "(pyfloat \<Rightarrow> string) \<Rightarrow> cuda_driver \<Rightarrow> pyval list \<Rightarrow> int \<Rightarrow> (hook, unit) eff" where
  "buffer_unmap_segments fr drv segments target_bytes =
     bind (gets id) (\<lambda>self.
     if target_bytes \<le> 0 \<or> target_bytes \<ge> hk_mapped_bytes self
     then lift (RaiseP ''invalid CUDA VMM shrink target'')
     else
     bind synchronize (\<lambda>_.
     bind (on_import (unmap_segments fr drv segments)) (\<lambda>_.
     modify (\<lambda>s. s\<lparr>hk_mapped_bytes := target_bytes\<rparr>))))"

text \<open>
  \<open>CudaVmmBuffer.__init__\<close>: reserve, import the initial segments, wrap the range as a tensor.
  \<open>dlpack\<close> is the outcome of \<open>PyCapsule_New\<close> and \<open>torch.utils.dlpack.from_dlpack\<close>. The
  state is blank until the import object exists; the result is the virtual and the mapped size.
\<close>

definition blank_vmm :: "cuda_event list \<Rightarrow> vmm" where
  "blank_vmm evs =
     \<lparr>vmm_pointer = 0, virtual_bytes = 0, vmm_granularity = 0, vmm_device_id = 0,
      vmm_segments = [], vmm_imported = [], cuda_log = evs\<rparr>"

definition buffer_sizes :: "pydict \<Rightarrow> (pydict \<times> int \<times> int \<times> int) result" where
  "buffer_sizes binding =
     (case d_get binding ''elastic'' of
        PDict elastic \<Rightarrow>
          and_then (int_item (PDict binding) ''block_count'') (\<lambda>blocks.
          and_then (int_item (PDict binding) ''bytes_per_block'') (\<lambda>stride.
          and_then (int_item (PDict elastic) ''mapped_block_count'') (\<lambda>mapped.
          and_then (int_item (PDict elastic) ''allocation_granularity_bytes'') (\<lambda>granularity.
          Inr (elastic, blocks * stride, mapped * stride, granularity)))))
      | _ \<Rightarrow> RaiseP ''CUDA VMM binding has no elastic geometry'')"

definition fill_buffer ::
  "(pyfloat \<Rightarrow> string) \<Rightarrow> cuda_driver \<Rightarrow> unit result \<Rightarrow> pydict \<Rightarrow> int list \<Rightarrow> (vmm, pyval list) eff" where
  "fill_buffer fr drv dlpack elastic handles =
     try_except
       (bind (lift (and_then (item (PDict elastic) ''segments'') py_iter)) (\<lambda>segments.
        bind (map_segments fr drv segments handles) (\<lambda>_.
        bind (lift dlpack) (\<lambda>_. ret segments))))
       (\<lambda>e. bind (close_import drv) (\<lambda>_. lift (Inl e)))"

definition new_vmm_buffer ::
  "(pyfloat \<Rightarrow> string) \<Rightarrow> cuda_driver \<Rightarrow> (int \<Rightarrow> int \<Rightarrow> int) \<Rightarrow> bool \<Rightarrow> int \<Rightarrow> unit result \<Rightarrow> bool \<Rightarrow>
   pydict \<Rightarrow> int list \<Rightarrow> cuda_event list \<Rightarrow> vmm \<times> (int \<times> int) result" where
  "new_vmm_buffer fr drv nonzero cuda_available torch_device_id dlpack conformance binding handles evs =
     (case buffer_sizes binding of
        Inl e \<Rightarrow> (blank_vmm evs, Inl e)
      | Inr (elastic, virtual, mapped, granularity) \<Rightarrow>
          if \<not> cuda_available
          then (blank_vmm evs, RaiseP ''shared_pool requires an active CUDA worker'')
          else case new_vmm_import drv evs virtual granularity torch_device_id of
            (v, Inl e) \<Rightarrow> (v, Inl e)
          | (v, Inr _) \<Rightarrow>
              bind (fill_buffer fr drv dlpack elastic handles) (\<lambda>segments.
              bind (if conformance then lift (verify_zero_segments fr nonzero segments ''initial'') else ret ())
                (\<lambda>_. ret (virtual, mapped))) v)"

definition segment_key :: "(pyfloat \<Rightarrow> string) \<Rightarrow> pyval \<Rightarrow> (string \<times> int \<times> int \<times> int) result" where
  "segment_key fr segment =
     and_then (str_item fr segment ''segment_id'') (\<lambda>sid.
     and_then (int_item segment ''offset_bytes'') (\<lambda>off.
     and_then (int_item segment ''length_bytes'') (\<lambda>len.
     and_then (int_item segment ''handle_index'') (\<lambda>h. Inr (sid, off, len, h)))))"

definition copy_dict :: "pyval \<Rightarrow> pyval result" where
  "copy_dict v = (case v of PDict d \<Rightarrow> Inr v | _ \<Rightarrow> Raise TypeError ''cannot convert to dict'')"

text \<open>
  What \<open>apply_worker_resize\<close> reads from an operation before it decides: the target in bytes,
  the segments and the key \<open>(generation, stage, target, segments)\<close>.
\<close>

definition resize_plan :: "(pyfloat \<Rightarrow> string) \<Rightarrow> pydict \<Rightarrow> (pyval list \<times> resize_key) result" where
  "resize_plan fr operation =
     and_then (int_item (PDict operation) ''target_block_count'') (\<lambda>target_blocks.
     and_then (int_item (PDict operation) ''bytes_per_block'') (\<lambda>stride.
     and_then (py_iter (d_get_or operation ''segments'' (PList []))) (\<lambda>raw_segments.
     and_then (traverse copy_dict raw_segments) (\<lambda>segments.
     and_then (int_item (PDict operation) ''resize_generation'') (\<lambda>generation.
     and_then (traverse (segment_key fr) segments) (\<lambda>keys.
     Inr (segments, (generation, py_str fr (d_get operation ''stage''), target_blocks * stride, keys))))))))"

definition worker_resize_action ::
  "(pyfloat \<Rightarrow> string) \<Rightarrow> cuda_driver \<Rightarrow> (int \<Rightarrow> int \<Rightarrow> int) \<Rightarrow> string \<Rightarrow> pyval list \<Rightarrow> int list \<Rightarrow> int \<Rightarrow> (hook, unit) eff" where
  "worker_resize_action fr drv nonzero stage segments handles target_bytes =
     (if stage = ''map_workers'' then buffer_map_segments fr drv nonzero segments handles target_bytes
      else if stage = ''unmap_workers''
      then if handles \<noteq> [] then lift (RaiseP ''CUDA VMM unmap must not carry handles'')
           else buffer_unmap_segments fr drv segments target_bytes
      else lift (RaiseP ''worker received a scheduler resize stage''))"

definition apply_worker_resize ::
  "(pyfloat \<Rightarrow> string) \<Rightarrow> cuda_driver \<Rightarrow> (int \<Rightarrow> int \<Rightarrow> int) \<Rightarrow> pydict \<Rightarrow> int list \<Rightarrow> (hook, unit) eff" where
  "apply_worker_resize fr drv nonzero operation handles =
     bind (gets id) (\<lambda>self.
     if hk_fixed self then lift (RaiseP ''fixed CUDA IPC pool cannot be resized'')
     else if py_str fr (d_get operation ''binding_id'') \<noteq> hk_binding_id self
     then lift (RaiseP ''resize operation targets a different binding'')
     else
     bind (lift (resize_plan fr operation)) (\<lambda>(segments, key).
     case key of (generation, stage, target_bytes, _) \<Rightarrow>
     if hk_last_resize self = Some key then ret ()
     else if (case hk_last_resize self of None \<Rightarrow> False | Some previous \<Rightarrow> generation \<le> fst previous)
     then lift (RaiseP ''worker received a non-monotonic or altered resize replay'')
     else
     bind (worker_resize_action fr drv nonzero stage segments handles target_bytes) (\<lambda>_.
     modify (\<lambda>s. s\<lparr>hk_last_resize := Some key\<rparr>))))"

subsection \<open>Geometry and binding\<close>

lemma the_only_Some [simp]: "the_only xs = Some x \<longleftrightarrow> xs = [x]"
  by (auto simp: the_only_def split: list.splits)

lemma the_only_single [simp]: "the_only [x] = Some x"
  by (simp add: the_only_def)

lemma case_option_Inr_iff:
  "(case v of None \<Rightarrow> Inl e | Some x \<Rightarrow> f x) = Inr y \<longleftrightarrow> (\<exists>x. v = Some x \<and> f x = Inr y)"
  by (cases v) auto

lemma vllm_backing_geometry_Inr:
  assumes "vllm_backing_geometry cfg = Inr (a, n, b)"
  shows "0 < n \<and> 0 < b \<and> a = n * b \<and>
    (\<exists>ts. py_iter (getattr_or cfg ''kv_cache_tensors'' PNone) = Inr ts \<and>
       (\<forall>t \<in> set ts. int_or_zero (getattr_or t ''size'' (PInt 0)) = Inr a))"
proof -
  from assms obtain ts sizes where g: "0 < n" "py_iter (getattr_or cfg ''kv_cache_tensors'' PNone) = Inr ts"
    and s: "traverse (\<lambda>t. int_or_zero (getattr_or t ''size'' (PInt 0))) ts = Inr sizes"
    and one: "remdups sizes = [a]" and d: "a mod n = 0" "b = a div n" "0 < b"
    unfolding vllm_backing_geometry_def result_simps Let_def case_option_Inr_iff the_only_Some
    by (elim exE conjE) simp
  have all: "set sizes = {a}" using arg_cong [OF one, of set] by simp
  have "int_or_zero (getattr_or t ''size'' (PInt 0)) = Inr a" if "t \<in> set ts" for t
  proof -
    from that obtain i where i: "i < length ts" "t = ts ! i" by (auto simp: in_set_conv_nth)
    then have "sizes ! i \<in> set sizes" using traverse_length [OF s] by simp
    then show ?thesis using traverse_nth [OF s i(1)] i(2) all by simp
  qed
  moreover have "a = n * b" using d(1,2) mult_div_mod_eq [of n a] by simp
  ultimately show ?thesis using g d(3) by (intro conjI exI [of _ ts]) simp_all
qed

text \<open>
  The rank, device and uniqueness facts behind a choice between several bindings.
\<close>

lemma choose_binding_Inr:
  assumes "choose_binding cs m rank = Inr b"
  shows "b \<in> set cs \<and> (cs = [b] \<or>
    (\<exists>r mm dev. rank = Inr r \<and> m = Some mm \<and> py_int (rank_device mm r) = Inr dev \<and>
       filter (\<lambda>pool. py_eq (device_of pool) (PInt dev)) cs = [b]))"
proof (cases "the_only cs")
  case (Some x)
  then show ?thesis using assms by (simp add: choose_binding_def)
next
  case None
  then obtain r mm dev where c: "rank = Inr r" "m = Some mm" "py_int (rank_device mm r) = Inr dev"
    "filter (\<lambda>pool. py_eq (device_of pool) (PInt dev)) cs = [b]"
    using assms by (auto simp: choose_binding_def result_simps Let_def case_option_Inr_iff)
  have "b \<in> set (filter (\<lambda>pool. py_eq (device_of pool) (PInt dev)) cs)" unfolding c(4) by simp
  then have "b \<in> set cs" by simp
  with c show ?thesis by blast
qed

text \<open>The counts an accepted binding carries in each mode.\<close>

definition elastic_fits :: "pyval \<Rightarrow> bool \<Rightarrow> int \<Rightarrow> bool" where
  "elastic_fits elastic live n =
     (if live
      then \<exists>el mn mp. elastic = PDict el \<and>
        py_int (d_get_or el ''maximum_block_count'' (PInt 0)) = Inr n \<and>
        py_int (d_get_or el ''minimum_block_count'' (PInt 0)) = Inr mn \<and>
        py_int (d_get_or el ''mapped_block_count'' (PInt 0)) = Inr mp \<and>
        0 < mn \<and> mn \<le> mp \<and> mp \<le> n
      else elastic = PNone)"

lemma check_elastic_binding_iff: "check_elastic_binding elastic live n = Inr () \<longleftrightarrow> elastic_fits elastic live n"
  by (cases live; cases elastic)
    (simp_all add: check_elastic_binding_def elastic_fits_def result_simps not_le not_less, blast?)

definition only_choice ::
  "pydict list \<Rightarrow> (rank_key \<times> pyval) list option \<Rightarrow> int result \<Rightarrow> pydict \<Rightarrow> bool" where
  "only_choice cs rank_map rank binding =
     (cs = [binding] \<or> (\<exists>r m dev. rank = Inr r \<and> rank_map = Some m \<and>
       py_int (rank_device m r) = Inr dev \<and>
       filter (\<lambda>pool. py_eq (device_of pool) (PInt dev)) cs = [binding]))"

lemma cuda_candidate_dict: "cuda_candidate live raw \<Longrightarrow> raw = PDict (as_dict raw)"
  by (cases raw) (simp_all add: cuda_candidate_def)

lemma select_cuda_binding_Inr:
  assumes "select_cuda_binding receipt cfg rank_map rank live = Inr binding"
  obtains a n stride pools where "vllm_backing_geometry cfg = Inr (a, n, stride)"
    "d_get receipt ''shared_pools'' = PList pools"
    "choose_binding (map as_dict (filter (cuda_candidate live) pools)) rank_map rank = Inr binding"
    "py_int (d_get_or binding ''block_count'' (PInt 0)) = Inr n"
    "py_int (d_get_or binding ''bytes_per_block'' (PInt 0)) = Inr stride"
    "check_elastic_binding (d_get binding ''elastic'') live n = Inr ()"
proof (cases "d_get receipt ''shared_pools''")
  case (PList pools)
  then show thesis using assms that
    unfolding select_cuda_binding_def and_then_Inr_iff PList pyval.case
    by (auto simp: result_simps Let_def)
qed (use assms in \<open>auto simp: select_cuda_binding_def result_simps\<close>)

text \<open>
  The binding a worker imports is one of the CUDA pools of the receipt, on the transport of
  the requested mode; its block count and stride are those of vLLM's backing allocation, which
  they fill exactly. If the receipt has several candidates, it is the only one on the device that
  the rank map assigns to this rank. With live resize the mapped prefix is not empty and fits.
\<close>

theorem select_cuda_binding_sound:
  assumes "select_cuda_binding receipt cfg rank_map rank live = Inr binding"
  shows "\<exists>pools n stride.
    d_get receipt ''shared_pools'' = PList pools \<and> PDict binding \<in> set pools \<and>
    cuda_candidate live (PDict binding) \<and>
    vllm_backing_geometry cfg = Inr (n * stride, n, stride) \<and> 0 < n \<and> 0 < stride \<and>
    py_int (d_get_or binding ''block_count'' (PInt 0)) = Inr n \<and>
    py_int (d_get_or binding ''bytes_per_block'' (PInt 0)) = Inr stride \<and>
    only_choice (map as_dict (filter (cuda_candidate live) pools)) rank_map rank binding \<and>
    elastic_fits (d_get binding ''elastic'') live n"
proof -
  obtain a n stride pools where g: "vllm_backing_geometry cfg = Inr (a, n, stride)"
    and p: "d_get receipt ''shared_pools'' = PList pools"
    and c: "choose_binding (map as_dict (filter (cuda_candidate live) pools)) rank_map rank = Inr binding"
    and b: "py_int (d_get_or binding ''block_count'' (PInt 0)) = Inr n"
      "py_int (d_get_or binding ''bytes_per_block'' (PInt 0)) = Inr stride"
    and e: "check_elastic_binding (d_get binding ''elastic'') live n = Inr ()"
    by (rule select_cuda_binding_Inr [OF assms])
  note gg = vllm_backing_geometry_Inr [OF g] and cc = choose_binding_Inr [OF c]
  have ga: "vllm_backing_geometry cfg = Inr (n * stride, n, stride)" "0 < n" "0 < stride"
    using gg g by simp_all
  have "binding \<in> as_dict ` set (filter (cuda_candidate live) pools)" using conjunct1 [OF cc] by simp
  then obtain raw where raw: "raw \<in> set (filter (cuda_candidate live) pools)" "binding = as_dict raw"
    by (rule imageE)
  then have eq: "raw = PDict binding" using cuda_candidate_dict [of live raw] by simp
  have cand: "PDict binding \<in> set pools" "cuda_candidate live (PDict binding)"
    using raw(1) unfolding eq by simp_all
  show ?thesis
    by (intro exI conjI, rule p, rule cand, rule cand, rule ga, rule ga, rule ga, rule b, rule b,
        rule conjunct2 [OF cc, folded only_choice_def], rule e [unfolded check_elastic_binding_iff])
qed

subsection \<open>Tensor spans\<close>

text \<open>The element of a tensor at an index vector, counted in elements from its data pointer.\<close>

definition element_offset :: "int list \<Rightarrow> int list \<Rightarrow> int" where
  "element_offset idx strides = sum_list (map2 (*) idx strides)"

definition valid_index :: "int list \<Rightarrow> int list \<Rightarrow> bool" where
  "valid_index idx shape = list_all2 (\<lambda>i n. 0 \<le> i \<and> i < n) idx shape"

lemma element_offset_bounds:
  assumes "list_all2 (\<lambda>i n. 0 \<le> i \<and> i < n) idx shape" and "length shape = length strides"
    and "list_all (\<lambda>st. 0 \<le> st) strides"
  shows "0 \<le> element_offset idx strides \<and>
    element_offset idx strides \<le> sum_list (map2 (\<lambda>n st. (n - 1) * st) shape strides)"
  using assms
proof (induction idx shape arbitrary: strides rule: list_all2_induct)
  case (Cons i idx n shape)
  then obtain st sts where s: "strides = st # sts" "0 \<le> st" by (cases strides) auto
  have "i * st \<le> (n - 1) * st" "0 \<le> i * st" using Cons s by (auto intro: mult_right_mono)
  then show ?case using Cons.IH [of sts] Cons.prems s by (simp add: element_offset_def)
qed (simp add: element_offset_def)

lemma tensor_span_facts:
  assumes "tensor_span_bytes t = Inr n"
  shows "(\<forall>idx. valid_index idx (t_shape t) \<longrightarrow>
      0 \<le> element_offset idx (t_strides t) * t_element_size t \<and>
      element_offset idx (t_strides t) * t_element_size t + t_element_size t \<le> n) \<and>
    (\<exists>idx. valid_index idx (t_shape t) \<and>
      element_offset idx (t_strides t) * t_element_size t + t_element_size t = n) \<and> 0 < n"
proof -
  let ?top = "sum_list (map2 (\<lambda>n st. (n - 1) * st) (t_shape t) (t_strides t))"
  from assms have len: "length (t_shape t) = length (t_strides t)"
    and pos: "\<forall>n \<in> set (t_shape t). 0 < n" "list_all (\<lambda>st. 0 \<le> st) (t_strides t)" "0 < t_element_size t"
    and n: "n = (?top + 1) * t_element_size t"
    by (auto simp: tensor_span_bytes_def list_ex_iff list_all_iff split: if_splits)
  have le: "0 \<le> element_offset idx (t_strides t) * t_element_size t \<and>
      element_offset idx (t_strides t) * t_element_size t + t_element_size t \<le> n"
    if "valid_index idx (t_shape t)" for idx
  proof -
    have b: "0 \<le> element_offset idx (t_strides t)" "element_offset idx (t_strides t) \<le> ?top"
      using element_offset_bounds [OF that [unfolded valid_index_def] len pos(2)] by auto
    then have "element_offset idx (t_strides t) * t_element_size t \<le> ?top * t_element_size t"
      using pos(3) by (simp add: mult_right_mono)
    then show ?thesis using b(1) pos(3) by (simp add: n distrib_right)
  qed
  define last_idx where "last_idx = map (\<lambda>n. n - 1) (t_shape t)"
  have v: "valid_index last_idx (t_shape t)"
    using pos(1) by (auto simp: valid_index_def last_idx_def list_all2_conv_all_nth)
  have "element_offset last_idx (t_strides t) = ?top"
    by (simp add: element_offset_def last_idx_def zip_map1 comp_def case_prod_unfold)
  then have eq: "element_offset last_idx (t_strides t) * t_element_size t + t_element_size t = n"
    by (simp add: n distrib_right)
  have "0 < n" using le [OF v] eq pos(3) by linarith
  then show ?thesis using le v eq by blast
qed

text \<open>
  The span of a tensor is exact: every element lies, with all its bytes, between the data
  pointer and the end of the span, and the last element ends where the span ends.
\<close>

theorem tensor_span_exact:
  assumes "tensor_span_bytes t = Inr n"
  shows "(\<forall>idx. valid_index idx (t_shape t) \<longrightarrow>
      0 \<le> element_offset idx (t_strides t) * t_element_size t \<and>
      element_offset idx (t_strides t) * t_element_size t + t_element_size t \<le> n) \<and>
    (\<exists>idx. valid_index idx (t_shape t) \<and>
      element_offset idx (t_strides t) * t_element_size t + t_element_size t = n) \<and> 0 < n"
  using assms by (rule tensor_span_facts)

subsection \<open>Layers and views\<close>

text \<open>The table of layers while it is built: numbered without gaps, names unique, group ids not blank.\<close>

definition layers_inv :: "string list \<Rightarrow> layer_identity \<times> int \<Rightarrow> bool" where
  "layers_inv names st \<longleftrightarrow>
     map fst (fst st) = names \<and> distinct names \<and> snd st = int (length names) \<and>
     map (\<lambda>(_, (_, i)). i) (fst st) = map int [0..<length names] \<and>
     (\<forall>(_, (g, _)) \<in> set (fst st). py_strip g \<noteq> [])"

lemma group_id_not_blank: "py_strip (''vllm.group.'' @ s) \<noteq> []"
proof -
  have "\<not> py_isspace (CHR ''v'')" by code_simp
  then show ?thesis by (simp add: py_strip_empty_iff)
qed

lemma identity_step_inv:
  assumes "layers_inv names st" and "py_strip g \<noteq> []" and "identity_step g st name = Inr st'"
  shows "layers_inv (names @ [name]) st'"
  using assms by (cases st) (auto simp: layers_inv_def identity_step_def split: if_splits)

lemma identity_names_inv:
  assumes "layers_inv names st" and "py_strip g \<noteq> []" and "fold_r (identity_step g) st new = Inr st'"
  shows "layers_inv (names @ new) st'"
  using assms
proof (induction new arbitrary: names st)
  case (Cons n new)
  then obtain st1 where "identity_step g st n = Inr st1" "fold_r (identity_step g) st1 new = Inr st'"
    by (auto simp: and_then_Inr_iff)
  with Cons.IH [of "names @ [n]" st1] identity_step_inv Cons.prems show ?case by simp
qed auto

lemma identity_groups_inv:
  assumes "layers_inv names st"
    and "fold_r (\<lambda>st (i, new). fold_r (identity_step (''vllm.group.'' @ nat_text i)) st new) st (enumerate k groups) = Inr st'"
  shows "layers_inv (names @ concat groups) st'"
  using assms
proof (induction groups arbitrary: names st k)
  case (Cons g groups)
  then obtain st1 where one: "fold_r (identity_step (''vllm.group.'' @ nat_text k)) st g = Inr st1"
    and rest: "fold_r (\<lambda>st (i, new). fold_r (identity_step (''vllm.group.'' @ nat_text i)) st new) st1 (enumerate (Suc k) groups) = Inr st'"
    by (auto simp: and_then_Inr_iff)
  from Cons.IH [OF identity_names_inv [OF Cons.prems(1) group_id_not_blank one] rest] show ?case by simp
qed auto

lemma layer_identities_Inr:
  assumes "layer_identities groups = Inr identity"
  shows "layers_inv (concat groups) (identity, int (length (concat groups)))"
proof -
  obtain k where "fold_r (\<lambda>st (i, new). fold_r (identity_step (''vllm.group.'' @ nat_text i)) st new) ([], 0)
      (enumerate 0 groups) = Inr (identity, k)"
    using assms by (auto simp: layer_identities_def and_then_Inr_iff)
  from identity_groups_inv [OF _ this, of "[]"] have "layers_inv (concat groups) (identity, k)"
    by (simp add: layers_inv_def)
  then show ?thesis by (simp add: layers_inv_def)
qed

lemma layers_sorted:
  assumes "layers_inv names (identity, k)"
  shows "sort_key (\<lambda>(_, (_, i)). i) identity = identity"
proof -
  have "sorted (map (\<lambda>(_, (_, i)). i) identity)" using assms by (simp add: layers_inv_def sorted_map)
  then show ?thesis by (rule sort_key_id_if_sorted)
qed

lemma layer_view_Inr:
  assumes "layer_view identity base n caches name = Inr v" and "py_strip name \<noteq> []"
    and "\<forall>(_, (g, i)) \<in> set identity. py_strip g \<noteq> [] \<and> 0 \<le> i"
  shows "view_ok n (PDict v) \<and> (\<exists>g i. map_of identity name = Some (g, i) \<and> view_key (PDict v) = (g, i))"
proof -
  obtain t g i where m: "map_of caches name = Some t" "map_of identity name = Some (g, i)"
    using assms(1) by (auto simp: layer_view_def split: option.splits)
  then have gi: "py_strip g \<noteq> []" "0 \<le> i" using assms(3) by (auto dest: map_of_SomeD)
  obtain len where len: "tensor_span_bytes t = Inr len" "0 \<le> t_data_ptr t - base"
    "t_data_ptr t - base + len \<le> n"
    and v: "v = [(''group_id'', PStr g), (''layer'', PDict [(''index'', PInt i), (''name'', PStr name)]),
        (''offset_bytes'', PInt (t_data_ptr t - base)), (''length_bytes'', PInt len)]"
    using assms(1) by (auto simp: layer_view_def m and_then_Inr_iff Let_def split: if_splits)
  have "0 < len" using tensor_span_facts [OF len(1)] by simp
  then show ?thesis using gi len(2,3) assms(2) m(2)
    by (simp add: view_ok_def view_key_def v d_get_def)
qed

text \<open>
  C31. The views a worker reports pass the coordinator's checks: one view per layer, in the order of
  the layer numbers, all inside the imported allocation, with pairwise distinct group and layer.
\<close>

theorem attachment_views_accepted:
  assumes "layer_identities groups = Inr identity" and "\<forall>n \<in> set (concat groups). py_strip n \<noteq> []"
    and "attachment_views used raw imported identity kv_caches = Inr views"
  shows "list_all (\<lambda>v. view_ok imported (PDict v)) views \<and>
    distinct (map (\<lambda>v. view_key (PDict v)) views) \<and>
    map (\<lambda>v. snd (view_key (PDict v))) views = map int [0..<length (concat groups)]"
proof -
  note inv = layer_identities_Inr [OF assms(1)]
  have names: "map fst identity = concat groups" and dist: "distinct (map fst identity)"
    and idx: "map (\<lambda>(_, (_, i)). i) identity = map int [0..<length (concat groups)]"
    using inv by (auto simp: layers_inv_def)
  have "0 \<le> i" if "(n, (g, i)) \<in> set identity" for n g i
  proof -
    have "i \<in> set (map (\<lambda>(_, (_, i)). i) identity)" using that by force
    then show ?thesis unfolding idx by auto
  qed
  then have ids: "\<forall>(_, (g, i)) \<in> set identity. py_strip g \<noteq> [] \<and> 0 \<le> i"
    using inv by (fastforce simp: layers_inv_def)
  obtain base where t: "traverse (layer_view identity base imported kv_caches) (map fst identity) = Inr views"
    using assms(3) layers_sorted [OF inv] by (auto simp: attachment_views_def split: if_splits option.splits)
  have each: "view_ok imported (PDict (views ! k)) \<and> view_key (PDict (views ! k)) = snd (identity ! k)"
    if "k < length identity" for k
  proof -
    have "layer_view identity base imported kv_caches (fst (identity ! k)) = Inr (views ! k)"
      using traverse_nth [OF t, of k] that by simp
    moreover have "py_strip (fst (identity ! k)) \<noteq> []"
      using assms(2) that unfolding names [symmetric] by simp
    moreover have "map_of identity (fst (identity ! k)) = Some (snd (identity ! k))"
      using dist that by (metis map_of_eq_Some_iff nth_mem prod.collapse)
    ultimately show ?thesis using layer_view_Inr [OF _ _ ids] by fastforce
  qed
  have len: "length views = length identity" using traverse_length [OF t] by simp
  have keys: "map (\<lambda>v. view_key (PDict v)) views = map snd identity"
    using each len by (simp add: list_eq_iff_nth_eq)
  have "map (\<lambda>v. snd (view_key (PDict v))) views = map snd (map (\<lambda>v. view_key (PDict v)) views)" by simp
  then have nums: "map (\<lambda>v. snd (view_key (PDict v))) views = map int [0..<length (concat groups)]"
    unfolding keys using idx by (simp add: comp_def case_prod_unfold)
  have "distinct (map (\<lambda>v. snd (view_key (PDict v))) views)"
    unfolding nums by (simp add: distinct_map)
  then have "distinct (map (\<lambda>v. view_key (PDict v)) views)" by (auto simp: distinct_map inj_on_def)
  with each len nums show ?thesis by (auto simp: list_all_length)
qed

subsection \<open>Concrete runs\<close>

definition sample_config :: pyval where
  "sample_config = PObj ''KVCacheConfig'' [(''num_blocks'', PInt 8),
     (''kv_cache_tensors'', PList
        [PObj ''KVCacheTensor'' [(''size'', PInt 256)], PObj ''KVCacheTensor'' [(''size'', PInt 256)]])]"

definition cuda_pool :: "int \<Rightarrow> pydict" where
  "cuda_pool device =
     [(''capacity_pool_id'', PStr ''vllm.pool.0''), (''allocation_mode'', PStr ''participant_managed''),
      (''memory_domain'', PDict [(''kind'', PStr ''cuda''), (''device_id'', PInt device)]),
      (''transport'', PDict [(''kind'', PStr ''cuda_vmm'')]),
      (''block_count'', PInt 8), (''bytes_per_block'', PInt 32),
      (''elastic'', PDict [(''maximum_block_count'', PInt 8), (''minimum_block_count'', PInt 2),
         (''mapped_block_count'', PInt 4)])]"

definition sample_receipt_pools :: pydict where
  "sample_receipt_pools = [(''shared_pools'', PList [PDict (cuda_pool 0), PDict (cuda_pool 1)])]"

theorem select_cuda_binding_sound_witness:
  "select_cuda_binding sample_receipt_pools sample_config (Some [(RankStr ''5'', PInt 1)]) (Inr 5) True =
     Inr (cuda_pool 1) \<and>
   only_choice [cuda_pool 0, cuda_pool 1] (Some [(RankStr ''5'', PInt 1)]) (Inr 5) (cuda_pool 1)"
proof -
  have run: "select_cuda_binding sample_receipt_pools sample_config (Some [(RankStr ''5'', PInt 1)]) (Inr 5) True =
      Inr (cuda_pool 1)" by code_simp
  have p: "d_get sample_receipt_pools ''shared_pools'' = PList [PDict (cuda_pool 0), PDict (cuda_pool 1)]"
    by code_simp
  have c: "map as_dict (filter (cuda_candidate True) [PDict (cuda_pool 0), PDict (cuda_pool 1)]) =
      [cuda_pool 0, cuda_pool 1]" by code_simp
  from select_cuda_binding_sound [OF run] obtain pools where
    q: "d_get sample_receipt_pools ''shared_pools'' = PList pools"
      "only_choice (map as_dict (filter (cuda_candidate True) pools)) (Some [(RankStr ''5'', PInt 1)]) (Inr 5)
         (cuda_pool 1)" by blast
  have "pools = [PDict (cuda_pool 0), PDict (cuda_pool 1)]" using q(1) unfolding p by simp
  with q(2) c run show ?thesis by simp
qed

definition sample_tensor :: "int \<Rightarrow> tensor" where
  "sample_tensor ptr =
     \<lparr>t_shape = [2, 4], t_strides = [8, 1], t_element_size = 2, t_data_ptr = ptr, t_storage_ptr = 4096\<rparr>"

theorem tensor_span_exact_witness:
  "tensor_span_bytes (sample_tensor 4096) = Inr 24 \<and> element_offset [1, 3] [8, 1] * 2 + 2 \<le> 24"
proof -
  have run: "tensor_span_bytes (sample_tensor 4096) = Inr 24" by code_simp
  have "valid_index [1, 3] (t_shape (sample_tensor 4096))" by code_simp
  with tensor_span_exact [OF run] run show ?thesis by (simp add: sample_tensor_def)
qed

definition sample_layers :: "(string \<times> tensor) list" where
  "sample_layers = [(''y'', sample_tensor 4128), (''x'', sample_tensor 4096), (''z'', sample_tensor 4160)]"

theorem attachment_views_accepted_witness:
  "\<exists>views. attachment_views True (Some (4096, 256)) 256
      [(''x'', (''vllm.group.0'', 0)), (''y'', (''vllm.group.0'', 1)), (''z'', (''vllm.group.1'', 2))]
      sample_layers = Inr views \<and> length views = 3 \<and>
    list_all (\<lambda>v. view_ok 256 (PDict v)) views"
proof -
  let ?id = "[(''x'', (''vllm.group.0'', 0)), (''y'', (''vllm.group.0'', 1)), (''z'', (''vllm.group.1'', 2))]"
  have i: "layer_identities [[''x'', ''y''], [''z'']] = Inr ?id" by code_simp
  have b: "\<forall>n \<in> set (concat [[''x'', ''y''], [''z'']]). py_strip n \<noteq> []" by code_simp
  have "\<not> isl (attachment_views True (Some (4096, 256)) 256 ?id sample_layers)" by code_simp
  then obtain views where v: "attachment_views True (Some (4096, 256)) 256 ?id sample_layers = Inr views"
    by (cases "attachment_views True (Some (4096, 256)) 256 ?id sample_layers") auto
  note ok = attachment_views_accepted [OF i b v]
  from ok have "length (map (\<lambda>v. snd (view_key (PDict v))) views) = 3" by simp
  with ok v show ?thesis by auto
qed

end
