(* ===== verification/Worker_Resize.thy ===== *)
theory Worker_Resize
  imports Shared_Pool
begin

text \<open>
  Resize operations on a worker: the contract validator, the hook and the VMM import together.
  An operation that the contract accepts keeps the physical segments of the import a gapless
  prefix of the virtual range, and a replay of the last operation changes nothing.
\<close>

subsection \<open>Tilings that share an end\<close>

lemma tiles_snoc: "tiles s e (xs @ [(off, len)]) \<longleftrightarrow> tiles s off xs \<and> 0 < len \<and> off + len = e"
  by (induction xs arbitrary: s) auto

lemma tiles_member_end: "tiles s e xs \<Longrightarrow> x \<in> set xs \<Longrightarrow> fst x + snd x \<le> e \<and> 0 < snd x"
proof (induction s e xs rule: tiles.induct)
  case (2 s e off len xs)
  then have "s + len \<le> e" by (auto dest: tiles_le)
  with 2 show ?case by auto
qed simp

text \<open>A tiling that ends where another ends and uses only its intervals is a suffix of it.\<close>

lemma tiles_suffix:
  assumes "tiles s e xs" and "tiles m e ys" and "set ys \<subseteq> set xs"
  shows "\<exists>zs. xs = zs @ ys \<and> tiles s m zs"
  using assms
proof (induction ys arbitrary: xs e rule: rev_induct)
  case Nil
  then show ?case by auto
next
  case (snoc y ys)
  obtain off len where y: "y = (off, len)" by (cases y)
  have ys: "tiles m off ys" "0 < len" "off + len = e" using snoc.prems(2) by (auto simp: y tiles_snoc)
  from snoc.prems(3) obtain xs' x where xs: "xs = xs' @ [x]" by (cases xs rule: rev_cases) auto
  obtain off' len' where x: "x = (off', len')" by (cases x)
  have xs': "tiles s off' xs'" "0 < len'" "off' + len' = e" using snoc.prems(1) by (auto simp: xs x tiles_snoc)
  have eq: "x = y"
    using snoc.prems(3) tiles_member_end [OF xs'(1), of y] ys xs' by (auto simp: xs y x)
  have "set ys \<subseteq> set xs'"
  proof
    fix z assume z: "z \<in> set ys"
    then have "fst z + snd z < e" using tiles_member_end [OF ys(1)] ys(2,3) by fastforce
    then have "z \<noteq> x" using xs'(3) by (auto simp: x)
    with z snoc.prems(3) show "z \<in> set xs'" by (auto simp: xs)
  qed
  moreover have "off' = off" using eq by (simp add: x y)
  ultimately obtain zs where "xs' = zs @ ys" "tiles s m zs"
    using snoc.IH [of off xs'] xs'(1) ys(1) by auto
  then show ?case by (auto simp: xs eq)
qed

subsection \<open>Validated operations\<close>

lemma item_PDict: "d_get d k = v \<Longrightarrow> v \<noteq> PNone \<Longrightarrow> item (PDict d) k = Inr v"
  by (auto simp: item_def d_get_def split: option.splits)

lemma int_item_PInt: "d_get d k = PInt i \<Longrightarrow> int_item (PDict d) k = Inr i"
  by (simp add: int_item_def item_PDict)

lemma str_item_PStr: "d_get d k = PStr s \<Longrightarrow> str_item fr (PDict d) k = Inr s"
  by (simp add: str_item_def item_PDict)

lemma seg_data_typed: "seg_typed d \<Longrightarrow> seg_data fr (PDict d) = Inr (seg_id d, seg_interval d)"
  by (auto simp: seg_typed_def seg_data_def int_item_PInt str_item_PStr seg_id_def seg_interval_def)

lemma seg_id_item: "seg_typed d \<Longrightarrow> str_item fr (PDict d) ''segment_id'' = Inr (seg_id d)"
  by (auto simp: seg_typed_def str_item_PStr seg_id_def)

lemma seg_key_typed:
  "seg_typed d \<Longrightarrow> segment_key fr (PDict d) = Inr (seg_id d, fst (seg_interval d), snd (seg_interval d), seg_handle d)"
  by (auto simp: seg_typed_def segment_key_def int_item_PInt str_item_PStr seg_id_def seg_interval_def seg_handle_def)

lemma traverse_typed:
  "list_all seg_typed ds \<Longrightarrow> traverse (segment_key fr) (map PDict ds) =
     Inr (map (\<lambda>d. (seg_id d, fst (seg_interval d), snd (seg_interval d), seg_handle d)) ds)"
  by (induction ds) (simp_all add: seg_key_typed)

lemma traverse_copy_dict: "traverse copy_dict (map PDict ds) = Inr (map PDict ds)"
  by (induction ds) (simp_all add: copy_dict_def)

text \<open>What the worker reads from an accepted operation of a worker stage.\<close>

lemma accepted_plan:
  assumes "validate_resize_operation op = Inr op" and "physical_stage (str_of (d_get op ''stage''))"
  obtains stage keys where "d_get op ''stage'' = PStr stage"
    "resize_plan fr op = Inr (map PDict (segments_of op),
       (op_int op ''resize_generation'', stage,
        op_int op ''target_block_count'' * op_int op ''bytes_per_block'', keys))"
    "stage = ''map_workers'' \<Longrightarrow>
       tail_start op = op_int op ''from_block_count'' * op_int op ''bytes_per_block'' \<and>
       tail_end op = op_int op ''target_block_count'' * op_int op ''bytes_per_block''"
    "stage = ''unmap_workers'' \<Longrightarrow>
       tail_start op = op_int op ''target_block_count'' * op_int op ''bytes_per_block'' \<and>
       tail_end op = op_int op ''from_block_count'' * op_int op ''bytes_per_block''"
proof -
  have "resize_op_ok op" using assms(1) by (simp add: resize_operation_accepted)
  then obtain gen stage fb tb stride g xs where f:
      "d_get op ''resize_generation'' = PInt gen" "d_get op ''stage'' = PStr stage"
      "d_get op ''from_block_count'' = PInt fb" "d_get op ''target_block_count'' = PInt tb"
      "stage_matches stage fb tb" "d_get op ''bytes_per_block'' = PInt stride"
      "d_get_or op ''segments'' (PList []) = PList xs"
      "resize_segments_ok stage g (min fb tb * stride) (max fb tb * stride) xs"
    unfolding resize_op_ok_def by (elim exE conjE)
  then obtain ds where ds: "xs = map PDict ds" "dense_cover g (min fb tb * stride) (max fb tb * stride) ds"
    using assms(2) by (auto simp: resize_segments_ok_def)
  have typed: "list_all seg_typed ds" using ds(2) by (simp add: dense_cover_def)
  have seg: "segments_of op = ds" using segments_of_default f(7) ds(1) by simp
  have plan: "resize_plan fr op = Inr (map PDict ds, gen, stage, tb * stride,
      map (\<lambda>d. (seg_id d, fst (seg_interval d), snd (seg_interval d), seg_handle d)) ds)"
    using f ds(1) typed
    by (simp add: resize_plan_def int_item_PInt py_iter_def traverse_copy_dict traverse_typed)
  have ints: "op_int op ''resize_generation'' = gen" "op_int op ''from_block_count'' = fb"
    "op_int op ''target_block_count'' = tb" "op_int op ''bytes_per_block'' = stride"
    using f by (simp_all add: op_int_def)
  show thesis
  proof (rule that [OF f(2)])
    show "resize_plan fr op = Inr (map PDict (segments_of op),
       (op_int op ''resize_generation'', stage,
        op_int op ''target_block_count'' * op_int op ''bytes_per_block'',
        map (\<lambda>d. (seg_id d, fst (seg_interval d), snd (seg_interval d), seg_handle d)) ds))"
      using plan by (simp add: ints seg)
  qed (use f(5) in \<open>auto simp: stage_matches_def tail_start_def tail_end_def ints split: if_splits\<close>)
qed

subsection \<open>The mapped prefix\<close>

text \<open>
  The state of a worker's pool is consistent: the device holds exactly the table, and the
  segments of the table, in some order, tile the bytes from \<open>0\<close> to \<open>mapped_bytes\<close>.
\<close>

definition entry_interval :: "vmm_entry \<Rightarrow> int \<times> int" where
  "entry_interval x = snd (entry_key x)"

definition prefix_inv :: "hook \<Rightarrow> bool" where
  "prefix_inv s \<longleftrightarrow>
     vmm_inv (hk_import s) \<and>
     (\<exists>ivs. mset ivs = mset (map entry_interval (vmm_segments (hk_import s))) \<and> tiles 0 (hk_mapped_bytes s) ivs)"

lemma prefix_inv_cong:
  "vmm_inv (hk_import t) \<Longrightarrow> vmm_segments (hk_import t) = vmm_segments (hk_import s) \<Longrightarrow>
   hk_mapped_bytes t = hk_mapped_bytes s \<Longrightarrow> prefix_inv s \<Longrightarrow> prefix_inv t"
  by (simp add: prefix_inv_def)

text \<open>The intervals of accepted segments, whatever their order.\<close>

lemma physical_cover:
  assumes "physical_op op"
  shows "list_all seg_typed (segments_of op)" "distinct (map seg_id (segments_of op))"
    "\<exists>ivs. mset ivs = mset (map seg_interval (segments_of op)) \<and> tiles (tail_start op) (tail_end op) ivs"
proof -
  note d = resize_cover.cover [OF assms]
  show "list_all seg_typed (segments_of op)" "distinct (map seg_id (segments_of op))"
    using d by (simp_all add: dense_cover_def)
  from d obtain es where "mset es = mset (segments_of op)" "tiles (tail_start op) (tail_end op) (map seg_interval es)"
    by (auto simp: dense_cover_def)
  then show "\<exists>ivs. mset ivs = mset (map seg_interval (segments_of op)) \<and> tiles (tail_start op) (tail_end op) ivs"
    by (intro exI [of _ "map seg_interval es"]) simp
qed

lemma distinct_segment_ids:
  assumes "list_all seg_typed ds" "distinct (map seg_id ds)"
  shows "distinct (map (\<lambda>g. str_item fr g ''segment_id'') (map PDict ds))"
proof -
  have "map (\<lambda>g. str_item fr g ''segment_id'') (map PDict ds) = map Inr (map seg_id ds)"
    using assms(1) by (simp add: list_all_iff seg_id_item)
  then show ?thesis using assms(2) by (simp only: distinct_map [of Inr]) simp
qed

lemma grow_intervals:
  assumes "list_all seg_typed ds"
    and "mset (map (seg_data fr) (map PDict ds)) = mset (map (\<lambda>x. Inr (entry_key x)) new)"
  shows "mset (map entry_interval new) = mset (map seg_interval ds)"
proof -
  let ?iv = "\<lambda>r :: (string \<times> int \<times> int) result. snd (projr r)"
  have "map (seg_data fr) (map PDict ds) = map (\<lambda>d. Inr (seg_id d, seg_interval d)) ds"
    using assms(1) by (simp add: list_all_iff seg_data_typed)
  then have "mset (map (\<lambda>d. Inr (seg_id d, seg_interval d) :: (string \<times> int \<times> int) result) ds) =
      mset (map (\<lambda>x. Inr (entry_key x)) new)"
    using assms(2) by (simp only:)
  then have "image_mset ?iv (mset (map (\<lambda>d. Inr (seg_id d, seg_interval d)) ds)) =
      image_mset ?iv (mset (map (\<lambda>x. Inr (entry_key x)) new))" by (simp only:)
  then show ?thesis
    by (simp add: image_mset.compositionality comp_def entry_interval_def [abs_def] case_prod_unfold)
qed

lemma shrink_intervals:
  assumes "distinct (map fst table)" and "set gone \<subseteq> set table" and "distinct (map fst gone)"
  shows "mset (map entry_interval table) =
    mset (map entry_interval (filter (\<lambda>y. fst y \<notin> fst ` set gone) table)) + mset (map entry_interval gone)"
proof -
  have dt: "distinct table" "distinct gone" using assms by (auto simp: distinct_map)
  have "{y \<in> set table. fst y \<in> fst ` set gone} = set gone"
    using assms(1,2) by (auto simp: distinct_map inj_on_def image_iff)
  then have "set (filter (\<lambda>y. fst y \<in> fst ` set gone) table) = set gone" by simp
  then have "mset (filter (\<lambda>y. fst y \<in> fst ` set gone) table) = mset gone"
    using dt by (metis distinct_filter set_eq_iff_mset_eq_distinct)
  moreover have "mset table = mset (filter (\<lambda>y. fst y \<notin> fst ` set gone) table) +
      mset (filter (\<lambda>y. fst y \<in> fst ` set gone) table)"
    unfolding mset_filter by (subst add.commute) (rule multiset_partition [of _ "\<lambda>y. fst y \<in> fst ` set gone"])
  ultimately have "mset table = mset (filter (\<lambda>y. fst y \<notin> fst ` set gone) table) + mset gone"
    by (simp only:)
  then have "image_mset entry_interval (mset table) =
      image_mset entry_interval (mset (filter (\<lambda>y. fst y \<notin> fst ` set gone) table) + mset gone)"
    by (simp only:)
  then show ?thesis by (simp only: mset_map image_mset_union)
qed

subsection \<open>Growing and shrinking\<close>

text \<open>
  A raise leaves the mapped size and the device as they were, but for two ways: the driver refused
  an unmap or release call, or the conformance mode found a mapped byte that is not zero, after the
  segments had been mapped and entered.
\<close>

definition grown_unverified :: "hook \<Rightarrow> int \<Rightarrow> bool" where
  "grown_unverified t target \<longleftrightarrow> hk_conformance t \<and> prefix_inv (t\<lparr>hk_mapped_bytes := target\<rparr>)"

lemma buffer_map_cases:
  assumes "prefix_inv s" and ph: "physical_op op"
    and "tail_start op = hk_mapped_bytes s" and "tail_end op = target"
    and "buffer_map_segments fr drv nonzero (map PDict (segments_of op)) handles target s = (t, r)"
  shows "hk_last_resize t = hk_last_resize s \<and>
    (\<exists>evs. cuda_log (hk_import t) = cuda_log (hk_import s) @ evs \<and>
      (case r of
         Inl _ \<Rightarrow> hk_mapped_bytes t = hk_mapped_bytes s \<and>
           (prefix_inv t \<or> grown_unverified t target \<or> list_ex undo_failed evs)
       | Inr _ \<Rightarrow> prefix_inv t \<and> hk_mapped_bytes t = target))"
proof -
  let ?segs = "map PDict (segments_of op)"
  note cover = physical_cover [OF ph]
  have run: "(t, r) = buffer_map_segments fr drv nonzero ?segs handles target s" using assms(5) by simp
  have inv: "vmm_inv (hk_import s)" using assms(1) by (simp add: prefix_inv_def)
  obtain v q where m: "map_segments fr drv ?segs handles (hk_import s) = (v, q)" by fastforce
  note c = map_segments_cases [OF inv m]
  have grown: "prefix_inv (s\<lparr>hk_import := v, hk_mapped_bytes := target\<rparr>)" if "q = Inr ()"
  proof -
    from c that distinct_segment_ids [OF cover(1,2)]
    obtain new where new: "vmm_inv v" "vmm_segments v = vmm_segments (hk_import s) @ new"
      "mset (map (seg_data fr) ?segs) = mset (map (\<lambda>x. Inr (entry_key x)) new)" by auto
    from assms(1) obtain xs where xs: "mset xs = mset (map entry_interval (vmm_segments (hk_import s)))"
      "tiles 0 (hk_mapped_bytes s) xs" by (auto simp: prefix_inv_def)
    from cover(3) obtain ys where ys: "mset ys = mset (map seg_interval (segments_of op))"
      "tiles (hk_mapped_bytes s) target ys" by (auto simp: assms(3,4))
    have "tiles 0 target (xs @ ys)" using tiles_append [OF xs(2) ys(2)] .
    moreover have "mset (xs @ ys) = mset (map entry_interval (vmm_segments v))"
      using xs(1) ys(1) grow_intervals [OF cover(1) new(3)] by (simp add: new(2))
    ultimately show ?thesis using new(1) unfolding prefix_inv_def
      by (intro conjI exI [of _ "xs @ ys"]) simp_all
  qed
  consider (early) e where "t = s" "r = Inl e"
    | (raise) e where "q = Inl e" "r = Inl e" "t = s\<lparr>hk_import := v\<rparr>"
    | (zero) e where "q = Inr ()" "r = Inl e" "hk_conformance s" "t = s\<lparr>hk_import := v\<rparr>"
    | (ok) "q = Inr ()" "r = Inr ()" "t = s\<lparr>hk_import := v, hk_mapped_bytes := target\<rparr>"
  proof (cases q)
    case (Inl e)
    then show ?thesis using that(1,2) run m
      by (auto simp: buffer_map_segments_def eff_simps bind_def synchronize_def on_import_def gets_def
          split: if_splits)
  next
    case (Inr u)
    then show ?thesis using that(1,3,4) run m
      by (auto simp: buffer_map_segments_def eff_simps bind_def synchronize_def on_import_def gets_def
          split: if_splits sum.splits)
  qed
  then show ?thesis
  proof cases
    case early
    then show ?thesis using assms(1) by (intro conjI exI [of _ "[]"]) simp_all
  next
    case raise
    from c raise(1) obtain evs where evs: "cuda_log v = cuda_log (hk_import s) @ evs"
      "vmm_segments v = vmm_segments (hk_import s)" "vmm_inv v \<or> list_ex undo_failed evs" by auto
    have "prefix_inv t \<or> list_ex undo_failed evs"
      using evs(2,3) assms(1) prefix_inv_cong [of t s] raise(3) by auto
    then show ?thesis using raise evs(1) by (intro conjI exI [of _ evs]) auto
  next
    case zero
    then have "grown_unverified t target" using grown by (simp add: grown_unverified_def)
    then show ?thesis using zero c by auto
  next
    case ok
    then show ?thesis using grown c by auto
  qed
qed

lemma buffer_unmap_cases:
  assumes "prefix_inv s" and ph: "physical_op op"
    and "tail_end op = hk_mapped_bytes s" and "tail_start op = target"
    and "buffer_unmap_segments fr drv (map PDict (segments_of op)) target s = (t, r)"
  shows "hk_last_resize t = hk_last_resize s \<and>
    (\<exists>evs. cuda_log (hk_import t) = cuda_log (hk_import s) @ evs \<and>
      (case r of
         Inl _ \<Rightarrow> hk_mapped_bytes t = hk_mapped_bytes s \<and> (prefix_inv t \<or> list_ex undo_failed evs)
       | Inr _ \<Rightarrow> prefix_inv t \<and> hk_mapped_bytes t = target))"
proof -
  let ?segs = "map PDict (segments_of op)" and ?table = "vmm_segments (hk_import s)"
  note cover = physical_cover [OF ph]
  have inv: "vmm_inv (hk_import s)" using assms(1) by (simp add: prefix_inv_def)
  have run: "(t, r) = buffer_unmap_segments fr drv ?segs target s" using assms(5) by simp
  obtain v q where m: "unmap_segments fr drv ?segs (hk_import s) = (v, q)" by fastforce
  obtain evs where evs: "cuda_log v = cuda_log (hk_import s) @ evs"
    and u: "case q of
       Inl _ \<Rightarrow> v = hk_import s \<or> list_ex undo_failed evs
     | Inr _ \<Rightarrow> vmm_inv v \<and>
         (\<exists>gone. set gone \<subseteq> set ?table \<and> distinct (map fst gone) \<and>
            map (seg_data fr) ?segs = map (\<lambda>x. Inr (entry_key x)) gone \<and>
            vmm_segments v = filter (\<lambda>y. fst y \<notin> fst ` set gone) ?table)"
    using unmap_segments_cases [OF inv distinct_segment_ids [OF cover(1,2)] m] by blast
  consider (early) e where "t = s" "r = Inl e"
    | (raise) e where "q = Inl e" "r = Inl e" "t = s\<lparr>hk_import := v\<rparr>"
    | (ok) "q = Inr ()" "r = Inr ()" "t = s\<lparr>hk_import := v, hk_mapped_bytes := target\<rparr>"
    using that run m
    by (cases q) (auto simp: buffer_unmap_segments_def eff_simps bind_def synchronize_def on_import_def gets_def
          split: if_splits)
  then show ?thesis
  proof cases
    case early
    then show ?thesis using assms(1) by (intro conjI exI [of _ "[]"]) simp_all
  next
    case raise
    then have "prefix_inv t \<or> list_ex undo_failed evs" using u assms(1) by auto
    then show ?thesis using raise evs by (intro conjI exI [of _ evs]) auto
  next
    case ok
    from u ok(1) obtain gone where gone: "set gone \<subseteq> set ?table" "distinct (map fst gone)"
      "map (seg_data fr) ?segs = map (\<lambda>x. Inr (entry_key x)) gone"
      "vmm_segments v = filter (\<lambda>y. fst y \<notin> fst ` set gone) ?table" "vmm_inv v" by auto
    have ivs: "mset (map entry_interval gone) = mset (map seg_interval (segments_of op))"
      by (rule grow_intervals [OF cover(1), of fr]) (simp only: gone(3))
    from assms(1) obtain xs where xs: "mset xs = mset (map entry_interval ?table)"
      "tiles 0 (hk_mapped_bytes s) xs" by (auto simp: prefix_inv_def)
    from cover(3) obtain ys where ys: "mset ys = mset (map seg_interval (segments_of op))"
      "tiles target (hk_mapped_bytes s) ys" by (auto simp: assms(3,4))
    have "set ys \<subseteq> set xs"
    proof -
      have "set ys = set (map entry_interval gone)" using ys(1) ivs mset_eq_setD by metis
      also have "\<dots> \<subseteq> set (map entry_interval ?table)" using gone(1) by auto
      finally show ?thesis using xs(1) mset_eq_setD by blast
    qed
    then obtain zs where zs: "xs = zs @ ys" "tiles 0 target zs" using tiles_suffix [OF xs(2) ys(2)] by blast
    have "distinct (map fst ?table)" using inv by (simp add: vmm_inv_def)
    then have "mset zs = mset (map entry_interval (vmm_segments v))"
      using shrink_intervals [OF _ gone(1,2)] xs(1) ys(1) ivs by (simp add: zs(1) gone(4))
    then have "prefix_inv t" using gone(5) ok(3) zs(2) by (auto simp: prefix_inv_def)
    then show ?thesis using ok evs by (intro conjI exI [of _ evs]) auto
  qed
qed

lemma prefix_inv_last_resize [simp]: "prefix_inv (s\<lparr>hk_last_resize := k\<rparr>) \<longleftrightarrow> prefix_inv s"
  by (simp add: prefix_inv_def)

lemma worker_action_cases:
  assumes "prefix_inv s" and ph: "physical_op op" and stages: "stage = ''map_workers'' \<or> stage = ''unmap_workers''"
    and grow: "stage = ''map_workers'' \<Longrightarrow> tail_start op = hk_mapped_bytes s \<and> tail_end op = target"
    and shrink: "stage = ''unmap_workers'' \<Longrightarrow> tail_start op = target \<and> tail_end op = hk_mapped_bytes s"
    and run: "worker_resize_action fr drv nonzero stage (map PDict (segments_of op)) handles target s = (t, r)"
  shows "hk_last_resize t = hk_last_resize s \<and>
    (\<exists>evs. cuda_log (hk_import t) = cuda_log (hk_import s) @ evs \<and>
      (case r of
         Inl _ \<Rightarrow> hk_mapped_bytes t = hk_mapped_bytes s \<and>
           (prefix_inv t \<or> grown_unverified t target \<or> list_ex undo_failed evs)
       | Inr _ \<Rightarrow> prefix_inv t \<and> hk_mapped_bytes t = target))"
proof (cases "stage = ''map_workers''")
  case True
  then show ?thesis using run buffer_map_cases [OF assms(1) ph] grow by (simp add: worker_resize_action_def)
next
  case False
  then have st: "stage = ''unmap_workers''" using stages by blast
  show ?thesis
  proof (cases "handles = []")
    case True
    then have "buffer_unmap_segments fr drv (map PDict (segments_of op)) target s = (t, r)"
      using run st by (simp add: worker_resize_action_def)
    from buffer_unmap_cases [OF assms(1) ph _ _ this] shrink st show ?thesis by (cases r) auto
  next
    case False
    then have "t = s" "isl r" using run st by (auto simp: worker_resize_action_def lift_def)
    then show ?thesis using assms(1) by (cases r) (auto intro!: exI [of _ "[]"])
  qed
qed


subsection \<open>Replays\<close>

text \<open>The outcome of a call that does not raise leaves the key of its operation behind.\<close>

lemma keeps_identity:
  assumes "\<And>s v. P (s\<lparr>hk_import := v\<rparr>) = P s" "\<And>s n. P (s\<lparr>hk_mapped_bytes := n\<rparr>) = P s"
  shows "keeps P (worker_resize_action fr drv nonzero stage segs handles n)"
proof -
  have "keeps P (on_import m)" for m
    using assms(1) by (simp add: keeps_def on_import_def split: prod.splits)
  moreover have "keeps P synchronize" by (simp add: keeps_def synchronize_def)
  ultimately show ?thesis
    unfolding worker_resize_action_def buffer_map_segments_def buffer_unmap_segments_def
    by (intro keeps_intros keeps_modify) (simp_all add: assms(2))
qed

lemma apply_worker_resize_Inr:
  assumes "apply_worker_resize fr drv nonzero op handles s = (t, Inr u)"
  obtains segs key where "\<not> hk_fixed t" "py_str fr (d_get op ''binding_id'') = hk_binding_id t"
    "resize_plan fr op = Inr (segs, key)" "hk_last_resize t = Some key"
proof -
  let ?P = "\<lambda>s'. hk_fixed s' = hk_fixed s \<and> hk_binding_id s' = hk_binding_id s"
  have pre: "\<not> hk_fixed s" "py_str fr (d_get op ''binding_id'') = hk_binding_id s"
    using assms by (auto simp: apply_worker_resize_def bind_def gets_def lift_def split: if_splits)
  obtain segs g st n ks where plan: "resize_plan fr op = Inr (segs, g, st, n, ks)"
    using assms by (cases "resize_plan fr op") (auto simp: apply_worker_resize_def bind_def gets_def lift_def split: if_splits)
  have "?P t \<and> hk_last_resize t = Some (g, st, n, ks)"
  proof (cases "hk_last_resize s = Some (g, st, n, ks)")
    case True
    then have "t = s" using assms pre plan
      by (simp add: apply_worker_resize_def bind_def gets_def lift_def ret_def)
    then show ?thesis using True by simp
  next
    case False
    obtain s1 r1 where a: "worker_resize_action fr drv nonzero st segs handles n s = (s1, r1)" by fastforce
    have "?P s1" using keepsD [OF keeps_identity [of ?P] _ a] by simp
    moreover have "t = s1\<lparr>hk_last_resize := Some (g, st, n, ks)\<rparr>"
      using assms pre plan False a
      by (cases r1) (auto simp: apply_worker_resize_def bind_def gets_def lift_def modify_def split: if_splits)
    ultimately show ?thesis by simp
  qed
  then show thesis using that pre plan by simp
qed

text \<open>
  C29. Replays are harmless and generations only grow: after an operation was applied, the same
  operation, with whatever handles, returns without any change; any other operation of the same
  or an earlier generation raises without any change.
\<close>

theorem worker_resize_replay:
  assumes "apply_worker_resize fr drv nonzero op handles s = (t, Inr ())"
  shows "(\<forall>handles'. apply_worker_resize fr drv nonzero op handles' t = (t, Inr ())) \<and>
    (\<forall>op' handles' segs' key' segs key. resize_plan fr op = Inr (segs, key) \<and>
       resize_plan fr op' = Inr (segs', key') \<and> key' \<noteq> key \<and> fst key' \<le> fst key \<longrightarrow>
       fst (apply_worker_resize fr drv nonzero op' handles' t) = t \<and>
       isl (snd (apply_worker_resize fr drv nonzero op' handles' t)))"
proof -
  obtain segs key where k: "\<not> hk_fixed t" "py_str fr (d_get op ''binding_id'') = hk_binding_id t"
    "resize_plan fr op = Inr (segs, key)" "hk_last_resize t = Some key"
    by (rule apply_worker_resize_Inr [OF assms])
  obtain g st n ks where key: "key = (g, st, n, ks)" by (cases key)
  have "apply_worker_resize fr drv nonzero op handles' t = (t, Inr ())" for handles'
    using k by (simp add: apply_worker_resize_def bind_def gets_def lift_def ret_def key)
  moreover have "fst (apply_worker_resize fr drv nonzero op' handles' t) = t \<and>
      isl (snd (apply_worker_resize fr drv nonzero op' handles' t))"
    if "resize_plan fr op' = Inr (segs', key')" "key' \<noteq> key" "fst key' \<le> fst key" for op' handles' segs' key'
    using that k(1,4)
    by (cases key') (auto simp: apply_worker_resize_def bind_def gets_def lift_def key)
  ultimately show ?thesis using k(3) by simp
qed

subsection \<open>The first mapping\<close>

lemma new_vmm_import_Inr:
  assumes "new_vmm_import drv evs n g dev = (v, Inr u)" and "device_view evs = ({#}, {#})"
  shows "vmm_inv v \<and> vmm_segments v = []"
  using assms
  by (auto simp: new_vmm_import_def bind_def modify_def drv_reserve_def cuda_checked_eq vmm_inv_def holds_def
      logged_def lift_def ret_def split: prod.splits sum.splits if_splits)

lemma fill_buffer_Inr:
  assumes "fill_buffer fr drv dlpack el handles v = (t, Inr segs)"
  shows "and_then (item (PDict el) ''segments'') py_iter = Inr segs \<and> map_segments fr drv segs handles v = (t, Inr ())"
proof -
  obtain xs where xs: "and_then (item (PDict el) ''segments'') py_iter = Inr xs"
    using assms by (cases "and_then (item (PDict el) ''segments'') py_iter")
      (auto simp: fill_buffer_def try_except_def bind_def lift_def split: prod.splits sum.splits)
  obtain s1 r1 where m: "map_segments fr drv xs handles v = (s1, r1)" by fastforce
  show ?thesis using assms xs m
    by (cases r1; cases dlpack)
      (auto simp: fill_buffer_def try_except_def bind_def lift_def ret_def split: prod.splits sum.splits)
qed

text \<open>
  The pool of a worker starts as a gapless prefix: if the elastic metadata of a binding passes
  the contract and the buffer is constructed, the device holds exactly the table, and the segments
  tile the bytes below the mapped size, which is \<open>mapped_block_count\<close> blocks.
\<close>

theorem vmm_buffer_starts_as_prefix:
  assumes "device_view evs = ({#}, {#})"
    and "d_get binding ''elastic'' = PDict el" and "d_get binding ''block_count'' = PInt bc"
    and "d_get binding ''bytes_per_block'' = PInt bpb" and "validate_elastic_pool el bc bpb = Inr ()"
    and "new_vmm_buffer fr drv nonzero avail dev dlpack conf binding handles evs = (v, Inr (virtual, mapped))"
  shows "virtual = bc * bpb \<and> mapped = int_of (d_get el ''mapped_block_count'') * bpb \<and>
    prefix_inv \<lparr>hk_import = v, hk_mapped_bytes = mapped, hk_virtual_bytes = virtual, hk_conformance = conf,
      hk_fixed = False, hk_released = False, hk_binding_id = b, hk_last_resize = None\<rparr>"
proof -
  from assms(5) have "elastic_pool_ok el bc bpb" by (simp add: validate_elastic_pool_iff)
  then obtain mp g ds where f: "d_get el ''mapped_block_count'' = PInt mp"
    "d_get el ''allocation_granularity_bytes'' = PInt g" "d_get el ''segments'' = PList (map PDict ds)"
    "dense_cover g 0 (mp * bpb) ds"
    unfolding elastic_pool_ok_def by (elim exE conjE)
  have sizes: "buffer_sizes binding = Inr (el, bc * bpb, mp * bpb, g)"
    using assms(2-4) f by (simp add: buffer_sizes_def int_item_PInt)
  obtain v0 where imp: "new_vmm_import drv evs (bc * bpb) g dev = (v0, Inr ())"
    using assms(6) by (auto simp: new_vmm_buffer_def sizes split: if_splits prod.splits sum.splits)
  then obtain t segs where fill: "fill_buffer fr drv dlpack el handles v0 = (t, Inr segs)"
    and out: "v = t" "virtual = bc * bpb" "mapped = mp * bpb"
    using assms(6)
    by (auto simp: new_vmm_buffer_def sizes bind_Inr_iff lift_def ret_def split: if_splits)
  have segs: "segs = map PDict ds" "map_segments fr drv segs handles v0 = (v, Inr ())"
    using fill_buffer_Inr [OF fill] out(1) f(3) by (simp_all add: item_PDict py_iter_def)
  have typed: "list_all seg_typed ds" "distinct (map seg_id ds)" using f(4) by (simp_all add: dense_cover_def)
  note v0 = new_vmm_import_Inr [OF imp assms(1)]
  from map_segments_cases [OF conjunct1 [OF v0] segs(2)] distinct_segment_ids [OF typed] segs(1) v0
  obtain new where new: "vmm_inv v" "vmm_segments v = new"
    "mset (map (seg_data fr) (map PDict ds)) = mset (map (\<lambda>x. Inr (entry_key x)) new)" by auto
  from f(4) obtain es where es: "mset es = mset ds" "tiles 0 (mp * bpb) (map seg_interval es)"
    by (auto simp: dense_cover_def)
  have "mset (map seg_interval es) = mset (map entry_interval (vmm_segments v))"
    using grow_intervals [OF typed(1) new(3)] es(1) by (simp add: new(2))
  then show ?thesis using es(2) new(1) out f(1)
    by (auto simp: prefix_inv_def intro!: exI [of _ "map seg_interval es"])
qed

subsection \<open>Concrete runs\<close>

definition sample_elastic :: pydict where
  "sample_elastic =
     [(''minimum_block_count'', PInt 2), (''mapped_block_count'', PInt 4), (''maximum_block_count'', PInt 8),
      (''allocation_granularity_bytes'', PInt 64), (''resize_alignment_blocks'', PInt 2),
      (''segments'', PList sample_batch)]"

definition sample_binding :: pydict where
  "sample_binding =
     [(''block_count'', PInt 8), (''bytes_per_block'', PInt 32), (''elastic'', PDict sample_elastic)]"

definition no_nonzero :: "int \<Rightarrow> int \<Rightarrow> int" where
  "no_nonzero start len = 0"

definition sample_hook :: "vmm \<Rightarrow> hook" where
  "sample_hook v =
     \<lparr>hk_import = v, hk_mapped_bytes = 128, hk_virtual_bytes = 256, hk_conformance = True,
      hk_fixed = False, hk_released = False, hk_binding_id = ''b'', hk_last_resize = None\<rparr>"

definition sample_start :: "vmm \<times> (int \<times> int) result" where
  "sample_start = new_vmm_buffer no_float (sample_driver 0) no_nonzero True 0 (Inr ()) True sample_binding [3, 4] []"

theorem vmm_buffer_starts_as_prefix_witness:
  "snd sample_start = Inr (256, 128) \<and> prefix_inv (sample_hook (fst sample_start))"
proof -
  have r: "snd sample_start = Inr (256, 128)" by code_simp
  then have run: "new_vmm_buffer no_float (sample_driver 0) no_nonzero True 0 (Inr ()) True sample_binding [3, 4] [] =
      (fst sample_start, Inr (256, 128))"
    by (metis prod.collapse sample_start_def)
  have b: "d_get sample_binding ''elastic'' = PDict sample_elastic" "d_get sample_binding ''block_count'' = PInt 8"
    "d_get sample_binding ''bytes_per_block'' = PInt 32" by code_simp+
  have v: "validate_elastic_pool sample_elastic 8 32 = Inr ()" by code_simp
  from vmm_buffer_starts_as_prefix [OF device_view_Nil b v run, of "''b''"] r
  show ?thesis by (simp add: sample_hook_def)
qed

lemma sample_prefix: "prefix_inv (sample_hook (sample_vmm sample_entries sample_events))"
proof -
  have "mset [(0, 64), (64, 64)] = mset (map entry_interval sample_entries) \<and> tiles 0 128 [(0, 64), (64, 64)]"
    by code_simp
  then show ?thesis
    using sample_loaded_inv unfolding prefix_inv_def sample_hook_def
    by (intro conjI exI [of _ "[(0, 64), (64, 64)]"]) (simp_all add: sample_vmm_def)
qed

definition sample_grow :: "hook \<times> unit result" where
  "sample_grow = apply_worker_resize no_float (sample_driver 0) no_nonzero sample_resize [5, 6]
     (sample_hook (sample_vmm sample_entries sample_events))"

lemma sample_grow_runs:
  "snd sample_grow = Inr ()" "hk_mapped_bytes (fst sample_grow) = 256"
  "map entry_interval (vmm_segments (hk_import (fst sample_grow))) = [(0, 64), (64, 64), (128, 64), (192, 64)]"
  by code_simp+


text \<open>
  In conformance mode a growth whose bytes are not zero raises with its segments mapped and entered
  but not counted, and a second attempt is refused, since the identifiers are in the table.
\<close>

definition sample_dirty :: "hook \<times> unit result" where
  "sample_dirty = apply_worker_resize no_float (sample_driver 0) (\<lambda>_ _. 1) sample_resize [5, 6]
     (sample_hook (sample_vmm sample_entries sample_events))"

lemma dirty_growth_uncounted:
  "isl (snd sample_dirty)" "hk_mapped_bytes (fst sample_dirty) = 128"
  "map entry_interval (vmm_segments (hk_import (fst sample_dirty))) = [(0, 64), (64, 64), (128, 64), (192, 64)]"
  "isl (snd (apply_worker_resize no_float (sample_driver 0) no_nonzero sample_resize [5, 6] (fst sample_dirty)))"
  by code_simp+

definition older_resize :: pydict where
  "older_resize = d_set sample_resize ''resize_generation'' (PInt 2)"

theorem worker_resize_replay_witness:
  "apply_worker_resize no_float (sample_driver 0) no_nonzero sample_resize [] (fst sample_grow) =
     (fst sample_grow, Inr ()) \<and>
   isl (snd (apply_worker_resize no_float (sample_driver 0) no_nonzero older_resize [5, 6] (fst sample_grow)))"
proof -
  have run: "apply_worker_resize no_float (sample_driver 0) no_nonzero sample_resize [5, 6]
      (sample_hook (sample_vmm sample_entries sample_events)) = (fst sample_grow, Inr ())"
    using sample_grow_runs(1) by (metis prod.collapse sample_grow_def)
  obtain segs key segs' key' where p: "resize_plan no_float sample_resize = Inr (segs, key)"
    "resize_plan no_float older_resize = Inr (segs', key')" "fst key = 3" "fst key' = 2"
  proof -
    have "\<not> isl (resize_plan no_float sample_resize) \<and> \<not> isl (resize_plan no_float older_resize) \<and>
        fst (snd (projr (resize_plan no_float sample_resize))) = 3 \<and>
        fst (snd (projr (resize_plan no_float older_resize))) = 2" by code_simp
    then show thesis using that
      by (cases "resize_plan no_float sample_resize"; cases "resize_plan no_float older_resize") auto
  qed
  then have "key' \<noteq> key" "fst key' \<le> fst key" by auto
  with worker_resize_replay [OF run] p show ?thesis by blast
qed

end
