(* ===== verification/Vllm_Patches.thy ===== *)
theory Vllm_Patches
  imports Shared_Pool
begin

text \<open>
  The part of \<open>VllmSharedPoolHook\<close> in \<open>shared_pool.py\<close> that replaces functions of vLLM: the
  allocation hook, the cap on the start-up warm-up, the replacement allocator, and \<open>shutdown\<close>.

  The loaded modules are a store of attributes. Importing a module is the parameter \<open>pe_import\<close>,
  which may load any number of modules and fails with \<open>ImportError\<close> as \<open>None\<close>; the parameter
  names of a function are \<open>pe_params\<close>. A function is known by its identity, so \<open>is\<close> compares
  identities. \<open>pt_replacement\<close> is the bound method the hook installs and \<open>pt_capped\<close> the
  closure it creates for the warm-up.
\<close>

subsection \<open>Modules and patches\<close>

type_synonym modules = "string \<Rightarrow> string \<Rightarrow> pyval option"

record patch_env =
  pe_import :: "string \<Rightarrow> modules \<Rightarrow> modules option"
  pe_params :: "nat \<Rightarrow> string list result"

record patcher =
  pt_modules :: modules
  pt_patches :: "(string \<times> pyval) list"
  pt_warmup_patches :: "(string \<times> pyval) list"
  pt_replacement :: nat
  pt_capped :: nat
  pt_warmup_replacement :: "nat option"
  pt_worker_utils :: bool
  pt_startup_mapped :: "int option"
  pt_maximum_blocks :: int
  pt_buffer_open :: bool

definition worker_utils_name :: string where
  "worker_utils_name = ''vllm.v1.worker.utils''"

definition MODULES :: "string list" where
  "MODULES = [worker_utils_name, ''vllm.v1.worker.gpu_model_runner'', ''vllm.v1.worker.gpu.attn_utils'']"

definition WARMUP_MODULES :: "string list" where
  "WARMUP_MODULES = [''vllm.v1.worker.gpu.warmup'', ''vllm.v1.worker.gpu_worker'']"

definition alloc_attr :: string where
  "alloc_attr = ''allocate_kv_cache''"

definition warmup_attr :: string where
  "warmup_attr = ''warmup_kernels''"

definition import_module :: "patch_env \<Rightarrow> string \<Rightarrow> (patcher, bool) eff" where
  "import_module env name s =
     (case pe_import env name (pt_modules s) of
        None \<Rightarrow> (s, Inr False)
      | Some M \<Rightarrow> (s\<lparr>pt_modules := M\<rparr>, Inr True))"

definition set_attribute :: "string \<Rightarrow> string \<Rightarrow> pyval \<Rightarrow> modules \<Rightarrow> modules" where
  "set_attribute m a v M = M(m := (M m)(a := Some v))"

definition names_text :: "string list \<Rightarrow> string" where
  "names_text names = repr_val (\<lambda>_. []) (PList (map PStr names))"

definition allocator_parameters_ok :: "string list \<Rightarrow> bool" where
  "allocator_parameters_ok parameters \<longleftrightarrow>
     take 3 parameters = [''kv_cache_config'', ''device'', ''layout''] \<and>
     list_all (\<lambda>p. p \<in> set [''kv_cache_config'', ''device'', ''layout'', ''kernel_block_sizes'']) parameters"

text \<open>One iteration of the loop of \<open>_install\<close>; the accumulator is \<open>canonical_allocator\<close>.\<close>

definition patch_module :: "patch_env \<Rightarrow> nat option \<Rightarrow> string \<Rightarrow> (patcher, nat option) eff" where
  "patch_module env canonical name =
     bind (import_module env name) (\<lambda>loaded.
     if \<not> loaded then ret canonical
     else
     bind (gets (\<lambda>s. pt_modules s name alloc_attr)) (\<lambda>allocator.
     case allocator of
       Some (PFun f) \<Rightarrow>
         bind (lift (pe_params env f)) (\<lambda>parameters.
         if \<not> allocator_parameters_ok parameters
         then lift (RaiseP (fmt [''unsupported vLLM allocate_kv_cache signature in '', name, '': '', names_text parameters]))
         else
         let is_utils = (name = worker_utils_name);
             canonical' = (if is_utils then Some f else canonical)
         in bind (modify (\<lambda>s.
              let original = (case canonical' of
                    Some c \<Rightarrow> if f = pt_replacement s then c else f
                  | None \<Rightarrow> f)
              in s\<lparr>pt_worker_utils := (pt_worker_utils s \<or> is_utils),
                   pt_patches := pt_patches s @ [(name, PFun original)],
                   pt_modules := set_attribute name alloc_attr (PFun (pt_replacement s)) (pt_modules s)\<rparr>))
            (\<lambda>_. ret canonical'))
     | _ \<Rightarrow> ret canonical))"

text \<open>The loop of \<open>_install_startup_warmup_cap\<close>, with the modules and the common original.\<close>

definition check_warmup_module ::
  "patch_env \<Rightarrow> string list \<times> nat option \<Rightarrow> string \<Rightarrow> (patcher, string list \<times> nat option) eff" where
  "check_warmup_module env acc name =
     (case acc of (found, original) \<Rightarrow>
     bind (import_module env name) (\<lambda>loaded.
     if \<not> loaded
     then lift (RaiseP (fmt [''this vLLM build has no certified startup warmup module '', name]))
     else
     bind (gets (\<lambda>s. pt_modules s name warmup_attr)) (\<lambda>candidate.
     case candidate of
       Some (PFun f) \<Rightarrow>
         bind (lift (pe_params env f)) (\<lambda>parameters.
         if parameters \<noteq> [''model_runner'', ''worker_execute_model'', ''worker_sample_tokens'']
         then lift (RaiseP (fmt [''unsupported vLLM warmup_kernels signature in '', name, '': '', names_text parameters]))
         else case original of
                None \<Rightarrow> ret (found @ [name], Some f)
              | Some g \<Rightarrow>
                  if f \<noteq> g
                  then lift (RaiseP ''vLLM startup warmup references do not share one pinned function'')
                  else ret (found @ [name], Some g))
     | _ \<Rightarrow> lift (RaiseP (fmt [''this vLLM build has no callable '', name, ''.warmup_kernels''])))))"

definition patch_warmup :: "nat \<Rightarrow> string \<Rightarrow> (patcher, unit) eff" where
  "patch_warmup original name =
     modify (\<lambda>s. s\<lparr>pt_warmup_patches := pt_warmup_patches s @ [(name, PFun original)],
       pt_modules := set_attribute name warmup_attr (PFun (pt_capped s)) (pt_modules s)\<rparr>)"

definition install_startup_warmup_cap :: "patch_env \<Rightarrow> (patcher, unit) eff" where
  "install_startup_warmup_cap env =
     bind (fold_e (check_warmup_module env) ([], None) WARMUP_MODULES) (\<lambda>(found, original).
     case original of
       None \<Rightarrow> lift (RaiseP ''vLLM startup warmup function is unavailable'')
     | Some f \<Rightarrow>
         bind (modify (\<lambda>s. s\<lparr>pt_warmup_replacement := Some (pt_capped s)\<rparr>)) (\<lambda>_.
         for_each (patch_warmup f) found))"

text \<open>\<open>shutdown\<close>: an attribute is restored only where the hook's own function still stands.\<close>

definition restore_attribute :: "string \<Rightarrow> nat option \<Rightarrow> string \<times> pyval \<Rightarrow> modules \<Rightarrow> modules" where
  "restore_attribute a replacement patch M =
     (case patch of (m, original) \<Rightarrow>
        if M m a = map_option PFun replacement then set_attribute m a original M else M)"

definition release_buffer :: "(patcher, unit) eff" where
  "release_buffer = modify (\<lambda>s. s\<lparr>pt_buffer_open := False\<rparr>)"

definition hook_shutdown :: "(patcher, unit) eff" where
  "hook_shutdown =
     bind (modify (\<lambda>s. s\<lparr>pt_modules := fold (restore_attribute warmup_attr (pt_warmup_replacement s))
                           (rev (pt_warmup_patches s)) (pt_modules s),
                         pt_warmup_patches := []\<rparr>)) (\<lambda>_.
     bind (modify (\<lambda>s. s\<lparr>pt_modules := fold (restore_attribute alloc_attr (Some (pt_replacement s)))
                           (rev (pt_patches s)) (pt_modules s),
                         pt_patches := []\<rparr>)) (\<lambda>_.
     release_buffer))"

definition install :: "patch_env \<Rightarrow> (patcher, unit) eff" where
  "install env =
     bind (fold_e (patch_module env) None MODULES) (\<lambda>_.
     bind (gets id) (\<lambda>s.
     if \<not> pt_worker_utils s \<or> pt_patches s = []
     then bind hook_shutdown (\<lambda>_. lift (RaiseP ''this vLLM build has no supported packed KV allocation hook''))
     else if (case pt_startup_mapped s of None \<Rightarrow> False | Some n \<Rightarrow> n < pt_maximum_blocks s)
     then install_startup_warmup_cap env
     else ret ()))"

text \<open>The end of the constructor: install, and restore everything when that fails.\<close>

definition install_or_restore :: "patch_env \<Rightarrow> (patcher, unit) eff" where
  "install_or_restore env =
     try_except (install env) (\<lambda>e. bind hook_shutdown (\<lambda>_. lift (Inl e)))"

subsection \<open>Restoring\<close>

text \<open>
  \<open>patched_ok M0 a R ps M\<close>: relative to the modules \<open>M0\<close> before the hook, attribute \<open>a\<close> is
  the hook's function exactly in the modules recorded in \<open>ps\<close>, each recorded with what it held.
\<close>

definition patched_ok :: "modules \<Rightarrow> string \<Rightarrow> nat \<Rightarrow> (string \<times> pyval) list \<Rightarrow> modules \<Rightarrow> bool" where
  "patched_ok M0 a R ps M \<longleftrightarrow>
     distinct (map fst ps) \<and>
     (\<forall>(m, v) \<in> set ps. M m a = Some (PFun R) \<and> v \<noteq> PFun R \<and> (M0 m a = None \<or> M0 m a = Some v)) \<and>
     (\<forall>m. m \<notin> fst ` set ps \<longrightarrow> M0 m a \<noteq> None \<longrightarrow> M m a = M0 m a)"

lemma restore_attribute_own:
  "M m a = Some (PFun R) \<Longrightarrow> restore_attribute a (Some R) (m, v) M = M(m := (M m)(a := Some v))"
  by (simp add: restore_attribute_def set_attribute_def)

lemma foldr_restore:
  assumes "distinct (map fst ps)" and "\<forall>(m, v) \<in> set ps. M m a = Some (PFun R)"
  shows "foldr (restore_attribute a (Some R)) ps M =
    (\<lambda>m b. if b = a \<and> m \<in> fst ` set ps then map_of ps m else M m b)"
  using assms
proof (induction ps)
  case (Cons p ps)
  obtain m v where p: "p = (m, v)" by (cases p)
  have "foldr (restore_attribute a (Some R)) ps M =
      (\<lambda>m b. if b = a \<and> m \<in> fst ` set ps then map_of ps m else M m b)"
    using Cons by simp
  moreover from this have "m \<notin> fst ` set ps" "M m a = Some (PFun R)" using Cons.prems p by auto
  ultimately show ?case by (auto simp: p restore_attribute_own fun_eq_iff)
qed simp

lemma restore_patched:
  assumes "patched_ok M0 a R ps M"
  defines "M' \<equiv> fold (restore_attribute a (Some R)) (rev ps) M"
  shows "\<And>m v. M0 m a = Some v \<Longrightarrow> M' m a = Some v"
    and "\<And>m v. (m, v) \<in> set ps \<Longrightarrow> M' m a = Some v"
    and "\<And>m b. b \<noteq> a \<Longrightarrow> M' m b = M m b"
proof -
  have M': "M' = (\<lambda>m b. if b = a \<and> m \<in> fst ` set ps then map_of ps m else M m b)"
    unfolding M'_def foldr_conv_fold [symmetric]
    using assms(1) by (intro foldr_restore) (auto simp: patched_ok_def)
  have d: "distinct (map fst ps)" using assms(1) by (simp add: patched_ok_def)
  show mem: "M' m a = Some v" if "(m, v) \<in> set ps" for m v
    using that d unfolding M' by (force simp: map_of_eq_Some_iff)
  show "M' m a = Some v" if "M0 m a = Some v" for m v
  proof (cases "m \<in> fst ` set ps")
    case True
    then obtain w where w: "(m, w) \<in> set ps" by auto
    then have "w = v" using assms(1) that by (auto simp: patched_ok_def)
    then show ?thesis using mem w by simp
  next
    case False
    then show ?thesis using assms(1) that by (simp add: M' patched_ok_def)
  qed
  show "M' m b = M m b" if "b \<noteq> a" for m b using that by (simp add: M')
qed

lemma patched_ok_keep:
  assumes "patched_ok M0 a R ps N" and keep: "\<And>m v. N m a = Some v \<Longrightarrow> M m a = Some v"
  shows "patched_ok M0 a R ps M"
  unfolding patched_ok_def
proof (intro conjI ballI allI impI)
  show "distinct (map fst ps)" using assms(1) by (simp add: patched_ok_def)
  show "case p of (m, v) \<Rightarrow> M m a = Some (PFun R) \<and> v \<noteq> PFun R \<and> (M0 m a = None \<or> M0 m a = Some v)"
    if "p \<in> set ps" for p
    using assms(1) that keep by (cases p) (auto simp: patched_ok_def)
  show "M m a = M0 m a" if "m \<notin> fst ` set ps" "M0 m a \<noteq> None" for m
    using assms(1) that keep [of m] by (auto simp: patched_ok_def)
qed

text \<open>
  What is relied on of an import: it keeps the attributes of loaded modules, and a name it binds
  holds a function of vLLM or what the worker utilities hold under that name.
\<close>

definition import_ok :: "patch_env \<Rightarrow> nat set \<Rightarrow> bool" where
  "import_ok env own \<longleftrightarrow>
     (\<forall>name M M'. pe_import env name M = Some M' \<longrightarrow>
        (\<forall>m a v. M m a = Some v \<longrightarrow> M' m a = Some v) \<and>
        (\<forall>m a v. M m a = None \<longrightarrow> M' m a = Some v \<longrightarrow> v \<notin> PFun ` own \<or> M worker_utils_name a = Some v))"

text \<open>The state of the loop of \<open>_install\<close>; \<open>canonical\<close> is its accumulator.\<close>

definition installing :: "modules \<Rightarrow> nat \<Rightarrow> nat \<Rightarrow> nat option \<Rightarrow> patcher \<Rightarrow> bool" where
  "installing M0 R K canonical s \<longleftrightarrow>
     pt_replacement s = R \<and> pt_capped s = K \<and> pt_warmup_patches s = [] \<and>
     patched_ok M0 alloc_attr R (pt_patches s) (pt_modules s) \<and>
     (\<forall>m b v. b \<noteq> alloc_attr \<longrightarrow> M0 m b = Some v \<longrightarrow> pt_modules s m b = Some v) \<and>
     (\<forall>m b. b \<noteq> alloc_attr \<longrightarrow> pt_modules s m b \<noteq> Some (PFun R)) \<and>
     (\<forall>m b. pt_modules s m b \<noteq> Some (PFun K)) \<and>
     (\<forall>m. pt_modules s m alloc_attr = Some (PFun R) \<longrightarrow> m \<notin> fst ` set (pt_patches s) \<longrightarrow>
        pt_modules s worker_utils_name alloc_attr = Some (PFun R)) \<and>
     (pt_modules s worker_utils_name alloc_attr = Some (PFun R) \<longrightarrow>
        worker_utils_name \<in> fst ` set (pt_patches s) \<and> canonical \<noteq> None) \<and>
     canonical \<noteq> Some R"

lemma installing_import:
  assumes ok: "import_ok env {R, K}" and inv: "installing M0 R K canonical s"
    and imp: "pe_import env name (pt_modules s) = Some M"
  shows "installing M0 R K canonical (s\<lparr>pt_modules := M\<rparr>)"
proof -
  let ?N = "pt_modules s"
  have keep: "\<And>m a v. ?N m a = Some v \<Longrightarrow> M m a = Some v"
    and new: "\<And>m a v. ?N m a = None \<Longrightarrow> M m a = Some v \<Longrightarrow>
        v \<notin> {PFun R, PFun K} \<or> ?N worker_utils_name a = Some v"
    using ok imp by (auto simp: import_ok_def)
  have prior: "?N m a = Some (PFun x) \<or> ?N worker_utils_name a = Some (PFun x)"
    if "M m a = Some (PFun x)" "x \<in> {R, K}" for m a x
    using that keep [of m a] new [of m a "PFun x"] by (cases "?N m a") auto
  have p: "patched_ok M0 alloc_attr R (pt_patches s) ?N" using inv by (simp add: installing_def)
  have "patched_ok M0 alloc_attr R (pt_patches s) M"
    using p keep by (rule patched_ok_keep)
  moreover have "M m alloc_attr = Some (PFun R) \<Longrightarrow> m \<notin> fst ` set (pt_patches s) \<Longrightarrow>
      M worker_utils_name alloc_attr = Some (PFun R)" for m
    using prior [of m alloc_attr R] inv keep unfolding installing_def by blast
  moreover have "M worker_utils_name alloc_attr = Some (PFun R) \<Longrightarrow>
      worker_utils_name \<in> fst ` set (pt_patches s) \<and> canonical \<noteq> None"
    using prior [of worker_utils_name alloc_attr R] inv unfolding installing_def by blast
  moreover have "M m b \<noteq> Some (PFun R)" if "b \<noteq> alloc_attr" for m b
    using prior [of m b R] inv that unfolding installing_def by blast
  moreover have "M m b \<noteq> Some (PFun K)" for m b
    using prior [of m b K] inv unfolding installing_def by blast
  ultimately show ?thesis using inv keep unfolding installing_def by simp
qed

lemma installing_patch:
  assumes inv: "installing M0 R K canonical s" and RK: "R \<noteq> K" and M0: "\<forall>m. M0 m alloc_attr \<noteq> Some (PFun R)"
    and fresh: "name \<notin> fst ` set (pt_patches s)"
    and f: "pt_modules s name alloc_attr = Some (PFun f)"
  defines "canonical' \<equiv> if name = worker_utils_name then Some f else canonical"
  defines "original \<equiv> case canonical' of Some c \<Rightarrow> if f = pt_replacement s then c else f | None \<Rightarrow> f"
  shows "installing M0 R K canonical'
    (s\<lparr>pt_worker_utils := u, pt_patches := pt_patches s @ [(name, PFun original)],
       pt_modules := set_attribute name alloc_attr (PFun (pt_replacement s)) (pt_modules s)\<rparr>)"
proof -
  let ?N = "pt_modules s" and ?ps = "pt_patches s @ [(name, PFun original)]"
  let ?M = "set_attribute name alloc_attr (PFun R) ?N"
  have R: "pt_replacement s = R" using inv by (simp add: installing_def)
  have ps: "patched_ok M0 alloc_attr R (pt_patches s) ?N" using inv by (simp add: installing_def)
  have taken: "?N worker_utils_name alloc_attr = Some (PFun R) \<and> name \<noteq> worker_utils_name \<and> canonical \<noteq> None"
    if "f = R"
    using inv f that fresh unfolding installing_def by blast
  have c': "canonical' \<noteq> Some R" using inv taken by (auto simp: canonical'_def installing_def)
  have o: "original \<noteq> R" using c' taken by (auto simp: original_def R canonical'_def split: option.splits)
  have o0: "M0 name alloc_attr = None \<or> M0 name alloc_attr = Some (PFun original)"
  proof (cases "M0 name alloc_attr")
    case (Some v)
    then have "?N name alloc_attr = Some v" using ps fresh by (simp add: patched_ok_def)
    then have v: "v = PFun f" using f by simp
    have "f \<noteq> R" using M0 Some v by auto
    then show ?thesis using Some v by (auto simp: original_def R split: option.splits)
  qed simp
  have "patched_ok M0 alloc_attr R ?ps ?M"
    using ps fresh o o0 by (auto simp: patched_ok_def set_attribute_def)
  then show ?thesis using inv c' RK taken
    unfolding installing_def by (auto simp: R set_attribute_def canonical'_def)
qed

lemma patch_module_installing:
  assumes ok: "import_ok env {R, K}" and RK: "R \<noteq> K" and M0: "\<forall>m. M0 m alloc_attr \<noteq> Some (PFun R)"
    and inv: "installing M0 R K canonical s" and fresh: "name \<notin> fst ` set (pt_patches s)"
    and run: "patch_module env canonical name s = (s', r)"
  shows "case r of
      Inr c \<Rightarrow> installing M0 R K c s' \<and> fst ` set (pt_patches s') \<subseteq> insert name (fst ` set (pt_patches s))
    | Inl e \<Rightarrow> installing M0 R K canonical s'"
proof (cases "pe_import env name (pt_modules s)")
  case None
  then show ?thesis using run inv by (auto simp: patch_module_def import_module_def bind_def ret_def)
next
  case (Some M)
  let ?s = "s\<lparr>pt_modules := M\<rparr>"
  have inv1: "installing M0 R K canonical ?s" by (rule installing_import [OF ok inv Some])
  consider (fn) f where "M name alloc_attr = Some (PFun f)" | (other) "\<nexists>f. M name alloc_attr = Some (PFun f)" by blast
  then show ?thesis
  proof cases
    case other
    then have "s' = ?s \<and> r = Inr canonical" using run Some
      by (auto simp: patch_module_def import_module_def bind_def ret_def gets_def split: option.splits pyval.splits)
    then show ?thesis using inv1 by auto
  next
    case (fn f)
    show ?thesis
    proof (cases "\<exists>ps. pe_params env f = Inr ps \<and> allocator_parameters_ok ps")
      case False
      then have "s' = ?s \<and> (\<exists>e. r = Inl e)" using run Some fn
        by (cases "pe_params env f") (auto simp: patch_module_def import_module_def bind_def gets_def lift_def)
      then show ?thesis using inv1 by auto
    next
      case True
      from installing_patch [OF inv1 RK M0, of name f "pt_worker_utils s \<or> name = worker_utils_name"] fresh fn
      show ?thesis using True run Some fn
        by (auto simp: patch_module_def import_module_def bind_def gets_def lift_def modify_def ret_def Let_def)
    qed
  qed
qed

lemma patch_loop_installing:
  assumes ok: "import_ok env {R, K}" and RK: "R \<noteq> K" and M0: "\<forall>m. M0 m alloc_attr \<noteq> Some (PFun R)"
    and "installing M0 R K canonical s" and "distinct names" and "fst ` set (pt_patches s) \<inter> set names = {}"
    and "fold_e (patch_module env) canonical names s = (s', r)"
  shows "\<exists>c. installing M0 R K c s'"
  using assms(4-)
proof (induction names arbitrary: canonical s)
  case (Cons name names)
  obtain s1 q where q: "patch_module env canonical name s = (s1, q)" by fastforce
  note step = patch_module_installing [OF ok RK M0 Cons.prems(1) _ q]
  show ?case
  proof (cases q)
    case (Inl e)
    then show ?thesis using step Cons.prems q by (auto simp: bind_def)
  next
    case (Inr c)
    then have i: "installing M0 R K c s1" "fst ` set (pt_patches s1) \<subseteq> insert name (fst ` set (pt_patches s))"
      using step Cons.prems(3) by auto
    have "fst ` set (pt_patches s1) \<inter> set names = {}" using i(2) Cons.prems(2,3) by auto
    moreover have "fold_e (patch_module env) c names s1 = (s', r)" using Cons.prems(4) q Inr by (simp add: bind_def)
    ultimately show ?thesis using Cons.IH [OF i(1)] Cons.prems(2) by simp
  qed
qed (auto simp: ret_def)

subsection \<open>The warm-up cap\<close>

text \<open>The state once the loop is over, with the warm-up possibly patched in some modules.\<close>

definition hooked :: "modules \<Rightarrow> nat \<Rightarrow> nat \<Rightarrow> patcher \<Rightarrow> bool" where
  "hooked M0 R K s \<longleftrightarrow>
     pt_replacement s = R \<and> pt_capped s = K \<and>
     (pt_warmup_patches s = [] \<or> pt_warmup_replacement s = Some K) \<and>
     patched_ok M0 alloc_attr R (pt_patches s) (pt_modules s) \<and>
     patched_ok M0 warmup_attr K (pt_warmup_patches s) (pt_modules s) \<and>
     (\<forall>m b v. b \<notin> {alloc_attr, warmup_attr} \<longrightarrow> M0 m b = Some v \<longrightarrow> pt_modules s m b = Some v)"

lemma attrs_differ [simp]: "alloc_attr \<noteq> warmup_attr" "warmup_attr \<noteq> alloc_attr"
  by (simp_all add: alloc_attr_def warmup_attr_def)

lemma installing_hooked: "installing M0 R K canonical s \<Longrightarrow> hooked M0 R K s"
  by (auto simp: installing_def hooked_def patched_ok_def)

lemma hooked_replacement: "hooked M0 R K s \<Longrightarrow> pt_warmup_patches s = [] \<Longrightarrow> hooked M0 R K (s\<lparr>pt_warmup_replacement := x\<rparr>)"
  by (simp add: hooked_def)

abbreviation warmup_parameters :: "string list" where
  "warmup_parameters \<equiv> [''model_runner'', ''worker_execute_model'', ''worker_sample_tokens'']"

lemma check_warmup_accepts:
  assumes "pe_import env name (pt_modules s) = Some M" and "M name warmup_attr = Some (PFun f)"
    and "pe_params env f = Inr warmup_parameters" and "original = None \<or> original = Some f"
  shows "check_warmup_module env (found, original) name s = (s\<lparr>pt_modules := M\<rparr>, Inr (found @ [name], Some f))"
  using assms by (auto simp: check_warmup_module_def import_module_def bind_def lift_def gets_def ret_def)

lemma check_warmup_rejects:
  assumes "pe_import env name (pt_modules s) = Some M"
    and "\<nexists>f. M name warmup_attr = Some (PFun f) \<and> (original = None \<or> original = Some f) \<and>
        pe_params env f = Inr warmup_parameters"
  shows "\<exists>e. check_warmup_module env (found, original) name s = (s\<lparr>pt_modules := M\<rparr>, Inl e)"
  using assms
  by (auto simp: check_warmup_module_def import_module_def bind_def lift_def gets_def ret_def
      split: option.splits pyval.splits sum.splits if_splits)

lemma check_loop:
  assumes ok: "import_ok env {R, K}"
    and "installing M0 R K canonical s" and "\<forall>m \<in> set found. pt_modules s m warmup_attr = map_option PFun original"
    and "original = None \<longrightarrow> found = []"
    and "fold_e (check_warmup_module env) (found, original) names s = (s', r)"
  shows "installing M0 R K canonical s' \<and>
    (case r of
       Inr (found', original') \<Rightarrow> found' = found @ names \<and>
         (\<forall>m \<in> set found'. pt_modules s' m warmup_attr = map_option PFun original')
     | Inl _ \<Rightarrow> True)"
  using assms(2-)
proof (induction names arbitrary: found original s)
  case (Cons name names)
  show ?case
  proof (cases "pe_import env name (pt_modules s)")
    case None
    then show ?thesis using Cons.prems
      by (auto simp: check_warmup_module_def import_module_def bind_def lift_def)
  next
    case (Some M)
    let ?s = "s\<lparr>pt_modules := M\<rparr>"
    have i: "installing M0 R K canonical ?s" by (rule installing_import [OF ok Cons.prems(1) Some])
    have keep: "pt_modules s m a = Some v \<Longrightarrow> M m a = Some v" for m a v
      using ok Some unfolding import_ok_def by blast
    have found: "\<forall>m \<in> set found. M m warmup_attr = map_option PFun original"
      using Cons.prems(2,3) keep by (cases original) auto
    show ?thesis
    proof (cases "\<exists>f. M name warmup_attr = Some (PFun f) \<and> (original = None \<or> original = Some f) \<and>
        pe_params env f = Inr warmup_parameters")
      case True
      then obtain f where f: "M name warmup_attr = Some (PFun f)" "original = None \<or> original = Some f"
        "pe_params env f = Inr warmup_parameters" by blast
      have run: "fold_e (check_warmup_module env) (found @ [name], Some f) names ?s = (s', r)"
        using Cons.prems(4) check_warmup_accepts [OF Some f(1,3,2), of found] by (simp add: bind_def)
      have "\<forall>m \<in> set (found @ [name]). pt_modules ?s m warmup_attr = map_option PFun (Some f)"
        using found f Cons.prems(3) by auto
      from Cons.IH [OF i this _ run] show ?thesis by (cases r) auto
    next
      case False
      then obtain e where "check_warmup_module env (found, original) name s = (?s, Inl e)"
        using check_warmup_rejects [OF Some] by blast
      then have "s' = ?s \<and> r = Inl e" using Cons.prems(4) by (simp add: bind_Inl)
      then show ?thesis using i by auto
    qed
  qed
qed (auto simp: ret_def)

lemma patch_warmup_loop:
  assumes "hooked M0 R K s" and "pt_warmup_replacement s = Some K" and "f \<noteq> K" and "distinct names"
    and "fst ` set (pt_warmup_patches s) \<inter> set names = {}"
    and "\<forall>m \<in> set names. M0 m warmup_attr = None \<or> M0 m warmup_attr = Some (PFun f)"
  shows "\<exists>s'. for_each (patch_warmup f) names s = (s', Inr ()) \<and> hooked M0 R K s' \<and> pt_patches s' = pt_patches s"
  using assms
proof (induction names arbitrary: s)
  case (Cons name names)
  let ?s = "s\<lparr>pt_warmup_patches := pt_warmup_patches s @ [(name, PFun f)],
      pt_modules := set_attribute name warmup_attr (PFun (pt_capped s)) (pt_modules s)\<rparr>"
  have K: "pt_capped s = K" using Cons.prems(1) by (simp add: hooked_def)
  have "patched_ok M0 warmup_attr K (pt_warmup_patches ?s) (pt_modules ?s)"
    using Cons.prems by (auto simp: hooked_def patched_ok_def set_attribute_def)
  then have "hooked M0 R K ?s" using Cons.prems(1,2)
    by (auto simp: hooked_def set_attribute_def patched_ok_def)
  moreover have "fst ` set (pt_warmup_patches ?s) \<inter> set names = {}" using Cons.prems(4,5) by auto
  ultimately have "\<exists>s'. for_each (patch_warmup f) names ?s = (s', Inr ()) \<and> hooked M0 R K s' \<and> pt_patches s' = pt_patches ?s"
    using Cons.prems by (intro Cons.IH) auto
  moreover have "patch_warmup f name s = (?s, Inr ())" by (simp add: patch_warmup_def modify_def)
  ultimately show ?case by (simp add: bind_def)
qed (simp add: ret_def)

lemma hook_shutdown_hooked:
  assumes "hooked M0 R K s"
  obtains s' where "hook_shutdown s = (s', Inr ())" "hooked M0 R K s'"
    "pt_patches s' = []" "pt_warmup_patches s' = []" "\<not> pt_buffer_open s'"
    "\<And>m a v. M0 m a = Some v \<Longrightarrow> pt_modules s' m a = Some v"
    "\<And>m v. (m, v) \<in> set (pt_patches s) \<Longrightarrow> pt_modules s' m alloc_attr = Some v"
proof -
  let ?M1 = "fold (restore_attribute warmup_attr (pt_warmup_replacement s)) (rev (pt_warmup_patches s)) (pt_modules s)"
  let ?M2 = "fold (restore_attribute alloc_attr (Some R)) (rev (pt_patches s)) ?M1"
  let ?s = "s\<lparr>pt_modules := ?M2, pt_warmup_patches := [], pt_patches := [], pt_buffer_open := False\<rparr>"
  have h: "pt_replacement s = R" "pt_capped s = K" "patched_ok M0 warmup_attr K (pt_warmup_patches s) (pt_modules s)"
    "patched_ok M0 alloc_attr R (pt_patches s) (pt_modules s)"
    "pt_warmup_patches s = [] \<or> pt_warmup_replacement s = Some K"
    and oth: "\<And>m b v. b \<notin> {alloc_attr, warmup_attr} \<Longrightarrow> M0 m b = Some v \<Longrightarrow> pt_modules s m b = Some v"
    using assms by (auto simp: hooked_def)
  have M1: "?M1 = fold (restore_attribute warmup_attr (Some K)) (rev (pt_warmup_patches s)) (pt_modules s)"
    using h(5) by auto
  note w = restore_patched [OF h(3), folded M1]
  have al: "patched_ok M0 alloc_attr R (pt_patches s) ?M1"
    by (rule patched_ok_keep [OF h(4)]) (simp add: w(3))
  note l = restore_patched [OF al]
  have run: "hook_shutdown s = (?s, Inr ())"
    by (simp add: hook_shutdown_def release_buffer_def bind_def modify_def h(1))
  have all: "?M2 m a = Some v" if "M0 m a = Some v" for m a v
    using that l(1,3) w(1,3) oth by (cases "a = alloc_attr"; cases "a = warmup_attr") auto
  then have "hooked M0 R K ?s" using h by (auto simp: hooked_def patched_ok_def)
  with run show thesis
    by (rule that) (simp_all add: all l(2))
qed

lemma cap_hooked:
  assumes ok: "import_ok env {R, K}" and i: "installing M0 R K canonical s"
    and run: "install_startup_warmup_cap env s = (s', r)"
  shows "hooked M0 R K s'"
proof -
  obtain s1 q where q: "fold_e (check_warmup_module env) ([], None) WARMUP_MODULES s = (s1, q)" by fastforce
  from check_loop [OF ok i _ _ q] have i1: "installing M0 R K canonical s1"
    and found: "\<And>found original. q = Inr (found, original) \<Longrightarrow> found = WARMUP_MODULES \<and>
      (\<forall>m \<in> set found. pt_modules s1 m warmup_attr = map_option PFun original)"
    by auto
  note h1 = installing_hooked [OF i1]
  show ?thesis
  proof (cases "\<exists>f. q = Inr (WARMUP_MODULES, Some f)")
    case True
    then obtain f where f: "q = Inr (WARMUP_MODULES, Some f)" by blast
    let ?s = "s1\<lparr>pt_warmup_replacement := Some (pt_capped s1)\<rparr>"
    have K: "pt_capped s1 = K" "pt_warmup_patches s1 = []" using i1 by (simp_all add: installing_def)
    have at: "pt_modules s1 m warmup_attr = Some (PFun f)" if "m \<in> set WARMUP_MODULES" for m
      using found f that by simp
    have "f \<noteq> K" using at [of "hd WARMUP_MODULES"] i1 by (auto simp: installing_def WARMUP_MODULES_def)
    moreover have "\<forall>m \<in> set WARMUP_MODULES. M0 m warmup_attr = None \<or> M0 m warmup_attr = Some (PFun f)"
    proof
      fix m assume "m \<in> set WARMUP_MODULES"
      then show "M0 m warmup_attr = None \<or> M0 m warmup_attr = Some (PFun f)"
        using at [of m] i1 by (cases "M0 m warmup_attr") (auto simp: installing_def)
    qed
    ultimately obtain s2 where "for_each (patch_warmup f) WARMUP_MODULES ?s = (s2, Inr ())" "hooked M0 R K s2"
      using patch_warmup_loop [of M0 R K ?s f WARMUP_MODULES] hooked_replacement [OF h1] K
      by (auto simp: WARMUP_MODULES_def)
    then show ?thesis using run q f by (simp add: install_startup_warmup_cap_def bind_def modify_def)
  next
    case False
    then have "s' = s1" using run q found
      by (cases q) (auto simp: install_startup_warmup_cap_def bind_def lift_def split: option.splits)
    then show ?thesis using h1 by simp
  qed
qed

definition clean_start :: "patcher \<Rightarrow> bool" where
  "clean_start s \<longleftrightarrow>
     pt_patches s = [] \<and> pt_warmup_patches s = [] \<and> pt_replacement s \<noteq> pt_capped s \<and>
     (\<forall>m a. pt_modules s m a \<noteq> Some (PFun (pt_replacement s)) \<and> pt_modules s m a \<noteq> Some (PFun (pt_capped s)))"

lemma install_hooked:
  assumes "clean_start s" and ok: "import_ok env {pt_replacement s, pt_capped s}"
    and run: "install env s = (s', r)"
  shows "hooked (pt_modules s) (pt_replacement s) (pt_capped s) s'"
proof -
  let ?M = "pt_modules s" and ?R = "pt_replacement s" and ?K = "pt_capped s"
  obtain s1 q where q: "fold_e (patch_module env) None MODULES s = (s1, q)" by fastforce
  have start: "installing ?M ?R ?K None s"
    using assms(1) by (auto simp: clean_start_def installing_def patched_ok_def)
  have "distinct MODULES" by (simp add: MODULES_def worker_utils_name_def)
  then obtain c where i: "installing ?M ?R ?K c s1"
    using patch_loop_installing [OF ok _ _ start _ _ q] assms(1) by (auto simp: clean_start_def)
  note h = installing_hooked [OF i]
  show ?thesis
  proof (cases q)
    case (Inl e)
    then show ?thesis using h run q by (simp add: install_def bind_def)
  next
    case (Inr c')
    obtain s2 where s2: "hook_shutdown s1 = (s2, Inr ())" "hooked ?M ?R ?K s2"
      by (rule hook_shutdown_hooked [OF h])
    show ?thesis
    proof (cases "\<not> pt_worker_utils s1 \<or> pt_patches s1 = []")
      case True
      then show ?thesis using run q Inr s2 by (auto simp: install_def bind_def gets_def lift_def)
    next
      case False
      then show ?thesis using run q Inr h cap_hooked [OF ok i]
        by (auto simp: install_def bind_def gets_def ret_def split: if_splits)
    qed
  qed
qed

text \<open>
  C13. The hook leaves no trace: when its constructor fails, every attribute of every module that
  was loaded before has its old value again and the buffer is released; when it succeeds, the
  later shutdown gives every such attribute its old value, and a module loaded in between gets
  the function it would have imported, not the hook's.
\<close>

theorem hook_restores_modules:
  assumes "clean_start s" and "import_ok env {pt_replacement s, pt_capped s}"
    and "install_or_restore env s = (s1, r)"
  shows "case r of
      Inl e \<Rightarrow> pt_patches s1 = [] \<and> \<not> pt_buffer_open s1 \<and>
        (\<forall>m a v. pt_modules s m a = Some v \<longrightarrow> pt_modules s1 m a = Some v)
    | Inr _ \<Rightarrow> \<exists>s2. hook_shutdown s1 = (s2, Inr ()) \<and> \<not> pt_buffer_open s2 \<and>
        (\<forall>m a v. pt_modules s m a = Some v \<longrightarrow> pt_modules s2 m a = Some v) \<and>
        (\<forall>(m, v) \<in> set (pt_patches s1). pt_modules s1 m alloc_attr = Some (PFun (pt_replacement s)) \<and>
           pt_modules s2 m alloc_attr = Some v \<and> v \<noteq> PFun (pt_replacement s))"
proof -
  let ?M = "pt_modules s" and ?R = "pt_replacement s" and ?K = "pt_capped s"
  obtain s' q where q: "install env s = (s', q)" by fastforce
  have h: "hooked ?M ?R ?K s'" by (rule install_hooked [OF assms(1,2) q])
  obtain s2 where s2: "hook_shutdown s' = (s2, Inr ())" "pt_patches s2 = []" "\<not> pt_buffer_open s2"
    "\<And>m a v. ?M m a = Some v \<Longrightarrow> pt_modules s2 m a = Some v"
    "\<And>m v. (m, v) \<in> set (pt_patches s') \<Longrightarrow> pt_modules s2 m alloc_attr = Some v"
    using hook_shutdown_hooked [OF h] by metis
  have own: "pt_modules s' m alloc_attr = Some (PFun ?R) \<and> v \<noteq> PFun ?R" if "(m, v) \<in> set (pt_patches s')" for m v
    using h that by (auto simp: hooked_def patched_ok_def)
  show ?thesis
  proof (cases q)
    case (Inl e)
    then show ?thesis using assms(3) q s2
      by (auto simp: install_or_restore_def try_except_def bind_def lift_def)
  next
    case (Inr u)
    then have "s1 = s' \<and> r = Inr u" using assms(3) q by (auto simp: install_or_restore_def try_except_def)
    moreover have "\<forall>(m, v) \<in> set (pt_patches s'). pt_modules s' m alloc_attr = Some (PFun ?R) \<and>
        pt_modules s2 m alloc_attr = Some v \<and> v \<noteq> PFun ?R"
      using own s2(5) by blast
    ultimately show ?thesis using s2(1,3,4) by (auto intro!: exI [of _ s2] simp del: split_paired_Ex)
  qed
qed

text \<open>
  A build whose model runner is imported only after the utilities have been patched, so that it
  copies the hook's function, and whose attention utilities do not exist.
\<close>

definition sample_modules :: modules where
  "sample_modules m a = (if m = worker_utils_name \<and> a = alloc_attr then Some (PFun 1) else None)"

definition sample_patch_env :: patch_env where
  "sample_patch_env =
     \<lparr>pe_import = (\<lambda>name M.
        if name = worker_utils_name then Some M
        else if name = MODULES ! 1
        then Some (\<lambda>m a. if m = name \<and> M m a = None then M worker_utils_name a else M m a)
        else None),
      pe_params = (\<lambda>_. Inr [''kv_cache_config'', ''device'', ''layout''])\<rparr>"

definition sample_patcher :: patcher where
  "sample_patcher =
     \<lparr>pt_modules = sample_modules, pt_patches = [], pt_warmup_patches = [], pt_replacement = 7, pt_capped = 8,
      pt_warmup_replacement = None, pt_worker_utils = False, pt_startup_mapped = None, pt_maximum_blocks = 8,
      pt_buffer_open = True\<rparr>"

theorem hook_restores_modules_witness:
  "case install_or_restore sample_patch_env sample_patcher of (s1, r) \<Rightarrow>
     r = Inr () \<and> pt_patches s1 = [(worker_utils_name, PFun 1), (MODULES ! 1, PFun 1)] \<and>
     (\<exists>s2. hook_shutdown s1 = (s2, Inr ()) \<and> pt_modules s2 worker_utils_name alloc_attr = Some (PFun 1) \<and>
        pt_modules s2 (MODULES ! 1) alloc_attr = Some (PFun 1))"
proof -
  obtain s1 r where run: "install_or_restore sample_patch_env sample_patcher = (s1, r)" by fastforce
  have "map_prod pt_patches id (install_or_restore sample_patch_env sample_patcher) =
      ([(worker_utils_name, PFun 1), (MODULES ! 1, PFun 1)], Inr ())" by code_simp
  then have r: "pt_patches s1 = [(worker_utils_name, PFun 1), (MODULES ! 1, PFun 1)]" "r = Inr ()"
    by (simp_all add: run)
  have c: "clean_start sample_patcher"
    by (simp add: clean_start_def sample_patcher_def sample_modules_def)
  have i: "import_ok sample_patch_env {pt_replacement sample_patcher, pt_capped sample_patcher}"
    by (auto simp: import_ok_def sample_patch_env_def split: if_splits)
  from hook_restores_modules [OF c i run] r show ?thesis by (auto simp: run)
qed

subsection \<open>The capped warm-up\<close>

text \<open>
  \<open>_run_startup_warmup\<close>. The state is the flag of the hook and the attribute \<open>num_blocks\<close> of
  the runner's configuration; \<open>assign\<close> is whether that attribute can be set, and \<open>original\<close>
  vLLM's warm-up, which may change the attribute. The lock makes the call one step.
\<close>

record warmup =
  wu_attempted :: bool
  wu_num_blocks :: pyval

definition set_num_blocks :: "(pyval \<Rightarrow> unit result) \<Rightarrow> int \<Rightarrow> string \<Rightarrow> (warmup, unit) eff" where
  "set_num_blocks assign n message =
     try_except (bind (lift (assign (PInt n))) (\<lambda>_. modify (\<lambda>s. s\<lparr>wu_num_blocks := PInt n\<rparr>)))
       (\<lambda>_. lift (RaiseP message))"

definition run_startup_warmup ::
  "(pyval \<Rightarrow> unit result) \<Rightarrow> (warmup, 'a) eff \<Rightarrow> int option \<Rightarrow> int \<Rightarrow> (warmup, 'a) eff" where
  "run_startup_warmup assign original mapped_blocks maximum_blocks =
     (case mapped_blocks of
        None \<Rightarrow> lift (RaiseP ''fixed shared pool entered elastic warmup'')
      | Some mapped \<Rightarrow>
          bind (gets id) (\<lambda>s.
          if wu_attempted s then lift (RaiseP ''elastic vLLM startup warmup was invoked more than once'')
          else
          bind (modify (\<lambda>s. s\<lparr>wu_attempted := True\<rparr>)) (\<lambda>_.
          case wu_num_blocks s of
            PInt advertised \<Rightarrow>
              if advertised \<noteq> maximum_blocks
              then lift (RaiseP ''vLLM changed the virtual KV block count before startup warmup'')
              else if mapped \<le> 1 \<or> mapped > advertised
              then lift (RaiseP ''elastic startup mapped block count is outside virtual capacity'')
              else
              bind (set_num_blocks assign mapped ''vLLM KVCacheConfig cannot be capped for elastic startup warmup'') (\<lambda>_.
              try_finally original
                (set_num_blocks assign advertised
                   ''vLLM KVCacheConfig could not restore virtual capacity after warmup''))
          | _ \<Rightarrow> lift (RaiseP ''vLLM changed the virtual KV block count before startup warmup''))))"

text \<open>
  The warm-up of vLLM runs at most once and sees only the mapped blocks, and whatever it does,
  the configuration has its virtual block count again afterwards.
\<close>

theorem startup_warmup_capped:
  assumes "\<forall>v. assign v = Inr ()" and "\<forall>w. wu_attempted (fst (original w)) = wu_attempted w"
    and "run_startup_warmup assign original mapped_blocks maximum_blocks s = (s', r)"
  shows "wu_num_blocks s' = wu_num_blocks s \<and> wu_attempted s' = (wu_attempted s \<or> mapped_blocks \<noteq> None) \<and>
    (case r of
       Inr x \<Rightarrow> \<not> wu_attempted s \<and> wu_num_blocks s = PInt maximum_blocks \<and>
         (\<exists>mapped. mapped_blocks = Some mapped \<and> 1 < mapped \<and> mapped \<le> maximum_blocks \<and>
            snd (original \<lparr>wu_attempted = True, wu_num_blocks = PInt mapped\<rparr>) = Inr x)
     | Inl _ \<Rightarrow> True)"
proof -
  have set: "set_num_blocks assign n m w = (w\<lparr>wu_num_blocks := PInt n\<rparr>, Inr ())" for n m w
    using assms(1) by (simp add: set_num_blocks_def try_except_def bind_def lift_def modify_def)
  show ?thesis
  proof (cases "\<exists>mapped. mapped_blocks = Some mapped \<and> 1 < mapped \<and> mapped \<le> maximum_blocks \<and>
      \<not> wu_attempted s \<and> wu_num_blocks s = PInt maximum_blocks")
    case True
    then obtain n where n: "mapped_blocks = Some n" "1 < n" "n \<le> maximum_blocks" "\<not> wu_attempted s"
      "wu_num_blocks s = PInt maximum_blocks" by blast
    obtain w q where q: "original \<lparr>wu_attempted = True, wu_num_blocks = PInt n\<rparr> = (w, q)" by fastforce
    have s1: "s\<lparr>wu_attempted := True, wu_num_blocks := PInt n\<rparr> = \<lparr>wu_attempted = True, wu_num_blocks = PInt n\<rparr>" by simp
    have "s' = w\<lparr>wu_num_blocks := PInt maximum_blocks\<rparr> \<and> r = q"
      using assms(3) n q
      by (auto simp: run_startup_warmup_def bind_def gets_def modify_def set s1 try_finally_def split: sum.splits)
    moreover have "wu_attempted w" using assms(2) [rule_format, of "\<lparr>wu_attempted = True, wu_num_blocks = PInt n\<rparr>"] q by simp
    ultimately show ?thesis using n q by (cases q) auto
  next
    case False
    then have "(s' = s \<or> s' = s\<lparr>wu_attempted := True\<rparr>) \<and> wu_attempted s' = (wu_attempted s \<or> mapped_blocks \<noteq> None) \<and> (\<exists>e. r = Inl e)"
      using assms(3)
      by (auto simp: run_startup_warmup_def bind_def gets_def modify_def lift_def split: option.splits pyval.splits if_splits)
    then show ?thesis by auto
  qed
qed

theorem startup_warmup_capped_witness:
  "run_startup_warmup (\<lambda>_. Inr ()) (\<lambda>w. (w\<lparr>wu_num_blocks := PNone\<rparr>, Inr (wu_num_blocks w))) (Some 4) 8
     \<lparr>wu_attempted = False, wu_num_blocks = PInt 8\<rparr> = (\<lparr>wu_attempted = True, wu_num_blocks = PInt 8\<rparr>, Inr (PInt 4))"
proof -
  let ?run = "run_startup_warmup (\<lambda>_. Inr ()) (\<lambda>w. (w\<lparr>wu_num_blocks := PNone\<rparr>, Inr (wu_num_blocks w))) (Some 4) 8
     \<lparr>wu_attempted = False, wu_num_blocks = PInt 8\<rparr>"
  obtain s' r where run: "?run = (s', r)" by fastforce
  from startup_warmup_capped [OF _ _ run] have "wu_num_blocks s' = PInt 8" "wu_attempted s'" by simp_all
  moreover have "snd ?run = Inr (PInt 4)" by code_simp
  ultimately show ?thesis by (simp add: run)
qed

subsection \<open>The replacement allocator\<close>

text \<open>
  \<open>_allocate_kv_cache\<close>. The placements of \<open>KVCacheConfig\<close> are read as typed data: a tensor
  with its layers (a missing list is empty), a group with its layer names, its specification and,
  for a uniform group, the specifications per layer. \<open>create_views\<close> is vLLM's
  \<open>create_kv_cache_views\<close>, the device and the allocation counters are those of PyTorch.
\<close>

record kv_group =
  kg_layer_names :: "string list"
  kg_spec :: pyval
  kg_layer_specs :: "(string \<times> pyval) list option"

record kv_config =
  kc_object :: pyval
  kc_tensors :: "string list list"
  kc_groups :: "kv_group list"

record allocator =
  al_used :: bool
  al_expected_bytes :: int
  al_tensor_open :: bool
  al_device_index :: int
  al_worker_utils :: bool
  al_conformance :: bool

definition find_group :: "string \<Rightarrow> kv_group list \<Rightarrow> (nat \<times> kv_group) option" where
  "find_group name groups =
     find (\<lambda>(_, g). name \<in> set (kg_layer_names g)) (zip [0..<length groups] groups)"

definition layer_spec :: "kv_group \<Rightarrow> string \<Rightarrow> pyval result" where
  "layer_spec g name =
     (case kg_layer_specs g of
        None \<Rightarrow> Inr (kg_spec g)
      | Some specs \<Rightarrow> (case map_of specs name of Some spec \<Rightarrow> Inr spec | None \<Rightarrow> Raise KeyError (py_repr name)))"

definition kernel_block_size :: "int list option \<Rightarrow> nat \<Rightarrow> int option" where
  "kernel_block_size sizes group_id =
     (case sizes of None \<Rightarrow> None | Some ns \<Rightarrow> if group_id < length ns then Some (ns ! group_id) else None)"

definition place_tensor ::
  "(pyval \<Rightarrow> string list \<Rightarrow> int option \<Rightarrow> 'v list result) \<Rightarrow> kv_group list \<Rightarrow> int list option \<Rightarrow>
   (string \<times> 'v) list \<Rightarrow> string list \<Rightarrow> (string \<times> 'v) list result" where
  "place_tensor create_views groups sizes caches layers =
     (case layers of
        [] \<Rightarrow> RaiseP ''unsupported vLLM KV tensor placement without layers''
      | name # _ \<Rightarrow>
          (case find_group name groups of
             None \<Rightarrow> RaiseP (fmt [''vLLM KV tensor layer '', py_repr name, '' has no cache group''])
           | Some (group_id, g) \<Rightarrow>
               and_then (layer_spec g name) (\<lambda>spec.
               and_then (create_views spec layers (kernel_block_size sizes group_id)) (\<lambda>views.
               if length views \<noteq> length layers
               then RaiseP ''vLLM returned an unexpected number of views for a KV tensor placement''
               else Inr (foldl (\<lambda>d (k, v). AList.update k v d) caches (zip layers views))))))"

definition device_text :: "string \<times> int option \<Rightarrow> string" where
  "device_text device =
     (case device of (kind, None) \<Rightarrow> kind | (kind, Some index) \<Rightarrow> kind @ '':'' @ int_text index)"

definition allocate_kv_cache ::
  "(pyval \<Rightarrow> string list \<Rightarrow> int option \<Rightarrow> 'v list result) \<Rightarrow> (nat \<Rightarrow> int) \<Rightarrow> kv_config \<Rightarrow>
   string \<times> int option \<Rightarrow> int list option \<Rightarrow> (allocator, (string \<times> 'v) list) eff" where
  "allocate_kv_cache create_views memory_allocated cfg device sizes =
     bind (gets id) (\<lambda>self.
     if al_used self
     then lift (RaiseP ''vLLM attempted to allocate the imported shared KV pool more than once'')
     else
     bind (lift (vllm_backing_geometry (kc_object cfg))) (\<lambda>(allocation_bytes, _, _).
     if allocation_bytes \<noteq> al_expected_bytes self
     then lift (RaiseP ''vLLM changed packed KV geometry after Kapsl registration'')
     else if \<not> al_tensor_open self then lift (RaiseP ''CUDA IPC mapping was released before allocation'')
     else if fst device \<noteq> ''cuda'' \<or> (snd device \<noteq> None \<and> snd device \<noteq> Some (al_device_index self))
     then lift (RaiseP (fmt [''vLLM requested KV allocation on '', device_text device,
            '', but the imported pool is on '', device_text (''cuda'', Some (al_device_index self))]))
     else if \<not> al_worker_utils self then lift (RaiseP ''vLLM worker utilities are unavailable'')
     else
     bind (lift (fold_r (place_tensor create_views (kc_groups cfg) sizes) [] (kc_tensors cfg))) (\<lambda>caches.
     if al_conformance self \<and> memory_allocated 1 \<noteq> memory_allocated 0
     then lift (RaiseP (fmt [''vLLM KV view construction created a second PyTorch CUDA allocation: before='',
            int_text (memory_allocated 0), '', after='', int_text (memory_allocated 1)]))
     else bind (modify (\<lambda>s. s\<lparr>al_used := True\<rparr>)) (\<lambda>_. ret caches))))"

lemma fst_update: "fst ` set (AList.update k v d) = insert k (fst ` set d)"
  by (induction d) auto

lemma fst_foldl_update:
  "fst ` set (foldl (\<lambda>d (k, v). AList.update k v d) d kvs) = fst ` set d \<union> fst ` set kvs"
proof (induction kvs arbitrary: d)
  case (Cons p kvs)
  show ?case by (cases p) (simp add: Cons.IH fst_update)
qed simp

lemma place_tensor_keys:
  assumes "place_tensor cv groups sizes caches layers = Inr caches'"
  shows "fst ` set caches' = fst ` set caches \<union> set layers \<and> layers \<noteq> [] \<and>
    (\<exists>g \<in> set groups. hd layers \<in> set (kg_layer_names g))"
proof -
  from assms obtain name rest where l: "layers = name # rest" by (cases layers) (auto simp: place_tensor_def)
  from assms l obtain i g views where g: "find_group name groups = Some (i, g)" "length views = length layers"
    "caches' = foldl (\<lambda>d (k, v). AList.update k v d) caches (zip layers views)"
    by (auto simp: place_tensor_def and_then_Inr_iff split: option.splits if_splits)
  have "g \<in> set groups \<and> name \<in> set (kg_layer_names g)"
    using g(1) by (auto simp: find_group_def find_Some_iff)
  moreover have "fst ` set (zip layers views) = set layers"
    using g(2) by (metis list.set_map map_fst_zip)
  ultimately show ?thesis using g(3) l by (auto simp: fst_foldl_update)
qed

lemma place_loop_keys:
  assumes "fold_r (place_tensor cv groups sizes) caches tensors = Inr caches'"
  shows "fst ` set caches' = fst ` set caches \<union> set (concat tensors) \<and>
    list_all (\<lambda>layers. layers \<noteq> [] \<and> (\<exists>g \<in> set groups. hd layers \<in> set (kg_layer_names g))) tensors"
  using assms
proof (induction tensors arbitrary: caches)
  case (Cons layers tensors)
  then obtain c where c: "place_tensor cv groups sizes caches layers = Inr c"
    "fold_r (place_tensor cv groups sizes) c tensors = Inr caches'"
    by (auto simp: and_then_Inr_iff)
  from place_tensor_keys [OF c(1)] Cons.IH [OF c(2)] show ?case by auto
qed simp

text \<open>
  The imported pool is handed to vLLM at most once, and then every layer of every tensor
  placement has a view and nothing else does; in conformance mode no other device memory was
  allocated. A call that raises does not mark the pool as used.
\<close>

theorem allocate_once_complete:
  assumes "allocate_kv_cache create_views memory_allocated cfg device sizes s = (s', r)"
  shows "case r of
      Inr caches \<Rightarrow> \<not> al_used s \<and> s' = s\<lparr>al_used := True\<rparr> \<and> fst ` set caches = set (concat (kc_tensors cfg)) \<and>
        list_all (\<lambda>layers. layers \<noteq> []) (kc_tensors cfg) \<and>
        (\<exists>n stride. vllm_backing_geometry (kc_object cfg) = Inr (al_expected_bytes s, n, stride)) \<and>
        (al_conformance s \<longrightarrow> memory_allocated 1 = memory_allocated 0)
    | Inl _ \<Rightarrow> s' = s"
proof (cases r)
  case (Inl e)
  then show ?thesis using assms
    by (auto simp: allocate_kv_cache_def bind_def gets_def lift_def modify_def ret_def
        split: sum.splits prod.splits if_splits)
next
  case (Inr caches)
  then obtain n stride where a: "\<not> al_used s" "vllm_backing_geometry (kc_object cfg) = Inr (al_expected_bytes s, n, stride)"
    "fold_r (place_tensor create_views (kc_groups cfg) sizes) [] (kc_tensors cfg) = Inr caches"
    "al_conformance s \<longrightarrow> memory_allocated 1 = memory_allocated 0" "s' = s\<lparr>al_used := True\<rparr>"
    using assms
    by (auto simp: allocate_kv_cache_def bind_def gets_def lift_def modify_def ret_def
        split: sum.splits prod.splits if_splits)
  from place_loop_keys [OF a(3)] a Inr show ?thesis by (auto simp: list_all_iff)
qed

definition sample_kv_config :: kv_config where
  "sample_kv_config =
     \<lparr>kc_object = sample_config, kc_tensors = [[''a'', ''b''], [''c'']],
      kc_groups = [\<lparr>kg_layer_names = [''a'', ''b'', ''c''], kg_spec = PNone, kg_layer_specs = None\<rparr>]\<rparr>"

definition sample_allocator :: allocator where
  "sample_allocator =
     \<lparr>al_used = False, al_expected_bytes = 256, al_tensor_open = True, al_device_index = 0,
      al_worker_utils = True, al_conformance = True\<rparr>"

theorem allocate_once_complete_witness:
  "case allocate_kv_cache (\<lambda>_ layers _. Inr layers) (\<lambda>_. 512) sample_kv_config (''cuda'', None) None sample_allocator of
     (s', r) \<Rightarrow> \<exists>caches. r = Inr caches \<and> al_used s' \<and> fst ` set caches = set [''a'', ''b'', ''c'']"
proof -
  let ?run = "allocate_kv_cache (\<lambda>_ layers _. Inr layers) (\<lambda>_. 512) sample_kv_config (''cuda'', None) None sample_allocator"
  obtain s' r where run: "?run = (s', r)" by fastforce
  have "map_sum (\<lambda>_. ()) length (snd ?run) = Inr 3" by code_simp
  then obtain caches where r: "r = Inr caches" by (cases r) (auto simp: run)
  have "set (concat (kc_tensors sample_kv_config)) = set [''a'', ''b'', ''c'']" by (simp add: sample_kv_config_def)
  with allocate_once_complete [OF run] show ?thesis by (simp add: run r)
qed

end
