(* ===== verification/Json_Wire.thy ===== *)
theory Json_Wire
  imports Canonical_Json Py_Effects
begin

text \<open>
  \<open>json.dumps\<close> and \<open>json.loads\<close> as the control client uses them: one value per frame, printed
  in ASCII with sorted keys and compact separators, and read back by the decoder of Python's
  \<open>json\<close> package.

  A string of the model is a sequence of Latin-1 characters. The decoder can meet code points
  beyond them in an escape: \<open>wide\<close> is the text that stands for such a code point. \<open>fp\<close> reads
  the text of a float. The recursion limit of the interpreter is not modelled.
\<close>

subsection \<open>Printing\<close>

text \<open>\<open>ensure_ascii=True\<close>: everything outside the printable ASCII range is escaped.\<close>

definition ascii_escape_char :: "char \<Rightarrow> string" where
  "ascii_escape_char c =
     (let n = of_char c :: nat in
      if n < 127 then json_escape_char c
      else [CHR 92, CHR ''u'', CHR ''0'', CHR ''0'', hex_digit (n div 16), hex_digit (n mod 16)])"

definition wire_float :: "(rat \<Rightarrow> string) \<Rightarrow> pyfloat \<Rightarrow> string result" where
  "wire_float fr f =
     Inr (case f of Finite r \<Rightarrow> fr r | NaN \<Rightarrow> ''NaN'' | PosInf \<Rightarrow> ''Infinity'' | NegInf \<Rightarrow> ''-Infinity'')"

definition json_dumps :: "(rat \<Rightarrow> string) \<Rightarrow> pyval \<Rightarrow> string result" where
  "json_dumps fr v = json_text ascii_escape_char (wire_float fr) v"

subsection \<open>Reading\<close>

definition json_error :: "string \<Rightarrow> 'a result" where
  "json_error m = Raise JSONDecodeError m"

definition json_ws :: "char \<Rightarrow> bool" where
  "json_ws c \<longleftrightarrow> c \<in> set [CHR '' '', CHR 9, CHR 10, CHR 13]"

definition skip_ws :: "string \<Rightarrow> string" where
  "skip_ws s = dropWhile json_ws s"

definition hex_value :: "char \<Rightarrow> nat option" where
  "hex_value c = (case digit_value c of Some v \<Rightarrow> if v < 16 then Some v else None | None \<Rightarrow> None)"

fun hex4 :: "string \<Rightarrow> (nat \<times> string) option" where
  "hex4 (a # b # c # d # r) =
     (case (hex_value a, hex_value b, hex_value c, hex_value d) of
        (Some w, Some x, Some y, Some z) \<Rightarrow> Some (4096 * w + 256 * x + 16 * y + z, r)
      | _ \<Rightarrow> None)"
| "hex4 _ = None"

definition code_point :: "(nat \<Rightarrow> string) \<Rightarrow> nat \<Rightarrow> string" where
  "code_point wide n = (if n < 256 then [char_of n] else wide n)"

text \<open>A high surrogate joins a low one that follows it as an escape.\<close>

definition unicode_escape :: "(nat \<Rightarrow> string) \<Rightarrow> string \<Rightarrow> (string \<times> string) option" where
  "unicode_escape wide s =
     (case hex4 s of
        None \<Rightarrow> None
      | Some (n, r) \<Rightarrow>
          if 55296 \<le> n \<and> n \<le> 56319 \<and> take 2 r = [CHR 92, CHR ''u'']
          then (case hex4 (drop 2 r) of
                  None \<Rightarrow> None
                | Some (m, r2) \<Rightarrow>
                    if 56320 \<le> m \<and> m \<le> 57343
                    then Some (code_point wide (65536 + 1024 * (n - 55296) + (m - 56320)), r2)
                    else Some (code_point wide n, r))
          else Some (code_point wide n, r))"

definition plain_escape :: "char \<Rightarrow> char option" where
  "plain_escape e =
     map_of [(CHR 34, CHR 34), (CHR 92, CHR 92), (CHR ''/'', CHR ''/''), (CHR ''b'', CHR 8),
             (CHR ''f'', CHR 12), (CHR ''n'', CHR 10), (CHR ''r'', CHR 13), (CHR ''t'', CHR 9)] e"

lemma hex4_shorter: "hex4 s = Some (n, r) \<Longrightarrow> length r < length s"
  by (cases s rule: hex4.cases) (auto split: option.splits)

lemma unicode_escape_shorter:
  assumes "unicode_escape wide s = Some (x, r)"
  shows "length r < length s"
proof -
  obtain n r0 where h: "hex4 s = Some (n, r0)"
    using assms by (auto simp: unicode_escape_def split: option.splits)
  note l = hex4_shorter [OF h]
  show ?thesis
  proof (cases "55296 \<le> n \<and> n \<le> 56319 \<and> take 2 r0 = [CHR 92, CHR ''u'']")
    case True
    then obtain m r2 where h2: "hex4 (drop 2 r0) = Some (m, r2)"
      using assms h by (auto simp: unicode_escape_def split: option.splits)
    have "r = r2 \<or> r = r0" using assms h h2 True by (simp add: unicode_escape_def split: if_splits)
    then show ?thesis using l hex4_shorter [OF h2] by auto
  next
    case False
    then have "r = r0" using assms h by (auto simp: unicode_escape_def)
    then show ?thesis using l by simp
  qed
qed

text \<open>The rest of a string after its opening quote.\<close>

function scan_string :: "(nat \<Rightarrow> string) \<Rightarrow> string \<Rightarrow> (string \<times> string) result" where
  "scan_string wide s =
     (case s of
        [] \<Rightarrow> json_error ''Unterminated string''
      | c # cs \<Rightarrow>
          if c = CHR 34 then Inr ([], cs)
          else if c = CHR 92 then
            (case cs of
               [] \<Rightarrow> json_error ''Unterminated string''
             | e # r \<Rightarrow>
                 if e = CHR ''u'' then
                   (case unicode_escape wide r of
                      None \<Rightarrow> json_error ''Invalid escape''
                    | Some (x, r2) \<Rightarrow> and_then (scan_string wide r2) (\<lambda>(y, r3). Inr (x @ y, r3)))
                 else
                   (case plain_escape e of
                      None \<Rightarrow> json_error ''Invalid escape''
                    | Some x \<Rightarrow> and_then (scan_string wide r) (\<lambda>(y, r3). Inr (x # y, r3))))
          else if (of_char c :: nat) < 32 then json_error ''Invalid control character''
          else and_then (scan_string wide cs) (\<lambda>(y, r3). Inr (c # y, r3)))"
  by pat_completeness auto
termination
  by (relation "measure (\<lambda>(_, s). length s)") (auto dest: unicode_escape_shorter)

declare scan_string.simps [simp del]

text \<open>Numbers: an integer part, then optionally a fraction and an exponent.\<close>

definition is_digit :: "char \<Rightarrow> bool" where
  "is_digit c \<longleftrightarrow> 48 \<le> (of_char c :: nat) \<and> (of_char c :: nat) \<le> 57"

definition digits_value :: "string \<Rightarrow> nat" where
  "digits_value ds = foldl (\<lambda>acc c. 10 * acc + (of_char c - 48)) 0 ds"

definition scan_int :: "string \<Rightarrow> (string \<times> string) option" where
  "scan_int s =
     (case s of
        [] \<Rightarrow> None
      | c # r \<Rightarrow>
          if c = CHR ''0'' then Some ([c], r)
          else if is_digit c then Some (takeWhile is_digit s, dropWhile is_digit s)
          else None)"

definition scan_fraction :: "string \<Rightarrow> string \<times> string" where
  "scan_fraction s =
     (case s of
        c # d # r \<Rightarrow>
          if c = CHR ''.'' \<and> is_digit d then (c # takeWhile is_digit (d # r), dropWhile is_digit (d # r))
          else ([], s)
      | _ \<Rightarrow> ([], s))"

definition scan_exponent :: "string \<Rightarrow> string \<times> string" where
  "scan_exponent s =
     (case s of
        c # r \<Rightarrow>
          if c = CHR ''e'' \<or> c = CHR ''E'' then
            let sign = (if take 1 r = ''+'' \<or> take 1 r = ''-'' then take 1 r else []);
                ds = takeWhile is_digit (drop (length sign) r)
            in if ds = [] then ([], s) else (c # sign @ ds, dropWhile is_digit (drop (length sign) r))
          else ([], s)
      | [] \<Rightarrow> ([], s))"

text \<open>\<open>int(text)\<close> refuses more than 4300 digits.\<close>

definition scan_number :: "(string \<Rightarrow> pyfloat) \<Rightarrow> string \<Rightarrow> (pyval \<times> string) result" where
  "scan_number fp s =
     (let neg = (take 1 s = ''-'')
      in case scan_int (if neg then drop 1 s else s) of
        None \<Rightarrow>
          if take 9 s = ''-Infinity'' then Inr (PFloat NegInf, drop 9 s) else json_error ''Expecting value''
      | Some (ds, r) \<Rightarrow>
          (case scan_fraction r of (dec, r2) \<Rightarrow>
          (case scan_exponent r2 of (ex, r3) \<Rightarrow>
             if dec = [] \<and> ex = []
             then if int (length ds) > 4300 then Raise ValueError ''Exceeds the limit for integer string conversion''
                  else Inr (PInt (if neg then - int (digits_value ds) else int (digits_value ds)), r3)
             else Inr (PFloat (fp ((if neg then ''-'' else []) @ ds @ dec @ ex)), r3))))"

definition starts :: "string \<Rightarrow> string \<Rightarrow> bool" where
  "starts p s \<longleftrightarrow> take (length p) s = p"

definition scan_atom :: "(string \<Rightarrow> pyfloat) \<Rightarrow> string \<Rightarrow> (pyval \<times> string) result" where
  "scan_atom fp s =
     (if starts ''null'' s then Inr (PNone, drop 4 s)
      else if starts ''true'' s then Inr (PBool True, drop 4 s)
      else if starts ''false'' s then Inr (PBool False, drop 5 s)
      else if starts ''NaN'' s then Inr (PFloat NaN, drop 3 s)
      else if starts ''Infinity'' s then Inr (PFloat PosInf, drop 8 s)
      else scan_number fp s)"

lemma skip_ws_length: "length (skip_ws s) \<le> length s"
  by (simp add: skip_ws_def length_dropWhile_le)

text \<open>
  Values. \<open>scan_elements\<close> and \<open>scan_members\<close> stand at the first character of an element or of a
  key. The tests on lengths never fail (\<open>scan_consumes\<close>); they make the recursion visible.
\<close>

function scan_value :: "(nat \<Rightarrow> string) \<Rightarrow> (string \<Rightarrow> pyfloat) \<Rightarrow> string \<Rightarrow> (pyval \<times> string) result"
  and scan_elements :: "(nat \<Rightarrow> string) \<Rightarrow> (string \<Rightarrow> pyfloat) \<Rightarrow> string \<Rightarrow> (pyval list \<times> string) result"
  and scan_members :: "(nat \<Rightarrow> string) \<Rightarrow> (string \<Rightarrow> pyfloat) \<Rightarrow> string \<Rightarrow> (pydict \<times> string) result" where
  "scan_value wide fp s =
     (case s of
        [] \<Rightarrow> json_error ''Expecting value''
      | c # cs \<Rightarrow>
          if c = CHR 34 then and_then (scan_string wide cs) (\<lambda>(x, r). Inr (PStr x, r))
          else if c = CHR ''{'' then
            if starts ''}'' (skip_ws cs) then Inr (PDict [], drop 1 (skip_ws cs))
            else and_then (scan_members wide fp (skip_ws cs)) (\<lambda>(pairs, r). Inr (PDict (d_update [] pairs), r))
          else if c = CHR ''['' then
            if starts '']'' (skip_ws cs) then Inr (PList [], drop 1 (skip_ws cs))
            else and_then (scan_elements wide fp (skip_ws cs)) (\<lambda>(xs, r). Inr (PList xs, r))
          else scan_atom fp s)"
| "scan_elements wide fp s =
     and_then (scan_value wide fp s) (\<lambda>(v, r).
       if \<not> length r < length s then json_error ''Expecting value''
       else case skip_ws r of
         [] \<Rightarrow> json_error ''Expecting , delimiter''
       | c # r1 \<Rightarrow>
           if c = CHR '']'' then Inr ([v], r1)
           else if c = CHR '','' then
             if \<not> length (skip_ws r1) < length s then json_error ''Expecting value''
             else and_then (scan_elements wide fp (skip_ws r1)) (\<lambda>(vs, r2). Inr (v # vs, r2))
           else json_error ''Expecting , delimiter'')"
| "scan_members wide fp s =
     (case s of
        [] \<Rightarrow> json_error ''Expecting property name enclosed in double quotes''
      | q # s1 \<Rightarrow>
          if q \<noteq> CHR 34 then json_error ''Expecting property name enclosed in double quotes''
          else
          and_then (scan_string wide s1) (\<lambda>(k, r0).
          if \<not> starts '':'' (skip_ws r0) \<or> \<not> length (skip_ws (drop 1 (skip_ws r0))) < length s
          then json_error ''Expecting : delimiter''
          else
          and_then (scan_value wide fp (skip_ws (drop 1 (skip_ws r0)))) (\<lambda>(v, r).
          case skip_ws r of
            [] \<Rightarrow> json_error ''Expecting , delimiter''
          | c # r1 \<Rightarrow>
              if c = CHR ''}'' then Inr ([(k, v)], r1)
              else if c = CHR '','' then
                if \<not> length (skip_ws r1) < length s then json_error ''Expecting value''
                else and_then (scan_members wide fp (skip_ws r1)) (\<lambda>(m, r2). Inr ((k, v) # m, r2))
              else json_error ''Expecting , delimiter'')))"
  by pat_completeness auto
termination
proof (relation "measure (\<lambda>x. case x of
    Inl (_, _, s) \<Rightarrow> 2 * length s
  | Inr (Inl (_, _, s)) \<Rightarrow> 2 * length s + 1
  | Inr (Inr (_, _, s)) \<Rightarrow> 2 * length s + 1)", goal_cases)
qed (use skip_ws_length in \<open>auto intro: le_imp_less_Suc\<close>)

declare scan_value.simps [simp del] scan_elements.simps [simp del] scan_members.simps [simp del]

text \<open>\<open>JSONDecoder.decode\<close>: one value with white space around it.\<close>

definition json_loads :: "(nat \<Rightarrow> string) \<Rightarrow> (string \<Rightarrow> pyfloat) \<Rightarrow> string \<Rightarrow> pyval result" where
  "json_loads wide fp s =
     and_then (scan_value wide fp (skip_ws s)) (\<lambda>(v, r).
       if skip_ws r = [] then Inr v else json_error ''Extra data'')"

subsection \<open>Every scan consumes input\<close>

lemma scan_string_Nil [simp]: "scan_string wide [] = json_error ''Unterminated string''"
  by (simp add: scan_string.simps)

lemma scan_string_Cons:
  "scan_string wide (c # cs) =
     (if c = CHR 34 then Inr ([], cs)
      else if c = CHR 92 then
        (case cs of
           [] \<Rightarrow> json_error ''Unterminated string''
         | e # r \<Rightarrow>
             if e = CHR ''u'' then
               (case unicode_escape wide r of
                  None \<Rightarrow> json_error ''Invalid escape''
                | Some (x, r2) \<Rightarrow> and_then (scan_string wide r2) (\<lambda>(y, r3). Inr (x @ y, r3)))
             else
               (case plain_escape e of
                  None \<Rightarrow> json_error ''Invalid escape''
                | Some x \<Rightarrow> and_then (scan_string wide r) (\<lambda>(y, r3). Inr (x # y, r3))))
      else if (of_char c :: nat) < 32 then json_error ''Invalid control character''
      else and_then (scan_string wide cs) (\<lambda>(y, r3). Inr (c # y, r3)))"
  by (subst scan_string.simps) simp

lemma json_error_not_Inr [simp]: "json_error m \<noteq> Inr x"
  by (simp add: json_error_def)

lemma scan_string_consumes: "scan_string wide s = Inr (x, r) \<Longrightarrow> length r < length s"
proof (induction "length s" arbitrary: s x r rule: less_induct)
  case less
  show ?case
  proof (cases s)
    case (Cons c cs)
    consider "c = CHR 34" "r = cs"
      | e cs' t x' where "cs = e # cs'" "length t \<le> length cs'" "scan_string wide t = Inr (x', r)"
      | x' where "scan_string wide cs = Inr (x', r)"
    proof (cases "c = CHR 92")
      case True
      then obtain e cs' where e: "cs = e # cs'" using less.prems Cons by (cases cs) (auto simp: scan_string_Cons)
      show ?thesis
      proof (cases "e = CHR ''u''")
        case True
        then obtain y t x' where "unicode_escape wide cs' = Some (y, t)" "scan_string wide t = Inr (x', r)"
          using less.prems Cons e \<open>c = CHR 92\<close>
          by (auto simp: scan_string_Cons and_then_Inr_iff split: option.splits)
        then show ?thesis using that(2) [OF e, of t] unicode_escape_shorter by fastforce
      next
        case False
        then show ?thesis using less.prems Cons e \<open>c = CHR 92\<close> that(2) [OF e, of cs']
          by (auto simp: scan_string_Cons and_then_Inr_iff split: option.splits)
      qed
    next
      case False
      then show ?thesis using less.prems Cons that(1,3)
        by (auto simp: scan_string_Cons and_then_Inr_iff split: if_splits)
    qed
    then show ?thesis
    proof cases
      case (2 e cs' t x')
      then show ?thesis using less.hyps [of t] Cons by fastforce
    next
      case (3 x')
      then show ?thesis using less.hyps [of cs] Cons by fastforce
    qed (simp add: Cons)
  qed (use less.prems in simp)
qed

lemma scan_int_consumes: "scan_int s = Some (ds, r) \<Longrightarrow> length r < length s"
  by (auto simp: scan_int_def length_dropWhile_le le_imp_less_Suc split: list.splits if_splits)

lemma scan_fraction_length: "scan_fraction s = (x, r) \<Longrightarrow> length r \<le> length s"
  by (auto simp: scan_fraction_def le_SucI length_dropWhile_le split: list.splits if_splits)

lemma scan_exponent_length: "scan_exponent s = (x, r) \<Longrightarrow> length r \<le> length s"
  using length_dropWhile_le [of is_digit]
  by (fastforce simp: scan_exponent_def Let_def intro: le_trans split: list.splits if_splits)

lemma scan_number_consumes:
  assumes "scan_number fp s = Inr (v, r)"
  shows "length r < length s"
proof (cases "scan_int (if take 1 s = ''-'' then drop 1 s else s)")
  case None
  then have "take 9 s = ''-Infinity''" "r = drop 9 s"
    using assms by (auto simp: scan_number_def json_error_def split: if_splits)
  then show ?thesis by (cases s) auto
next
  case (Some p)
  obtain ds r1 where p: "p = (ds, r1)" by (cases p)
  obtain x r2 y r3 where f: "scan_fraction r1 = (x, r2)" "scan_exponent r2 = (y, r3)" by fastforce
  have "r = r3" using assms Some p f by (auto simp: scan_number_def Let_def split: if_splits)
  moreover have "length r1 < length s"
    using scan_int_consumes Some p by (fastforce split: if_splits)
  ultimately show ?thesis using scan_fraction_length [OF f(1)] scan_exponent_length [OF f(2)] by simp
qed

lemma starts_length: "starts p s \<Longrightarrow> length p \<le> length s"
  by (metis length_take min.cobounded1 starts_def)

lemma scan_atom_consumes: "scan_atom fp s = Inr (v, r) \<Longrightarrow> length r < length s"
  by (auto simp: scan_atom_def split: if_splits dest: scan_number_consumes dest!: starts_length)

lemma skip_ws_cons: "skip_ws s = c # r \<Longrightarrow> length r < length s"
  using skip_ws_length [of s] by simp

lemma scan_value_cases:
  assumes "scan_value wide fp s = Inr (v, r)"
  obtains (string) cs x where "s = CHR 34 # cs" "scan_string wide cs = Inr (x, r)" "v = PStr x"
  | (empty) c cs e where "s = c # cs" "skip_ws cs = e # r"
  | (members) c cs m where "s = c # cs" "scan_members wide fp (skip_ws cs) = Inr (m, r)" "c = CHR ''{''" "\<not> starts ''}'' (skip_ws cs)"
  | (elements) c cs vs where "s = c # cs" "scan_elements wide fp (skip_ws cs) = Inr (vs, r)" "c = CHR ''[''" "\<not> starts '']'' (skip_ws cs)"
  | (atom) "scan_atom fp s = Inr (v, r)"
proof (cases s)
  case Nil
  then show ?thesis using assms by (simp add: scan_value.simps)
next
  case (Cons c cs)
  have st: "starts [d] u \<longleftrightarrow> (\<exists>w. u = d # w)" for d u by (cases u) (auto simp: starts_def)
  show ?thesis using assms that Cons unfolding Cons scan_value.simps [of wide fp "c # cs"]
    by (auto simp: and_then_Inr_iff st split: if_splits)
qed

text \<open>What a successful call of \<open>scan_members\<close> has read.\<close>

definition after_value ::
  "(nat \<Rightarrow> string) \<Rightarrow> (string \<Rightarrow> pyfloat) \<Rightarrow> string \<Rightarrow> string \<Rightarrow> pyval \<Rightarrow> string \<Rightarrow> (pydict \<times> string) result" where
  "after_value wide fp s k v r =
     (case skip_ws r of
        [] \<Rightarrow> json_error ''Expecting , delimiter''
      | c # r1 \<Rightarrow>
          if c = CHR ''}'' then Inr ([(k, v)], r1)
          else if c = CHR '','' then
            if \<not> length (skip_ws r1) < length s then json_error ''Expecting value''
            else and_then (scan_members wide fp (skip_ws r1)) (\<lambda>(m, r2). Inr ((k, v) # m, r2))
          else json_error ''Expecting , delimiter'')"

lemma scan_members_Cons:
  "scan_members wide fp (q # s1) =
     (if q \<noteq> CHR 34 then json_error ''Expecting property name enclosed in double quotes''
      else
      and_then (scan_string wide s1) (\<lambda>(k, r0).
      if \<not> starts '':'' (skip_ws r0) \<or> \<not> length (skip_ws (drop 1 (skip_ws r0))) < length (q # s1)
      then json_error ''Expecting : delimiter''
      else
      and_then (scan_value wide fp (skip_ws (drop 1 (skip_ws r0)))) (\<lambda>(v, r).
      after_value wide fp (q # s1) k v r)))"
  unfolding after_value_def by (subst scan_members.simps) (simp only: list.case)

lemma scan_members_cases:
  assumes "scan_members wide fp s = Inr (m, r)"
  obtains s1 k r0 v r2 where "s = CHR 34 # s1" "scan_string wide s1 = Inr (k, r0)"
    "\<not> (\<not> starts '':'' (skip_ws r0) \<or> \<not> length (skip_ws (drop 1 (skip_ws r0))) < length s)"
    "scan_value wide fp (skip_ws (drop 1 (skip_ws r0))) = Inr (v, r2)" "after_value wide fp s k v r2 = Inr (m, r)"
proof -
  obtain s1 where s: "s = CHR 34 # s1"
    using assms by (cases s) (auto simp: scan_members.simps [of wide fp "[]"] scan_members_Cons split: if_splits)
  obtain k r0 where k: "scan_string wide s1 = Inr (k, r0)"
    using assms unfolding s scan_members_Cons by (cases "scan_string wide s1") auto
  have g: "\<not> (\<not> starts '':'' (skip_ws r0) \<or> \<not> length (skip_ws (drop 1 (skip_ws r0))) < length s)"
    using assms unfolding s scan_members_Cons k by (auto split: if_splits)
  obtain v r2 where v: "scan_value wide fp (skip_ws (drop 1 (skip_ws r0))) = Inr (v, r2)"
    using assms g unfolding s scan_members_Cons k
    by (cases "scan_value wide fp (skip_ws (drop 1 (skip_ws r0)))") (auto split: if_splits)
  have "after_value wide fp s k v r2 = Inr (m, r)"
    using assms g unfolding s scan_members_Cons k by (auto simp: v [simplified] split: if_splits)
  with s k g v show thesis by (rule that)
qed

lemma after_value_Inr:
  assumes "after_value wide fp s k v r2 = Inr (m, r)"
  obtains c r1 where "skip_ws r2 = c # r1" "r = r1"
  | c r1 m' where "skip_ws r2 = c # r1" "c \<noteq> CHR ''}''" "c = CHR '',''" "\<not> \<not> length (skip_ws r1) < length s"
      "scan_members wide fp (skip_ws r1) = Inr (m', r)"
  using assms that by (auto simp: after_value_def and_then_Inr_iff split: list.splits if_splits)

lemma scan_consumes:
  "scan_value wide fp s = Inr (v, r) \<Longrightarrow> length r < length s"
  "scan_elements wide fp s = Inr (vs, r) \<Longrightarrow> length r < length s"
  "scan_members wide fp s = Inr (m, r) \<Longrightarrow> length r < length s"
proof (induction wide fp s and wide fp s and wide fp s arbitrary: v r and vs r and m r
    rule: scan_value_scan_elements_scan_members.induct)
  case (1 wide fp s)
  from "1.prems" show ?case
  proof (cases rule: scan_value_cases)
    case string
    then show ?thesis using scan_string_consumes by fastforce
  next
    case (empty c cs e)
    then show ?thesis using skip_ws_cons [of cs e r] by simp
  next
    case (members c cs m)
    then show ?thesis using "1.IH"(1) [of c cs m r] skip_ws_length [of cs] by simp
  next
    case (elements c cs vs)
    then show ?thesis using "1.IH"(2) [of c cs vs r] skip_ws_length [of cs] by simp
  next
    case atom
    then show ?thesis by (rule scan_atom_consumes)
  qed
next
  case (2 wide fp s)
  from "2.prems" obtain v r0 c r1 where v: "scan_value wide fp s = Inr (v, r0)" "length r0 < length s"
    "skip_ws r0 = c # r1"
    by (auto simp: scan_elements.simps [of wide fp s] and_then_Inr_iff split: if_splits list.splits)
  have "r = r1 \<or> (\<exists>vs'. c \<noteq> CHR '']'' \<and> c = CHR '','' \<and> length (skip_ws r1) < length s \<and>
      scan_elements wide fp (skip_ws r1) = Inr (vs', r))"
    using "2.prems" v
    by (simp add: scan_elements.simps [of wide fp s] and_then_Inr_iff split: if_splits) blast
  then show ?case
  proof
    assume "r = r1"
    then show ?thesis using skip_ws_cons [OF v(3)] v(2) by simp
  next
    assume "\<exists>vs'. c \<noteq> CHR '']'' \<and> c = CHR '','' \<and> length (skip_ws r1) < length s \<and>
      scan_elements wide fp (skip_ws r1) = Inr (vs', r)"
    then obtain vs' where "c \<noteq> CHR '']''" "c = CHR '',''" "length (skip_ws r1) < length s"
      "scan_elements wide fp (skip_ws r1) = Inr (vs', r)" by blast
    then show ?thesis using "2.IH"(2) [OF v(1) refl _ v(3)] v(2) by fastforce
  qed
next
  case (3 wide fp s)
  from "3.prems" obtain s1 k r0 v r2 where s: "s = CHR 34 # s1" "scan_string wide s1 = Inr (k, r0)"
    "\<not> (\<not> starts '':'' (skip_ws r0) \<or> \<not> length (skip_ws (drop 1 (skip_ws r0))) < length s)"
    "scan_value wide fp (skip_ws (drop 1 (skip_ws r0))) = Inr (v, r2)" "after_value wide fp s k v r2 = Inr (m, r)"
    by (rule scan_members_cases)
  have l: "length r2 < length s" using "3.IH"(1) [OF s(1) _ s(2) refl s(3) s(4)] s(3) by simp
  from s(5) show ?case
  proof (cases rule: after_value_Inr)
    case (1 c r1)
    then show ?thesis using skip_ws_cons [OF 1(1)] l by simp
  next
    case (2 c r1 m')
    then show ?thesis
      using "3.IH"(2) [OF s(1) _ s(2) refl s(3) s(4) refl 2(1,2,3,4,5)] by simp
  qed
qed

subsection \<open>Escapes\<close>

text \<open>
  What the printer promises the reader of a string: after the text of a character the scanner
  has read that character and stands behind it.
\<close>

locale json_escaping =
  fixes esc :: "char \<Rightarrow> string"
  assumes scan_esc:
    "scan_string wide (esc c @ r) = and_then (scan_string wide r) (\<lambda>(y, r3). Inr (c # y, r3))"
begin

lemma scan_json_string: "scan_string wide (concat (map esc s) @ CHR 34 # r) = Inr (s, r)"
  by (induction s) (simp_all add: scan_esc, simp add: scan_string_Cons)

end

definition escape_ok :: "(char \<Rightarrow> string) \<Rightarrow> char \<Rightarrow> bool" where
  "escape_ok esc c =
     (case esc c of
        [x] \<Rightarrow> x = c \<and> c \<noteq> CHR 34 \<and> c \<noteq> CHR 92 \<and> 32 \<le> (of_char c :: nat)
      | [b, e] \<Rightarrow> b = CHR 92 \<and> e \<noteq> CHR ''u'' \<and> plain_escape e = Some c
      | b # u # h \<Rightarrow> b = CHR 92 \<and> u = CHR ''u'' \<and> length h = 4 \<and> hex4 h = Some (of_char c, [])
      | [] \<Rightarrow> False)"

lemma hex4_append: "hex4 h = Some (n, []) \<Longrightarrow> hex4 (h @ r) = Some (n, r)"
  by (cases h rule: hex4.cases) (auto split: option.splits)

lemma of_char_less: "(of_char c :: nat) < 256"
  by simp

lemma escape_ok_scan:
  assumes "escape_ok esc c"
  shows "scan_string wide (esc c @ r) = and_then (scan_string wide r) (\<lambda>(y, r3). Inr (c # y, r3))"
proof -
  consider "esc c = [c]" "c \<noteq> CHR 34" "c \<noteq> CHR 92" "32 \<le> (of_char c :: nat)"
    | e where "esc c = [CHR 92, e]" "e \<noteq> CHR ''u''" "plain_escape e = Some c"
    | h where "esc c = CHR 92 # CHR ''u'' # h" "hex4 h = Some (of_char c, [])"
    using assms by (auto simp: escape_ok_def split: list.splits)
  then show ?thesis
  proof cases
    case 3
    have "\<not> 55296 \<le> (of_char c :: nat)" using of_char_less [of c] by linarith
    then have "unicode_escape wide (h @ r) = Some ([c], r)"
      by (simp add: unicode_escape_def hex4_append [OF 3(2)] code_point_def)
    then show ?thesis by (simp add: 3(1) scan_string_Cons)
  qed (simp_all add: scan_string_Cons)
qed

lemma hex_value_digit: "d < 16 \<Longrightarrow> hex_value (hex_digit d) = Some d"
  by (auto simp: hex_value_def digit_value_def hex_digit_def Let_def)

lemma hex4_byte: "n < 256 \<Longrightarrow> hex4 [CHR ''0'', CHR ''0'', hex_digit (n div 16), hex_digit (n mod 16)] = Some (n, [])"
proof -
  assume "n < 256"
  then have "n div 16 < 16" "n mod 16 < 16" by (simp_all add: less_mult_imp_div_less)
  moreover have "hex_value (CHR ''0'') = Some 0" by (simp add: hex_value_def digit_value_def)
  ultimately show ?thesis by (simp add: hex_value_digit)
qed

lemma char_of_code: "of_char c = n \<Longrightarrow> c = char_of (n :: nat)"
  by auto

lemma escape_ok_canonical: "escape_ok json_escape_char c"
proof -
  define n :: nat where "n = of_char c"
  have special: "escape_ok json_escape_char (CHR 34)" "escape_ok json_escape_char (CHR 92)"
    "escape_ok json_escape_char (CHR 8)" "escape_ok json_escape_char (CHR 12)"
    "escape_ok json_escape_char (CHR 10)" "escape_ok json_escape_char (CHR 13)"
    "escape_ok json_escape_char (CHR 9)"
    by code_simp+
  have table: "char_of (34 :: nat) = CHR 34" "char_of (92 :: nat) = CHR 92" "char_of (8 :: nat) = CHR 8"
    "char_of (12 :: nat) = CHR 12" "char_of (10 :: nat) = CHR 10" "char_of (13 :: nat) = CHR 13"
    "char_of (9 :: nat) = CHR 9"
    by code_simp+
  have cn: "c = char_of n" by (simp add: n_def)
  have codes: "n = 34 \<Longrightarrow> c = CHR 34" "n = 92 \<Longrightarrow> c = CHR 92" "n = 8 \<Longrightarrow> c = CHR 8" "n = 12 \<Longrightarrow> c = CHR 12"
    "n = 10 \<Longrightarrow> c = CHR 10" "n = 13 \<Longrightarrow> c = CHR 13" "n = 9 \<Longrightarrow> c = CHR 9"
    unfolding cn by (simp_all add: table)
  show ?thesis
  proof (cases "n \<in> {34, 92, 8, 12, 10, 13, 9}")
    case True
    then show ?thesis using special codes by auto
  next
    case False
    then have e: "json_escape_char c = (if n < 32 then [CHR 92, CHR ''u'', CHR ''0'', CHR ''0'',
        hex_digit (n div 16), hex_digit (n mod 16)] else [c])"
      by (simp add: json_escape_char_def n_def Let_def)
    have "c \<noteq> CHR 34" "c \<noteq> CHR 92" using False by (auto simp: n_def)
    then show ?thesis using hex4_byte [of n] by (simp add: escape_ok_def e) (simp add: n_def)
  qed
qed

interpretation canonical_escaping: json_escaping json_escape_char
  by unfold_locales (rule escape_ok_scan [OF escape_ok_canonical])

interpretation ascii_escaping: json_escaping ascii_escape_char
proof
  have "escape_ok ascii_escape_char c" for c
  proof (cases "(of_char c :: nat) < 127")
    case True
    then show ?thesis using escape_ok_canonical [of c] by (simp add: escape_ok_def ascii_escape_char_def)
  next
    case False
    then show ?thesis using hex4_byte [of "of_char c"] of_char_less [of c]
      by (simp add: escape_ok_def ascii_escape_char_def Let_def)
  qed
  then show "scan_string wide (ascii_escape_char c @ r) = and_then (scan_string wide r) (\<lambda>(y, r3). Inr (c # y, r3))"
    for wide c r by (rule escape_ok_scan)
qed

subsection \<open>Integers\<close>

lemma digit_char_facts:
  "d < 10 \<Longrightarrow> is_digit (digit_char d) \<and> of_char (digit_char d) - (48 :: nat) = d \<and> (digit_char d = CHR ''0'' \<longleftrightarrow> d = 0)"
proof -
  have "\<forall>d \<in> {..<10}. is_digit (digit_char d) \<and> of_char (digit_char d) - (48 :: nat) = d \<and> (digit_char d = CHR ''0'' \<longleftrightarrow> d = 0)"
    by code_simp
  then show "d < 10 \<Longrightarrow> ?thesis" by simp
qed

lemma nat_text_digits: "list_all is_digit (nat_text n)"
proof (induction n rule: nat_text.induct)
  case (1 n)
  then show ?case using digit_char_facts [of n] digit_char_facts [of "n mod 10"]
    by (simp add: nat_text.simps [of n])
qed

lemma nat_text_value: "digits_value (nat_text n) = n"
proof (induction n rule: nat_text.induct)
  case (1 n)
  then show ?case using digit_char_facts [of n] digit_char_facts [of "n mod 10"]
    by (simp add: nat_text.simps [of n] digits_value_def)
qed

lemma nat_text_head: "\<exists>c cs. nat_text n = c # cs \<and> is_digit c \<and> (c = CHR ''0'' \<longrightarrow> cs = [])"
proof (induction n rule: nat_text.induct)
  case (1 n)
  show ?case
  proof (cases "n < 10")
    case True
    then show ?thesis using digit_char_facts [of n] by (simp add: nat_text.simps [of n])
  next
    case False
    then obtain c cs where c: "nat_text (n div 10) = c # cs" "is_digit c" "c = CHR ''0'' \<longrightarrow> cs = []"
      using 1 by blast
    have "c \<noteq> CHR ''0''"
    proof
      assume "c = CHR ''0''"
      then have "nat_text (n div 10) = ''0''" using c by simp
      then have "digits_value (nat_text (n div 10)) = 0" by (simp add: digits_value_def)
      then show False using False by (simp add: nat_text_value)
    qed
    then show ?thesis using False c by (simp add: nat_text.simps [of n])
  qed
qed

text \<open>Where a printed value ends: at the end of the text or before a delimiter.\<close>

definition stops :: "string \<Rightarrow> bool" where
  "stops r \<longleftrightarrow> (case r of [] \<Rightarrow> True | c # _ \<Rightarrow> c = CHR '','' \<or> c = CHR '']'' \<or> c = CHR ''}'')"

lemma stops_simps [simp]: "stops []" "stops (CHR '','' # r)" "stops (CHR '']'' # r)" "stops (CHR ''}'' # r)"
  by (simp_all add: stops_def)

lemma stops_digits: "stops r \<Longrightarrow> takeWhile is_digit r = [] \<and> dropWhile is_digit r = r"
proof (cases r)
  case (Cons c cs)
  have "\<not> is_digit (CHR '','')" "\<not> is_digit (CHR '']'')" "\<not> is_digit (CHR ''}'')" by code_simp+
  then show "stops r \<Longrightarrow> ?thesis" using Cons by (auto simp: stops_def)
qed simp

lemma scan_int_text:
  assumes "stops r"
  shows "scan_int (nat_text n @ r) = Some (nat_text n, r)"
proof -
  obtain c cs where c: "nat_text n = c # cs" "is_digit c" "c = CHR ''0'' \<longrightarrow> cs = []" using nat_text_head by blast
  have all: "\<forall>d \<in> set (nat_text n). is_digit d" using nat_text_digits by (simp add: list_all_iff)
  show ?thesis
  proof (cases "c = CHR ''0''")
    case True
    then show ?thesis using c by (simp add: scan_int_def)
  next
    case False
    have "takeWhile is_digit (nat_text n @ r) = nat_text n" "dropWhile is_digit (nat_text n @ r) = r"
      using all stops_digits [OF assms] by (simp_all add: takeWhile_append2 dropWhile_append2)
    then show ?thesis using False c by (simp add: scan_int_def)
  qed
qed

lemma stops_number: "stops r \<Longrightarrow> scan_fraction r = ([], r) \<and> scan_exponent r = ([], r)"
  by (cases r; cases "tl r") (auto simp: stops_def scan_fraction_def scan_exponent_def)

lemma digit_not_minus: "is_digit c \<Longrightarrow> c \<noteq> CHR ''-''"
  by (auto simp: is_digit_def)

lemma scan_number_int_text:
  assumes "stops r" and "length (nat_text (nat \<bar>i\<bar>)) \<le> 4300"
  shows "scan_number fp (int_text i @ r) = Inr (PInt i, r)"
proof (cases "i < 0")
  case True
  then show ?thesis using assms scan_int_text [OF assms(1), of "nat (- i)"] stops_number [OF assms(1)]
    by (simp add: scan_number_def int_text_def nat_text_value)
next
  case False
  obtain c cs where c: "nat_text (nat i) = c # cs" "is_digit c" using nat_text_head by blast
  then have "take 1 (int_text i @ r) \<noteq> ''-''" using False digit_not_minus by (simp add: int_text_def)
  then show ?thesis using False assms scan_int_text [OF assms(1), of "nat i"] stops_number [OF assms(1)]
    by (simp add: scan_number_def int_text_def nat_text_value)
qed

text \<open>The first character of a printed value: not white space and no closing bracket.\<close>

definition head_ok :: "string \<Rightarrow> bool" where
  "head_ok t \<longleftrightarrow> (case t of [] \<Rightarrow> False | c # _ \<Rightarrow> \<not> json_ws c \<and> c \<noteq> CHR '']'' \<and> c \<noteq> CHR ''}'')"

lemma int_text_head:
  "\<exists>c cs. int_text i = c # cs \<and> (c = CHR ''-'' \<or> is_digit c)"
  using nat_text_head [of "nat i"] nat_text_head [of "nat (- i)"] by (auto simp: int_text_def)

lemma digit_head:
  assumes "c = CHR ''-'' \<or> is_digit c"
  shows "\<not> json_ws c \<and> c \<notin> set ''][}{ntfNI'' \<and> c \<noteq> CHR 34"
  using assms by (auto simp: json_ws_def is_digit_def)

lemma scan_value_int_text:
  assumes "stops r" and "length (nat_text (nat \<bar>i\<bar>)) \<le> 4300"
  shows "head_ok (int_text i) \<and> scan_value wide fp (int_text i @ r) = Inr (PInt i, r)"
proof -
  obtain c cs where c: "int_text i = c # cs" "c = CHR ''-'' \<or> is_digit c" using int_text_head by blast
  note h = digit_head [OF c(2)]
  have "scan_value wide fp (int_text i @ r) = scan_atom fp (int_text i @ r)"
    using c h by (simp add: scan_value.simps)
  also have "\<dots> = scan_number fp (int_text i @ r)"
    using c h by (simp add: scan_atom_def starts_def)
  also have "\<dots> = Inr (PInt i, r)" using assms by (rule scan_number_int_text)
  finally show ?thesis using c h by (simp add: head_ok_def)
qed

subsection \<open>Round trip\<close>

text \<open>
  The values that survive a round trip: no floats and no objects, integers of at most 4300
  digits, dictionaries without repeated keys. Reading returns them with their keys sorted.
\<close>

fun wire_value :: "pyval \<Rightarrow> bool" where
  "wire_value (PInt i) = (length (nat_text (nat \<bar>i\<bar>)) \<le> 4300)"
| "wire_value (PFloat _) = False"
| "wire_value (PList xs) = list_all wire_value xs"
| "wire_value (PDict d) = (distinct (map fst d) \<and> list_all (\<lambda>(k, v). wire_value v) d)"
| "wire_value (PObj _ _) = False"
| "wire_value (PFun _) = False"
| "wire_value _ = True"

fun sort_keys :: "pyval \<Rightarrow> pyval" where
  "sort_keys (PList xs) = PList (map sort_keys xs)"
| "sort_keys (PDict d) = PDict (sort_key fst (map (\<lambda>(k, v). (k, sort_keys v)) d))"
| "sort_keys v = v"

lemma skip_ws_head: "head_ok t \<Longrightarrow> skip_ws (t @ r) = t @ r"
  by (cases t) (simp_all add: head_ok_def skip_ws_def)

lemma not_ws [simp]: "\<not> json_ws (CHR '','')" "\<not> json_ws (CHR '']'')" "\<not> json_ws (CHR ''}'')" "\<not> json_ws (CHR '':'')"
  "\<not> json_ws (CHR 34)"
  by code_simp+

lemma skip_ws_delimiter [simp]:
  "skip_ws (CHR '','' # r) = CHR '','' # r" "skip_ws (CHR '']'' # r) = CHR '']'' # r"
  "skip_ws (CHR ''}'' # r) = CHR ''}'' # r" "skip_ws (CHR '':'' # r) = CHR '':'' # r"
  "skip_ws (CHR 34 # r) = CHR 34 # r" "skip_ws [] = []"
  by (simp_all add: skip_ws_def)

lemma starts_single: "starts [d] u \<longleftrightarrow> (\<exists>w. u = d # w)"
  by (cases u) (auto simp: starts_def)

lemma d_update_distinct:
  assumes "distinct (map fst d)"
  shows "d_update [] d = d"
proof -
  have "d_set acc k v = acc @ [(k, v)]" if "k \<notin> fst ` set acc" for acc k v
    using that by (induction acc) auto
  then have "foldl (\<lambda>acc (k, v). d_set acc k v) acc d = acc @ d" if "fst ` set acc \<inter> fst ` set d = {}" for acc
    using assms that by (induction d arbitrary: acc) auto
  then show ?thesis by (simp add: d_update_def)
qed

text \<open>\<open>reads t v\<close>: the text \<open>t\<close>, followed by a delimiter, reads as \<open>v\<close> with sorted keys.\<close>

definition reads :: "(nat \<Rightarrow> string) \<Rightarrow> (string \<Rightarrow> pyfloat) \<Rightarrow> string \<Rightarrow> pyval \<Rightarrow> bool" where
  "reads wide fp t v \<longleftrightarrow> head_ok t \<and> (\<forall>r. stops r \<longrightarrow> scan_value wide fp (t @ r) = Inr (sort_keys v, r))"

lemma reads_elements:
  assumes "list_all2 (reads wide fp) ts vs" and "ts \<noteq> []"
  shows "head_ok (join_comma ts) \<and>
    scan_elements wide fp (join_comma ts @ CHR '']'' # r) = Inr (map sort_keys vs, r)"
  using assms
proof (induction ts vs rule: list_all2_induct)
  case (Cons t ts v vs)
  have h: "head_ok t" and s: "stops r \<Longrightarrow> scan_value wide fp (t @ r) = Inr (sort_keys v, r)" for r
    using Cons.hyps(1) by (auto simp: reads_def)
  have t: "t \<noteq> []" using h by (auto simp: head_ok_def)
  show ?case
  proof (cases ts)
    case Nil
    then have "vs = []" using Cons.hyps(2) by simp
    then show ?thesis using Nil h s [of "CHR '']'' # r"] t by (simp add: scan_elements.simps)
  next
    case (Cons u us)
    let ?rest = "join_comma ts @ CHR '']'' # r"
    have ih: "head_ok (join_comma ts)" "scan_elements wide fp ?rest = Inr (map sort_keys vs, r)"
      using Cons.IH Cons by auto
    have whole: "join_comma (t # ts) @ CHR '']'' # r = t @ CHR '','' # ?rest" by (simp add: Cons)
    have "head_ok (join_comma (t # ts))" using h t by (cases t) (auto simp: Cons head_ok_def)
    moreover have "scan_elements wide fp (t @ CHR '','' # ?rest) = Inr (map sort_keys (v # vs), r)"
      using s [of "CHR '','' # ?rest"] t skip_ws_head [OF ih(1), of "CHR '']'' # r"] ih(2)
      by (simp add: scan_elements.simps [of wide fp "t @ CHR '','' # ?rest"])
    ultimately show ?thesis unfolding whole by simp
  qed
qed simp

definition json_member :: "(char \<Rightarrow> string) \<Rightarrow> string \<times> string \<Rightarrow> string" where
  "json_member esc x = (case x of (k, t) \<Rightarrow> json_string esc k @ '':'' @ t)"

context json_escaping
begin

lemma scan_string_literal: "json_string esc s @ r = CHR 34 # concat (map esc s) @ CHR 34 # r"
  by (simp add: json_string_def)

lemma reads_string: "reads wide fp (json_string esc s) (PStr s)"
  unfolding reads_def
proof (intro conjI allI impI)
  show "head_ok (json_string esc s)" by (simp add: head_ok_def json_string_def)
  show "scan_value wide fp (json_string esc s @ r) = Inr (sort_keys (PStr s), r)" for r
    unfolding scan_string_literal by (simp add: scan_value.simps scan_json_string)
qed

lemma reads_members:
  assumes "list_all2 (\<lambda>(k, t) (k', v). k = k' \<and> reads wide fp t v) ts d" and "ts \<noteq> []"
  shows "(\<exists>u. join_comma (map (json_member esc) ts) = CHR 34 # u) \<and>
    scan_members wide fp (join_comma (map (json_member esc) ts) @ CHR ''}'' # r) =
      Inr (map (\<lambda>(k, v). (k, sort_keys v)) d, r)"
  using assms
proof (induction ts d rule: list_all2_induct)
  case (Cons x ts y d)
  obtain k t v where x: "x = (k, t)" "y = (k, v)" "reads wide fp t v" using Cons.hyps(1) by (cases x; cases y) auto
  have h: "head_ok t" and s: "stops r \<Longrightarrow> scan_value wide fp (t @ r) = Inr (sort_keys v, r)" for r
    using x(3) by (auto simp: reads_def)
  have one: "scan_members wide fp (json_member esc x @ q) =
      after_value wide fp (json_member esc x @ q) k (sort_keys v) q" if "stops q" for q
  proof -
    have m: "json_member esc x @ q = CHR 34 # concat (map esc k) @ CHR 34 # CHR '':'' # t @ q"
      by (simp add: json_member_def x json_string_def)
    show ?thesis unfolding m scan_members_Cons
      by (simp add: scan_json_string starts_single skip_ws_head [OF h] s [OF that])
  qed
  show ?case
  proof (cases ts)
    case Nil
    then have "d = []" using Cons.hyps(2) by simp
    then show ?thesis using Nil one [of "CHR ''}'' # r"]
      by (simp add: after_value_def x) (simp add: json_member_def json_string_def)
  next
    case (Cons z zs)
    let ?rest = "join_comma (map (json_member esc) ts) @ CHR ''}'' # r"
    obtain u where ih: "join_comma (map (json_member esc) ts) = CHR 34 # u"
      "scan_members wide fp ?rest = Inr (map (\<lambda>(k, v). (k, sort_keys v)) d, r)"
      using Cons.IH Cons by auto
    have whole: "join_comma (map (json_member esc) (x # ts)) @ CHR ''}'' # r = json_member esc x @ CHR '','' # ?rest"
      by (simp add: Cons)
    have ws: "skip_ws ?rest = ?rest" by (simp add: ih(1))
    have "scan_members wide fp (json_member esc x @ CHR '','' # ?rest) = Inr (map (\<lambda>(k, v). (k, sort_keys v)) (y # d), r)"
      using one [of "CHR '','' # ?rest"] ws ih(2) by (simp add: after_value_def x)
    moreover have "\<exists>u. join_comma (map (json_member esc) (x # ts)) = CHR 34 # u"
      by (simp add: Cons json_member_def x json_string_def)
    ultimately show ?thesis unfolding whole by blast
  qed
qed simp

lemma scan_value_list:
  assumes "list_all2 (reads wide fp) ts xs"
  shows "reads wide fp (''['' @ join_comma ts @ '']'') (PList xs)"
proof (cases "ts = []")
  case True
  then show ?thesis using assms
    by (simp add: reads_def head_ok_def json_ws_def scan_value.simps starts_single)
next
  case False
  note e = reads_elements [OF assms False]
  have "scan_value wide fp (''['' @ join_comma ts @ '']'' @ r) = Inr (PList (map sort_keys xs), r)" for r
  proof -
    have ws: "skip_ws (join_comma ts @ CHR '']'' # r) = join_comma ts @ CHR '']'' # r"
      using e skip_ws_head by blast
    have "\<not> starts '']'' (join_comma ts @ CHR '']'' # r)"
      using e by (cases "join_comma ts") (auto simp: starts_single head_ok_def)
    then show ?thesis using e ws by (simp add: scan_value.simps)
  qed
  then show ?thesis by (simp add: reads_def head_ok_def json_ws_def)
qed

lemma scan_value_dict:
  assumes "list_all2 (\<lambda>(k, t) (k', v). k = k' \<and> reads wide fp t v) ts d" and "distinct (map fst d)"
  shows "\<exists>r0. r0 = ''{'' @ join_comma (map (json_member esc) ts) @ ''}'' \<and> head_ok r0 \<and>
    (\<forall>r. scan_value wide fp (r0 @ r) = Inr (PDict (map (\<lambda>(k, v). (k, sort_keys v)) d), r))"
proof (cases "ts = []")
  case True
  then show ?thesis using assms
    by (simp add: head_ok_def json_ws_def scan_value.simps starts_single)
next
  case False
  let ?m = "join_comma (map (json_member esc) ts)"
  obtain u where u: "?m = CHR 34 # u" using reads_members [OF assms(1) False] by blast
  have e: "scan_members wide fp (?m @ CHR ''}'' # r) = Inr (map (\<lambda>(k, v). (k, sort_keys v)) d, r)" for r
    using reads_members [OF assms(1) False] by blast
  have "map fst (map (\<lambda>(k, v). (k, sort_keys v)) d) = map fst d" by (simp add: comp_def case_prod_unfold)
  then have dd: "d_update [] (map (\<lambda>(k, v). (k, sort_keys v)) d) = map (\<lambda>(k, v). (k, sort_keys v)) d"
    using d_update_distinct assms(2) by metis
  have "scan_value wide fp (''{'' @ ?m @ ''}'' @ r) = Inr (PDict (map (\<lambda>(k, v). (k, sort_keys v)) d), r)" for r
    using e [of r] by (simp add: scan_value.simps u starts_single dd)
  then show ?thesis by (simp add: head_ok_def json_ws_def)
qed

end

lemma sort_key_related:
  assumes "list_all2 R xs ys" and "\<And>x y. R x y \<Longrightarrow> f x = g y"
  shows "list_all2 R (sort_key f xs) (sort_key g ys)"
proof -
  have ins: "list_all2 R (insort_key f x us) (insort_key g y vs)" if "R x y" "list_all2 R us vs" for x y us vs
    using that(2,1) by (induction us vs rule: list_all2_induct) (auto simp: assms(2))
  from assms(1) show ?thesis by (induction xs ys rule: list_all2_induct) (auto intro: ins)
qed

lemma sort_key_map_fst: "sort_key fst (map (\<lambda>(k, v). (k, h v)) d) = map (\<lambda>(k, v). (k, h v)) (sort_key fst d)"
proof (induction d)
  case (Cons x d)
  have "insort_key fst (k, h v) (map (\<lambda>(k, v). (k, h v)) e) = map (\<lambda>(k, v). (k, h v)) (insort_key fst (k, v) e)"
    for k v e
    by (induction e) auto
  then show ?case using Cons by (cases x) simp
qed simp

lemma json_list_related: "json_list esc fl xs = Inr ts \<Longrightarrow> list_all2 (\<lambda>t x. json_text esc fl x = Inr t) ts xs"
  by (induction xs arbitrary: ts) (auto simp: and_then_Inr_iff)

lemma json_items_related:
  "json_items esc fl d = Inr ts \<Longrightarrow>
     list_all2 (\<lambda>(k, t) (k', v). k = k' \<and> json_text esc fl v = Inr t) ts d"
  by (induction d arbitrary: ts) (auto simp: and_then_Inr_iff)

lemma reads_constants:
  "reads wide fp ''null'' PNone" "reads wide fp ''true'' (PBool True)" "reads wide fp ''false'' (PBool False)"
  by (simp_all add: reads_def head_ok_def json_ws_def scan_value.simps scan_atom_def starts_def)

lemma json_list_traverse: "json_list esc fl xs = traverse (json_text esc fl) xs"
  by (induction xs) simp_all

lemma json_items_traverse:
  "json_items esc fl d = traverse (\<lambda>(k, v). and_then (json_text esc fl v) (\<lambda>t. Inr (k, t))) d"
  by (induction d) (auto simp: and_then_def split: sum.splits)

lemma traverse_total: "(\<And>x. x \<in> set xs \<Longrightarrow> \<exists>y. f x = Inr y) \<Longrightarrow> \<exists>ys. traverse f xs = Inr ys"
  by (induction xs) (auto simp: and_then_Inr_iff)

lemma wire_value_prints: "wire_value v \<Longrightarrow> \<exists>t. json_text esc fl v = Inr t"
proof (induction v rule: pyval.induct)
  case (PList xs)
  then obtain ts where "traverse (json_text esc fl) xs = Inr ts"
    using traverse_total [of xs "json_text esc fl"] by (auto simp: list_all_iff)
  then show ?case by (simp add: json_list_traverse)
next
  case (PDict d)
  have "\<exists>y. (\<lambda>(k, v). and_then (json_text esc fl v) (\<lambda>t. Inr (k, t))) x = Inr y" if "x \<in> set d" for x
    using PDict that by (cases x) (fastforce simp: list_all_iff and_then_Inr_iff)
  then show ?case using traverse_total [of d "\<lambda>(k, v). and_then (json_text esc fl v) (\<lambda>t. Inr (k, t))"]
    by (auto simp: json_items_traverse)
qed auto

text \<open>The printed text depends on a value only up to the order of its keys.\<close>

lemma traverse_cong_set: "(\<And>x. x \<in> set xs \<Longrightarrow> f x = g x) \<Longrightarrow> traverse f xs = traverse g xs"
  by (induction xs) simp_all

lemma traverse_related: "list_all2 (\<lambda>y x. f x = Inr y) ys xs \<Longrightarrow> traverse f xs = Inr ys"
  by (induction ys xs rule: list_all2_induct) simp_all

lemma json_text_sort_keys: "wire_value v \<Longrightarrow> json_text esc fl (sort_keys v) = json_text esc fl v"
proof (induction v rule: pyval.induct)
  case (PList xs)
  then have "traverse (json_text esc fl) (map sort_keys xs) = traverse (json_text esc fl) xs"
    unfolding traverse_map by (intro traverse_cong_set) (auto simp: list_all_iff)
  then show ?case by (simp add: json_list_traverse)
next
  case (PDict d)
  let ?h = "\<lambda>(k, v). and_then (json_text esc fl v) (\<lambda>t. Inr (k, t))"
  obtain items where items: "json_items esc fl d = Inr items"
    using wire_value_prints [OF PDict.prems, of esc fl] by (auto simp: and_then_Inr_iff)
  have "traverse ?h (map (\<lambda>(k, v). (k, sort_keys v)) (sort_key fst d)) = traverse ?h (sort_key fst d)"
    unfolding traverse_map
    by (intro traverse_cong_set) (use PDict in \<open>fastforce simp: list_all_iff\<close>)
  moreover have "traverse ?h (sort_key fst d) = Inr (sort_key fst items)"
  proof (rule traverse_related)
    have "list_all2 (\<lambda>(k, t) (k', v). k = k' \<and> json_text esc fl v = Inr t) (sort_key fst items) (sort_key fst d)"
      using sort_key_related [OF json_items_related [OF items], of fst fst] by auto
    then show "list_all2 (\<lambda>y x. ?h x = Inr y) (sort_key fst items) (sort_key fst d)"
      by (rule list_all2_mono) auto
  qed
  moreover have "sort_key fst (sort_key fst items) = sort_key fst items"
    by (rule sort_key_id_if_sorted) simp
  ultimately show ?case using items
    by (simp add: sort_key_map_fst json_items_traverse)
qed auto

context json_escaping
begin

text \<open>What the printer writes, the scanner reads back.\<close>

lemma reads_text: "wire_value v \<Longrightarrow> json_text esc fl v = Inr t \<Longrightarrow> reads wide fp t v"
proof (induction v arbitrary: t rule: pyval.induct)
  case (PInt i)
  then show ?case using scan_value_int_text [of _ i wide fp] scan_value_int_text [OF stops_simps(1), of i wide fp]
    by (simp add: reads_def)
next
  case (PStr s)
  then show ?case using reads_string by auto
next
  case (PList xs)
  then obtain ts where ts: "json_list esc fl xs = Inr ts" "t = ''['' @ join_comma ts @ '']''"
    by (auto simp: and_then_Inr_iff)
  have "list_all2 (reads wide fp) ts xs"
    using json_list_related [OF ts(1)]
    by (rule list.rel_mono_strong) (use PList in \<open>auto simp: list_all_iff\<close>)
  then show ?case using scan_value_list ts(2) by simp
next
  case (PDict d)
  then obtain items where items: "json_items esc fl d = Inr items"
    "t = ''{'' @ join_comma (map (json_member esc) (sort_key fst items)) @ ''}''"
    by (auto simp: and_then_Inr_iff json_member_def [abs_def])
  have "list_all2 (\<lambda>(k, t) (k', v). k = k' \<and> reads wide fp t v) items d"
    using json_items_related [OF items(1)]
    by (rule list.rel_mono_strong) (use PDict in \<open>fastforce simp: list_all_iff\<close>)
  from sort_key_related [OF this, of fst fst]
  have "list_all2 (\<lambda>(k, t) (k', v). k = k' \<and> reads wide fp t v) (sort_key fst items) (sort_key fst d)" by auto
  moreover have "distinct (map fst (sort_key fst d))" using PDict.prems(1)
    by (metis mset_map mset_sort mset_eq_imp_distinct_iff wire_value.simps(4))
  ultimately show ?case
    using scan_value_dict [of wide fp "sort_key fst items" "sort_key fst d"] items(2)
    by (simp add: reads_def sort_key_map_fst)
qed (use reads_constants in \<open>auto simp: not_serializable_def split: if_splits\<close>)

lemma loads_text:
  assumes "wire_value v" and "json_text esc fl v = Inr t"
  shows "json_loads wide fp t = Inr (sort_keys v)"
proof -
  have r: "reads wide fp t v" using assms by (rule reads_text)
  then have "skip_ws t = t" using skip_ws_head [of t "[]"] by (simp add: reads_def)
  moreover have "scan_value wide fp (t @ []) = Inr (sort_keys v, [])" using r by (simp add: reads_def del: append_Nil2)
  ultimately show ?thesis by (simp add: json_loads_def)
qed

end



definition sample_message :: pyval where
  "sample_message =
     PDict [(''operation'', PStr ''say hi''), (''abi_version'', PDict [(''minor'', PInt 4), (''major'', PInt (- 12))]),
            (''groups'', PList [PNone, PBool True, PStr [CHR 34, CHR 10, CHR 200]])]"

definition no_rat :: "rat \<Rightarrow> string" where
  "no_rat r = ''0.0''"



end
