(* ===== verification/Frame_Channel.thy ===== *)
theory Frame_Channel
  imports Json_Wire Contract_Resize
begin

text \<open>
  The transport half of \<open>client.py\<close>: reading one newline-terminated frame with the descriptors
  that travel beside it, and one request with its response.

  The operating system and the coordinator behind the socket are the parameter \<open>K\<close>, a record of
  functions on a state of any type: the answers of \<open>connect\<close> and \<open>sendall\<close> taken together, of
  \<open>recvmsg\<close>, and of the factory of request identifiers. The world keeps, beside that state, the
  descriptors received and the descriptors passed to \<open>os.close\<close>, and counts the calls of
  \<open>recvmsg\<close>. Bytes are characters.
\<close>

subsection \<open>The world\<close>

record 'k kernel =
  k_exchange :: "string \<Rightarrow> string \<Rightarrow> 'k \<Rightarrow> 'k \<times> unit result"
  k_recvmsg :: "int \<Rightarrow> 'k \<Rightarrow> 'k \<times> (string \<times> (bool \<times> nat list) list) result"
  k_request_id :: "'k \<Rightarrow> 'k \<times> string"

record 'k world =
  net :: 'k
  received :: "int list"
  closed :: "int list"
  recv_calls :: nat

text \<open>Text conversions of floats and of characters beyond Latin-1.\<close>

record codec =
  float_text :: "rat \<Rightarrow> string"
  float_read :: "string \<Rightarrow> pyfloat"
  wide_text :: "nat \<Rightarrow> string"

definition float_str :: "codec \<Rightarrow> pyfloat \<Rightarrow> string" where
  "float_str C f =
     (case f of Finite r \<Rightarrow> float_text C r | NaN \<Rightarrow> ''nan'' | PosInf \<Rightarrow> ''inf'' | NegInf \<Rightarrow> ''-inf'')"

record client =
  cl_socket_path :: string
  cl_participant_id :: string
  cl_max_frame_bytes :: int

abbreviation RaiseK :: "string \<Rightarrow> 'a result" where
  "RaiseK m \<equiv> Raise (KapslKvControlError None) m"

abbreviation newline :: char where
  "newline \<equiv> CHR 10"

definition close_handles :: "int list \<Rightarrow> ('k world, unit) eff" where
  "close_handles handles = modify (\<lambda>w. w\<lparr>closed := closed w @ handles\<rparr>)"

subsection \<open>Frames\<close>

text \<open>\<open>array("i").frombytes\<close> of the usable prefix: signed 32-bit integers, little endian.\<close>

definition signed32 :: "int \<Rightarrow> int" where
  "signed32 n = (if n < 2 ^ 31 then n else n - 2 ^ 32)"

fun decode_fds :: "nat list \<Rightarrow> int list" where
  "decode_fds (a # b # c # d # r) = signed32 (int a + 256 * int b + 65536 * int c + 16777216 * int d) # decode_fds r"
| "decode_fds _ = []"

text \<open>One call of \<open>recvmsg\<close>. Every descriptor in it is open from now on.\<close>

definition rights_of :: "(bool \<times> nat list) list \<Rightarrow> int list" where
  "rights_of ancillary = concat (map (\<lambda>(rights, payload). if rights then decode_fds payload else []) ancillary)"

definition recvmsg :: "'k kernel \<Rightarrow> int \<Rightarrow> ('k world, string \<times> (bool \<times> nat list) list) eff" where
  "recvmsg K n w =
     (case k_recvmsg K n (net w) of
        (k, Inl e) \<Rightarrow> (w\<lparr>net := k, recv_calls := recv_calls w + 1\<rparr>, Inl e)
      | (k, Inr (chunk, ancillary)) \<Rightarrow>
          (w\<lparr>net := k, recv_calls := recv_calls w + 1, received := received w @ rights_of ancillary\<rparr>,
           Inr (chunk, ancillary)))"

definition close_and_raise :: "int list \<Rightarrow> string \<Rightarrow> ('k world, 'a) eff" where
  "close_and_raise handles m = bind (close_handles handles) (\<lambda>_. lift (RaiseK m))"

definition take_ancillary :: "int list \<Rightarrow> (bool \<times> nat list) list \<Rightarrow> ('k world, int list) eff" where
  "take_ancillary handles ancillary =
     fold_e (\<lambda>hs (rights, payload).
       if \<not> rights
       then close_and_raise hs ''KV control response carried unsupported ancillary data''
       else
       let hs' = hs @ decode_fds payload
       in if length hs' > 64
          then close_and_raise hs' ''KV control response carries too many OS handles''
          else ret hs') handles ancillary"

definition finish_frame :: "int \<Rightarrow> int list \<Rightarrow> string \<Rightarrow> ('k world, string \<times> int list) eff" where
  "finish_frame max_frame_bytes handles frame =
     (if frame = [] then close_and_raise handles ''KV control response is empty''
      else if int (length frame) > max_frame_bytes
      then close_and_raise handles ''KV control response exceeds maximum frame size''
      else ret (frame, handles))"

function read_loop ::
  "'k kernel \<Rightarrow> int \<Rightarrow> int list \<Rightarrow> string \<Rightarrow> int \<Rightarrow> 'k world \<Rightarrow> 'k world \<times> (string \<times> int list) result" where
  "read_loop K max_frame_bytes handles chunks nbytes w =
     (case recvmsg K (min 65536 (max_frame_bytes - nbytes + 1)) w of
        (w1, Inl e) \<Rightarrow> (w1, Inl e)
      | (w1, Inr (chunk, ancillary)) \<Rightarrow>
          (case take_ancillary handles ancillary w1 of
             (w2, Inl e) \<Rightarrow> (w2, Inl e)
           | (w2, Inr hs) \<Rightarrow>
               if chunk = []
               then close_and_raise hs ''KV control peer closed before a complete frame'' w2
               else if newline \<in> set chunk
               then finish_frame max_frame_bytes hs (chunks @ takeWhile (\<lambda>c. c \<noteq> newline) chunk) w2
               else if nbytes + int (length chunk) \<ge> max_frame_bytes
               then close_and_raise hs ''KV control response exceeds maximum frame size'' w2
               else read_loop K max_frame_bytes hs (chunks @ chunk) (nbytes + int (length chunk)) w2))"
  by pat_completeness auto
termination
  by (relation "measure (\<lambda>(K, max_frame_bytes, handles, chunks, nbytes, w). nat (max_frame_bytes - nbytes))") auto

declare read_loop.simps [simp del]

definition read_frame_with_handles :: "'k kernel \<Rightarrow> int \<Rightarrow> ('k world, string \<times> int list) eff" where
  "read_frame_with_handles K max_frame_bytes = read_loop K max_frame_bytes [] [] 0"

definition read_frame :: "'k kernel \<Rightarrow> int \<Rightarrow> ('k world, string) eff" where
  "read_frame K max_frame_bytes =
     bind (read_frame_with_handles K max_frame_bytes) (\<lambda>(frame, handles).
     bind (close_handles handles) (\<lambda>_. ret frame))"

subsection \<open>Requests\<close>

text \<open>
  UTF-8 as \<open>json.loads\<close> decodes its argument. (The decoder also recognizes a byte order mark and
  the UTF-16 and UTF-32 forms, which the protocol does not use; they are not modelled.)
\<close>

definition continuation :: "char \<Rightarrow> bool" where
  "continuation c \<longleftrightarrow> 128 \<le> (of_char c :: nat) \<and> (of_char c :: nat) < 192"

definition utf8_error :: "'a result" where
  "utf8_error = Raise UnicodeDecodeError ''utf-8 codec cannot decode byte''"

fun utf8_decode :: "(nat \<Rightarrow> string) \<Rightarrow> string \<Rightarrow> string result" where
  "utf8_decode wide [] = Inr []"
| "utf8_decode wide (a # s) =
     (let n = of_char a :: nat
      in if n < 128 then and_then (utf8_decode wide s) (\<lambda>t. Inr (a # t))
      else case s of
        [] \<Rightarrow> utf8_error
      | b # s2 \<Rightarrow>
          if \<not> continuation b then utf8_error
          else let m = of_char b :: nat
          in if 194 \<le> n \<and> n \<le> 223
          then and_then (utf8_decode wide s2) (\<lambda>t. Inr (code_point wide ((n - 192) * 64 + (m - 128)) @ t))
          else case s2 of
            [] \<Rightarrow> utf8_error
          | c # s3 \<Rightarrow>
              if \<not> continuation c then utf8_error
              else let k = of_char c :: nat
              in if 224 \<le> n \<and> n \<le> 239 \<and> (n = 224 \<longrightarrow> 160 \<le> m)
              then and_then (utf8_decode wide s3) (\<lambda>t.
                     Inr (code_point wide ((n - 224) * 4096 + (m - 128) * 64 + (k - 128)) @ t))
              else case s3 of
                [] \<Rightarrow> utf8_error
              | d # s4 \<Rightarrow>
                  if \<not> continuation d then utf8_error
                  else if 240 \<le> n \<and> n \<le> 244 \<and> (n = 240 \<longrightarrow> 144 \<le> m) \<and> (n = 244 \<longrightarrow> m \<le> 143)
                  then and_then (utf8_decode wide s4) (\<lambda>t.
                         Inr (code_point wide ((n - 240) * 262144 + (m - 128) * 4096 + (k - 128) * 64 +
                           (of_char d - 128)) @ t))
                  else utf8_error)"

definition as_mapping :: "pyval \<Rightarrow> string \<Rightarrow> pydict result" where
  "as_mapping v field =
     (case v of PDict d \<Rightarrow> Inr d | _ \<Rightarrow> RaiseC (fmt [field, '' must be an object'']))"

definition decode_response :: "codec \<Rightarrow> string \<Rightarrow> string \<Rightarrow> pydict result" where
  "decode_response C raw_response request_id =
     and_then (utf8_decode (wide_text C) raw_response) (\<lambda>text.
     and_then (json_loads (wide_text C) (float_read C) text) (\<lambda>decoded.
     and_then (as_mapping decoded ''response'') (\<lambda>response.
     and_then (validate_response response request_id) (\<lambda>_. Inr response))))"

definition exchange :: "'k kernel \<Rightarrow> client \<Rightarrow> string \<Rightarrow> ('k world, string \<times> int list) eff" where
  "exchange K self frame =
     bind (\<lambda>w. case k_exchange K (cl_socket_path self) (frame @ [newline]) (net w) of
                 (k, r) \<Rightarrow> (w\<lparr>net := k\<rparr>, r)) (\<lambda>_.
     read_frame_with_handles K (cl_max_frame_bytes self))"

text \<open>
  The handler of \<open>OSError\<close> runs before \<open>handles\<close> was assigned: the list it closes is empty.
\<close>

definition transport_error :: "string \<Rightarrow> exn \<Rightarrow> ('k world, 'a) eff" where
  "transport_error operation e =
     (if exn_of e = OSError
      then bind (close_handles []) (\<lambda>_.
             lift (Raise (KapslKvControlError (Some ''transport''))
               (fmt [''KV control request '', py_repr operation, '' failed: '', exn_msg e])))
      else lift (Inl e))"

definition response_error :: "int list \<Rightarrow> exn \<Rightarrow> ('k world, 'a) eff" where
  "response_error handles e =
     (if exn_of e \<in> {UnicodeDecodeError, JSONDecodeError, ContractValidationError}
      then close_and_raise handles (fmt [''invalid KV control response: '', exn_msg e])
      else lift (Inl e))"

definition py_or :: "pyval \<Rightarrow> pyval \<Rightarrow> pyval" where
  "py_or v w = (if truthy v then v else w)"

definition remote_error :: "codec \<Rightarrow> pydict \<Rightarrow> exn result" where
  "remote_error C response =
     and_then (as_mapping (d_get response ''error'') ''error'') (\<lambda>remote.
     let kind = py_str (float_str C) (d_get_or remote ''kind'' (PStr ''internal''));
         message = py_str (float_str C)
           (py_or (py_or (d_get remote ''message'') (d_get remote ''operation'')) (PStr kind))
     in Inr (Exn (KapslKvControlError (Some kind)) message))"

definition rpc_with_handles ::
  "codec \<Rightarrow> 'k kernel \<Rightarrow> client \<Rightarrow> string \<Rightarrow> pydict \<Rightarrow> ('k world, pydict \<times> int list) eff" where
  "rpc_with_handles C K self operation payload =
     bind (\<lambda>w. case k_request_id K (net w) of (k, rid) \<Rightarrow> (w\<lparr>net := k\<rparr>, Inr rid)) (\<lambda>request_id.
     bind (lift (make_envelope (PStr request_id) (PStr operation) payload)) (\<lambda>envelope.
     bind (lift (json_dumps (float_text C) (PDict envelope))) (\<lambda>frame.
     if int (length frame) + 1 > cl_max_frame_bytes self
     then lift (RaiseK ''KV control request exceeds maximum frame size'')
     else
     bind (try_except (exchange K self frame) (transport_error operation)) (\<lambda>(raw_response, handles).
     bind (try_except (lift (decode_response C raw_response request_id)) (response_error handles)) (\<lambda>response.
     if py_eq (d_get response ''result'') (PStr ''error'')
     then bind (close_handles handles) (\<lambda>_.
          bind (lift (remote_error C response)) (\<lambda>e. lift (Inl e)))
     else ret (response, handles))))))"

definition rpc :: "codec \<Rightarrow> 'k kernel \<Rightarrow> client \<Rightarrow> string \<Rightarrow> pydict \<Rightarrow> ('k world, pydict) eff" where
  "rpc C K self operation payload =
     bind (rpc_with_handles C K self operation payload) (\<lambda>(response, handles).
     if handles \<noteq> []
     then close_and_raise handles
            (fmt [''KV control response '', py_repr operation, '' carried unexpected OS handles''])
     else ret response)"

definition expect :: "codec \<Rightarrow> pydict \<Rightarrow> string list \<Rightarrow> unit result" where
  "expect C response allowed =
     and_then (set_member (d_get response ''result'') allowed) (\<lambda>known.
     if known then Inr ()
     else RaiseK (fmt [''unexpected KV control result '', py_str (float_str C) (d_get response ''result''),
            '', expected '', join_with '', '' (sort allowed)]))"

subsection \<open>Every descriptor is closed or handed on\<close>

text \<open>
  \<open>owed w0 w hs\<close>: of the descriptors received between \<open>w0\<close> and \<open>w\<close>, exactly those in \<open>hs\<close> are
  not closed yet.
\<close>

definition owed :: "'k world \<Rightarrow> 'k world \<Rightarrow> int list \<Rightarrow> bool" where
  "owed w0 w hs \<longleftrightarrow>
     mset (received w) + mset (closed w0) = mset (received w0) + mset (closed w) + mset hs"

text \<open>
  More exactly: \<open>took w w' hs\<close>, the descriptors \<open>hs\<close> were received and none was closed;
  \<open>gave_up w w' hs\<close>, the descriptors \<open>hs\<close> were received and exactly they were closed.
\<close>

definition took :: "'k world \<Rightarrow> 'k world \<Rightarrow> int list \<Rightarrow> bool" where
  "took w w' hs \<longleftrightarrow> received w' = received w @ hs \<and> closed w' = closed w"

definition gave_up :: "'k world \<Rightarrow> 'k world \<Rightarrow> int list \<Rightarrow> bool" where
  "gave_up w w' hs \<longleftrightarrow> received w' = received w @ hs \<and> closed w' = closed w @ hs"

text \<open>
  What is relied on of the kernel: a message on a Unix socket carries at most one record of
  ancillary data, of whatever kind (all descriptors of a message come in one record, and no socket
  option of the client asks for another), and a system call fails with \<open>OSError\<close>.
\<close>

definition kernel_ok :: "'k kernel \<Rightarrow> bool" where
  "kernel_ok K \<longleftrightarrow>
     (\<forall>n k k' chunk ancillary. k_recvmsg K n k = (k', Inr (chunk, ancillary)) \<longrightarrow> length ancillary \<le> 1) \<and>
     (\<forall>n k k' e. k_recvmsg K n k = (k', Inl e) \<longrightarrow> exn_of e = OSError) \<and>
     (\<forall>p f k k' e. k_exchange K p f k = (k', Inl e) \<longrightarrow> exn_of e = OSError)"

lemma owed_refl [simp]: "owed w w []"
  by (simp add: owed_def)

lemma owed_trans:
  assumes "owed w0 w1 hs" and "owed w1 w2 []"
  shows "owed w0 w2 hs"
proof -
  have 1: "mset (received w1) + mset (closed w0) = mset (received w0) + mset (closed w1) + mset hs"
    and 2: "mset (received w2) + mset (closed w1) = mset (received w1) + mset (closed w2)"
    using assms by (simp_all add: owed_def)
  have "mset (received w2) + mset (closed w0) + mset (closed w1) =
      mset (received w2) + mset (closed w1) + mset (closed w0)" by (simp only: ac_simps)
  also have "\<dots> = mset (received w1) + mset (closed w0) + mset (closed w2)" unfolding 2 by (simp only: ac_simps)
  also have "\<dots> = mset (received w0) + mset (closed w2) + mset hs + mset (closed w1)"
    unfolding 1 by (simp only: ac_simps)
  finally show ?thesis by (simp add: owed_def)
qed

lemma took_owed: "took w w' hs \<Longrightarrow> owed w w' hs"
  by (simp add: took_def owed_def)

lemma gave_up_owed: "gave_up w w' hs \<Longrightarrow> owed w w' []"
  by (simp add: gave_up_def owed_def add.assoc add.commute)

lemma took_close: "took w w' hs \<Longrightarrow> gave_up w (w'\<lparr>closed := closed w' @ hs\<rparr>) hs"
  by (simp add: took_def gave_up_def)

lemma took_simps [simp]: "took w w []" "took w (w\<lparr>net := k\<rparr>) []" "took (w\<lparr>net := k\<rparr>) w' hs \<longleftrightarrow> took w w' hs"
  by (simp_all add: took_def)

lemma gave_up_simps [simp]:
  "gave_up w w []" "gave_up w (w\<lparr>net := k\<rparr>) []" "gave_up (w\<lparr>net := k\<rparr>) w' hs \<longleftrightarrow> gave_up w w' hs"
  by (simp_all add: gave_up_def)

lemma owed_net [simp]: "owed w0 (w\<lparr>net := k\<rparr>) hs \<longleftrightarrow> owed w0 w hs"
  by (simp add: owed_def)

lemma owed_close: "owed w0 w hs \<Longrightarrow> owed w0 (w\<lparr>closed := closed w @ hs\<rparr>) []"
  by (simp add: owed_def add.assoc)

lemma close_handles_eq [simp]: "close_handles hs w = (w\<lparr>closed := closed w @ hs\<rparr>, Inr ())"
  by (simp add: close_handles_def modify_def)

lemma close_and_raise_eq [simp]: "close_and_raise hs m w = (w\<lparr>closed := closed w @ hs\<rparr>, RaiseK m)"
  by (simp add: close_and_raise_def bind_def lift_def)

lemma rights_of_simps [simp]:
  "rights_of [] = []" "rights_of ((True, p) # anc) = decode_fds p @ rights_of anc"
  "rights_of ((False, p) # anc) = rights_of anc"
  by (simp_all add: rights_of_def)

text \<open>
  The descriptors of one message: taken over, or all closed if there are too many or the record is of
  another kind.
\<close>

lemma take_ancillary_cases:
  assumes "length anc \<le> 1" and "take_ancillary hs anc w = (w', r)"
  shows "(r = Inr (hs @ rights_of anc) \<and> w' = w) \<or>
    (\<exists>m. r = RaiseK m \<and> w' = w\<lparr>closed := closed w @ hs @ rights_of anc\<rparr>)"
proof (cases anc)
  case Nil
  then show ?thesis using assms(2) by (simp add: take_ancillary_def ret_def)
next
  case (Cons a as)
  then obtain rights p where "anc = [(rights, p)]" using assms(1) by (cases a) auto
  then show ?thesis using assms(2)
    by (cases rights) (auto simp: take_ancillary_def bind_def Let_def ret_def split: if_splits)
qed

lemma finish_frame_cases:
  assumes "finish_frame mx hs frame w = (w', r)"
  shows "(r = Inr (frame, hs) \<and> w' = w \<and> frame \<noteq> [] \<and> int (length frame) \<le> mx) \<or>
    (\<exists>m. r = RaiseK m \<and> w' = w\<lparr>closed := closed w @ hs\<rparr>)"
  using assms by (auto simp: finish_frame_def ret_def split: if_splits)

text \<open>One iteration of the loop, on every exit.\<close>

lemma read_loop_cases:
  assumes K: "kernel_ok K" and run: "read_loop K mx hs chunks n w = (w', r)"
  obtains (broken) k e where "r = Inl e" "exn_of e = OSError"
      "w' = w\<lparr>net := k, recv_calls := recv_calls w + 1\<rparr>"
  | (closed) k xs m where "r = RaiseK m"
      "w' = w\<lparr>net := k, recv_calls := recv_calls w + 1, received := received w @ xs, closed := closed w @ hs @ xs\<rparr>"
  | (frame) k xs chunk where "newline \<in> set chunk" "chunks @ takeWhile (\<lambda>c. c \<noteq> newline) chunk \<noteq> []"
      "int (length (chunks @ takeWhile (\<lambda>c. c \<noteq> newline) chunk)) \<le> mx"
      "r = Inr (chunks @ takeWhile (\<lambda>c. c \<noteq> newline) chunk, hs @ xs)"
      "w' = w\<lparr>net := k, recv_calls := recv_calls w + 1, received := received w @ xs\<rparr>"
  | (again) k xs chunk where "chunk \<noteq> []" "newline \<notin> set chunk" "n + int (length chunk) < mx"
      "read_loop K mx (hs @ xs) (chunks @ chunk) (n + int (length chunk))
         (w\<lparr>net := k, recv_calls := recv_calls w + 1, received := received w @ xs\<rparr>) = (w', r)"
proof -
  obtain k q where q: "k_recvmsg K (min 65536 (mx - n + 1)) (net w) = (k, q)" by fastforce
  show thesis
  proof (cases q)
    case (Inl e)
    then have "exn_of e = OSError" using K q by (auto simp: kernel_ok_def)
    then show thesis using broken [where e = e and k = k] run q Inl by (simp add: read_loop.simps recvmsg_def)
  next
    case (Inr p)
    obtain chunk anc where p: "p = (chunk, anc)" by (cases p)
    define w1 where "w1 = w\<lparr>net := k, recv_calls := recv_calls w + 1, received := received w @ rights_of anc\<rparr>"
    have anc: "length anc \<le> 1" using K q Inr p by (auto simp: kernel_ok_def)
    obtain w2 r2 where a: "take_ancillary hs anc w1 = (w2, r2)" by fastforce
    have rl: "(w', r) = (case (w2, r2) of (w2, Inl e) \<Rightarrow> (w2, Inl e)
        | (w2, Inr hs) \<Rightarrow>
          if chunk = [] then close_and_raise hs ''KV control peer closed before a complete frame'' w2
          else if newline \<in> set chunk then finish_frame mx hs (chunks @ takeWhile (\<lambda>c. c \<noteq> newline) chunk) w2
          else if n + int (length chunk) \<ge> mx
          then close_and_raise hs ''KV control response exceeds maximum frame size'' w2
          else read_loop K mx hs (chunks @ chunk) (n + int (length chunk)) w2)"
      using run a q Inr p
      by (subst (asm) read_loop.simps) (simp add: recvmsg_def w1_def)
    from take_ancillary_cases [OF anc a] show thesis
    proof (elim disjE exE conjE)
      fix m assume "r2 = RaiseK m" "w2 = w1\<lparr>closed := closed w1 @ hs @ rights_of anc\<rparr>"
      then show thesis using closed [where m = m and k = k and xs = "rights_of anc"] rl by (simp add: w1_def)
    next
      assume ok: "r2 = Inr (hs @ rights_of anc)" "w2 = w1"
      consider "chunk = []" | "chunk \<noteq> []" "newline \<in> set chunk" | "chunk \<noteq> []" "newline \<notin> set chunk" by blast
      then show thesis
      proof cases
        case 1
        then show thesis using closed [where k = k and xs = "rights_of anc"] rl ok by (simp add: w1_def)
      next
        case 2
        then have "finish_frame mx (hs @ rights_of anc) (chunks @ takeWhile (\<lambda>c. c \<noteq> newline) chunk) w1 = (w', r)"
          using rl ok by simp
        from finish_frame_cases [OF this] show thesis
          using closed [where k = k and xs = "rights_of anc"] frame [OF 2(2), where xs = "rights_of anc" and k = k] by (auto simp: w1_def)
      next
        case 3
        then show thesis
          using closed [where k = k and xs = "rights_of anc"] again [OF 3, where xs = "rights_of anc" and k = k] rl ok
          by (cases "n + int (length chunk) < mx") (simp_all add: w1_def)
      qed
    qed
  qed
qed

lemma took_received:
  "took w0 w hs \<Longrightarrow> took w0 (w\<lparr>net := k, recv_calls := c, received := received w @ xs\<rparr>) (hs @ xs)"
  by (simp add: took_def)

text \<open>The descriptors a call of the loop has met, on every exit.\<close>

definition frame_outcome :: "'k world \<Rightarrow> 'k world \<Rightarrow> exn \<Rightarrow> bool" where
  "frame_outcome w w' e \<longleftrightarrow>
     (\<exists>hs. if exn_of e = OSError then took w w' hs \<and> (recv_calls w' = recv_calls w + 1 \<longrightarrow> hs = [])
           else exn_of e = KapslKvControlError None \<and> gave_up w w' hs)"

lemma read_loop_handles:
  assumes K: "kernel_ok K" and "took w0 w hs" and "newline \<notin> set chunks"
    and "recv_calls w0 \<le> recv_calls w" and "recv_calls w = recv_calls w0 \<Longrightarrow> hs = []"
    and "read_loop K mx hs chunks n w = (w', r)"
  shows "(case r of
      Inr (frame, hs') \<Rightarrow> took w0 w' hs' \<and> frame \<noteq> [] \<and> int (length frame) \<le> mx \<and> newline \<notin> set frame
    | Inl e \<Rightarrow> frame_outcome w0 w' e) \<and>
    recv_calls w' \<le> recv_calls w + max 1 (nat (mx - n))"
  using assms(2-6)
proof (induction "nat (mx - n)" arbitrary: hs chunks n w rule: less_induct)
  case less
  note rec = took_received [OF less.prems(1)]
  from K less.prems(5) show ?case
  proof (cases rule: read_loop_cases)
    case (broken k e)
    have "took w0 w' hs" using broken(3) less.prems(1) by (simp add: took_def)
    moreover have "recv_calls w' = recv_calls w0 + 1 \<longrightarrow> hs = []" using broken(3) less.prems(3,4) by simp
    ultimately show ?thesis using broken by (auto simp: frame_outcome_def)
  next
    case (closed k xs m)
    have "gave_up w0 w' (hs @ xs)" using closed(2) less.prems(1) by (simp add: took_def gave_up_def)
    then show ?thesis using closed by (auto simp: frame_outcome_def)
  next
    case (frame k xs chunk)
    have "newline \<notin> set (takeWhile (\<lambda>c. c \<noteq> newline) chunk)" by (auto dest: set_takeWhileD)
    then show ?thesis
      using frame less.prems(2) rec [where k = k and c = "recv_calls w + 1" and xs = xs] by simp
  next
    case (again k xs chunk)
    let ?w = "w\<lparr>net := k, recv_calls := recv_calls w + 1, received := received w @ xs\<rparr>"
    have l: "1 \<le> length chunk" using again(1) by (cases chunk) auto
    have "nat (mx - (n + int (length chunk))) < nat (mx - n)" using again(3) l by linarith
    from less.hyps [OF this rec [where k = k and c = "recv_calls w + 1" and xs = xs] _ _ _ again(4)]
      less.prems(2,3) again(2,3) l
    show ?thesis by auto
  qed
qed


subsection \<open>A complete frame is always read\<close>

text \<open>
  The stream contract of a Unix socket: while bytes are queued, \<open>recvmsg\<close> returns a non-empty
  prefix of them, no longer than asked for.
\<close>

definition byte_stream :: "'k kernel \<Rightarrow> ('k \<Rightarrow> string) \<Rightarrow> bool" where
  "byte_stream K content \<longleftrightarrow>
     (\<forall>n k. 1 \<le> n \<and> content k \<noteq> [] \<longrightarrow>
        (\<exists>k' chunk. k_recvmsg K n k = (k', Inr (chunk, [])) \<and> chunk \<noteq> [] \<and> int (length chunk) \<le> n \<and>
           content k = chunk @ content k'))"

lemma read_loop_stream:
  assumes K: "byte_stream K content" and "newline \<notin> set t" and "content (net w) = t @ newline # rest"
    and "n = int (length chunks)" and "int (length (chunks @ t)) < mx" and "chunks @ t \<noteq> []"
  shows "\<exists>w'. read_loop K mx [] chunks n w = (w', Inr (chunks @ t, []))"
  using assms(2-6)
proof (induction "length t" arbitrary: t chunks n w rule: less_induct)
  case less
  let ?n = "min 65536 (mx - n + 1)"
  have "1 \<le> ?n" "content (net w) \<noteq> []" using less.prems by auto
  then obtain k chunk where r: "k_recvmsg K ?n (net w) = (k, Inr (chunk, []))" "chunk \<noteq> []"
    "content (net w) = chunk @ content k"
    using K [unfolded byte_stream_def, rule_format, of ?n "net w"] by blast
  let ?w = "w\<lparr>net := k, recv_calls := recv_calls w + 1\<rparr>"
  have step: "read_loop K mx [] chunks n w =
      (if newline \<in> set chunk then finish_frame mx [] (chunks @ takeWhile (\<lambda>c. c \<noteq> newline) chunk) ?w
       else if n + int (length chunk) \<ge> mx
       then close_and_raise [] ''KV control response exceeds maximum frame size'' ?w
       else read_loop K mx [] (chunks @ chunk) (n + int (length chunk)) ?w)"
    using r(1,2) by (subst read_loop.simps) (simp add: recvmsg_def take_ancillary_def ret_def del: close_and_raise_eq)
  have eq: "t @ newline # rest = chunk @ content k" using r(3) less.prems(2) by simp
  show ?case
  proof (cases "newline \<in> set chunk")
    case True
    have "takeWhile (\<lambda>c. c \<noteq> newline) (t @ newline # rest) = t"
      using less.prems(1) by (subst takeWhile_append2) auto
    moreover have "takeWhile (\<lambda>c. c \<noteq> newline) (chunk @ content k) = takeWhile (\<lambda>c. c \<noteq> newline) chunk"
      using True by (auto intro: takeWhile_append1)
    ultimately have "takeWhile (\<lambda>c. c \<noteq> newline) chunk = t" using eq by simp
    then show ?thesis using step True less.prems by (auto simp: finish_frame_def ret_def)
  next
    case False
    then obtain t' where t': "t = chunk @ t'" "content k = t' @ newline # rest"
      using eq less.prems(1) by (auto simp: append_eq_append_conv2 Cons_eq_append_conv)
    have "length t' < length t" using t' r(2) by simp
    from less.hyps [OF this, where w = ?w and chunks = "chunks @ chunk" and n = "n + int (length chunk)"] less.prems t'
    obtain w' where "read_loop K mx [] (chunks @ chunk) (n + int (length chunk)) ?w = (w', Inr ((chunks @ chunk) @ t', []))"
      by auto
    moreover have "\<not> n + int (length chunk) \<ge> mx" using less.prems(3,4) t'(1) by simp
    ultimately show ?thesis using step False t'(1) by simp
  qed
qed

text \<open>
  C33. A frame that was sent is received: if the bytes queued on the socket start with a non-empty
  text shorter than the limit and a newline, then the call returns that text, however the kernel
  cuts the stream into chunks.
\<close>

theorem read_frame_receives:
  assumes "byte_stream K content" and "content (net w) = t @ newline # rest"
    and "newline \<notin> set t" and "t \<noteq> []" and "int (length t) < mx"
  shows "\<exists>w'. read_frame_with_handles K mx w = (w', Inr (t, []))"
  using read_loop_stream [OF assms(1,3,2), of 0 "[]" mx] assms(4,5)
  by (simp add: read_frame_with_handles_def)

subsection \<open>Requests settle their descriptors\<close>

text \<open>
  The errors after which a request leaves the descriptors it received open: a system call failed, or
  the response was malformed in a way the handlers do not catch (\<open>decode_response\<close> raised
  \<open>TypeError\<close> on an unhashable \<open>result\<close>, or \<open>ValueError\<close> on an integer beyond the
  interpreter's limit).
\<close>

definition leak_cause :: "codec \<Rightarrow> exn \<Rightarrow> bool" where
  "leak_cause C e \<longleftrightarrow>
     exn_of e = KapslKvControlError (Some ''transport'') \<or>
     exn_of e \<in> {TypeError, ValueError} \<and> (\<exists>raw rid. decode_response C raw rid = Inl e)"

definition settles_exactly :: "codec \<Rightarrow> ('k world, 'a \<times> int list) eff \<Rightarrow> bool" where
  "settles_exactly C m \<longleftrightarrow>
     (\<forall>w w' r. m w = (w', r) \<longrightarrow>
        (case r of
           Inr (_, hs) \<Rightarrow> took w w' hs
         | Inl e \<Rightarrow> \<exists>hs. gave_up w w' hs \<or> leak_cause C e \<and> took w w' hs))"

definition unsettled :: "exn \<Rightarrow> bool" where
  "unsettled e \<longleftrightarrow> exn_of e \<in> {KapslKvControlError (Some ''transport''), TypeError, ValueError}"

definition settles :: "('k world, 'a \<times> int list) eff \<Rightarrow> bool" where
  "settles m \<longleftrightarrow>
     (\<forall>w w' r. m w = (w', r) \<longrightarrow>
        (case r of Inr (_, hs) \<Rightarrow> owed w w' hs | Inl e \<Rightarrow> unsettled e \<or> owed w w' []))"

lemma settles_exactly_settles:
  assumes "settles_exactly C m"
  shows "settles m"
  unfolding settles_def
proof (intro allI impI)
  fix w w' r
  assume run: "m w = (w', r)"
  note s = assms [unfolded settles_exactly_def, rule_format, OF run]
  show "case r of Inr (_, hs) \<Rightarrow> owed w w' hs | Inl e \<Rightarrow> unsettled e \<or> owed w w' []"
  proof (cases r)
    case (Inl e)
    then show ?thesis using s by (auto simp: leak_cause_def unsettled_def dest: gave_up_owed)
  next
    case (Inr p)
    then show ?thesis using s by (auto dest: took_owed)
  qed
qed

lemma exchange_handles:
  assumes "kernel_ok K" and "exchange K self frame w = (w', r)"
  shows "case r of Inr (raw, hs) \<Rightarrow> took w w' hs
    | Inl e \<Rightarrow> \<exists>hs. if exn_of e = OSError then took w w' hs else exn_of e = KapslKvControlError None \<and> gave_up w w' hs"
proof -
  obtain k q where q: "k_exchange K (cl_socket_path self) (frame @ [newline]) (net w) = (k, q)" by fastforce
  show ?thesis
  proof (cases q)
    case (Inl e)
    then have "r = Inl e" "exn_of e = OSError" "w' = w\<lparr>net := k\<rparr>"
      using assms q by (auto simp: exchange_def bind_def kernel_ok_def)
    then show ?thesis by (auto intro: exI [of _ "[]"])
  next
    case (Inr u)
    let ?w = "w\<lparr>net := k\<rparr>"
    have "read_loop K (cl_max_frame_bytes self) [] [] 0 ?w = (w', r)"
      using assms(2) q Inr by (simp add: exchange_def bind_def read_frame_with_handles_def)
    from read_loop_handles [OF assms(1) _ _ _ _ this, of ?w] show ?thesis
      by (cases r) (auto simp: frame_outcome_def split: if_splits)
  qed
qed

text \<open>The classes of the exceptions a computation can raise.\<close>

definition raises :: "exn_class set \<Rightarrow> 'a result \<Rightarrow> bool" where
  "raises S r \<longleftrightarrow> (\<forall>e. r = Inl e \<longrightarrow> exn_of e \<in> S)"

lemma raises_simps [simp]: "raises S (Inr x)" "raises S (Raise c m) \<longleftrightarrow> c \<in> S" "raises S (json_error m) \<longleftrightarrow> JSONDecodeError \<in> S"
  by (simp_all add: raises_def json_error_def)

lemma raises_and_then: "raises S m \<Longrightarrow> (\<And>x. m = Inr x \<Longrightarrow> raises S (f x)) \<Longrightarrow> raises S (and_then m f)"
  by (cases m) (simp_all add: raises_def)

lemma raises_split: "(\<And>a b. p = (a, b) \<Longrightarrow> raises S (f a b)) \<Longrightarrow> raises S (case p of (a, b) \<Rightarrow> f a b)"
  by (cases p) simp

lemma raises_if: "(c \<Longrightarrow> raises S m) \<Longrightarrow> (\<not> c \<Longrightarrow> raises S n) \<Longrightarrow> raises S (if c then m else n)"
  by simp

lemma raises_list:
  "(xs = [] \<Longrightarrow> raises S m) \<Longrightarrow> (\<And>y ys. xs = y # ys \<Longrightarrow> raises S (f y ys)) \<Longrightarrow>
   raises S (case xs of [] \<Rightarrow> m | y # ys \<Rightarrow> f y ys)"
  by (cases xs) simp_all

lemma raises_option:
  "(v = None \<Longrightarrow> raises S m) \<Longrightarrow> (\<And>x. v = Some x \<Longrightarrow> raises S (f x)) \<Longrightarrow>
   raises S (case v of None \<Rightarrow> m | Some x \<Rightarrow> f x)"
  by (cases v) simp_all

lemmas raises_rules = raises_if raises_list raises_option raises_split raises_and_then

abbreviation json_errors :: "exn_class set" where
  "json_errors \<equiv> {JSONDecodeError, ValueError}"

lemma raises_scan_string: "raises json_errors (scan_string wide s)"
proof (induction "length s" arbitrary: s rule: less_induct)
  case less
  show ?case
    by (subst scan_string.simps)
      (intro raises_rules; (rule less; simp add: unicode_escape_shorter less_SucI)?; simp)
qed

lemma raises_scan_atom: "raises json_errors (scan_atom fp s)"
  unfolding scan_atom_def scan_number_def Let_def by (intro raises_rules; simp)

lemma raises_scan:
  "raises json_errors (scan_value wide fp s)"
  "raises json_errors (scan_elements wide fp s)"
  "raises json_errors (scan_members wide fp s)"
proof (induction "length s" arbitrary: s rule: less_induct)
  case less
  have ws: "length (skip_ws cs) < length (c # cs)" for c cs using skip_ws_length [of cs] by simp
  {
    case 1
    show ?case
      by (subst scan_value.simps)
        (intro raises_rules raises_scan_string raises_scan_atom;
          (rule less(2) less(3); simp add: ws [simplified])?; simp)
  }
  note value_ok = this
  {
    case 2
    show ?case
      by (subst scan_elements.simps) (intro raises_rules value_ok; (rule less(2); simp)?; simp)
  next
    case 3
    show ?case
      by (subst scan_members.simps)
        (intro raises_rules raises_scan_string; (rule less(1) less(3); simp)?; simp)
  }
qed

lemma raises_utf8: "raises {UnicodeDecodeError} (utf8_decode wide s)"
proof (induction "length s" arbitrary: s rule: less_induct)
  case less
  show ?case
  proof (cases s)
    case (Cons a t)
    show ?thesis unfolding Cons utf8_decode.simps Let_def
      by (intro raises_rules; (rule less; simp add: Cons)?; simp add: utf8_error_def)
  qed simp
qed

lemma raises_mono: "raises S r \<Longrightarrow> S \<subseteq> T \<Longrightarrow> raises T r"
  by (auto simp: raises_def)

abbreviation response_errors :: "exn_class set" where
  "response_errors \<equiv> {UnicodeDecodeError, JSONDecodeError, ValueError, ContractValidationError, TypeError}"

lemma raises_validate_response: "raises response_errors (validate_response response rid)"
  by (auto simp: raises_def validate_response_def contract_mapping_def set_member_def and_then_Inl_iff
      split: pyval.splits if_splits)

lemma raises_decode_response: "raises response_errors (decode_response C raw rid)"
proof -
  have "raises response_errors (utf8_decode (wide_text C) raw)"
    by (rule raises_mono [OF raises_utf8]) simp
  moreover have "raises response_errors (json_loads (wide_text C) (float_read C) t)" for t
    unfolding json_loads_def
    by (intro raises_rules raises_mono [OF raises_scan(1)]) (simp_all add: json_error_def)
  moreover have "raises response_errors (as_mapping v f)" for v f
    by (auto simp: raises_def as_mapping_def split: pyval.splits)
  ultimately show ?thesis
    unfolding decode_response_def by (intro raises_rules raises_validate_response) simp_all
qed

lemma rpc_settles_exactly:
  assumes K: "kernel_ok K"
  shows "settles_exactly C (rpc_with_handles C K self operation payload)"
  unfolding settles_exactly_def
proof (intro allI impI)
  fix w w' r
  assume run: "rpc_with_handles C K self operation payload w = (w', r)"
  obtain k rid where rid: "k_request_id K (net w) = (k, rid)" by fastforce
  let ?w0 = "w\<lparr>net := k\<rparr>"
  consider (early) e where "w' = ?w0" "r = Inl e"
    | (sent) frame where "bind (try_except (exchange K self frame) (transport_error operation)) (\<lambda>(raw, hs).
         bind (try_except (lift (decode_response C raw rid)) (response_error hs)) (\<lambda>response.
         if py_eq (d_get response ''result'') (PStr ''error'')
         then bind (close_handles hs) (\<lambda>_. bind (lift (remote_error C response)) (\<lambda>e. lift (Inl e)))
         else ret (response, hs))) ?w0 = (w', r)"
    using run rid
    by (auto simp: rpc_with_handles_def bind_def lift_def split: sum.splits if_splits)
  then show "case r of Inr (_, hs) \<Rightarrow> took w w' hs | Inl e \<Rightarrow> \<exists>hs. gave_up w w' hs \<or> leak_cause C e \<and> took w w' hs"
  proof cases
    case early
    then show ?thesis by (auto intro: exI [of _ "[]"])
  next
    case (sent frame)
    obtain w1 q where x: "exchange K self frame ?w0 = (w1, q)" by fastforce
    note xh = exchange_handles [OF K x]
    show ?thesis
    proof (cases q)
      case (Inl e)
      then obtain hs where hs: "if exn_of e = OSError then took w w1 hs
          else exn_of e = KapslKvControlError None \<and> gave_up w w1 hs"
        using xh by (cases "exn_of e = OSError") auto
      then have "w' = w1 \<and> (\<exists>e'. r = Inl e' \<and> (exn_of e = OSError \<longrightarrow> leak_cause C e'))" using sent x Inl
        by (auto simp: bind_def try_except_def transport_error_def lift_def leak_cause_def split: if_splits)
      then show ?thesis using hs by (auto split: if_splits)
    next
      case (Inr p)
      obtain raw hs where p: "p = (raw, hs)" by (cases p)
      have o1: "took w w1 hs" using xh Inr p by simp
      note closed = took_close [OF o1]
      show ?thesis
      proof (cases "decode_response C raw rid")
        case (Inl e)
        then have c: "exn_of e \<in> response_errors" using raises_decode_response [of C raw rid] by (simp add: raises_def)
        show ?thesis
        proof (cases "exn_of e \<in> {UnicodeDecodeError, JSONDecodeError, ContractValidationError}")
          case True
          then have "w' = w1\<lparr>closed := closed w1 @ hs\<rparr>" "isl r"
            using sent x \<open>q = Inr p\<close> p Inl by (auto simp: bind_def try_except_def response_error_def lift_def)
          then show ?thesis using closed by (cases r) auto
        next
          case False
          then have "r = Inl e" "w' = w1"
            using sent x \<open>q = Inr p\<close> p Inl by (auto simp: bind_def try_except_def response_error_def lift_def)
          moreover have "leak_cause C e" using c False Inl unfolding leak_cause_def by blast
          ultimately show ?thesis using o1 by auto
        qed
      next
        case (Inr response)
        then show ?thesis using sent x \<open>q = Inr p\<close> p o1 closed
          by (auto simp: bind_def try_except_def lift_def ret_def split: if_splits sum.splits)
      qed
    qed
  qed
qed

lemma rpc_settles: "kernel_ok K \<Longrightarrow> settles (rpc_with_handles C K self operation payload)"
  by (rule settles_exactly_settles [OF rpc_settles_exactly])

lemma settles_exactly_bind:
  assumes m: "settles_exactly C m" and f: "\<And>x hs w w' r. f (x, hs) w = (w', r) \<Longrightarrow>
      (case r of Inr (_, hs') \<Rightarrow> w' = w \<and> hs' = hs | Inl _ \<Rightarrow> w' = w\<lparr>closed := closed w @ hs\<rparr>)"
  shows "settles_exactly C (bind m f)"
  unfolding settles_exactly_def
proof (intro allI impI)
  fix w w' r
  assume run: "bind m f w = (w', r)"
  obtain w1 q where q: "m w = (w1, q)" by fastforce
  note o = m [unfolded settles_exactly_def, rule_format, OF q]
  show "case r of Inr (_, hs) \<Rightarrow> took w w' hs | Inl e \<Rightarrow> \<exists>hs. gave_up w w' hs \<or> leak_cause C e \<and> took w w' hs"
  proof (cases q)
    case (Inl e)
    then show ?thesis using o run q by (auto simp: bind_def)
  next
    case (Inr p)
    obtain x hs where p: "p = (x, hs)" by (cases p)
    have t: "took w w1 hs" using o Inr p by simp
    have run': "f (x, hs) w1 = (w', r)" using run q Inr p by (simp add: bind_def)
    show ?thesis using f [OF run'] t took_close [OF t] by (cases r) auto
  qed
qed

subsection \<open>Concrete runs\<close>

text \<open>A peer that answers with a script of chunks, each with at most one message of descriptors.\<close>

definition script_kernel :: "(string \<times> nat list) list kernel" where
  "script_kernel =
     \<lparr>k_exchange = (\<lambda>_ _ k. (k, Inr ())),
      k_recvmsg = (\<lambda>_ k. case k of [] \<Rightarrow> ([], Inr ([], [])) | (c, fds) # r \<Rightarrow> (r, Inr (c, [(True, fds)]))),
      k_request_id = (\<lambda>k. (k, ''r1''))\<rparr>"

definition script_world :: "(string \<times> nat list) list \<Rightarrow> (string \<times> nat list) list world" where
  "script_world script = \<lparr>net = script, received = [], closed = [], recv_calls = 0\<rparr>"

lemma script_kernel_ok: "kernel_ok script_kernel"
  by (auto simp: kernel_ok_def script_kernel_def split: list.splits)

definition sample_peer :: "(string \<times> nat list) list world" where
  "sample_peer = script_world [(''ab'', [7, 0, 0, 0]), (''c'' @ [newline], [9, 0, 0, 0, 4])]"


text \<open>
  Kernels that deliver a record of another kind after a descriptor, and that fail after one: the
  descriptor is closed in the first case and stays open in the second.
\<close>

definition odd_kernel :: "(string \<times> (bool \<times> nat list) list) list kernel" where
  "odd_kernel =
     \<lparr>k_exchange = (\<lambda>_ _ k. (k, Inr ())),
      k_recvmsg = (\<lambda>_ k. case k of [] \<Rightarrow> ([], Raise OSError ''timed out'') | m # r \<Rightarrow> (r, Inr m)),
      k_request_id = (\<lambda>k. (k, ''r1''))\<rparr>"

definition odd_world :: "(string \<times> (bool \<times> nat list) list) list \<Rightarrow> (string \<times> (bool \<times> nat list) list) list world" where
  "odd_world script = \<lparr>net = script, received = [], closed = [], recv_calls = 0\<rparr>"

lemma unsupported_record_closes:
  "map_prod (\<lambda>w. (received w, closed w)) (map_sum exn_of id)
     (read_frame_with_handles odd_kernel 16 (odd_world [(''a'', [(True, [7, 0, 0, 0])]), (''b'', [(False, [1])])])) =
   (([7], [7]), Inl (KapslKvControlError None))"
  by code_simp

lemma broken_frame_leaks:
  "map_prod (\<lambda>w. (received w, closed w)) (map_sum exn_of id)
     (read_frame_with_handles odd_kernel 16 (odd_world [(''a'', [(True, [7, 0, 0, 0])])])) =
   (([7], []), Inl OSError)"
  by code_simp

text \<open>A stream cut into chunks of at most three bytes.\<close>

definition stream_kernel :: "string kernel" where
  "stream_kernel =
     \<lparr>k_exchange = (\<lambda>_ _ k. (k, Inr ())),
      k_recvmsg = (\<lambda>n k. (drop (nat (min n 3)) k, Inr (take (nat (min n 3)) k, []))),
      k_request_id = (\<lambda>k. (k, ''r1''))\<rparr>"

lemma stream_kernel_stream: "byte_stream stream_kernel id"
  unfolding byte_stream_def
proof (intro allI impI)
  fix n :: int and k :: string
  assume "1 \<le> n \<and> id k \<noteq> []"
  then show "\<exists>k' chunk. k_recvmsg stream_kernel n k = (k', Inr (chunk, [])) \<and> chunk \<noteq> [] \<and>
      int (length chunk) \<le> n \<and> id k = chunk @ id k'"
    by (intro exI [of _ "drop (nat (min n 3)) k"] exI [of _ "take (nat (min n 3)) k"])
      (auto simp: stream_kernel_def)
qed

theorem read_frame_receives_witness:
  "\<exists>w'. read_frame_with_handles stream_kernel 9
      \<lparr>net = ''message'' @ newline # ''next'', received = [], closed = [], recv_calls = 0\<rparr> = (w', Inr (''message'', []))"
  by (rule read_frame_receives [OF stream_kernel_stream, of _ "''message''" "''next''"]) simp_all

end
