(* ===== verification/Control_Client.thy ===== *)
theory Control_Client
  imports Frame_Channel Contract_Registration Shared_Pool
begin

text \<open>
  The operations of \<open>KapslKvControlClient\<close> in \<open>client.py\<close>, built on the requests of
  \<open>Frame_Channel\<close>. A mapping that a caller passes is a dictionary of the model, so \<open>dict(x)\<close> is
  the identity on it.
\<close>

subsection \<open>Construction\<close>

text \<open>
  \<open>urlsplit\<close>: the scheme up to the first colon, the authority after \<open>//\<close>, then fragment and
  query. \<open>unquote\<close> is the parameter for percent decoding. White space that \<open>urlsplit\<close> strips and
  its checks of bracketed hosts only matter for endpoints with an authority, which are rejected.
\<close>

record url =
  u_scheme :: string
  u_netloc :: string
  u_path :: string
  u_query :: string
  u_fragment :: string

definition before :: "char \<Rightarrow> string \<Rightarrow> string" where
  "before c s = takeWhile (\<lambda>x. x \<noteq> c) s"

definition after :: "char \<Rightarrow> string \<Rightarrow> string" where
  "after c s = drop 1 (dropWhile (\<lambda>x. x \<noteq> c) s)"

definition scheme_char :: "char \<Rightarrow> bool" where
  "scheme_char c \<longleftrightarrow>
     (let n = of_char c :: nat
      in (65 \<le> n \<and> n \<le> 90) \<or> (97 \<le> n \<and> n \<le> 122) \<or> (48 \<le> n \<and> n \<le> 57) \<or> c \<in> set ''+-.'')"

definition scheme_start :: "char \<Rightarrow> bool" where
  "scheme_start c \<longleftrightarrow> (let n = of_char c :: nat in (65 \<le> n \<and> n \<le> 90) \<or> (97 \<le> n \<and> n \<le> 122))"

definition urlsplit :: "string \<Rightarrow> url" where
  "urlsplit endpoint =
     (let s = before (CHR '':'') endpoint;
          has_scheme = (CHR '':'' \<in> set endpoint \<and> s \<noteq> [] \<and> scheme_start (hd s) \<and> list_all scheme_char s);
          scheme = (if has_scheme then map char_lower s else []);
          r1 = (if has_scheme then after (CHR '':'') endpoint else endpoint);
          has_netloc = (take 2 r1 = ''//'');
          r2 = (if has_netloc then drop 2 r1 else r1);
          netloc = (if has_netloc then takeWhile (\<lambda>c. c \<notin> set ''/?#'') r2 else []);
          r3 = (if has_netloc then dropWhile (\<lambda>c. c \<notin> set ''/?#'') r2 else r2);
          fragment = after (CHR ''#'') r3;
          r4 = before (CHR ''#'') r3
      in \<lparr>u_scheme = scheme, u_netloc = netloc, u_path = before (CHR ''?'') r4,
          u_query = after (CHR ''?'') r4, u_fragment = fragment\<rparr>)"

definition unix_socket_path :: "(string \<Rightarrow> string) \<Rightarrow> string \<Rightarrow> string result" where
  "unix_socket_path unquote endpoint =
     (let parsed = urlsplit endpoint
      in if u_scheme parsed \<noteq> ''unix'' \<or> u_netloc parsed \<noteq> [] \<or> u_query parsed \<noteq> [] \<or> u_fragment parsed \<noteq> []
      then Raise ValueError ''kapsl_control_endpoint must be an absolute unix:/// socket URL''
      else
      let path = unquote (u_path parsed)
      in if take 1 path \<noteq> ''/'' \<or> path = ''/''
      then Raise ValueError ''kapsl_control_endpoint must contain an absolute socket path''
      else Inr path)"

definition new_client :: "(string \<Rightarrow> string) \<Rightarrow> string \<Rightarrow> string \<Rightarrow> rat \<Rightarrow> int \<Rightarrow> client result" where
  "new_client unquote endpoint participant_id timeout_seconds max_frame_bytes =
     and_then (unix_socket_path unquote endpoint) (\<lambda>path.
     if py_strip participant_id = [] then Raise ValueError ''participant_id must not be empty''
     else if timeout_seconds \<le> 0 then Raise ValueError ''timeout_seconds must be positive''
     else if max_frame_bytes \<le> 0 then Raise ValueError ''max_frame_bytes must be positive''
     else Inr \<lparr>cl_socket_path = path, cl_participant_id = participant_id, cl_max_frame_bytes = max_frame_bytes\<rparr>)"

subsection \<open>Registration\<close>

text \<open>\<open>x in v\<close> for a list, a dictionary or a string.\<close>

definition py_contains :: "string \<Rightarrow> pyval \<Rightarrow> bool result" where
  "py_contains x v =
     (case v of
        PList xs \<Rightarrow> Inr (py_in (PStr x) xs)
      | PDict d \<Rightarrow> Inr (x \<in> fst ` set d)
      | PStr s \<Rightarrow> Inr (list_ex (\<lambda>i. take (length x) (drop i s) = x) [0..<Suc (length s)])
      | _ \<Rightarrow> Raise TypeError ''argument is not iterable'')"

text \<open>\<open>any(...)\<close> stops at the first elastic pool.\<close>

fun any_elastic :: "pyval list \<Rightarrow> bool result" where
  "any_elastic [] = Inr False"
| "any_elastic (pool # pools) =
     and_then (as_mapping pool ''shared pool'') (\<lambda>p.
     if d_get p ''elastic'' \<noteq> PNone then Inr True else any_elastic pools)"

definition pool_handle_indices :: "pyval \<Rightarrow> int list result" where
  "pool_handle_indices pool =
     and_then (as_mapping pool ''shared pool'') (\<lambda>p.
     and_then (as_mapping (d_get p ''elastic'') ''elastic shared pool'') (\<lambda>elastic.
     and_then (py_iter (d_get_or elastic ''segments'' (PList []))) (\<lambda>segments.
     traverse (\<lambda>segment. int_item segment ''handle_index'') segments)))"

definition all_handles :: "int list \<Rightarrow> int list \<Rightarrow> bool" where
  "all_handles referenced handles \<longleftrightarrow> set referenced = set (map int [0..<length handles])"

definition check_receipt_handles :: "pydict \<Rightarrow> pydict \<Rightarrow> int list \<Rightarrow> unit result" where
  "check_receipt_handles registration receipt handles =
     and_then (as_mapping (d_get registration ''capabilities'') ''capabilities'') (\<lambda>capabilities.
     let shared = py_eq (d_get capabilities ''tier'') (PStr ''shared_pool'')
     in if shared \<and> \<not> truthy (d_get receipt ''shared_pools'')
     then RaiseC ''shared_pool vLLM registration received no physical bindings''
     else if \<not> shared \<and> truthy (d_get receipt ''shared_pools'')
     then RaiseC ''opaque vLLM registration cannot receive shared-pool bindings''
     else
     and_then (py_contains ''live_pool_resize'' (d_get_or capabilities ''features'' (PList []))) (\<lambda>live_resize.
     and_then (py_iter (d_get_or receipt ''shared_pools'' (PList []))) (\<lambda>pools.
     and_then (any_elastic pools) (\<lambda>receipt_live.
     if live_resize \<noteq> receipt_live
     then RaiseC ''registration receipt live-resize mode does not match the request''
     else if live_resize
     then and_then (traverse pool_handle_indices pools) (\<lambda>referenced.
          if \<not> all_handles (concat referenced) handles
          then RaiseC ''registration VMM handles do not exactly match segment indices''
          else Inr ())
     else if handles \<noteq> []
     then RaiseC ''fixed shared-pool registration returned unexpected OS handles''
     else Inr ()))))"

text \<open>
  The handlers shared by registration and resize polling: close the descriptors, and turn a
  contract violation into a control error.
\<close>

definition reject_response :: "string \<Rightarrow> int list \<Rightarrow> exn \<Rightarrow> ('k world, 'a) eff" where
  "reject_response what handles e =
     bind (close_handles handles) (\<lambda>_.
       lift (if exn_of e = ContractValidationError
             then RaiseK (fmt [''invalid '', what, '': '', exn_msg e]) else Inl e))"

definition accept_receipt :: "codec \<Rightarrow> client \<Rightarrow> pydict \<Rightarrow> pydict \<Rightarrow> int list \<Rightarrow> pydict result" where
  "accept_receipt C self registration response handles =
     and_then (expect C response [''registered'']) (\<lambda>_.
     and_then (as_mapping (d_get response ''receipt'') ''receipt'') (\<lambda>raw.
     and_then (validate_registration_receipt raw (PStr (cl_participant_id self))) (\<lambda>receipt.
     and_then (check_receipt_handles registration receipt handles) (\<lambda>_. Inr receipt))))"

definition register_with_handles ::
  "codec \<Rightarrow> 'k kernel \<Rightarrow> client \<Rightarrow> pydict \<Rightarrow> ('k world, pydict \<times> int list) eff" where
  "register_with_handles C K self registration =
     bind (lift (validate_registration registration)) (\<lambda>_.
     bind (rpc_with_handles C K self ''register'' [(''registration'', PDict registration)]) (\<lambda>(response, handles).
     try_except
       (bind (lift (accept_receipt C self registration response handles)) (\<lambda>receipt. ret (receipt, handles)))
       (reject_response ''registration receipt'' handles)))"

definition register :: "codec \<Rightarrow> 'k kernel \<Rightarrow> client \<Rightarrow> pydict \<Rightarrow> ('k world, pydict) eff" where
  "register C K self registration =
     bind (register_with_handles C K self registration) (\<lambda>(receipt, handles).
     bind (close_handles handles) (\<lambda>_. ret receipt))"

subsection \<open>Leases and lifecycle\<close>

definition acknowledged :: "codec \<Rightarrow> 'k kernel \<Rightarrow> client \<Rightarrow> string \<Rightarrow> pydict \<Rightarrow> ('k world, unit) eff" where
  "acknowledged C K self operation payload =
     bind (rpc C K self operation ((''participant_id'', PStr (cl_participant_id self)) # payload))
       (\<lambda>response. lift (expect C response [''ack'']))"

definition reserve :: "codec \<Rightarrow> 'k kernel \<Rightarrow> client \<Rightarrow> pydict \<Rightarrow> ('k world, pydict) eff" where
  "reserve C K self request =
     bind (lift (validate_reserve_request request)) (\<lambda>_.
     bind (rpc C K self ''reserve''
             [(''participant_id'', PStr (cl_participant_id self)), (''request'', PDict request)]) (\<lambda>response.
     bind (lift (expect C response [''lease''])) (\<lambda>_.
     lift (case and_then (as_mapping (d_get response ''lease'') ''lease'') validate_lease of
             Inr lease \<Rightarrow> Inr lease
           | Inl e \<Rightarrow> if exn_of e = ContractValidationError
                      then RaiseK (fmt [''invalid lease response: '', exn_msg e]) else Inl e))))"

definition attach :: "codec \<Rightarrow> 'k kernel \<Rightarrow> client \<Rightarrow> pydict \<Rightarrow> ('k world, unit) eff" where
  "attach C K self attachment =
     bind (lift (validate_shared_pool_attachment attachment)) (\<lambda>_.
     acknowledged C K self ''attach'' [(''attachment'', PDict attachment)])"

definition activate :: "codec \<Rightarrow> 'k kernel \<Rightarrow> client \<Rightarrow> int \<Rightarrow> ('k world, unit) eff" where
  "activate C K self participant_epoch =
     (if participant_epoch \<le> 0 then lift (Raise ValueError ''participant_epoch must be positive'')
      else acknowledged C K self ''activate'' [(''participant_epoch'', PInt participant_epoch)])"

definition commit :: "codec \<Rightarrow> 'k kernel \<Rightarrow> client \<Rightarrow> string \<Rightarrow> int \<Rightarrow> ('k world, unit) eff" where
  "commit C K self lease_id computed_tokens =
     (if py_strip lease_id = [] then lift (Raise ValueError ''lease_id must not be empty'')
      else if computed_tokens < 0 then lift (Raise ValueError ''computed_tokens cannot be negative'')
      else acknowledged C K self ''commit''
        [(''request'', PDict [(''lease_id'', PStr lease_id), (''computed_tokens'', PInt computed_tokens)])])"

definition required :: "string \<Rightarrow> string \<Rightarrow> string result" where
  "required value field =
     (if py_strip value = [] then Raise ValueError (fmt [field, '' must not be empty'']) else Inr value)"

definition touch :: "codec \<Rightarrow> 'k kernel \<Rightarrow> client \<Rightarrow> string \<Rightarrow> ('k world, unit) eff" where
  "touch C K self lease_id =
     bind (lift (required lease_id ''lease_id'')) (\<lambda>lid.
     acknowledged C K self ''touch'' [(''lease_id'', PStr lid)])"

definition heartbeat :: "codec \<Rightarrow> 'k kernel \<Rightarrow> client \<Rightarrow> ('k world, unit) eff" where
  "heartbeat C K self = acknowledged C K self ''heartbeat'' []"

definition release :: "codec \<Rightarrow> 'k kernel \<Rightarrow> client \<Rightarrow> string \<Rightarrow> pydict option \<Rightarrow> ('k world, unit) eff" where
  "release C K self lease_id completion =
     bind (lift (required lease_id ''lease_id'')) (\<lambda>lid.
     acknowledged C K self ''release''
       ((''lease_id'', PStr lid) # (case completion of None \<Rightarrow> [] | Some c \<Rightarrow> [(''completion'', PDict c)])))"

definition detach :: "codec \<Rightarrow> 'k kernel \<Rightarrow> client \<Rightarrow> pydict \<Rightarrow> ('k world, unit) eff" where
  "detach C K self request =
     bind (lift (validate_shared_pool_detach_request request)) (\<lambda>_.
     acknowledged C K self ''detach'' [(''request'', PDict request)])"

subsection \<open>Resize polling\<close>

definition operation_handle_indices :: "pydict \<Rightarrow> int list result" where
  "operation_handle_indices operation =
     and_then (item (PDict operation) ''stage'') (\<lambda>stage.
     if \<not> py_eq stage (PStr ''map_workers'') then Inr []
     else
     and_then (py_iter (d_get_or operation ''segments'' (PList []))) (\<lambda>segments.
     traverse (\<lambda>segment. int_item segment ''handle_index'') segments))"

definition accept_operations :: "codec \<Rightarrow> pydict \<Rightarrow> int list \<Rightarrow> (pydict list \<times> bool) result" where
  "accept_operations C response handles =
     and_then (expect C response [''resize'']) (\<lambda>_.
     case d_get response ''pending'' of
       PBool pending \<Rightarrow>
         (case d_get_or response ''operations'' (PList []) of
            PList raw \<Rightarrow>
              and_then (traverse (\<lambda>operation.
                and_then (as_mapping operation ''resize operation'') validate_resize_operation) raw) (\<lambda>operations.
              and_then (traverse operation_handle_indices operations) (\<lambda>referenced.
              if \<not> all_handles (concat referenced) handles
              then RaiseC ''resize VMM handles do not exactly match map segment indices''
              else if operations \<noteq> [] \<and> \<not> pending
              then RaiseC ''resize operations require a pending transaction''
              else Inr (operations, pending)))
          | _ \<Rightarrow> RaiseC ''resize operations must be a list'')
     | _ \<Rightarrow> RaiseC ''resize pending must be a boolean'')"

definition poll_resize_state_with_handles ::
  "codec \<Rightarrow> 'k kernel \<Rightarrow> client \<Rightarrow> pydict \<Rightarrow> ('k world, (pydict list \<times> bool) \<times> int list) eff" where
  "poll_resize_state_with_handles C K self request =
     bind (lift (validate_resize_poll_request request)) (\<lambda>_.
     bind (rpc_with_handles C K self ''resize_poll''
             [(''participant_id'', PStr (cl_participant_id self)), (''request'', PDict request)]) (\<lambda>(response, handles).
     try_except
       (bind (lift (accept_operations C response handles)) (\<lambda>out. ret (out, handles)))
       (reject_response ''resize operation'' handles)))"

definition poll_resize_with_handles ::
  "codec \<Rightarrow> 'k kernel \<Rightarrow> client \<Rightarrow> pydict \<Rightarrow> ('k world, pydict list \<times> int list) eff" where
  "poll_resize_with_handles C K self request =
     bind (poll_resize_state_with_handles C K self request) (\<lambda>((operations, _), handles).
     ret (operations, handles))"

definition poll_resize :: "codec \<Rightarrow> 'k kernel \<Rightarrow> client \<Rightarrow> pydict \<Rightarrow> ('k world, pydict list) eff" where
  "poll_resize C K self request =
     bind (poll_resize_with_handles C K self request) (\<lambda>(operations, handles).
     bind (close_handles handles) (\<lambda>_. ret operations))"

definition ack_resize :: "codec \<Rightarrow> 'k kernel \<Rightarrow> client \<Rightarrow> pydict \<Rightarrow> ('k world, unit) eff" where
  "ack_resize C K self request =
     bind (lift (validate_resize_ack_request request)) (\<lambda>_.
     acknowledged C K self ''resize_ack'' [(''request'', PDict request)])"

subsection \<open>Descriptors\<close>

text \<open>\<open>quiet m\<close>: the operation hands no descriptor on and leaves none open.\<close>

definition quiet :: "('k world, 'a) eff \<Rightarrow> bool" where
  "quiet m \<longleftrightarrow>
     (\<forall>w w' r. m w = (w', r) \<longrightarrow> (case r of Inr _ \<Rightarrow> owed w w' [] | Inl e \<Rightarrow> unsettled e \<or> owed w w' []))"

named_theorems quiet_intros \<open>structural rules for quiet operations\<close>

lemma quiet_lift [quiet_intros]: "quiet (lift r)"
  by (auto simp: quiet_def lift_def split: sum.splits)

lemma quiet_ret [quiet_intros]: "quiet (ret x)"
  by (auto simp: quiet_def ret_def)

lemma quiet_bind [quiet_intros]:
  assumes m: "quiet m" and f: "\<And>x. quiet (f x)"
  shows "quiet (bind m f)"
  unfolding quiet_def
proof (intro allI impI)
  fix w w' r
  assume run: "bind m f w = (w', r)"
  obtain w1 q where q: "m w = (w1, q)" by fastforce
  note o = m [unfolded quiet_def, rule_format, OF q]
  show "case r of Inr _ \<Rightarrow> owed w w' [] | Inl e \<Rightarrow> unsettled e \<or> owed w w' []"
  proof (cases q)
    case (Inl e)
    then show ?thesis using o run q by (auto simp: bind_def)
  next
    case (Inr x)
    then have "f x w1 = (w', r)" using run q by (simp add: bind_def)
    from f [of x, unfolded quiet_def, rule_format, OF this] show ?thesis
      using o Inr owed_trans by (cases r) auto
  qed
qed

lemma quiet_if [quiet_intros]: "quiet m \<Longrightarrow> quiet n \<Longrightarrow> quiet (if c then m else n)"
  by simp

lemma settles_close:
  assumes "settles m"
    and "\<And>x hs w. f (x, hs) w = (w\<lparr>closed := closed w @ hs\<rparr>, g x hs)"
  shows "quiet (bind m f)"
  unfolding quiet_def
proof (intro allI impI)
  fix w w' r
  assume run: "bind m f w = (w', r)"
  obtain w1 q where q: "m w = (w1, q)" by fastforce
  note o = assms(1) [unfolded settles_def, rule_format, OF q]
  show "case r of Inr _ \<Rightarrow> owed w w' [] | Inl e \<Rightarrow> unsettled e \<or> owed w w' []"
  proof (cases q)
    case (Inl e)
    then show ?thesis using o run q by (auto simp: bind_def)
  next
    case (Inr p)
    obtain x hs where p: "p = (x, hs)" by (cases p)
    then have "w' = w1\<lparr>closed := closed w1 @ hs\<rparr>" using run q Inr assms(2) by (simp add: bind_def)
    then show ?thesis using o Inr p owed_close [of w w1 hs] by (cases r) auto
  qed
qed

lemma quiet_rpc [quiet_intros]:
  assumes "kernel_ok K"
  shows "quiet (rpc C K self operation payload)"
proof -
  let ?m = "fmt [''KV control response '', py_repr operation, '' carried unexpected OS handles'']"
  have "w\<lparr>closed := closed w\<rparr> = w" for w :: "'a world" by simp
  then show ?thesis unfolding rpc_def
    by (intro settles_close [OF rpc_settles [OF assms], where g = "\<lambda>x hs. if hs \<noteq> [] then RaiseK ?m else Inr x"])
      (simp add: ret_def)
qed

lemma quiet_acknowledged [quiet_intros]: "kernel_ok K \<Longrightarrow> quiet (acknowledged C K self operation payload)"
  unfolding acknowledged_def by (intro quiet_intros)

text \<open>
  Requests that expect no descriptors keep none: for every such operation, on every outcome,
  each descriptor the peer sent along has been closed, unless a system call failed or the response
  broke the decoder in a way its handlers do not cover.
\<close>

theorem plain_operations_keep_no_handles:
  assumes "kernel_ok K"
  shows "quiet (reserve C K self request) \<and> quiet (attach C K self attachment) \<and>
    quiet (activate C K self epoch) \<and> quiet (commit C K self lease_id tokens) \<and>
    quiet (touch C K self lease_id) \<and> quiet (heartbeat C K self) \<and>
    quiet (release C K self lease_id completion) \<and> quiet (detach C K self request) \<and>
    quiet (ack_resize C K self request)"
  unfolding reserve_def attach_def activate_def commit_def touch_def heartbeat_def release_def detach_def
    ack_resize_def
  by (intro conjI quiet_intros assms)

lemma settles_exactly_lift_bind:
  assumes "settles_exactly C m"
  shows "settles_exactly C (bind (lift v) (\<lambda>_. m))"
proof (cases v)
  case (Inl e)
  then show ?thesis by (auto simp: settles_exactly_def bind_def lift_def intro: exI [of _ "[]"])
next
  case (Inr x)
  then have "bind (lift v) (\<lambda>_. m) = m" by (auto simp: bind_def lift_def)
  then show ?thesis using assms by simp
qed

lemma accept_or_reject_eq:
  "try_except (bind (lift v) (\<lambda>y. ret (y, hs))) (reject_response what hs) w =
     (case v of
        Inr y \<Rightarrow> (w, Inr (y, hs))
      | Inl e \<Rightarrow> (w\<lparr>closed := closed w @ hs\<rparr>,
                 if exn_of e = ContractValidationError
                 then RaiseK (fmt [''invalid '', what, '': '', exn_msg e]) else Inl e))"
  by (cases v) (simp_all add: try_except_def bind_def lift_def ret_def reject_response_def)

lemma settles_accept_or_reject:
  assumes "settles_exactly C m"
  shows "settles_exactly C (bind m (\<lambda>(x, hs).
    try_except (bind (lift (acc x hs)) (\<lambda>y. ret (y, hs))) (reject_response what hs)))"
  by (rule settles_exactly_bind [OF assms]) (auto simp: accept_or_reject_eq split: sum.splits if_splits)

lemma register_settles: "kernel_ok K \<Longrightarrow> settles_exactly C (register_with_handles C K self registration)"
  unfolding register_with_handles_def
  by (intro settles_exactly_lift_bind settles_accept_or_reject rpc_settles_exactly)

lemma poll_settles_exactly: "kernel_ok K \<Longrightarrow> settles_exactly C (poll_resize_state_with_handles C K self request)"
  unfolding poll_resize_state_with_handles_def
  by (intro settles_exactly_lift_bind settles_accept_or_reject rpc_settles_exactly)

lemma poll_settles: "kernel_ok K \<Longrightarrow> settles (poll_resize_state_with_handles C K self request)"
  by (rule settles_exactly_settles [OF poll_settles_exactly])

lemma accept_or_reject_Inr:
  "try_except (bind (lift v) (\<lambda>y. ret (y, hs))) (reject_response what hs) w = (w', Inr (y, hs')) \<longleftrightarrow>
     v = Inr y \<and> w' = w \<and> hs' = hs"
  unfolding accept_or_reject_eq by (cases v) auto

text \<open>What a returned receipt and returned operations satisfy.\<close>

lemma register_Inr:
  assumes "register_with_handles C K self registration w = (w', Inr (receipt, hs))"
  shows "validate_registration registration = Inr () \<and>
    (\<exists>raw. validate_registration_receipt raw (PStr (cl_participant_id self)) = Inr receipt) \<and>
    check_receipt_handles registration receipt hs = Inr ()"
proof -
  obtain response where "validate_registration registration = Inr ()"
    "accept_receipt C self registration response hs = Inr receipt"
    using assms
    by (auto simp: register_with_handles_def bind_Inr_iff lift_Inr_iff accept_or_reject_Inr)
  then show ?thesis by (auto simp: accept_receipt_def and_then_Inr_iff)
qed

lemma poll_Inr:
  assumes "poll_resize_state_with_handles C K self request w = (w', Inr ((operations, pending), hs))"
  shows "list_all (\<lambda>op. validate_resize_operation op = Inr op) operations \<and>
    (\<exists>referenced. traverse operation_handle_indices operations = Inr referenced \<and>
       all_handles (concat referenced) hs) \<and> (operations \<noteq> [] \<longrightarrow> pending)"
proof -
  obtain response where a: "accept_operations C response hs = Inr (operations, pending)"
    using assms
    by (auto simp: poll_resize_state_with_handles_def bind_Inr_iff lift_Inr_iff accept_or_reject_Inr)
  obtain raw where raw: "traverse (\<lambda>operation. and_then (as_mapping operation ''resize operation'')
        validate_resize_operation) raw = Inr operations"
    using a by (auto simp: accept_operations_def and_then_Inr_iff split: pyval.splits if_splits)
  have "validate_resize_operation op = Inr op" if "op \<in> set operations" for op
    using traverse_set [OF raw that]
    by (auto simp: and_then_Inr_iff resize_operation_accepted)
  then show ?thesis using a
    by (auto simp: accept_operations_def and_then_Inr_iff list_all_iff split: pyval.splits if_splits)
qed

lemma check_receipt_handles_Inr:
  assumes "check_receipt_handles registration receipt hs = Inr ()"
  shows "hs = [] \<or> (\<exists>pools referenced. py_iter (d_get_or receipt ''shared_pools'' (PList [])) = Inr pools \<and>
    traverse pool_handle_indices pools = Inr referenced \<and>
    set (concat referenced) = set (map int [0..<length hs]))"
  using assms
  by (auto simp: check_receipt_handles_def and_then_Inr_iff Let_def all_handles_def split: if_splits)


text \<open>
  A resize poll returns only operations that pass the contract, together with exactly the
  descriptors that their map stages reference; a non-empty answer is marked pending. When it
  raises, it has closed exactly the descriptors it received, with the same two exceptions.
\<close>

theorem poll_hands_over_handles:
  assumes "kernel_ok K" and "poll_resize_state_with_handles C K self request w = (w', r)"
  shows "case r of
      Inr ((operations, pending), hs) \<Rightarrow>
        took w w' hs \<and> (operations = [] \<or> pending) \<and>
        list_all (\<lambda>op. validate_resize_operation op = Inr op) operations \<and>
        (\<exists>referenced. traverse operation_handle_indices operations = Inr referenced \<and>
           set (concat referenced) = set (map int [0..<length hs]))
    | Inl e \<Rightarrow> \<exists>hs. gave_up w w' hs \<or> leak_cause C e \<and> took w w' hs"
proof -
  note s = poll_settles_exactly [OF assms(1), unfolded settles_exactly_def, rule_format, OF assms(2)]
  show ?thesis
  proof (cases r)
    case (Inl e)
    then show ?thesis using s by simp
  next
    case (Inr p)
    obtain operations pending hs where p: "p = ((operations, pending), hs)" by (cases p) auto
    note ok = poll_Inr [OF assms(2) [unfolded Inr p]]
    then show ?thesis using s Inr p by (auto simp: all_handles_def)
  qed
qed

text \<open>A granted lease carries a usable identifier.\<close>

lemma translated_Inr:
  "(case r of Inr x \<Rightarrow> Inr x | Inl e \<Rightarrow> if c e then Inl (f e) else Inl e) = Inr y \<longleftrightarrow> r = Inr y"
  by (cases r) auto

lemma reserve_Inr:
  assumes "reserve C K self request w = (w', Inr lease)"
  shows "validate_reserve_request request = Inr () \<and> validate_lease lease = Inr lease \<and>
    (\<exists>lid. d_get lease ''lease_id'' = PStr lid \<and> py_strip lid \<noteq> [])"
proof -
  obtain raw where ok: "validate_reserve_request request = Inr ()" "validate_lease raw = Inr lease"
    using assms
    by (auto simp: reserve_def bind_Inr_iff lift_Inr_iff translated_Inr and_then_Inr_iff)
  then have "raw = lease" "\<exists>lid. d_get lease ''lease_id'' = PStr lid \<and> py_strip lid \<noteq> []"
    by (auto simp: validate_lease_def and_then_Inr_iff)
  then show ?thesis using ok by simp
qed

subsection \<open>Samples\<close>

definition plain_codec :: codec where
  "plain_codec = \<lparr>float_text = no_rat, float_read = (\<lambda>_. NaN), wide_text = (\<lambda>_. [])\<rparr>"

definition sample_client :: client where
  "sample_client = \<lparr>cl_socket_path = ''/run/kapsl.sock'', cl_participant_id = ''vllm-0'', cl_max_frame_bytes = 16384\<rparr>"

text \<open>A peer that answers one request with one message carrying descriptors.\<close>

definition answer :: "pydict \<Rightarrow> nat list \<Rightarrow> (string \<times> nat list) list world" where
  "answer body fds = script_world
     (case json_dumps no_rat (PDict ([(''abi_version'', abi_version), (''request_id'', PStr ''r1'')] @ body)) of
        Inr text \<Rightarrow> [(text @ [newline], fds)] | Inl _ \<Rightarrow> [])"

definition ack_peer :: "(string \<times> nat list) list world" where
  "ack_peer = answer [(''result'', PStr ''ack'')] [7, 0, 0, 0]"

lemma not_unsettled: "exn_of e = KapslKvControlError None \<Longrightarrow> \<not> unsettled e"
  by (simp add: unsettled_def)

theorem plain_operations_keep_no_handles_witness:
  "case heartbeat plain_codec script_kernel sample_client ack_peer of
     (w, r) \<Rightarrow> closed w = [7] \<and> owed ack_peer w [] \<and> (\<exists>m. r = RaiseK m)"
proof -
  let ?run = "heartbeat plain_codec script_kernel sample_client ack_peer"
  obtain w r where run: "?run = (w, r)" by fastforce
  have "map_prod closed (map_sum exn_of id) ?run = ([7], Inl (KapslKvControlError None))" by code_simp
  then have c: "closed w = [7]" and e: "map_sum exn_of id r = Inl (KapslKvControlError None)"
    by (simp_all add: run)
  obtain x where x: "r = Inl x" "exn_of x = KapslKvControlError None" using e by (cases r) auto
  have "quiet (heartbeat plain_codec script_kernel sample_client)"
    using plain_operations_keep_no_handles [OF script_kernel_ok] by blast
  from this [unfolded quiet_def, rule_format, OF run] have "owed ack_peer w []"
    using x not_unsettled by auto
  moreover have "\<exists>m. r = RaiseK m" using x by (cases x) auto
  ultimately show ?thesis using c by (simp add: run)
qed

text \<open>An opaque registration whose answer carries a descriptor that nothing refers to.\<close>

definition opaque_sample :: pydict where
  "opaque_sample =
     (case opaque_registration (PStr ''vllm-0'') (PStr ''m'')
        [[(''group_id'', PStr ''a''), (''pool_id'', PStr ''p''), (''allocation_granularity_tokens'', PInt 8),
          (''bytes_per_allocation'', PInt 9), (''memory_domains'', PList [PDict [(''kind'', PStr ''cuda''), (''device_id'', PInt 0)]])]]
        (PStr ''vllm'') of
        Inr r \<Rightarrow> r | Inl _ \<Rightarrow> [])"

definition opaque_peer :: "(string \<times> nat list) list world" where
  "opaque_peer =
     answer [(''result'', PStr ''registered''),
             (''receipt'', PDict [(''participant_id'', PStr ''vllm-0''), (''participant_epoch'', PInt 7)])] [7, 0, 0, 0]"


text \<open>A worker is asked to map one segment.\<close>

definition sample_poll :: pydict where
  "sample_poll =
     [(''participant_epoch'', PInt 7),
      (''actor'', PDict [(''role'', PStr ''scheduler'')]), (''applied_generation'', PInt 2)]"

definition sample_operation :: pydict where
  "sample_operation =
     [(''allocation_granularity_bytes'', PInt 64), (''binding_id'', PStr ''b''), (''bytes_per_block'', PInt 32),
      (''from_block_count'', PInt 4), (''participant_epoch'', PInt 7), (''resize_generation'', PInt 3),
      (''segments'', PList [PDict [(''handle_index'', PInt 0), (''length_bytes'', PInt 64),
         (''offset_bytes'', PInt 128), (''segment_id'', PStr ''s'')]]),
      (''stage'', PStr ''map_workers''), (''target_block_count'', PInt 6)]"

definition resize_peer :: "(string \<times> nat list) list world" where
  "resize_peer =
     answer [(''result'', PStr ''resize''), (''pending'', PBool True),
             (''operations'', PList [PDict sample_operation])] [7, 0, 0, 0]"

lemma sample_poll_answer:
  "snd (poll_resize_state_with_handles plain_codec script_kernel sample_client sample_poll resize_peer) =
     Inr (([sample_operation], True), [7])"
  by code_simp

theorem poll_hands_over_handles_witness:
  "case poll_resize_state_with_handles plain_codec script_kernel sample_client sample_poll resize_peer of
     (w, r) \<Rightarrow> r = Inr (([sample_operation], True), [7]) \<and> took resize_peer w [7]"
proof -
  let ?run = "poll_resize_state_with_handles plain_codec script_kernel sample_client sample_poll resize_peer"
  obtain w r where run: "?run = (w, r)" by fastforce
  have r: "r = Inr (([sample_operation], True), [7])" using sample_poll_answer by (simp add: run)
  show ?thesis using poll_hands_over_handles [OF script_kernel_ok run] by (simp add: run r)
qed

end
