(* ===== verification/Connector.thy ===== *)
theory Connector
  imports Control_Client Worker_Resize Block_Pool
begin

text \<open>
  The lifecycle of \<open>KapslConnectorV1\<close> in \<open>connector.py\<close>: admission and leases, heartbeat,
  live resize of the scheduler and of the worker, the lock around a model forward, attachment and
  shutdown. The connector composes the control client, the scheduler's block pool and the
  worker's imported pool.

  The state is the object with the world behind its socket. A section under a Python lock is one
  effect, since the lock serialises it, and so is one request to the coordinator; each is a
  definition of its own, and the methods are their compositions. The interleavings of the threads
  are the steps of \<open>lease_step\<close>, in which any section of any other call may run between two
  sections of a call. \<open>cn_granted\<close> and \<open>cn_returned\<close> are histories for the statements: the leases
  \<open>reserve\<close> returned and the leases \<open>release\<close> was called for.
\<close>

subsection \<open>State\<close>

record ('k, 'q) env =
  ev_codec :: codec
  ev_kernel :: "'k kernel"
  ev_queue :: "'q queue_ops"
  ev_surface :: pool_surface
  ev_driver :: cuda_driver
  ev_nonzero :: "int \<Rightarrow> int \<Rightarrow> int"

text \<open>The hook of a worker, with what the attachment reads from it.\<close>

record worker_pool =
  wp_hook :: hook
  wp_used :: bool
  wp_expected_bytes :: int
  wp_identity :: layer_identity
  wp_raw :: "(int \<times> int) option"

record ('k, 'q) connector =
  cn_is_scheduler :: bool
  cn_mode :: string
  cn_live_resize :: bool
  cn_group_ids :: "string list"
  cn_lease_ttl_ms :: int
  cn_client :: "client option"
  cn_leases :: "(string \<times> pydict) list"
  cn_control_failure :: "exn option"
  cn_heartbeat_stop :: bool
  cn_pool :: "worker_pool option"
  cn_epoch :: "int option"
  cn_shard :: "pydict option"
  cn_profile :: "pydict option"
  cn_attached :: bool
  cn_active :: bool
  cn_resize_pending :: bool
  cn_applied_generation :: int
  cn_pending_operations :: "pydict list"
  cn_elastic :: "'q block_pool option"
  cn_forward_locked :: bool
  cn_forward_active :: bool
  cn_world :: "'k world"
  cn_granted :: "string list"
  cn_returned :: "string list"

type_synonym ('k, 'q, 'a) conn = "(('k, 'q) connector, 'a) eff"

definition fr_of :: "('k, 'q) env \<Rightarrow> pyfloat \<Rightarrow> string" where
  "fr_of E = float_str (ev_codec E)"

definition on_world :: "('k world, 'a) eff \<Rightarrow> ('k, 'q, 'a) conn" where
  "on_world m s = (case m (cn_world s) of (w, r) \<Rightarrow> (s\<lparr>cn_world := w\<rparr>, r))"

definition control_client :: "('k, 'q, client) conn" where
  "control_client =
     bind (gets cn_client) (\<lambda>c.
     lift (case c of
             None \<Rightarrow> Raise RuntimeError ''KV control client is not initialized for this connector role''
           | Some client \<Rightarrow> Inr client))"

abbreviation call_client :: "(client \<Rightarrow> ('k world, 'a) eff) \<Rightarrow> ('k, 'q, 'a) conn" where
  "call_client f \<equiv> bind control_client (\<lambda>c. on_world (f c))"

subsection \<open>Reading a request\<close>

definition py_len :: "pyval \<Rightarrow> int result" where
  "py_len v =
     (case v of
        PList xs \<Rightarrow> Inr (int (length xs))
      | PStr s \<Rightarrow> Inr (int (length s))
      | PDict d \<Rightarrow> Inr (int (length d))
      | _ \<Rightarrow> Raise TypeError ''object has no len()'')"

definition request_id_of :: "(pyfloat \<Rightarrow> string) \<Rightarrow> pyval \<Rightarrow> string result" where
  "request_id_of fr request =
     (let value = py_strip (py_str fr (getattr_or request ''request_id'' (PStr [])))
      in if value = [] then Raise ValueError ''vLLM request has no request_id'' else Inr value)"

definition request_token_capacity :: "pyval \<Rightarrow> int result" where
  "request_token_capacity request =
     (let prompt = py_or (getattr_or request ''prompt_token_ids'' PNone) (PList []);
          all_tokens = py_or (getattr_or request ''all_token_ids'' PNone) prompt;
          sampling = getattr_or request ''sampling_params'' PNone;
          max_tokens = (if sampling \<noteq> PNone then getattr_or sampling ''max_tokens'' (PInt 0) else PInt 0)
      in and_then (py_len all_tokens) (\<lambda>n.
         and_then (py_int (py_or max_tokens (PInt 0))) (\<lambda>m.
         Inr (max 1 (n + max 0 m)))))"

definition request_computed_tokens :: "pyval \<Rightarrow> int result" where
  "request_computed_tokens request =
     (let explicit = getattr_or request ''num_computed_tokens'' PNone
      in if explicit \<noteq> PNone then and_then (py_int explicit) (\<lambda>n. Inr (max 0 n))
         else py_len (py_or (getattr_or request ''all_token_ids'' PNone) (PList [])))"

definition request_priority :: "pyval \<Rightarrow> int result" where
  "request_priority request = py_int (py_or (getattr_or request ''priority'' (PInt 0)) (PInt 0))"

subsection \<open>Admission and leases\<close>

definition raise_if_control_failed :: "('k, 'q, unit) conn" where
  "raise_if_control_failed =
     bind (gets cn_control_failure) (\<lambda>failure.
     case failure of
       None \<Rightarrow> ret ()
     | Some e \<Rightarrow>
         lift (Raise (KapslKvControlError (case exn_of e of KapslKvControlError kind \<Rightarrow> kind | _ \<Rightarrow> None))
                (fmt [''Kapsl KV authority heartbeat failed: '', exn_msg e])))"

definition ensure_shared_active :: "('k, 'q) env \<Rightarrow> ('k, 'q, unit) conn" where
  "ensure_shared_active E =
     bind (gets id) (\<lambda>self.
     if cn_mode self \<noteq> ''shared_pool'' \<or> cn_active self then ret ()
     else case cn_epoch self of
       None \<Rightarrow> lift (RaiseP ''shared-pool participant has no registration epoch'')
     | Some epoch \<Rightarrow>
         bind (call_client (\<lambda>c. activate (ev_codec E) (ev_kernel E) c epoch)) (\<lambda>_.
         modify (\<lambda>s. s\<lparr>cn_active := True\<rparr>)))"

text \<open>\<open>lease["lease_id"]\<close> as text, and \<open>client.release(lease_id)\<close>.\<close>

definition lease_text :: "('k, 'q) env \<Rightarrow> pydict \<Rightarrow> string result" where
  "lease_text E lease = str_item (fr_of E) (PDict lease) ''lease_id''"

definition return_lease :: "('k, 'q) env \<Rightarrow> string \<Rightarrow> ('k, 'q, unit) conn" where
  "return_lease E lease_id =
     bind control_client (\<lambda>c.
     bind (modify (\<lambda>s. s\<lparr>cn_returned := cn_returned s @ [lease_id]\<rparr>)) (\<lambda>_.
     on_world (release (ev_codec E) (ev_kernel E) c lease_id None)))"

text \<open>
  \<open>on_new_request\<close>, one definition per section: the check of the recorded failure, the look-up in
  the table, the request to the coordinator, \<open>setdefault\<close>, and the return of a lease that another
  callback made redundant. No lock spans two of them. \<open>admit\<close> and \<open>store_lease\<close> are the two
  halves of the method run without interruption.
\<close>

definition admit_check :: "('k, 'q, bool) conn" where
  "admit_check =
     bind (gets cn_is_scheduler) (\<lambda>is_scheduler.
     if is_scheduler then bind raise_if_control_failed (\<lambda>_. ret True) else ret False)"

definition admit_lookup :: "('k, 'q) env \<Rightarrow> pyval \<Rightarrow> ('k, 'q, string option) conn" where
  "admit_lookup E request =
     bind (lift (request_id_of (fr_of E) request)) (\<lambda>rid.
     bind (gets cn_leases) (\<lambda>leases. ret (if rid \<in> fst ` set leases then None else Some rid)))"

definition admit_reserve :: "('k, 'q) env \<Rightarrow> pyval \<Rightarrow> string \<Rightarrow> ('k, 'q, pydict) conn" where
  "admit_reserve E request rid =
     bind (gets id) (\<lambda>self.
     bind (lift (and_then (request_token_capacity request) (\<lambda>capacity.
                 and_then (request_priority request) (\<lambda>priority.
                 make_reserve_request (PStr rid) (PStr rid) (PInt capacity) (map PStr (cn_group_ids self))
                   priority (PInt (cn_lease_ttl_ms self)))))) (\<lambda>reserve_request.
     bind (call_client (\<lambda>c. reserve (ev_codec E) (ev_kernel E) c reserve_request)) (\<lambda>lease.
     bind (modify (\<lambda>s. s\<lparr>cn_granted := cn_granted s @ [str_of (d_get lease ''lease_id'')]\<rparr>)) (\<lambda>_.
     ret lease))))"

definition admit :: "('k, 'q) env \<Rightarrow> pyval \<Rightarrow> ('k, 'q, (string \<times> pydict) option) conn" where
  "admit E request =
     bind admit_check (\<lambda>scheduler.
     if \<not> scheduler then ret None
     else
     bind (ensure_shared_active E) (\<lambda>_.
     bind (admit_lookup E request) (\<lambda>missing.
     case missing of
       None \<Rightarrow> ret None
     | Some rid \<Rightarrow> bind (admit_reserve E request rid) (\<lambda>lease. ret (Some (rid, lease))))))"

definition keep_lease :: "string \<Rightarrow> pydict \<Rightarrow> ('k, 'q, bool) conn" where
  "keep_lease rid lease =
     bind (gets cn_leases) (\<lambda>leases.
     if rid \<in> fst ` set leases then ret False
     else bind (modify (\<lambda>s. s\<lparr>cn_leases := cn_leases s @ [(rid, lease)]\<rparr>)) (\<lambda>_. ret True))"

definition return_redundant :: "('k, 'q) env \<Rightarrow> pydict \<Rightarrow> ('k, 'q, unit) conn" where
  "return_redundant E lease = bind (lift (lease_text E lease)) (return_lease E)"

definition store_lease :: "('k, 'q) env \<Rightarrow> string \<Rightarrow> pydict \<Rightarrow> ('k, 'q, unit) conn" where
  "store_lease E rid lease =
     bind (keep_lease rid lease) (\<lambda>kept. if kept then ret () else return_redundant E lease)"

definition on_new_request :: "('k, 'q) env \<Rightarrow> pyval \<Rightarrow> ('k, 'q, unit) conn" where
  "on_new_request E request =
     bind (admit E request) (\<lambda>outcome.
     case outcome of None \<Rightarrow> ret () | Some (rid, lease) \<Rightarrow> store_lease E rid lease)"

definition get_num_new_matched_tokens :: "('k, 'q, int \<times> bool) conn" where
  "get_num_new_matched_tokens = bind raise_if_control_failed (\<lambda>_. ret (0, False))"

definition update_state_after_alloc :: "('k, 'q, unit) conn" where
  "update_state_after_alloc = raise_if_control_failed"

definition take_lease :: "string \<Rightarrow> ('k, 'q, pydict option) conn" where
  "take_lease rid s =
     (s\<lparr>cn_leases := filter (\<lambda>(k, _). k \<noteq> rid) (cn_leases s)\<rparr>, Inr (map_of (cn_leases s) rid))"

text \<open>A statement under \<open>try\<close> whose exception is kept for later.\<close>

definition attempt :: "('s, unit) eff \<Rightarrow> ('s, exn option) eff" where
  "attempt m = try_except (bind m (\<lambda>_. ret None)) (\<lambda>e. ret (Some e))"

text \<open>\<open>request_finished\<close>: the lease leaves the table, then \<open>commit\<close>, then \<open>release\<close>.\<close>

definition finish_take :: "('k, 'q) env \<Rightarrow> pyval \<Rightarrow> ('k, 'q, pydict option) conn" where
  "finish_take E request = bind (lift (request_id_of (fr_of E) request)) take_lease"

definition finish_commit :: "('k, 'q) env \<Rightarrow> pyval \<Rightarrow> pydict \<Rightarrow> ('k, 'q, string \<times> exn option) conn" where
  "finish_commit E request lease =
     bind (lift (lease_text E lease)) (\<lambda>lease_id.
     bind (attempt (bind control_client (\<lambda>c.
             bind (lift (request_computed_tokens request)) (\<lambda>computed.
             on_world (commit (ev_codec E) (ev_kernel E) c lease_id computed))))) (\<lambda>commit_error.
     ret (lease_id, commit_error)))"

definition finish_return :: "('k, 'q) env \<Rightarrow> string \<Rightarrow> exn option \<Rightarrow> ('k, 'q, bool) conn" where
  "finish_return E lease_id commit_error =
     bind (attempt (return_lease E lease_id)) (\<lambda>release_error.
     case commit_error of
       Some e \<Rightarrow> lift (Inl e)
     | None \<Rightarrow> (case release_error of Some e \<Rightarrow> lift (Inl e) | None \<Rightarrow> ret False))"

definition request_finished :: "('k, 'q) env \<Rightarrow> pyval \<Rightarrow> ('k, 'q, bool) conn" where
  "request_finished E request =
     bind (finish_take E request) (\<lambda>found.
     case found of
       None \<Rightarrow> ret False
     | Some lease \<Rightarrow>
         bind (finish_commit E request lease) (\<lambda>(lease_id, commit_error). finish_return E lease_id commit_error))"

definition is_control_error :: "exn \<Rightarrow> bool" where
  "is_control_error e = (case exn_of e of KapslKvControlError _ \<Rightarrow> True | _ \<Rightarrow> False)"

text \<open>Releases at shutdown: a control error is logged, any other exception ends the loop.\<close>

definition shutdown_lease :: "('k, 'q) env \<Rightarrow> pydict \<Rightarrow> ('k, 'q, unit) conn" where
  "shutdown_lease E lease =
     bind (lift (lease_text E lease)) (\<lambda>lease_id.
     try_except (return_lease E lease_id)
       (\<lambda>e. if is_control_error e then ret () else lift (Inl e)))"

definition release_forward :: "('k, 'q, unit) conn" where
  "release_forward =
     modify (\<lambda>s. if cn_forward_active s then s\<lparr>cn_forward_active := False, cn_forward_locked := False\<rparr> else s)"

text \<open>Everything before the leases, and the section that empties the table.\<close>

definition shutdown_stop :: "('k, 'q, bool) conn" where
  "shutdown_stop =
     bind release_forward (\<lambda>_.
     bind (modify (\<lambda>s. s\<lparr>cn_pool := None\<rparr>)) (\<lambda>_.
     bind (gets cn_is_scheduler) (\<lambda>is_scheduler.
     if \<not> is_scheduler then ret False
     else bind (modify (\<lambda>s. s\<lparr>cn_heartbeat_stop := True\<rparr>)) (\<lambda>_. ret True))))"

definition shutdown_take :: "('k, 'q, pydict list) conn" where
  "shutdown_take s = (s\<lparr>cn_leases := []\<rparr>, Inr (map snd (cn_leases s)))"

definition shutdown :: "('k, 'q) env \<Rightarrow> ('k, 'q, unit) conn" where
  "shutdown E =
     bind shutdown_stop (\<lambda>scheduler.
     if \<not> scheduler then ret ()
     else bind shutdown_take (for_each (shutdown_lease E)))"

subsection \<open>Live resize\<close>

definition generation_of :: "pydict \<Rightarrow> int result" where
  "generation_of operation = int_item (PDict operation) ''resize_generation''"

definition close_os_handles :: "int list \<Rightarrow> ('k, 'q, unit) conn" where
  "close_os_handles handles = on_world (close_handles handles)"

definition scheduler_actor :: pydict where
  "scheduler_actor = [(''role'', PStr ''scheduler'')]"

definition worker_actor :: "pydict \<Rightarrow> pydict" where
  "worker_actor shard = [(''role'', PStr ''worker''), (''shard'', PDict shard)]"

definition poll_resizes ::
  "('k, 'q) env \<Rightarrow> int \<Rightarrow> pydict \<Rightarrow> ('k, 'q, (pydict list \<times> bool) \<times> int list) conn" where
  "poll_resizes E epoch actor =
     bind control_client (\<lambda>c.
     bind (gets cn_applied_generation) (\<lambda>applied.
     bind (lift (make_resize_poll_request (PInt epoch) actor (PInt applied))) (\<lambda>request.
     on_world (poll_resize_state_with_handles (ev_codec E) (ev_kernel E) c request))))"

text \<open>New operations are those beyond the applied generation that are not queued yet.\<close>

definition enqueue_operations :: "pydict list \<Rightarrow> bool \<Rightarrow> ('k, 'q, unit) conn" where
  "enqueue_operations operations pending =
     bind (gets id) (\<lambda>self.
     bind (lift (traverse generation_of (cn_pending_operations self))) (\<lambda>known.
     bind (lift (traverse (\<lambda>op. and_then (generation_of op) (\<lambda>g. Inr (g, op))) operations)) (\<lambda>keyed.
     modify (\<lambda>s. s\<lparr>cn_pending_operations := cn_pending_operations s @
                     map snd (filter (\<lambda>(g, _). g > cn_applied_generation self \<and> g \<notin> set known) keyed),
                   cn_resize_pending := pending\<rparr>))))"

definition poll_scheduler_resizes :: "('k, 'q) env \<Rightarrow> ('k, 'q, unit) conn" where
  "poll_scheduler_resizes E =
     bind (gets cn_epoch) (\<lambda>known_epoch.
     case known_epoch of
       None \<Rightarrow> lift (RaiseP ''elastic scheduler has no participant epoch'')
     | Some epoch \<Rightarrow>
         bind (poll_resizes E epoch scheduler_actor) (\<lambda>((operations, pending), handles).
         try_finally
           (if handles \<noteq> []
            then lift (RaiseP ''scheduler resize phase received CUDA allocation handles'')
            else enqueue_operations operations pending)
           (close_os_handles handles)))"

definition acknowledge ::
  "('k, 'q) env \<Rightarrow> pydict \<Rightarrow> pydict \<Rightarrow> string \<Rightarrow> int \<Rightarrow> int \<Rightarrow> ('k, 'q, unit) conn" where
  "acknowledge E actor operation stage generation target =
     bind control_client (\<lambda>c.
     bind (lift (and_then (int_item (PDict operation) ''participant_epoch'') (\<lambda>epoch.
                 and_then (str_item (fr_of E) (PDict operation) ''binding_id'') (\<lambda>binding_id.
                 make_resize_ack_request (PInt epoch) actor (PStr binding_id) (PInt generation)
                   (PStr stage) (PInt target))))) (\<lambda>request.
     on_world (ack_resize (ev_codec E) (ev_kernel E) c request)))"

definition advance_generation :: "int \<Rightarrow> ('k, 'q, unit) conn" where
  "advance_generation generation =
     modify (\<lambda>s. s\<lparr>cn_applied_generation := max (cn_applied_generation s) generation\<rparr>)"

definition on_elastic :: "('q block_pool, unit) eff \<Rightarrow> ('k, 'q, unit) conn" where
  "on_elastic m s =
     (case cn_elastic s of
        None \<Rightarrow> (s, RaiseP ''elastic scheduler block pool is unavailable'')
      | Some p \<Rightarrow> (case m p of (p', r) \<Rightarrow> (s\<lparr>cn_elastic := Some p'\<rparr>, r)))"

definition apply_scheduler_operation :: "('k, 'q) env \<Rightarrow> pydict \<Rightarrow> ('k, 'q, unit) conn" where
  "apply_scheduler_operation E operation =
     bind (lift (str_item (fr_of E) (PDict operation) ''stage'')) (\<lambda>stage.
     if stage \<noteq> ''activate_scheduler'' \<and> stage \<noteq> ''retire_scheduler''
     then lift (RaiseP ''scheduler received a worker resize stage'')
     else
     bind (lift (int_item (PDict operation) ''target_block_count'')) (\<lambda>target.
     bind (on_elastic (apply_pool (ev_queue E) (ev_surface E) target)) (\<lambda>_.
     bind (lift (generation_of operation)) (\<lambda>generation.
     bind (acknowledge E scheduler_actor operation stage generation target) (\<lambda>_.
     advance_generation generation)))))"

definition apply_scheduler_resizes :: "('k, 'q) env \<Rightarrow> ('k, 'q, unit) conn" where
  "apply_scheduler_resizes E =
     bind (gets id) (\<lambda>self.
     if \<not> cn_live_resize self then ret ()
     else if cn_elastic self = None then lift (RaiseP ''elastic scheduler block pool is unavailable'')
     else
     bind (modify (\<lambda>s. s\<lparr>cn_pending_operations := []\<rparr>)) (\<lambda>_.
     for_each (apply_scheduler_operation E) (cn_pending_operations self)))"

definition build_connector_meta :: "('k, 'q) env \<Rightarrow> ('k, 'q, unit) conn" where
  "build_connector_meta E = bind raise_if_control_failed (\<lambda>_. apply_scheduler_resizes E)"

definition bind_gpu_block_pool :: "('k, 'q) env \<Rightarrow> ('k, 'q, unit) conn" where
  "bind_gpu_block_pool E =
     bind (gets id) (\<lambda>self.
     if \<not> cn_is_scheduler self \<or> \<not> cn_live_resize self then ret ()
     else if cn_elastic self = None
     then lift (RaiseP ''elastic scheduler has no negotiated block-pool geometry'')
     else on_elastic (bind_pool (ev_queue E) (ev_surface E)))"

definition has_pending_push_work :: "('k, 'q) connector \<Rightarrow> bool" where
  "has_pending_push_work self \<longleftrightarrow>
     cn_resize_pending self \<or> cn_pending_operations self \<noteq> [] \<or>
     (case cn_elastic self of None \<Rightarrow> False | Some p \<Rightarrow> bp_current p > bp_initial p)"

definition on_hook :: "(hook, unit) eff \<Rightarrow> ('k, 'q, unit) conn" where
  "on_hook m s =
     (case cn_pool s of
        None \<Rightarrow> (s, RaiseP ''elastic worker has no shared-pool hook'')
      | Some p \<Rightarrow> (case m (wp_hook p) of (h, r) \<Rightarrow> (s\<lparr>cn_pool := Some (p\<lparr>wp_hook := h\<rparr>)\<rparr>, r)))"

definition apply_worker_operation :: "('k, 'q) env \<Rightarrow> pydict \<Rightarrow> int list \<Rightarrow> pydict \<Rightarrow> ('k, 'q, unit) conn" where
  "apply_worker_operation E shard handles operation =
     bind (on_hook (apply_worker_resize (fr_of E) (ev_driver E) (ev_nonzero E) operation handles)) (\<lambda>_.
     bind (lift (int_item (PDict operation) ''target_block_count'')) (\<lambda>target.
     bind (lift (generation_of operation)) (\<lambda>generation.
     bind (lift (str_item (fr_of E) (PDict operation) ''stage'')) (\<lambda>stage.
     bind (acknowledge E (worker_actor shard) operation stage generation target) (\<lambda>_.
     advance_generation generation)))))"

definition apply_worker_resizes :: "('k, 'q) env \<Rightarrow> ('k, 'q, unit) conn" where
  "apply_worker_resizes E =
     bind (gets id) (\<lambda>self.
     case (cn_live_resize self, cn_epoch self, cn_shard self) of
       (True, Some epoch, Some shard) \<Rightarrow>
         if cn_pool self = None then lift (RaiseP ''elastic worker has no shared-pool hook'')
         else
         bind (poll_resizes E epoch (worker_actor shard)) (\<lambda>((operations, _), handles).
         try_finally
           (for_each (apply_worker_operation E shard handles) operations)
           (close_os_handles handles))
     | _ \<Rightarrow> ret ())"

subsection \<open>The forward lock\<close>

text \<open>
  \<open>start_load_kv\<close> and \<open>wait_for_save\<close>. \<open>None\<close> is a call that waits for the lock;
  \<open>has_model_forward\<close> is whether the forward context carries attention metadata.
\<close>

definition unlock_forward :: "('k, 'q, unit) conn" where
  "unlock_forward = modify (\<lambda>s. s\<lparr>cn_forward_active := False, cn_forward_locked := False\<rparr>)"

definition fenced_resizes :: "('k, 'q) env \<Rightarrow> bool \<Rightarrow> ('k, 'q, unit) conn" where
  "fenced_resizes E has_model_forward =
     try_except
       (bind (apply_worker_resizes E) (\<lambda>_. if has_model_forward then ret () else unlock_forward))
       (\<lambda>e. bind unlock_forward (\<lambda>_. lift (Inl e)))"

definition start_load_kv ::
  "('k, 'q) env \<Rightarrow> bool \<Rightarrow> ('k, 'q) connector \<Rightarrow> (('k, 'q) connector \<times> unit result) option" where
  "start_load_kv E has_model_forward s =
     (if cn_is_scheduler s \<or> \<not> cn_live_resize s then Some (s, Inr ())
      else if cn_forward_locked s then None
      else Some (fenced_resizes E has_model_forward (s\<lparr>cn_forward_locked := True, cn_forward_active := True\<rparr>)))"

definition wait_for_save :: "('k, 'q, unit) conn" where
  "wait_for_save = release_forward"

subsection \<open>Attachment and heartbeat\<close>

definition register_kv_caches :: "('k, 'q) env \<Rightarrow> (string \<times> tensor) list \<Rightarrow> ('k, 'q, unit) conn" where
  "register_kv_caches E kv_caches =
     bind (gets id) (\<lambda>self.
     if cn_mode self \<noteq> ''shared_pool'' \<or> cn_is_scheduler self \<or> cn_attached self then ret ()
     else case cn_pool self of
       None \<Rightarrow> lift (RaiseP ''vLLM registered KV tensors without consuming the Kapsl CUDA IPC pool'')
     | Some p \<Rightarrow>
         if \<not> wp_used p
         then lift (RaiseP ''vLLM registered KV tensors without consuming the Kapsl CUDA IPC pool'')
         else case (cn_epoch self, cn_shard self, cn_profile self) of
           (Some epoch, Some shard, Some profile) \<Rightarrow>
             bind (lift (and_then (attachment_views (wp_used p) (wp_raw p) (wp_expected_bytes p) (wp_identity p) kv_caches)
                 (\<lambda>views. make_shared_pool_attachment (PInt epoch) (PStr (hk_binding_id (wp_hook p))) shard profile
                    (PInt (wp_expected_bytes p))
                    (if cn_live_resize self then PInt (hk_mapped_bytes (wp_hook p)) else PNone) views))) (\<lambda>attachment.
             bind (call_client (\<lambda>c. attach (ev_codec E) (ev_kernel E) c attachment)) (\<lambda>_.
             modify (\<lambda>s. s\<lparr>cn_attached := True\<rparr>)))
         | _ \<Rightarrow> lift (RaiseP ''shared-pool registration state is incomplete before attachment''))"

text \<open>
  One iteration of \<open>_heartbeat_loop\<close>, one definition per section; the result tells whether the
  loop goes on. An exception that is not a control error ends the thread.
\<close>

definition lose_authority :: "exn \<Rightarrow> ('k, 'q, bool) conn" where
  "lose_authority e = bind (modify (\<lambda>s. s\<lparr>cn_control_failure := Some e\<rparr>)) (\<lambda>_. ret False)"

definition beat_poll :: "('k, 'q) env \<Rightarrow> ('k, 'q, exn option) conn" where
  "beat_poll E =
     bind (gets cn_live_resize) (\<lambda>live_resize.
     if live_resize
     then try_except (bind (poll_scheduler_resizes E) (\<lambda>_. ret None))
            (\<lambda>e. if is_control_error e then ret (Some e) else lift (Inl e))
     else ret None)"

definition beat_live :: "('k, 'q, bool) conn" where
  "beat_live = bind (gets cn_leases) (\<lambda>leases. ret (leases \<noteq> []))"

definition beat_send :: "('k, 'q) env \<Rightarrow> ('k, 'q, exn option) conn" where
  "beat_send E =
     try_except (bind (call_client (\<lambda>c. heartbeat (ev_codec E) (ev_kernel E) c)) (\<lambda>_. ret None))
       (\<lambda>e. if is_control_error e then ret (Some e) else lift (Inl e))"

definition beat_failed :: "exn \<Rightarrow> ('k, 'q, bool) conn" where
  "beat_failed e = bind (gets cn_leases) (\<lambda>leases. if leases = [] then ret True else lose_authority e)"

definition heartbeat_step :: "('k, 'q) env \<Rightarrow> ('k, 'q, bool) conn" where
  "heartbeat_step E =
     bind (beat_poll E) (\<lambda>poll_error.
     case poll_error of
       Some e \<Rightarrow> lose_authority e
     | None \<Rightarrow>
         bind beat_live (\<lambda>live.
         if \<not> live then ret True
         else
         bind (beat_send E) (\<lambda>beat_error.
         case beat_error of Some e \<Rightarrow> beat_failed e | None \<Rightarrow> ret True)))"

definition start_scheduler_control :: "('k, 'q) env \<Rightarrow> ('k, 'q, bool) conn" where
  "start_scheduler_control E =
     bind (gets id) (\<lambda>self.
     if \<not> cn_is_scheduler self then ret False
     else bind (if cn_mode self = ''shared_pool'' then ensure_shared_active E else ret ()) (\<lambda>_. ret True))"

subsection \<open>Lease accounting\<close>

text \<open>The part of the state that concerns leases, and the operations that leave it alone.\<close>

definition lease_part :: "('k, 'q) connector \<Rightarrow> (string \<times> pydict) list \<times> string list \<times> string list \<times> client option \<times> bool" where
  "lease_part s = (cn_leases s, cn_granted s, cn_returned s, cn_client s, cn_is_scheduler s)"

lemma lease_part_world [keeps_intros]: "keeps (\<lambda>s. lease_part s = x) (on_world m)"
  by (auto simp: keeps_def on_world_def lease_part_def split: prod.splits)

lemma on_world_iff: "on_world m s = (s', r) \<longleftrightarrow> (\<exists>w. m (cn_world s) = (w, r) \<and> s' = s\<lparr>cn_world := w\<rparr>)"
  by (auto simp: on_world_def split: prod.splits)

lemma control_client_Inr: "control_client s = (s', Inr c) \<longleftrightarrow> s' = s \<and> cn_client s = Some c"
  by (auto simp: control_client_def bind_def gets_def lift_def split: option.splits)

lemma lease_frame: "m s = (s', r) \<Longrightarrow> keeps (\<lambda>t. lease_part t = lease_part s) m \<Longrightarrow> lease_part s' = lease_part s"
  unfolding keeps_def by (drule spec [of _ s]) simp

lemma lease_part_modify:
  "(\<And>s. lease_part (f s) = lease_part s) \<Longrightarrow> keeps (\<lambda>s. lease_part s = x) (modify f)"
  by (simp add: keeps_def modify_def)

lemma lease_part_client [keeps_intros]: "keeps (\<lambda>s. lease_part s = x) control_client"
  unfolding control_client_def by (intro keeps_intros)

lemma lease_part_on_elastic [keeps_intros]: "keeps (\<lambda>s. lease_part s = x) (on_elastic m)"
  by (auto simp: keeps_def on_elastic_def lease_part_def split: prod.splits option.splits)

lemma lease_part_failed [keeps_intros]: "keeps (\<lambda>s. lease_part s = x) raise_if_control_failed"
  unfolding raise_if_control_failed_def by (intro keeps_intros)

lemma lease_part_active [keeps_intros]: "keeps (\<lambda>s. lease_part s = x) (ensure_shared_active E)"
  unfolding ensure_shared_active_def by (intro keeps_intros lease_part_modify) (simp add: lease_part_def)

lemma lease_part_poll [keeps_intros]: "keeps (\<lambda>s. lease_part s = x) (poll_scheduler_resizes E)"
  unfolding poll_scheduler_resizes_def poll_resizes_def enqueue_operations_def close_os_handles_def
  by (intro keeps_intros lease_part_modify) (simp add: lease_part_def)

lemma lease_part_beat_poll [keeps_intros]: "keeps (\<lambda>s. lease_part s = x) (beat_poll E)"
  unfolding beat_poll_def by (intro keeps_intros)

lemma lease_part_beat_send [keeps_intros]: "keeps (\<lambda>s. lease_part s = x) (beat_send E)"
  unfolding beat_send_def by (intro keeps_intros)

lemma lease_part_lose [keeps_intros]: "keeps (\<lambda>s. lease_part s = x) (lose_authority e)"
  unfolding lose_authority_def by (intro keeps_intros lease_part_modify) (simp add: lease_part_def)

lemma lease_part_resizes [keeps_intros]: "keeps (\<lambda>s. lease_part s = x) (apply_scheduler_resizes E)"
  unfolding apply_scheduler_resizes_def apply_scheduler_operation_def acknowledge_def advance_generation_def
  by (intro keeps_intros lease_part_modify) (simp_all add: lease_part_def)

lemma lease_part_stop [keeps_intros]: "keeps (\<lambda>s. lease_part s = x) shutdown_stop"
  unfolding shutdown_stop_def release_forward_def
  by (intro keeps_intros lease_part_modify) (simp_all add: lease_part_def)

text \<open>A lease carries an identifier that \<open>release\<close> accepts.\<close>

definition lease_id_of :: "pydict \<Rightarrow> string" where
  "lease_id_of lease = str_of (d_get lease ''lease_id'')"

definition lease_ok :: "pydict \<Rightarrow> bool" where
  "lease_ok lease \<longleftrightarrow> (\<exists>lid. d_get lease ''lease_id'' = PStr lid \<and> py_strip lid \<noteq> [])"

lemma lease_text_ok: "lease_ok lease \<Longrightarrow> lease_text E lease = Inr (lease_id_of lease)"
  by (auto simp: lease_ok_def lease_text_def lease_id_of_def str_item_def item_def d_get_def split: option.splits)

lemma return_lease_eq:
  assumes "cn_client s = Some c"
  obtains w r where "return_lease E lid s = (s\<lparr>cn_returned := cn_returned s @ [lid], cn_world := w\<rparr>, r)"
proof -
  obtain w r where "release (ev_codec E) (ev_kernel E) c lid None (cn_world s) = (w, r)" by fastforce
  with assms that show thesis
    by (simp add: return_lease_def control_client_def bind_def gets_def lift_def modify_def on_world_def)
qed


lemma attempt_eq: "attempt m s = (case m s of (s', Inr _) \<Rightarrow> (s', Inr None) | (s', Inl e) \<Rightarrow> (s', Inr (Some e)))"
  by (auto simp: attempt_def try_except_def bind_def ret_def split: prod.splits sum.splits)

subsection \<open>Interleavings\<close>

text \<open>
  A call in progress, by the section it stands before. A constructor carries the local variables
  the rest of the method reads; \<open>Stop_abandoned\<close> is a shutdown that an exception has ended, with
  the leases its loop did not reach.
\<close>

datatype task =
  Admit pyval
| Admit_checked pyval
| Admit_active pyval
| Admit_missing pyval string
| Admit_leased string pydict
| Admit_redundant pydict
| Finish pyval
| Finish_taken pyval pydict
| Finish_committed string "exn option"
| Query
| Meta
| Meta_checked
| Bind_blocks
| Beat
| Beat_lost exn
| Beat_polled
| Beat_live
| Beat_failed exn
| Stop
| Stop_take
| Stop_release "pydict list"
| Stop_abandoned exn "pydict list"

text \<open>A call of the engine, or an iteration of the heartbeat thread, before its first section.\<close>

fun entry_point :: "task \<Rightarrow> bool" where
  "entry_point (Admit _) = True"
| "entry_point (Finish _) = True"
| "entry_point Query = True"
| "entry_point Meta = True"
| "entry_point Bind_blocks = True"
| "entry_point Beat = True"
| "entry_point Stop = True"
| "entry_point _ = False"

text \<open>\<open>None\<close>: the call has returned.\<close>

fun task_section :: "('k, 'q) env \<Rightarrow> task \<Rightarrow> ('k, 'q, task option) conn" where
  "task_section E (Admit request) =
     bind admit_check (\<lambda>scheduler. ret (if scheduler then Some (Admit_checked request) else None))"
| "task_section E (Admit_checked request) =
     bind (ensure_shared_active E) (\<lambda>_. ret (Some (Admit_active request)))"
| "task_section E (Admit_active request) =
     bind (admit_lookup E request) (\<lambda>missing. ret (map_option (Admit_missing request) missing))"
| "task_section E (Admit_missing request rid) =
     bind (admit_reserve E request rid) (\<lambda>lease. ret (Some (Admit_leased rid lease)))"
| "task_section E (Admit_leased rid lease) =
     bind (keep_lease rid lease) (\<lambda>kept. ret (if kept then None else Some (Admit_redundant lease)))"
| "task_section E (Admit_redundant lease) = bind (return_redundant E lease) (\<lambda>_. ret None)"
| "task_section E (Finish request) =
     bind (finish_take E request) (\<lambda>found. ret (map_option (Finish_taken request) found))"
| "task_section E (Finish_taken request lease) =
     bind (finish_commit E request lease) (\<lambda>(lease_id, e). ret (Some (Finish_committed lease_id e)))"
| "task_section E (Finish_committed lease_id e) = bind (finish_return E lease_id e) (\<lambda>_. ret None)"
| "task_section E Query = bind raise_if_control_failed (\<lambda>_. ret None)"
| "task_section E Meta = bind raise_if_control_failed (\<lambda>_. ret (Some Meta_checked))"
| "task_section E Meta_checked = bind (apply_scheduler_resizes E) (\<lambda>_. ret None)"
| "task_section E Bind_blocks = bind (bind_gpu_block_pool E) (\<lambda>_. ret None)"
| "task_section E Beat =
     bind (beat_poll E) (\<lambda>e. ret (Some (case e of Some x \<Rightarrow> Beat_lost x | None \<Rightarrow> Beat_polled)))"
| "task_section E (Beat_lost e) = bind (lose_authority e) (\<lambda>_. ret None)"
| "task_section E Beat_polled = bind beat_live (\<lambda>live. ret (if live then Some Beat_live else None))"
| "task_section E Beat_live = bind (beat_send E) (\<lambda>e. ret (map_option Beat_failed e))"
| "task_section E (Beat_failed e) = bind (beat_failed e) (\<lambda>_. ret None)"
| "task_section E Stop = bind shutdown_stop (\<lambda>scheduler. ret (if scheduler then Some Stop_take else None))"
| "task_section E Stop_take = bind shutdown_take (\<lambda>leases. ret (Some (Stop_release leases)))"
| "task_section E (Stop_release []) = ret None"
| "task_section E (Stop_release (lease # leases)) =
     bind (shutdown_lease E lease) (\<lambda>_. ret (Some (Stop_release leases)))"
| "task_section E (Stop_abandoned e leases) = ret (Some (Stop_abandoned e leases))"

text \<open>
  What is left of a call after a section. An exception ends it; when that call is a shutdown in its
  loop, the leases of the later iterations go with it.
\<close>

fun after_raise :: "exn \<Rightarrow> task \<Rightarrow> task list" where
  "after_raise e (Stop_release (_ # leases)) = [Stop_abandoned e leases]"
| "after_raise e _ = []"

definition after_section :: "task \<Rightarrow> task option result \<Rightarrow> task list" where
  "after_section t r = (case r of Inl e \<Rightarrow> after_raise e t | Inr None \<Rightarrow> [] | Inr (Some t') \<Rightarrow> [t'])"

text \<open>
  A state is the connector with the calls in progress. A new call may begin at any time, and any
  call in progress may run its next section.
\<close>

inductive lease_step ::
  "('k, 'q) env \<Rightarrow> ('k, 'q) connector \<times> task list \<Rightarrow> ('k, 'q) connector \<times> task list \<Rightarrow> bool" for E where
  begun: "entry_point t \<Longrightarrow> lease_step E (s, ts) (s, ts @ [t])"
| ran: "task_section E t s = (s', r) \<Longrightarrow> lease_step E (s, xs @ t # ys) (s', xs @ after_section t r @ ys)"

inductive_cases lease_stepE: "lease_step E st st'"

text \<open>A call run without interruption is the method.\<close>

fun run_task :: "('k, 'q) env \<Rightarrow> nat \<Rightarrow> task \<Rightarrow> ('k, 'q, task option) conn" where
  "run_task E 0 t = ret (Some t)"
| "run_task E (Suc n) t =
     bind (task_section E t) (\<lambda>u. case u of None \<Rightarrow> ret None | Some t' \<Rightarrow> run_task E n t')"

lemma run_on_new_request: "run_task E 6 (Admit request) = bind (on_new_request E request) (\<lambda>_. ret None)"
  unfolding on_new_request_def admit_def store_lease_def
  by (auto simp: bind_assoc eval_nat_numeral intro!: bind_cong split: option.splits)

lemma run_request_finished: "run_task E 3 (Finish request) = bind (request_finished E request) (\<lambda>_. ret None)"
  unfolding request_finished_def
  by (auto simp: bind_assoc eval_nat_numeral intro!: bind_cong split: option.splits)

lemma run_build_connector_meta: "run_task E 2 Meta = bind (build_connector_meta E) (\<lambda>_. ret None)"
  unfolding build_connector_meta_def
  by (auto simp: bind_assoc eval_nat_numeral intro!: bind_cong)

lemma run_heartbeat_step: "run_task E 4 Beat = bind (heartbeat_step E) (\<lambda>_. ret None)"
  unfolding heartbeat_step_def
  by (auto simp: bind_assoc eval_nat_numeral intro!: bind_cong split: option.splits)

lemma run_release_loop:
  "length leases < n \<Longrightarrow> run_task E n (Stop_release leases) = bind (for_each (shutdown_lease E) leases) (\<lambda>_. ret None)"
proof (induction leases arbitrary: n)
  case Nil
  then show ?case by (cases n) simp_all
next
  case (Cons lease leases)
  then show ?case by (cases n) (auto simp: bind_assoc intro!: bind_cong)
qed

lemma run_shutdown:
  assumes "length (cn_leases s) + 2 < n"
  shows "run_task E n Stop s = bind (shutdown E) (\<lambda>_. ret None) s"
proof -
  obtain m where n: "n = Suc (Suc m)" and m: "length (cn_leases s) < m"
    using assms by (metis add_2_eq_Suc' less_imp_Suc_add Suc_less_eq add_Suc_right)
  obtain s1 b where s1: "shutdown_stop s = (s1, b)" by fastforce
  have "cn_leases s1 = cn_leases s"
    using lease_frame [OF s1 lease_part_stop] by (simp add: lease_part_def)
  then show ?thesis using m
    by (cases b) (simp_all add: n shutdown_def bind_assoc bind_def [of shutdown_stop] s1 bind_def [of shutdown_take]
        shutdown_take_def run_release_loop)
qed


subsection \<open>Lease accounting\<close>

text \<open>The leases a call holds outside the table.\<close>

fun held_by :: "task \<Rightarrow> string list" where
  "held_by (Admit_leased _ lease) = [lease_id_of lease]"
| "held_by (Admit_redundant lease) = [lease_id_of lease]"
| "held_by (Finish_taken _ lease) = [lease_id_of lease]"
| "held_by (Finish_committed lease_id _) = [lease_id]"
| "held_by (Stop_release leases) = map lease_id_of leases"
| "held_by (Stop_abandoned _ leases) = map lease_id_of leases"
| "held_by _ = []"

fun abandoned :: "task \<Rightarrow> bool" where
  "abandoned (Stop_abandoned _ _) = True"
| "abandoned _ = False"

abbreviation lease_ids :: "(string \<times> pydict) list \<Rightarrow> string multiset" where
  "lease_ids xs \<equiv> mset (map (\<lambda>(_, lease). lease_id_of lease) xs)"

abbreviation held :: "task list \<Rightarrow> string multiset" where
  "held ts \<equiv> mset (concat (map held_by ts))"

fun task_ok :: "task \<Rightarrow> bool" where
  "task_ok (Admit_leased _ lease) \<longleftrightarrow> lease_ok lease"
| "task_ok (Admit_redundant lease) \<longleftrightarrow> lease_ok lease"
| "task_ok (Finish_taken _ lease) \<longleftrightarrow> lease_ok lease"
| "task_ok (Stop_release leases) \<longleftrightarrow> list_all lease_ok leases"
| "task_ok (Stop_abandoned e leases) \<longleftrightarrow> list_all lease_ok leases \<and> \<not> is_control_error e"
| "task_ok _ \<longleftrightarrow> True"

text \<open>\<open>R\<close> are the leases of the calls that do not take part in a step.\<close>

definition accounted :: "string multiset \<Rightarrow> ('k, 'q) connector \<Rightarrow> task list \<Rightarrow> bool" where
  "accounted R s ts \<longleftrightarrow>
     distinct (map fst (cn_leases s)) \<and> list_all (\<lambda>(_, lease). lease_ok lease) (cn_leases s) \<and> list_all task_ok ts \<and>
     (cn_granted s \<noteq> [] \<longrightarrow> cn_client s \<noteq> None) \<and>
     mset (cn_granted s) = lease_ids (cn_leases s) + held ts + mset (cn_returned s) + R"

lemma accounted_split:
  "accounted R s (xs @ ts @ ys) \<longleftrightarrow> accounted (R + held xs + held ys) s ts \<and> list_all task_ok xs \<and> list_all task_ok ys"
  by (auto simp: accounted_def ac_simps)

lemma accounted_frame:
  "accounted R s ts \<Longrightarrow> lease_part s' = lease_part s \<Longrightarrow> held ts' = held ts \<Longrightarrow> list_all task_ok ts' \<Longrightarrow> accounted R s' ts'"
  by (auto simp: accounted_def lease_part_def)

lemma accounted_client:
  assumes "accounted R s ts" and "held ts \<noteq> {#}"
  obtains c where "cn_client s = Some c"
  using assms by (fastforce simp: accounted_def)

lemma lease_ids_take:
  assumes "distinct (map fst xs)" and "map_of xs k = Some l"
  shows "lease_ids xs = {#lease_id_of l#} + lease_ids (filter (\<lambda>(x, _). x \<noteq> k) xs)"
  using assms
proof (induction xs)
  case (Cons p xs)
  obtain a b where p: "p = (a, b)" by (cases p)
  show ?case
  proof (cases "a = k")
    case True
    then have "filter (\<lambda>(x, _). x \<noteq> k) xs = xs" using Cons.prems(1) p by (force simp: filter_id_conv)
    then show ?thesis using Cons.prems(2) p True by simp
  next
    case False
    then show ?thesis using Cons p by (simp add: add_mset_commute)
  qed
qed simp

text \<open>Each section, with the leases it moves.\<close>

lemma admit_reserve_leases:
  assumes "admit_reserve E request rid s = (s', r)"
  shows "case r of
      Inr lease \<Rightarrow> lease_ok lease \<and> cn_client s \<noteq> None \<and>
        lease_part s' = (cn_leases s, cn_granted s @ [lease_id_of lease], cn_returned s, cn_client s, cn_is_scheduler s)
    | Inl _ \<Rightarrow> lease_part s' = lease_part s"
proof -
  define m :: "('a, 'b, pydict) conn" where "m =
     bind (lift (and_then (request_token_capacity request) (\<lambda>capacity.
                 and_then (request_priority request) (\<lambda>priority.
                 make_reserve_request (PStr rid) (PStr rid) (PInt capacity) (map PStr (cn_group_ids s))
                   priority (PInt (cn_lease_ttl_ms s)))))) (\<lambda>q.
     call_client (\<lambda>c. reserve (ev_codec E) (ev_kernel E) c q))"
  obtain s1 l where l: "m s = (s1, l)" by fastforce
  have p: "lease_part s1 = lease_part s"
    by (rule lease_frame [where m = m, OF l]) (unfold m_def, intro keeps_intros)
  have run: "bind m (\<lambda>lease. bind (modify (\<lambda>s. s\<lparr>cn_granted := cn_granted s @ [lease_id_of lease]\<rparr>)) (\<lambda>_. ret lease)) s = (s', r)"
    using assms by (simp add: admit_reserve_def m_def bind_assoc lease_id_of_def bind_def [of "gets id"] gets_def)
  show ?thesis
  proof (cases l)
    case (Inl e)
    then show ?thesis using run l p by (auto simp: bind_def)
  next
    case (Inr lease)
    have "lease_ok lease \<and> cn_client s \<noteq> None" using l Inr
      by (auto simp: m_def control_client_Inr on_world_iff bind_Inr_iff lift_Inr_iff lease_ok_def dest!: reserve_Inr)
    then show ?thesis using run l p Inr by (auto simp: bind_def modify_def ret_def lease_part_def)
  qed
qed

lemma keep_lease_eq:
  "keep_lease rid lease s =
     (if rid \<in> fst ` set (cn_leases s) then (s, Inr False) else (s\<lparr>cn_leases := cn_leases s @ [(rid, lease)]\<rparr>, Inr True))"
  by (simp add: keep_lease_def bind_def gets_def modify_def ret_def)

lemma return_redundant_eq: "lease_ok lease \<Longrightarrow> return_redundant E lease = return_lease E (lease_id_of lease)"
  by (simp add: return_redundant_def lease_text_ok bind_def lift_def fun_eq_iff)

lemma finish_commit_leases:
  assumes "lease_ok lease" and "finish_commit E request lease s = (s', r)"
  obtains e where "r = Inr (lease_id_of lease, e)" and "lease_part s' = lease_part s"
proof -
  have "lease_part s' = lease_part s"
    by (rule lease_frame [where m = "finish_commit E request lease", OF assms(2)])
      (unfold finish_commit_def attempt_def, intro keeps_intros)
  moreover have "\<exists>e. r = Inr (lease_id_of lease, e)" using assms
    by (auto simp: finish_commit_def lease_text_ok bind_def [of "lift _"] lift_def bind_def [of "attempt _"] attempt_eq ret_def
        split: prod.splits sum.splits)
  ultimately show thesis using that by blast
qed

lemma finish_return_leases:
  assumes "cn_client s = Some c" and "finish_return E lid e s = (s', r)"
  shows "lease_part s' = (cn_leases s, cn_granted s, cn_returned s @ [lid], cn_client s, cn_is_scheduler s)"
proof -
  obtain w q where "return_lease E lid s = (s\<lparr>cn_returned := cn_returned s @ [lid], cn_world := w\<rparr>, q)"
    by (rule return_lease_eq [OF assms(1)])
  then show ?thesis using assms(2)
    by (cases q; cases e) (auto simp: finish_return_def bind_def attempt_eq lift_def ret_def lease_part_def)
qed

lemma shutdown_lease_leases:
  assumes "cn_client s = Some c" and "lease_ok lease" and "shutdown_lease E lease s = (s', r)"
  shows "lease_part s' = (cn_leases s, cn_granted s, cn_returned s @ [lease_id_of lease], cn_client s, cn_is_scheduler s) \<and>
    (\<forall>e. r = Inl e \<longrightarrow> \<not> is_control_error e)"
proof -
  obtain w q where "return_lease E (lease_id_of lease) s =
      (s\<lparr>cn_returned := cn_returned s @ [lease_id_of lease], cn_world := w\<rparr>, q)"
    by (rule return_lease_eq [OF assms(1)])
  then show ?thesis using assms(3)
    by (cases q) (auto simp: shutdown_lease_def lease_text_ok [OF assms(2)] bind_def lift_def try_except_def ret_def
        lease_part_def split: if_splits)
qed

text \<open>A section of a call that holds no lease before and after it leaves the leases alone.\<close>

lemma accounted_quiet:
  assumes acc: "accounted R s [t]" and run: "task_section E t s = (s', r)"
    and keep: "keeps (\<lambda>u. lease_part u = lease_part s) (task_section E t)"
    and none: "held_by t = []" and after: "held (after_section t r) = {#}" "list_all task_ok (after_section t r)"
  shows "accounted R s' (after_section t r)"
  by (rule accounted_frame [OF acc lease_frame [where m = "task_section E t", OF run keep]]) (simp_all add: none after)


fun quiet_task :: "task \<Rightarrow> bool" where
  "quiet_task (Admit_missing _ _) = False"
| "quiet_task (Admit_leased _ _) = False"
| "quiet_task (Admit_redundant _) = False"
| "quiet_task (Finish _) = False"
| "quiet_task (Finish_taken _ _) = False"
| "quiet_task (Finish_committed _ _) = False"
| "quiet_task Stop_take = False"
| "quiet_task (Stop_release _) = False"
| "quiet_task (Stop_abandoned _ _) = False"
| "quiet_task _ = True"

lemma quiet_keeps: "quiet_task t \<Longrightarrow> keeps (\<lambda>s. lease_part s = x) (task_section E t)"
  by (cases t)
    (auto simp: admit_check_def admit_lookup_def bind_gpu_block_pool_def beat_live_def beat_failed_def intro!: keeps_intros)

lemma quiet_after:
  "quiet_task t \<Longrightarrow> task_section E t s = (s', r) \<Longrightarrow>
     held_by t = [] \<and> held (after_section t r) = {#} \<and> list_all task_ok (after_section t r)"
  by (cases t) (auto simp: after_section_def bind_def ret_def split: prod.splits sum.splits option.splits if_splits)

lemma accounted_finish:
  assumes acc: "accounted R s [Finish request]" and run: "task_section E (Finish request) s = (s', r)"
  shows "accounted R s' (after_section (Finish request) r)"
proof (cases "request_id_of (fr_of E) request")
  case (Inl e)
  then show ?thesis using acc run by (auto simp: finish_take_def bind_def lift_def after_section_def accounted_def)
next
  case (Inr rid)
  then have res: "r = Inr (map_option (Finish_taken request) (map_of (cn_leases s) rid))"
      "s' = s\<lparr>cn_leases := filter (\<lambda>(k, _). k \<noteq> rid) (cn_leases s)\<rparr>"
    using run by (simp_all add: finish_take_def take_lease_def bind_def lift_def ret_def)
  have d: "distinct (map fst (cn_leases s))" using acc by (simp add: accounted_def)
  then have d': "distinct (map fst (filter (\<lambda>(k, _). k \<noteq> rid) (cn_leases s)))" by (rule distinct_map_filter)
  show ?thesis
  proof (cases "map_of (cn_leases s) rid")
    case None
    then have "filter (\<lambda>(k, _). k \<noteq> rid) (cn_leases s) = cn_leases s"
      by (force simp: filter_id_conv map_of_eq_None_iff)
    then show ?thesis using acc None by (simp add: res after_section_def accounted_def)
  next
    case (Some lease)
    then have "lease_ok lease" using acc map_of_SomeD by (fastforce simp: accounted_def list_all_iff)
    then show ?thesis using acc Some d' lease_ids_take [OF d Some]
      by (auto simp: res after_section_def accounted_def list_all_iff)
  qed
qed

lemma accounted_release:
  assumes acc: "accounted R s [Stop_release leases]" and run: "task_section E (Stop_release leases) s = (s', r)"
  shows "accounted R s' (after_section (Stop_release leases) r)"
proof (cases leases)
  case Nil
  then show ?thesis using acc run by (auto simp: ret_def after_section_def accounted_def)
next
  case (Cons lease rest)
  obtain c where c: "cn_client s = Some c" by (rule accounted_client [OF acc]) (simp add: Cons)
  have ok: "lease_ok lease" using acc Cons by (simp add: accounted_def)
  obtain s1 q where q: "shutdown_lease E lease s = (s1, q)" by fastforce
  have s1: "s' = s1" and r: "r = (case q of Inl e \<Rightarrow> Inl e | Inr _ \<Rightarrow> Inr (Some (Stop_release rest)))"
    using run q by (cases q; simp add: Cons bind_def ret_def)+
  show ?thesis using shutdown_lease_leases [OF c ok q] acc
    by (cases q) (auto simp: s1 r Cons after_section_def accounted_def lease_part_def)
qed

lemma task_section_accounted:
  assumes acc: "accounted R s [t]" and run: "task_section E t s = (s', r)"
  shows "accounted R s' (after_section t r)"
proof (cases "quiet_task t")
  case True
  then show ?thesis using accounted_quiet [OF acc run quiet_keeps] quiet_after [OF _ run] by blast
next
  case False
  then show ?thesis
  proof (cases t)
    case (Admit_missing request rid)
    obtain s1 q where q: "admit_reserve E request rid s = (s1, q)" by fastforce
    then have "s' = s1" and "r = (case q of Inl e \<Rightarrow> Inl e | Inr lease \<Rightarrow> Inr (Some (Admit_leased rid lease)))"
      using run Admit_missing by (cases q; simp add: bind_def ret_def)+
    then show ?thesis using admit_reserve_leases [OF q] acc Admit_missing
      by (cases q) (auto simp: after_section_def accounted_def lease_part_def)
  next
    case (Admit_leased rid lease)
    then show ?thesis using acc run
      by (auto simp: keep_lease_eq bind_def ret_def after_section_def accounted_def split: if_splits)
  next
    case (Admit_redundant lease)
    obtain c where c: "cn_client s = Some c" by (rule accounted_client [OF acc]) (simp add: Admit_redundant)
    obtain w q where q: "return_lease E (lease_id_of lease) s =
        (s\<lparr>cn_returned := cn_returned s @ [lease_id_of lease], cn_world := w\<rparr>, q)"
      by (rule return_lease_eq [OF c])
    have "lease_ok lease" using acc Admit_redundant by (simp add: accounted_def)
    then show ?thesis using acc run q Admit_redundant
      by (cases q) (auto simp: return_redundant_eq bind_def ret_def after_section_def accounted_def)
  next
    case (Finish request)
    then show ?thesis using accounted_finish acc run by blast
  next
    case (Finish_taken request lease)
    obtain s1 q where q: "finish_commit E request lease s = (s1, q)" by fastforce
    have "lease_ok lease" using acc Finish_taken by (simp add: accounted_def)
    then obtain e where "q = Inr (lease_id_of lease, e)" "lease_part s1 = lease_part s"
      using finish_commit_leases [OF _ q] by blast
    then show ?thesis using acc run q Finish_taken
      by (auto simp: bind_def ret_def after_section_def accounted_def lease_part_def)
  next
    case (Finish_committed lid e)
    obtain c where c: "cn_client s = Some c" by (rule accounted_client [OF acc]) (simp add: Finish_committed)
    obtain s1 q where q: "finish_return E lid e s = (s1, q)" by fastforce
    then show ?thesis using finish_return_leases [OF c q] acc run Finish_committed
      by (cases q) (auto simp: bind_def ret_def after_section_def accounted_def lease_part_def)
  next
    case Stop_take
    then show ?thesis using acc run
      by (auto simp: shutdown_take_def bind_def ret_def after_section_def accounted_def list_all_iff case_prod_unfold comp_def)
  next
    case (Stop_release leases)
    then show ?thesis using accounted_release acc run by blast
  next
    case (Stop_abandoned e leases)
    then show ?thesis using acc run by (auto simp: ret_def after_section_def)
  qed simp_all
qed

lemma lease_step_accounted:
  assumes "lease_step E st st'" and "case_prod (accounted {#}) st"
  shows "case_prod (accounted {#}) st'"
  using assms
proof cases
  case (begun t s ts)
  then have "held_by t = [] \<and> task_ok t" by (cases t) simp_all
  then show ?thesis using begun assms(2) by (simp add: accounted_def)
next
  case (ran t s s' r xs ys)
  then have "accounted (held xs + held ys) s [t]" "list_all task_ok xs" "list_all task_ok ys"
    using assms(2) accounted_split [of "{#}" s xs "[t]" ys] by simp_all
  then show ?thesis using ran task_section_accounted accounted_split [of "{#}" s' xs "after_section t r" ys] by simp
qed


subsection \<open>Loss of authority\<close>

text \<open>The admissions that have passed the check of the failure and have not asked for a lease yet.\<close>

fun past_check :: "task \<Rightarrow> bool" where
  "past_check (Admit_checked _) = True"
| "past_check (Admit_active _) = True"
| "past_check (Admit_missing _ _) = True"
| "past_check _ = False"

abbreviation admissions :: "task list \<Rightarrow> nat" where
  "admissions ts \<equiv> length (filter past_check ts)"

definition refused :: "string list \<Rightarrow> ('k, 'q) connector \<Rightarrow> bool" where
  "refused g s \<longleftrightarrow> cn_control_failure s \<noteq> None \<and> cn_is_scheduler s \<and> cn_granted s = g"

lemma refused_modify: "(\<And>s. refused g s \<Longrightarrow> refused g (f s)) \<Longrightarrow> keeps (refused g) (modify f)"
  by (rule keeps_modify)

lemma refused_world [keeps_intros]: "keeps (refused g) (on_world m)"
  by (auto simp: keeps_def on_world_def refused_def split: prod.splits)

lemma refused_elastic [keeps_intros]: "keeps (refused g) (on_elastic m)"
  by (auto simp: keeps_def on_elastic_def refused_def split: prod.splits option.splits)

lemma refused_client [keeps_intros]: "keeps (refused g) control_client"
  unfolding control_client_def by (intro keeps_intros)

lemma refused_failed [keeps_intros]: "keeps (refused g) raise_if_control_failed"
  unfolding raise_if_control_failed_def by (intro keeps_intros)

lemma refused_return [keeps_intros]: "keeps (refused g) (return_lease E lid)"
  unfolding return_lease_def by (intro keeps_intros refused_modify) (simp add: refused_def)

lemma refused_take [keeps_intros]: "keeps (refused g) (take_lease rid)" "keeps (refused g) shutdown_take"
  by (simp_all add: keeps_def take_lease_def shutdown_take_def refused_def)

lemma refused_active [keeps_intros]: "keeps (refused g) (ensure_shared_active E)"
  unfolding ensure_shared_active_def by (intro keeps_intros refused_modify) (simp add: refused_def)

lemma refused_keep [keeps_intros]: "keeps (refused g) (keep_lease rid lease)"
  unfolding keep_lease_def by (intro keeps_intros refused_modify) (simp add: refused_def)

lemma refused_poll [keeps_intros]: "keeps (refused g) (poll_scheduler_resizes E)"
  unfolding poll_scheduler_resizes_def poll_resizes_def enqueue_operations_def close_os_handles_def
  by (intro keeps_intros refused_modify) (simp_all add: refused_def)

lemma refused_lose [keeps_intros]: "keeps (refused g) (lose_authority e)"
  unfolding lose_authority_def by (intro keeps_intros refused_modify) (simp add: refused_def)

lemma refused_resizes [keeps_intros]: "keeps (refused g) (apply_scheduler_resizes E)"
  unfolding apply_scheduler_resizes_def apply_scheduler_operation_def acknowledge_def advance_generation_def
  by (intro keeps_intros refused_modify) (simp_all add: refused_def)

lemma refused_stop [keeps_intros]: "keeps (refused g) shutdown_stop"
  unfolding shutdown_stop_def release_forward_def by (intro keeps_intros refused_modify) (simp_all add: refused_def)

lemma refused_raises:
  assumes "cn_control_failure s \<noteq> None"
  shows "\<exists>e. is_control_error e \<and> raise_if_control_failed s = (s, Inl e)"
  using assms
  by (auto simp: raise_if_control_failed_def is_control_error_def bind_def gets_def lift_def split: option.splits)

text \<open>Only \<open>reserve\<close> of an admission that has passed its check grants a lease.\<close>

lemma refused_section: "(\<nexists>request rid. t = Admit_missing request rid) \<Longrightarrow> keeps (refused g) (task_section E t)"
  by (cases "(E, t)" rule: task_section.cases)
    (auto simp: admit_check_def admit_lookup_def return_redundant_def finish_take_def finish_commit_def
      finish_return_def attempt_def bind_gpu_block_pool_def beat_poll_def beat_live_def beat_send_def beat_failed_def
      shutdown_lease_def intro!: keeps_intros)

lemma refused_admissions:
  assumes "task_section E t s = (s', r)" and "cn_control_failure s \<noteq> None" and "cn_is_scheduler s"
    and "\<nexists>request rid. t = Admit_missing request rid"
  shows "admissions (after_section t r) \<le> admissions [t]"
proof -
  obtain e where e: "raise_if_control_failed s = (s, Inl e)" using refused_raises [OF assms(2)] by blast
  show ?thesis using assms
    by (cases "(E, t)" rule: task_section.cases)
      (auto simp: after_section_def admit_check_def bind_def gets_def e ret_def
        split: prod.splits sum.splits option.splits if_splits)
qed

lemma refused_reserve:
  assumes "task_section E (Admit_missing request rid) s = (s', r)"
    and "cn_control_failure s \<noteq> None" and "cn_is_scheduler s"
  shows "\<exists>g. cn_granted s' = cn_granted s @ g \<and> cn_control_failure s' \<noteq> None \<and> cn_is_scheduler s' \<and>
    length g + admissions (after_section (Admit_missing request rid) r) \<le> 1"
proof -
  obtain q where q: "admit_reserve E request rid s = (s', q)"
      "r = (case q of Inl e \<Rightarrow> Inl e | Inr lease \<Rightarrow> Inr (Some (Admit_leased rid lease)))"
    using assms(1) by (cases "admit_reserve E request rid s"; cases "snd (admit_reserve E request rid s)")
      (auto simp: bind_def ret_def)
  have "keeps (\<lambda>s. cn_control_failure s \<noteq> None) (admit_reserve E request rid)"
    unfolding admit_reserve_def control_client_def
    by (intro keeps_intros keeps_modify) (auto simp: keeps_def on_world_def split: prod.splits)
  then have "cn_control_failure s' \<noteq> None" using assms(2) q(1) by (auto simp: keeps_def dest!: spec [of _ s])
  then show ?thesis using admit_reserve_leases [OF q(1)] assms(3)
    by (cases q) (auto simp: q(2) after_section_def lease_part_def)
qed

definition refusing :: "string list \<Rightarrow> nat \<Rightarrow> ('k, 'q) connector \<times> task list \<Rightarrow> bool" where
  "refusing granted n st \<longleftrightarrow> (case st of (s, ts) \<Rightarrow>
     cn_control_failure s \<noteq> None \<and> cn_is_scheduler s \<and>
     (\<exists>g. cn_granted s = granted @ g \<and> length g + admissions ts \<le> n))"

lemma refusing_step:
  assumes "lease_step E st st'" and "refusing granted n st"
  shows "refusing granted n st'"
  using assms
proof cases
  case (begun t s ts)
  then have "\<not> past_check t" by (cases t) simp_all
  then show ?thesis using begun assms(2) by (simp add: refusing_def)
next
  case (ran t s s' r xs ys)
  from assms(2) obtain g where pre: "cn_control_failure s \<noteq> None" "cn_is_scheduler s" "cn_granted s = granted @ g"
      "length g + admissions xs + admissions [t] + admissions ys \<le> n"
    by (auto simp: ran refusing_def split: if_splits)
  have "\<exists>h. cn_granted s' = cn_granted s @ h \<and> cn_control_failure s' \<noteq> None \<and> cn_is_scheduler s' \<and>
      length h + admissions (after_section t r) \<le> admissions [t]"
  proof (cases "\<exists>request rid. t = Admit_missing request rid")
    case True
    then obtain request rid where t: "t = Admit_missing request rid" by blast
    show ?thesis using refused_reserve [OF ran(3) [unfolded t] pre(1,2)] by (simp add: t)
  next
    case False
    have "refused (cn_granted s) s" using pre by (simp add: refused_def)
    then have "refused (cn_granted s) s'" using keepsD [OF refused_section [OF False] _ ran(3)] by blast
    then show ?thesis using refused_admissions [OF ran(3) pre(1,2) False] by (auto simp: refused_def)
  qed
  then obtain h where "cn_granted s' = granted @ g @ h" "cn_control_failure s' \<noteq> None" "cn_is_scheduler s'"
      "length h + admissions (after_section t r) \<le> admissions [t]"
    using pre(3) by auto
  then show ?thesis using pre(4) by (auto simp: ran refusing_def intro!: exI [of _ "g @ h"])
qed


subsection \<open>Samples\<close>

definition sample_env :: "((string \<times> nat list) list, nat list) env" where
  "sample_env =
     \<lparr>ev_codec = plain_codec, ev_kernel = script_kernel, ev_queue = list_queue, ev_surface = full_surface,
      ev_driver = (\<lambda>_ _. (0, 1)), ev_nonzero = (\<lambda>_ _. 0)\<rparr>"

definition sample_lease :: "string \<Rightarrow> string \<Rightarrow> pydict" where
  "sample_lease rid lid =
     [(''groups'', PList [PDict [(''group_id'', PStr ''g''), (''token_capacity'', PInt 4)]]),
      (''lease_id'', PStr lid),
      (''sequence'', PDict [(''request_id'', PStr rid), (''sequence_id'', PStr rid)])]"

definition lease_answer :: "string \<Rightarrow> string \<Rightarrow> (string \<times> nat list) list" where
  "lease_answer rid lid = net (answer [(''result'', PStr ''lease''), (''lease'', PDict (sample_lease rid lid))] [])"

definition sample_connector :: "((string \<times> nat list) list, nat list) connector" where
  "sample_connector =
     \<lparr>cn_is_scheduler = True, cn_mode = ''opaque'', cn_live_resize = False, cn_group_ids = [''g''],
      cn_lease_ttl_ms = 9, cn_client = Some sample_client, cn_leases = [], cn_control_failure = None,
      cn_heartbeat_stop = False, cn_pool = None, cn_epoch = Some 7, cn_shard = None, cn_profile = None,
      cn_attached = False, cn_active = False, cn_resize_pending = False, cn_applied_generation = 0,
      cn_pending_operations = [], cn_elastic = None, cn_forward_locked = False, cn_forward_active = False,
      cn_world = script_world (lease_answer ''q'' ''L1'' @ lease_answer ''q'' ''L2''), cn_granted = [], cn_returned = []\<rparr>"

definition sample_request :: "string \<Rightarrow> pyval" where
  "sample_request rid = PObj ''Request'' [(''request_id'', PStr rid), (''all_token_ids'', PList [PInt 1, PInt 2])]"

text \<open>A schedule: at each point, the position of the call whose next section runs.\<close>

fun run_schedule ::
  "('k, 'q) env \<Rightarrow> nat list \<Rightarrow> ('k, 'q) connector \<times> task list \<Rightarrow> ('k, 'q) connector \<times> task list" where
  "run_schedule E [] st = st"
| "run_schedule E (n # ns) (s, ts) =
     (if n < length ts
      then (case task_section E (ts ! n) s of
              (s', r) \<Rightarrow> run_schedule E ns (s', take n ts @ after_section (ts ! n) r @ drop (Suc n) ts))
      else run_schedule E ns (s, ts))"

lemma run_schedule_steps: "(lease_step E)\<^sup>*\<^sup>* st (run_schedule E ns st)"
proof (induction E ns st rule: run_schedule.induct)
  case (2 E n ns s ts)
  show ?case
  proof (cases "n < length ts")
    case True
    obtain s' r where r: "task_section E (ts ! n) s = (s', r)" by fastforce
    have "lease_step E (s, ts) (s', take n ts @ after_section (ts ! n) r @ drop (Suc n) ts)"
      using ran [OF r, of "take n ts" "drop (Suc n) ts"] True by (simp add: id_take_nth_drop [symmetric])
    moreover have "(lease_step E)\<^sup>*\<^sup>* (s', take n ts @ after_section (ts ! n) r @ drop (Suc n) ts)
        (run_schedule E (n # ns) (s, ts))"
      using 2(1) [OF True r [symmetric]] True r by simp
    ultimately show ?thesis by (rule converse_rtranclp_into_rtranclp)
  next
    case False
    then show ?thesis using 2(2) by simp
  qed
qed simp

lemma entries_begin: "list_all entry_point us \<Longrightarrow> (lease_step E)\<^sup>*\<^sup>* (s, ts) (s, ts @ us)"
proof (induction us rule: rev_induct)
  case (snoc u us)
  then have "(lease_step E)\<^sup>*\<^sup>* (s, ts) (s, ts @ us)" by simp
  moreover have "lease_step E (s, ts @ us) (s, (ts @ us) @ [u])" by (rule begun) (use snoc.prems in simp)
  ultimately show ?case by (simp add: rtranclp.rtrancl_into_rtrancl)
qed simp

text \<open>
  Two callbacks for one request both look it up before either has its lease; the second lease is
  returned, to a peer that is gone by then.
\<close>

definition sample_race :: "((string \<times> nat list) list, nat list) connector \<times> task list" where
  "sample_race = run_schedule sample_env [0, 1, 0, 1, 0, 1, 0, 1, 0, 0, 0]
     (sample_connector, [Admit (sample_request ''q''), Admit (sample_request ''q'')])"

lemma sample_race_steps: "(lease_step sample_env)\<^sup>*\<^sup>* (sample_connector, []) sample_race"
  unfolding sample_race_def
  by (rule rtranclp_trans [OF _ run_schedule_steps])
    (use entries_begin [of "[Admit (sample_request ''q''), Admit (sample_request ''q'')]" sample_env sample_connector "[]"] in simp)

lemma sample_race_values:
  "map_prod (\<lambda>s. (cn_granted s, cn_leases s)) id sample_race =
     (([''L1'', ''L2''], [(''q'', sample_lease ''q'' ''L1'')]), [])"
  by code_simp


text \<open>
  An answer that is no UTF-8 text ends the loop of a shutdown: the second lease is never returned.
\<close>

lemma shutdown_abandons_leases:
  "let s = sample_connector\<lparr>cn_leases := [(''q'', sample_lease ''q'' ''L1''), (''p'', sample_lease ''p'' ''L2'')],
             cn_world := script_world [([CHR 255, newline], [])]\<rparr>
   in map_prod (\<lambda>s. (cn_leases s, cn_returned s)) (map held_by) (run_schedule sample_env [0, 0, 0] (s, [Stop])) =
        (([], [''L1'']), [[''L2'']])"
  by code_simp

text \<open>The loss is recorded while an admission has passed its check: that one is still granted a lease.\<close>

definition sample_failed :: "((string \<times> nat list) list, nat list) connector" where
  "sample_failed = sample_connector\<lparr>cn_control_failure := Some (Exn (KapslKvControlError None) ''gone'')\<rparr>"

definition sample_late :: "((string \<times> nat list) list, nat list) connector \<times> task list" where
  "sample_late = run_schedule sample_env [0, 1, 0, 0]
     (sample_failed, [Admit_active (sample_request ''q''), Admit (sample_request ''p'')])"


end
