(* ===== verification/Connector_Resize.thy ===== *)
theory Connector_Resize
  imports Connector
begin

text \<open>
  Live resize through the connector: every descriptor a poll delivers is closed, a model forward
  excludes resizes, and the scheduler's operations take the block pool to their targets. The
  facts rest on those of the control client, the block pool and the worker's pool.
\<close>

subsection \<open>Descriptors\<close>

text \<open>\<open>settled m\<close>: the operation of the connector leaves no received descriptor open.\<close>

definition settled :: "('k, 'q, 'a) conn \<Rightarrow> bool" where
  "settled m \<longleftrightarrow>
     (\<forall>s s' r. m s = (s', r) \<longrightarrow>
        (case r of Inr _ \<Rightarrow> owed (cn_world s) (cn_world s') []
         | Inl e \<Rightarrow> unsettled e \<or> owed (cn_world s) (cn_world s') []))"

named_theorems settled_intros \<open>structural rules for descriptors\<close>

lemma settledD:
  "settled m \<Longrightarrow> m s = (s', r) \<Longrightarrow>
   (case r of Inr _ \<Rightarrow> owed (cn_world s) (cn_world s') []
    | Inl e \<Rightarrow> unsettled e \<or> owed (cn_world s) (cn_world s') [])"
  by (simp add: settled_def)

lemma settled_same_world: "(\<And>s. cn_world (fst (m s)) = cn_world s) \<Longrightarrow> settled m"
  unfolding settled_def by (metis fst_conv old.sum.simps(5,6) owed_refl sum.exhaust)

lemma settled_lift [settled_intros]: "settled (lift r)"
  by (rule settled_same_world) (simp add: lift_def)

lemma settled_ret [settled_intros]: "settled (ret x)"
  by (rule settled_same_world) (simp add: ret_def)

lemma settled_gets [settled_intros]: "settled (gets f)"
  by (rule settled_same_world) (simp add: gets_def)

lemma settled_modify: "(\<And>s. cn_world (f s) = cn_world s) \<Longrightarrow> settled (modify f)"
  by (rule settled_same_world) (simp add: modify_def)

lemma settled_on_hook [settled_intros]: "settled (on_hook m)"
  by (rule settled_same_world) (simp add: on_hook_def split: option.splits prod.splits)

lemma settled_on_elastic [settled_intros]: "settled (on_elastic m)"
  by (rule settled_same_world) (simp add: on_elastic_def split: option.splits prod.splits)

lemma settled_client [settled_intros]: "settled control_client"
  by (rule settled_same_world) (simp add: control_client_def bind_def gets_def lift_def split: option.splits)

lemma settled_world [settled_intros]: "quiet m \<Longrightarrow> settled (on_world m)"
  unfolding settled_def on_world_iff quiet_def by fastforce

lemma settled_bind [settled_intros]:
  assumes m: "settled m" and f: "\<And>x. settled (f x)"
  shows "settled (bind m f)"
  unfolding settled_def
proof (intro allI impI)
  fix s s' r
  assume run: "bind m f s = (s', r)"
  obtain s1 q where q: "m s = (s1, q)" by fastforce
  note o = settledD [OF m q]
  show "case r of Inr _ \<Rightarrow> owed (cn_world s) (cn_world s') []
    | Inl e \<Rightarrow> unsettled e \<or> owed (cn_world s) (cn_world s') []"
  proof (cases q)
    case (Inl e)
    then show ?thesis using o run q by (auto simp: bind_def)
  next
    case (Inr x)
    then have "f x s1 = (s', r)" using run q by (simp add: bind_def)
    from settledD [OF f this] show ?thesis using o Inr owed_trans by (cases r) auto
  qed
qed

lemma settled_if [settled_intros]: "settled m \<Longrightarrow> settled n \<Longrightarrow> settled (if c then m else n)"
  by simp

lemma settled_case_option [settled_intros]:
  "settled m \<Longrightarrow> (\<And>y. settled (f y)) \<Longrightarrow> settled (case v of None \<Rightarrow> m | Some y \<Rightarrow> f y)"
  by (cases v) simp_all

lemma settled_for_each [settled_intros]: "(\<And>x. settled (f x)) \<Longrightarrow> settled (for_each f xs)"
  by (induction xs) (auto intro!: settled_intros)

text \<open>Descriptors that a poll hands over are closed in the \<open>finally\<close> clause.\<close>

lemma settled_polled:
  assumes m: "settles m" and body: "\<And>x hs. settled (body x hs)"
    and f: "\<And>x hs. f (x, hs) = try_finally (body x hs) (close_os_handles hs)"
  shows "settled (bind (on_world m) f)"
  unfolding settled_def
proof (intro allI impI)
  fix s s' r
  assume run: "bind (on_world m) f s = (s', r)"
  obtain w q where q: "m (cn_world s) = (w, q)" by fastforce
  note o = m [unfolded settles_def, rule_format, OF q]
  show "case r of Inr _ \<Rightarrow> owed (cn_world s) (cn_world s') []
    | Inl e \<Rightarrow> unsettled e \<or> owed (cn_world s) (cn_world s') []"
  proof (cases q)
    case (Inl e)
    then show ?thesis using o run q by (auto simp: bind_def on_world_def)
  next
    case (Inr p)
    obtain x hs where p: "p = (x, hs)" by (cases p)
    obtain s2 u where u: "body x hs (s\<lparr>cn_world := w\<rparr>) = (s2, u)" by fastforce
    have "s' = s2\<lparr>cn_world := (cn_world s2)\<lparr>closed := closed (cn_world s2) @ hs\<rparr>\<rparr> \<and> r = u"
      using run q Inr p u
      by (simp add: bind_def on_world_def f try_finally_def close_os_handles_def)
    moreover have "owed (cn_world s) w hs" using o Inr p by simp
    ultimately show ?thesis using settledD [OF body u]
      by (cases u) (auto dest: owed_trans intro: owed_close)
  qed
qed

lemma quiet_ack: "kernel_ok K \<Longrightarrow> quiet (ack_resize C K self request)"
  unfolding ack_resize_def by (intro quiet_intros)

lemma settled_acknowledge [settled_intros]:
  "kernel_ok (ev_kernel E) \<Longrightarrow> settled (acknowledge E actor operation stage generation target)"
  unfolding acknowledge_def by (intro settled_intros quiet_ack)

lemma settled_worker_operation [settled_intros]:
  "kernel_ok (ev_kernel E) \<Longrightarrow> settled (apply_worker_operation E shard handles operation)"
  unfolding apply_worker_operation_def advance_generation_def by (intro settled_intros settled_modify) simp_all

lemma settled_poll:
  assumes "kernel_ok (ev_kernel E)" and "\<And>x hs. settled (body x hs)"
    and "\<And>x hs. f (x, hs) = try_finally (body x hs) (close_os_handles hs)"
  shows "settled (bind (poll_resizes E epoch actor) f)"
proof -
  have "settled (bind (on_world (poll_resize_state_with_handles (ev_codec E) (ev_kernel E) c request)) f)" for c request
    by (rule settled_polled [OF poll_settles [OF assms(1)] assms(2,3)])
  then show ?thesis unfolding poll_resizes_def bind_assoc
    by (intro settled_bind [OF settled_client] settled_bind [OF settled_gets] settled_bind [OF settled_lift])
qed

lemma settled_worker_resizes:
  assumes "kernel_ok (ev_kernel E)"
  shows "settled (apply_worker_resizes E)"
proof -
  have "settled (bind (poll_resizes E epoch (worker_actor shard)) (\<lambda>((operations, _), handles).
         try_finally (for_each (apply_worker_operation E shard handles) operations) (close_os_handles handles)))"
    for epoch shard
    by (rule settled_poll [where body = "\<lambda>x hs. for_each (apply_worker_operation E shard hs) (fst x)"])
      (auto intro: settled_intros assms split: prod.splits)
  then show ?thesis unfolding apply_worker_resizes_def
    by (intro settled_bind settled_gets) (auto intro!: settled_intros split: option.splits bool.splits)
qed

lemma settled_scheduler_poll:
  assumes "kernel_ok (ev_kernel E)"
  shows "settled (poll_scheduler_resizes E)"
proof -
  have e: "settled (enqueue_operations operations pending)" for operations pending
    unfolding enqueue_operations_def by (intro settled_intros settled_modify) simp
  have "settled (bind (poll_resizes E epoch scheduler_actor) (\<lambda>((operations, pending), handles).
         try_finally
           (if handles \<noteq> []
            then lift (RaiseP ''scheduler resize phase received CUDA allocation handles'')
            else enqueue_operations operations pending)
           (close_os_handles handles)))" for epoch
    by (rule settled_poll [where body = "\<lambda>x hs. if hs \<noteq> []
        then lift (RaiseP ''scheduler resize phase received CUDA allocation handles'')
        else enqueue_operations (fst x) (snd x)", OF assms])
      (auto intro: settled_lift e split: prod.splits)
  then show ?thesis unfolding poll_scheduler_resizes_def
    by (intro settled_bind [OF settled_gets] settled_case_option settled_lift)
qed

text \<open>
  Polling for resizes leaks no descriptor: when the worker applies what it polled, or the
  scheduler queues it, every descriptor that arrived has been closed, also when an operation or an
  acknowledgement fails, unless a system call failed or a response broke the decoder in a way its
  handlers do not cover.
\<close>

theorem resize_polls_close_descriptors:
  assumes "kernel_ok (ev_kernel E)"
  shows "settled (apply_worker_resizes E) \<and> settled (poll_scheduler_resizes E)"
  using settled_worker_resizes [OF assms] settled_scheduler_poll [OF assms] by simp

subsection \<open>The forward lock\<close>

text \<open>The lock and the flag of the forward are not touched while resizes are applied.\<close>

definition lock_part :: "('k, 'q) connector \<Rightarrow> bool \<times> bool \<times> bool \<times> bool" where
  "lock_part s = (cn_forward_locked s, cn_forward_active s, cn_is_scheduler s, cn_live_resize s)"

lemma lock_part_world [keeps_intros]: "keeps (\<lambda>s. lock_part s = x) (on_world m)"
  by (auto simp: keeps_def on_world_def lock_part_def split: prod.splits)

lemma lock_part_hook [keeps_intros]: "keeps (\<lambda>s. lock_part s = x) (on_hook m)"
  by (auto simp: keeps_def on_hook_def lock_part_def split: prod.splits option.splits)

lemma lock_part_client [keeps_intros]: "keeps (\<lambda>s. lock_part s = x) control_client"
  unfolding control_client_def by (intro keeps_intros)

lemma keeps_case_bool [keeps_intros]: "keeps P m \<Longrightarrow> keeps P n \<Longrightarrow> keeps P (case b of True \<Rightarrow> m | False \<Rightarrow> n)"
  by (cases b) simp_all

lemma lock_part_resizes: "keeps (\<lambda>s. lock_part s = x) (apply_worker_resizes E)"
  unfolding apply_worker_resizes_def apply_worker_operation_def acknowledge_def advance_generation_def poll_resizes_def
    close_os_handles_def
  by (intro keeps_intros keeps_modify) (simp_all add: lock_part_def)

lemma fenced_resizes_lock:
  assumes "fenced_resizes E fwd s = (s', r)" and "cn_forward_locked s" and "cn_forward_active s"
  shows "cn_forward_locked s' = (fwd \<and> \<not> isl r) \<and> cn_forward_active s' = (fwd \<and> \<not> isl r) \<and>
    cn_is_scheduler s' = cn_is_scheduler s \<and> cn_live_resize s' = cn_live_resize s"
proof -
  obtain s1 q where q: "apply_worker_resizes E s = (s1, q)" by fastforce
  have "lock_part s1 = lock_part s"
    using keepsD [where m = "apply_worker_resizes E", OF lock_part_resizes [of "lock_part s"]] q by blast
  then show ?thesis using assms q
    by (cases q; cases fwd)
      (auto simp: fenced_resizes_def try_except_def bind_def ret_def unlock_forward_def modify_def lift_def lock_part_def)
qed

text \<open>
  The steps of a worker: the start of a forward or of an idle step, its end, and shutdown. A start
  that would wait for the lock is not a step.
\<close>

inductive worker_step :: "('k, 'q) env \<Rightarrow> ('k, 'q) connector \<Rightarrow> ('k, 'q) connector \<Rightarrow> bool" for E where
  started: "start_load_kv E fwd s = Some (s', r) \<Longrightarrow> worker_step E s s'"
| saved: "wait_for_save s = (s', r) \<Longrightarrow> worker_step E s s'"
| down: "shutdown E s = (s', r) \<Longrightarrow> worker_step E s s'"

inductive_cases worker_stepE: "worker_step E s s'"

lemma release_forward_eq:
  "release_forward s = (if cn_forward_active s then s\<lparr>cn_forward_active := False, cn_forward_locked := False\<rparr> else s, Inr ())"
  by (simp add: release_forward_def modify_def)

lemma shutdown_lease_lock: "keeps (\<lambda>s. lock_part s = x) (shutdown_lease E lease)"
  unfolding shutdown_lease_def return_lease_def
  by (intro keeps_intros keeps_modify) (simp_all add: lock_part_def)

lemma shutdown_stop_lock:
  "cn_forward_locked s = cn_forward_active s \<Longrightarrow> shutdown_stop s = (s', r) \<Longrightarrow> lock_part s' = lock_part (s\<lparr>cn_forward_active := False, cn_forward_locked := False\<rparr>)"
  by (cases "cn_forward_active s"; cases "cn_is_scheduler s")
    (auto simp: shutdown_stop_def release_forward_eq bind_def modify_def gets_def ret_def lock_part_def)

lemma shutdown_lock:
  assumes "cn_forward_locked s = cn_forward_active s" and "shutdown E s = (s', r)"
  shows "\<not> cn_forward_locked s' \<and> \<not> cn_forward_active s'"
proof -
  obtain s1 b where s1: "shutdown_stop s = (s1, b)" by fastforce
  let ?rest = "\<lambda>scheduler. if \<not> scheduler then ret () else bind shutdown_take (for_each (shutdown_lease E))"
  have k: "keeps (\<lambda>s. lock_part s = x) (?rest scheduler)" for x scheduler
    by (intro keeps_intros shutdown_lease_lock) (simp add: keeps_def shutdown_take_def lock_part_def)
  have "lock_part s' = lock_part s1"
  proof (cases b)
    case (Inl e)
    then show ?thesis using assms(2) s1 by (simp add: shutdown_def bind_Inl)
  next
    case (Inr scheduler)
    then have "?rest scheduler s1 = (s', r)" using assms(2) s1 by (simp only: shutdown_def bind_Inr)
    then show ?thesis using keepsD [OF k [of "lock_part s1"]] by blast
  qed
  then show ?thesis using shutdown_stop_lock [OF assms(1) s1] by (simp add: lock_part_def)
qed

lemma worker_step_lock:
  assumes "worker_step E s s'" and "cn_forward_locked s = cn_forward_active s"
  shows "cn_forward_locked s' = cn_forward_active s'"
  using assms(1)
proof cases
  case (started fwd r)
  then show ?thesis using assms(2) fenced_resizes_lock
    by (fastforce simp: start_load_kv_def split: if_splits)
next
  case (saved r)
  then show ?thesis using assms(2) by (auto simp: wait_for_save_def release_forward_eq)
next
  case (down r)
  then show ?thesis using shutdown_lock [OF assms(2)] by simp
qed

text \<open>
  C34. A forward excludes resizes. In every reachable state of a worker, the next step can start
  exactly when no forward is running; after a start the lock is held exactly if a model forward
  follows, and it is free again when the start raised, after the end of the forward and after
  shutdown. So no call waits for a lock that nobody will release, and segments are mapped and
  unmapped only between forwards.
\<close>

theorem forward_excludes_resizes:
  assumes "(worker_step E)\<^sup>*\<^sup>* s0 s" and "\<not> cn_forward_locked s0" and "\<not> cn_forward_active s0"
  shows "(start_load_kv E fwd s = None \<longleftrightarrow> \<not> cn_is_scheduler s \<and> cn_live_resize s \<and> cn_forward_active s) \<and>
    (case start_load_kv E fwd s of
       None \<Rightarrow> True
     | Some (s', r) \<Rightarrow>
         if cn_is_scheduler s \<or> \<not> cn_live_resize s then s' = s
         else cn_forward_locked s' = (fwd \<and> \<not> isl r) \<and> cn_forward_active s' = (fwd \<and> \<not> isl r)) \<and>
    (case wait_for_save s of (s', r) \<Rightarrow> r = Inr () \<and> \<not> cn_forward_locked s' \<and> cn_pool s' = cn_pool s) \<and>
    (case shutdown E s of (s', _) \<Rightarrow> \<not> cn_forward_locked s')"
proof -
  have inv: "cn_forward_locked s = cn_forward_active s"
    using assms(1) by (induction rule: rtranclp_induct) (auto simp: assms(2,3) dest: worker_step_lock)
  obtain s1 r1 where f: "fenced_resizes E fwd (s\<lparr>cn_forward_locked := True, cn_forward_active := True\<rparr>) = (s1, r1)"
    by fastforce
  obtain s2 r2 where d: "shutdown E s = (s2, r2)" by fastforce
  show ?thesis
    using inv fenced_resizes_lock [OF f] f shutdown_lock [OF inv d] d
    by (auto simp: start_load_kv_def wait_for_save_def release_forward_eq split: if_splits)
qed

subsection \<open>The scheduler's resizes\<close>

definition target_of :: "pydict \<Rightarrow> int result" where
  "target_of operation = int_item (PDict operation) ''target_block_count''"

text \<open>What the scheduler's operations change beside the world: the pool and the generation.\<close>

definition resize_part :: "('k, 'q) connector \<Rightarrow> 'q block_pool option \<times> int \<times> pydict list" where
  "resize_part s = (cn_elastic s, cn_applied_generation s, cn_pending_operations s)"

lemma resize_part_world [keeps_intros]: "keeps (\<lambda>s. resize_part s = x) (on_world m)"
  by (auto simp: keeps_def on_world_def resize_part_def split: prod.splits)

lemma resize_part_client [keeps_intros]: "keeps (\<lambda>s. resize_part s = x) control_client"
  unfolding control_client_def by (intro keeps_intros)

lemma resize_part_acknowledge:
  "keeps (\<lambda>s. resize_part s = x) (acknowledge E actor operation stage generation target)"
  unfolding acknowledge_def by (intro keeps_intros)

text \<open>The acknowledgement and the advance, after the pool has reached its target.\<close>

lemma acknowledged_advance:
  assumes "bind (lift (generation_of op)) (\<lambda>generation.
     bind (acknowledge E actor op stage generation target) (\<lambda>_. advance_generation generation)) s = (s', r)"
  shows "cn_elastic s' = cn_elastic s \<and> cn_pending_operations s' = cn_pending_operations s \<and>
    (case r of
       Inl _ \<Rightarrow> cn_applied_generation s' = cn_applied_generation s
     | Inr _ \<Rightarrow> \<exists>g. generation_of op = Inr g \<and> cn_applied_generation s' = max (cn_applied_generation s) g)"
proof (cases "generation_of op")
  case (Inl e)
  then show ?thesis using assms by (auto simp: bind_def lift_def)
next
  case (Inr g)
  obtain s1 q where q: "acknowledge E actor op stage g target s = (s1, q)" by fastforce
  have "resize_part s1 = resize_part s"
    using keepsD [where m = "acknowledge E actor op stage g target", OF resize_part_acknowledge [of "resize_part s"]] q by blast
  then show ?thesis using assms Inr q
    by (cases q) (auto simp: bind_def lift_def advance_generation_def modify_def resize_part_def)
qed

lemma scheduler_operation_effect:
  assumes laws: "queue_laws (ev_queue E) free" "append_total (ev_queue E)"
    and pool: "cn_elastic s = Some p" "pool_inv free p"
    and run: "apply_scheduler_operation E op s = (s', r)"
  shows "\<exists>p'. cn_elastic s' = Some p' \<and> pool_inv free p' \<and> cn_pending_operations s' = cn_pending_operations s \<and>
    cn_applied_generation s \<le> cn_applied_generation s' \<and>
    (r = Inr () \<longrightarrow> (\<exists>g. target_of op = Inr (bp_current p') \<and> generation_of op = Inr g \<and>
       cn_applied_generation s' = max (cn_applied_generation s) g))"
proof (cases "\<exists>stage target. str_item (fr_of E) (PDict op) ''stage'' = Inr stage \<and>
    (stage = ''activate_scheduler'' \<or> stage = ''retire_scheduler'') \<and> target_of op = Inr target")
  case False
  then have "s' = s \<and> (\<exists>e. r = Inl e)" using run
    by (cases "str_item (fr_of E) (PDict op) ''stage''"; cases "target_of op")
      (auto simp: apply_scheduler_operation_def target_of_def bind_def lift_def split: if_splits)
  then show ?thesis using pool by auto
next
  case True
  then obtain stage target where t: "str_item (fr_of E) (PDict op) ''stage'' = Inr stage"
    "stage = ''activate_scheduler'' \<or> stage = ''retire_scheduler''" "target_of op = Inr target" by blast
  obtain p1 q where q: "apply_pool (ev_queue E) (ev_surface E) target p = (p1, q)" by fastforce
  let ?s = "s\<lparr>cn_elastic := Some p1\<rparr>"
  let ?rest = "bind (lift (generation_of op)) (\<lambda>generation.
     bind (acknowledge E scheduler_actor op stage generation target) (\<lambda>_. advance_generation generation))"
  have on: "on_elastic (apply_pool (ev_queue E) (ev_surface E) target) s = (?s, q)"
    by (simp add: on_elastic_def pool(1) q)
  have eq: "apply_scheduler_operation E op s =
      bind (on_elastic (apply_pool (ev_queue E) (ev_surface E) target)) (\<lambda>_. ?rest) s"
    using t by (auto simp: apply_scheduler_operation_def target_of_def bind_def lift_def)
  note effect = apply_pool_effect [OF laws(1) pool(2) q]
  show ?thesis
  proof (cases q)
    case (Inl e)
    then show ?thesis using run eq on effect laws(2) by (auto simp: bind_def)
  next
    case (Inr u)
    have run2: "?rest ?s = (s', r)" using run unfolding eq bind_Inr [where m = "on_elastic _", OF on [unfolded Inr]] .
    from acknowledged_advance [OF run2] effect Inr t(3) show ?thesis by (cases r) auto
  qed
qed

lemma last_Cons2: "last (a # b # xs) = last (b # xs)"
  by simp

lemma scheduler_loop_effect:
  assumes laws: "queue_laws (ev_queue E) free" "append_total (ev_queue E)"
    and "cn_elastic s = Some p" and "pool_inv free p"
    and "for_each (apply_scheduler_operation E) ops s = (s', r)"
  shows "\<exists>p'. cn_elastic s' = Some p' \<and> pool_inv free p' \<and> cn_pending_operations s' = cn_pending_operations s \<and>
    cn_applied_generation s \<le> cn_applied_generation s' \<and>
    (r = Inr () \<longrightarrow> (\<exists>targets gs. traverse target_of ops = Inr targets \<and> traverse generation_of ops = Inr gs \<and>
       bp_current p' = last (bp_current p # targets) \<and>
       cn_applied_generation s' = foldl max (cn_applied_generation s) gs))"
  using assms(3-)
proof (induction ops arbitrary: s p)
  case (Cons op ops)
  obtain s1 q where q: "apply_scheduler_operation E op s = (s1, q)" by fastforce
  obtain p1 where p1: "cn_elastic s1 = Some p1" "pool_inv free p1"
    "cn_pending_operations s1 = cn_pending_operations s" "cn_applied_generation s \<le> cn_applied_generation s1"
    "q = Inr () \<Longrightarrow> \<exists>g. target_of op = Inr (bp_current p1) \<and> generation_of op = Inr g \<and>
       cn_applied_generation s1 = max (cn_applied_generation s) g"
    using scheduler_operation_effect [OF laws Cons.prems(1,2) q] by blast
  show ?case
  proof (cases q)
    case (Inl e)
    then show ?thesis using Cons.prems(3) q p1(1-4) by (auto simp: bind_def)
  next
    case (Inr u)
    obtain g where g: "target_of op = Inr (bp_current p1)" "generation_of op = Inr g"
      "cn_applied_generation s1 = max (cn_applied_generation s) g"
      using p1(5) Inr by auto
    have rest: "for_each (apply_scheduler_operation E) ops s1 = (s', r)"
      using Cons.prems(3) q Inr by (simp add: bind_def)
    show ?thesis using Cons.IH [OF p1(1,2) rest] p1(3,4) g by (auto simp: and_then_def last_Cons2 simp del: last.simps)
  qed
qed (auto simp: ret_def)

text \<open>
  Applying the queued operations keeps the block pool in its invariant on every outcome, never
  lowers the applied generation and empties the queue. If it returns, every operation was applied
  and acknowledged in order: the pool has the size of the last target and the applied generation is
  the greatest one.
\<close>

theorem scheduler_resizes_applied:
  assumes "queue_laws (ev_queue E) free" and "append_total (ev_queue E)" and "cn_live_resize s"
    and "cn_elastic s = Some p" and "pool_inv free p" and "apply_scheduler_resizes E s = (s', r)"
  shows "\<exists>p'. cn_elastic s' = Some p' \<and> pool_inv free p' \<and> cn_pending_operations s' = [] \<and>
    cn_applied_generation s \<le> cn_applied_generation s' \<and>
    (r = Inr () \<longrightarrow> (\<exists>targets gs. traverse target_of (cn_pending_operations s) = Inr targets \<and>
       traverse generation_of (cn_pending_operations s) = Inr gs \<and>
       bp_current p' = last (bp_current p # targets) \<and>
       cn_applied_generation s' = foldl max (cn_applied_generation s) gs))"
proof -
  let ?s = "s\<lparr>cn_pending_operations := []\<rparr>"
  have "for_each (apply_scheduler_operation E) (cn_pending_operations s) ?s = (s', r)"
    using assms(3,4,6) by (simp add: apply_scheduler_resizes_def bind_def gets_def modify_def)
  from scheduler_loop_effect [OF assms(1,2) _ assms(5) this] assms(4) show ?thesis by simp
qed

subsection \<open>Samples\<close>

text \<open>A scheduler whose poll is answered with a descriptor that only a worker can use.\<close>

definition sample_polling :: "((string \<times> nat list) list, nat list) connector" where
  "sample_polling = sample_connector\<lparr>cn_live_resize := True, cn_applied_generation := 2, cn_world := resize_peer\<rparr>"

lemma sample_poll_request: "make_resize_poll_request (PInt 7) scheduler_actor (PInt 2) = Inr sample_poll"
  by code_simp

theorem resize_polls_close_descriptors_witness:
  "case poll_scheduler_resizes sample_env sample_polling of (s, r) \<Rightarrow>
     r = RaiseP ''scheduler resize phase received CUDA allocation handles'' \<and>
     owed (cn_world sample_polling) (cn_world s) []"
proof -
  obtain s r where run: "poll_scheduler_resizes sample_env sample_polling = (s, r)" by fastforce
  obtain w where w: "poll_resize_state_with_handles plain_codec script_kernel sample_client sample_poll resize_peer =
      (w, Inr (([sample_operation], True), [7]))"
    using sample_poll_answer by (metis prod.collapse)
  have r: "r = RaiseP ''scheduler resize phase received CUDA allocation handles''"
    using run
    by (simp add: poll_scheduler_resizes_def poll_resizes_def sample_polling_def sample_connector_def sample_env_def
        control_client_def bind_def gets_def lift_def sample_poll_request on_world_def w try_finally_def
        close_os_handles_def)
  have "settled (poll_scheduler_resizes sample_env)"
    using resize_polls_close_descriptors [of sample_env] script_kernel_ok by (simp add: sample_env_def)
  from settledD [OF this run] r show ?thesis by (simp add: run unsettled_def)
qed

definition sample_worker :: "((string \<times> nat list) list, nat list) connector" where
  "sample_worker = sample_connector\<lparr>cn_is_scheduler := False, cn_live_resize := True\<rparr>"

theorem forward_excludes_resizes_witness:
  "(worker_step sample_env)\<^sup>*\<^sup>* sample_worker sample_worker \<and>
   (case start_load_kv sample_env True sample_worker of
      None \<Rightarrow> False | Some (s, r) \<Rightarrow> cn_forward_locked s = (\<not> isl r))"
proof -
  have w: "\<not> cn_is_scheduler sample_worker" "cn_live_resize sample_worker" "\<not> cn_forward_locked sample_worker"
    "\<not> cn_forward_active sample_worker"
    by (simp_all add: sample_worker_def sample_connector_def)
  have "(worker_step sample_env)\<^sup>*\<^sup>* sample_worker sample_worker" by simp
  from forward_excludes_resizes [OF this w(3,4), of True] w show ?thesis
    by (auto split: option.splits)
qed

text \<open>A scheduler with one queued growth, whose acknowledgement cannot be built.\<close>

definition sample_growth :: pydict where
  "sample_growth =
     [(''stage'', PStr ''activate_scheduler''), (''target_block_count'', PInt 6), (''resize_generation'', PInt 3)]"

definition sample_scheduler :: "((string \<times> nat list) list, nat list) connector" where
  "sample_scheduler = sample_connector\<lparr>cn_live_resize := True, cn_pending_operations := [sample_growth],
     cn_elastic := Some (sample_pool True [1, 2, 3])\<rparr>"

theorem scheduler_resizes_applied_witness:
  "case apply_scheduler_resizes sample_env sample_scheduler of (s, r) \<Rightarrow>
     isl r \<and> (\<exists>p. cn_elastic s = Some p \<and> pool_inv mset p \<and> bp_current p = 6) \<and> cn_pending_operations s = []"
proof -
  let ?run = "apply_scheduler_resizes sample_env sample_scheduler"
  obtain s r where run: "?run = (s, r)" by fastforce
  have "map_prod (\<lambda>s. map_option bp_current (cn_elastic s)) isl ?run = (Some 6, True)" by code_simp
  then have e: "map_option bp_current (cn_elastic s) = Some 6" "isl r" by (simp_all add: run)
  have l: "queue_laws (ev_queue sample_env) mset" "append_total (ev_queue sample_env)"
    using list_queue_laws by (simp_all add: sample_env_def)
  have i: "cn_live_resize sample_scheduler" "cn_elastic sample_scheduler = Some (sample_pool True [1, 2, 3])"
    "pool_inv mset (sample_pool True [1, 2, 3])"
    using sample_pool_ok by (simp_all add: sample_scheduler_def pool_ok_def)
  from scheduler_resizes_applied [OF l i run] e show ?thesis by (auto simp: run)
qed

end
