(* ===== verification/Geometry_Extraction.thy ===== *)
theory Geometry_Extraction
  imports Cache_Geometry Shared_Pool
begin

text \<open>
  The extraction of a cache geometry from a resolved vLLM configuration (\<open>planning.py\<close>):
  the execution profile check, the classification of cache specs, the topology of one cache
  group, the geometry of one rank and of the whole tensor-parallel world.

  vLLM's objects are \<open>pyval\<close>s read through \<open>getattr\<close>. What vLLM computes is a
  parameter: \<open>pinned\<close> is its \<open>get_kv_cache_spec_kind\<close> (\<open>None\<close> when the import
  fails), \<open>usage\<close> the method \<open>max_memory_usage_bytes\<close> behind a callable, \<open>fr\<close> the
  text of a float. A \<open>Fraction\<close> is an object whose attributes are its numerator and its
  positive denominator.

  The lemmas show that an extracted group accounts for every byte of the dense key and value
  state of its layers, and that an extracted geometry has everything the planner relies on.
\<close>

subsection \<open>The execution profile\<close>

definition resolved_size :: "pyval \<Rightarrow> string \<Rightarrow> int result" where
  "resolved_size parallel_config name =
     planning_uint (getattr_or parallel_config name (PInt 1)) name False"

definition parallel_sizes :: "pyval \<Rightarrow> (string \<times> int) list result" where
  "parallel_sizes parallel_config =
     traverse (\<lambda>name. and_then (resolved_size parallel_config name) (\<lambda>n. Inr (name, n)))
       [''pipeline_parallel_size'', ''data_parallel_size'', ''decode_context_parallel_size'']"

definition backend_name :: "(pyfloat \<Rightarrow> string) \<Rightarrow> pyval \<Rightarrow> string" where
  "backend_name fr attention_config =
     (let backend = getattr_or attention_config ''backend'' PNone
      in py_upper (py_strip (py_str fr
           (getattr_or backend ''name'' (if truthy backend then backend else PStr [])))))"

definition validate_certified_shared_pool_execution :: "(pyfloat \<Rightarrow> string) \<Rightarrow> pyval \<Rightarrow> unit result" where
  "validate_certified_shared_pool_execution fr vllm_config =
     (let parallel_config = getattr_or vllm_config ''parallel_config'' PNone;
          sleep_mode = getattr_or (getattr_or vllm_config ''model_config'' PNone) ''enable_sleep_mode'' (PBool False);
          attention_config = getattr_or vllm_config ''attention_config'' PNone;
          per_kind = getattr_or attention_config ''backend_per_kind'' PNone;
          backend_per_kind = (if per_kind = PNone then PDict [] else per_kind)
      in and_then (parallel_sizes parallel_config) (\<lambda>unsupported.
     and_then (resolved_size parallel_config ''tensor_parallel_size'') (\<lambda>_.
     let enabled = map fst (filter (\<lambda>(_, n). n \<noteq> 1) unsupported)
     in if enabled \<noteq> []
     then Raise PlanningError (fmt [''vLLM shared_pool does not yet support '', join_with '', '' enabled])
     else case sleep_mode of
       PBool asleep \<Rightarrow>
         if asleep
         then Raise PlanningError (fmt [''vLLM shared_pool does not yet support sleep mode because the '',
                ''Kapsl-owned CUDA allocation must remain exported''])
         else if backend_name fr attention_config \<noteq> ''FLASH_ATTN''
         then Raise PlanningError (fmt [''vLLM shared_pool currently requires the explicitly selected '',
                ''FLASH_ATTN backend; automatic or different attention backends '',
                ''need their own conformance profile''])
         else if \<not> is_mapping backend_per_kind
         then Raise PlanningError ''vLLM backend_per_kind must be a mapping''
         else if truthy backend_per_kind
         then Raise PlanningError (fmt [''vLLM shared_pool does not yet support per-cache-kind attention '',
                ''backend overrides''])
         else Inr ()
     | _ \<Rightarrow> Raise PlanningError ''vLLM enable_sleep_mode must be a boolean'')))"

subsection \<open>Classification of a cache spec\<close>

type_synonym classifier = "pyval \<Rightarrow> pyval result"

definition pinned_vllm_spec_classifier :: "classifier option \<Rightarrow> classifier" where
  "pinned_vllm_spec_classifier pinned spec =
     (case pinned of
        None \<Rightarrow> Raise PlanningError ''pinned vLLM get_kv_cache_spec_kind is unavailable''
      | Some get_kv_cache_spec_kind \<Rightarrow>
          (case get_kv_cache_spec_kind spec of
             Inl _ \<Rightarrow> Raise PlanningError ''pinned vLLM could not classify the resolved cache spec''
           | Inr marker \<Rightarrow> Inr marker))"

definition spec_marker :: "classifier \<Rightarrow> classifier" where
  "spec_marker classify spec =
     (case classify spec of
        Inr marker \<Rightarrow> Inr (getattr_or marker ''value'' marker)
      | Inl e \<Rightarrow> if exn_of e = PlanningError then Inl e
                 else Raise PlanningError ''pinned vLLM could not classify the resolved cache spec'')"

definition certified_kind :: "(pyfloat \<Rightarrow> string) \<Rightarrow> classifier \<Rightarrow> pyval \<Rightarrow> string result" where
  "certified_kind fr classify spec =
     and_then (spec_marker classify spec) (\<lambda>marker.
     let kind = py_lower (py_strip (py_str fr marker))
     in if kind \<notin> {''full_attention'', ''sliding_window''}
        then Raise PlanningError (fmt [''cache spec kind '', py_repr (if kind = [] then ''<missing>'' else kind),
               '' is not certified by the packed profile''])
        else Inr kind)"

lemma traverse_fundef_cong [fundef_cong]:
  "xs = ys \<Longrightarrow> (\<And>x. x \<in> set ys \<Longrightarrow> f x = g x) \<Longrightarrow> traverse f xs = traverse g ys"
  by (induction ys arbitrary: xs) auto

definition spec_members :: "pyval \<Rightarrow> pydict option" where
  "spec_members spec =
     (case getattr_or spec ''kv_cache_specs'' PNone of PDict members \<Rightarrow> Some members | _ \<Rightarrow> None)"

lemma spec_members_smaller:
  assumes "spec_members spec = Some members" and "(k, m) \<in> set members"
  shows "size m < size spec"
proof -
  obtain s attrs where spec: "spec = PObj s attrs" and at: "map_of attrs ''kv_cache_specs'' = Some (PDict members)"
    using assms(1) by (cases spec)
      (auto simp: spec_members_def getattr_or_def d_get_or_def split: pyval.splits option.splits)
  have "size m < size_list (size_prod (\<lambda>_. 0) size) members"
    using assms(2) by (induction members) auto
  moreover from at have "(''kv_cache_specs'', PDict members) \<in> set attrs" by (rule map_of_SomeD)
  then have "size (PDict members) < size_list (size_prod (\<lambda>_. 0) size) attrs"
    by (induction attrs) auto
  ultimately show ?thesis by (simp add: spec)
qed

function resolve_kind :: "(pyfloat \<Rightarrow> string) \<Rightarrow> classifier \<Rightarrow> pyval \<Rightarrow> string result" where
  "resolve_kind fr classify spec =
     and_then (certified_kind fr classify spec) (\<lambda>kind.
     case spec_members spec of
       None \<Rightarrow> Inr kind
     | Some members \<Rightarrow>
         if members = [] then Raise PlanningError ''uniform vLLM cache spec has no member specs''
         else and_then (traverse (resolve_kind fr classify) (map snd members)) (\<lambda>member_kinds.
           if set member_kinds \<noteq> {kind}
           then Raise PlanningError ''uniform vLLM cache spec kind differs from its member specs''
           else Inr kind))"
  by pat_completeness auto
termination
  by (relation "measure (\<lambda>(_, _, spec). size spec)") (auto intro: spec_members_smaller)

declare resolve_kind.simps [simp del]

definition resolve_vllm_cache_spec_kind ::
  "(pyfloat \<Rightarrow> string) \<Rightarrow> classifier option \<Rightarrow> classifier option \<Rightarrow> pyval \<Rightarrow> string result" where
  "resolve_vllm_cache_spec_kind fr pinned classify spec =
     resolve_kind fr (case classify of None \<Rightarrow> pinned_vllm_spec_classifier pinned | Some f \<Rightarrow> f) spec"

subsection \<open>Element types and attributes\<close>

definition DTYPE_BITS :: "(string \<times> int) list" where
  "DTYPE_BITS =
     [(''float16'', 16), (''half'', 16), (''bfloat16'', 16), (''float32'', 32), (''float'', 32),
      (''int8'', 8), (''uint8'', 8), (''float8_e4m3fn'', 8), (''float8_e4m3fnuz'', 8),
      (''float8_e5m2'', 8), (''float8_e5m2fnuz'', 8)]"

definition planner_element_type :: "(pyfloat \<Rightarrow> string) \<Rightarrow> pyval \<Rightarrow> element_type result" where
  "planner_element_type fr dtype =
     (let name = removeprefix ''torch.'' (py_lower (py_strip (py_str fr dtype)))
      in case map_of DTYPE_BITS name of
           None \<Rightarrow> Raise PlanningError (fmt [''cache dtype '', py_repr (if name = [] then ''<missing>'' else name),
                     '' is not certified by the packed CUDA-IPC planner''])
         | Some bits \<Rightarrow> mk_ElementType (PStr name) (PInt bits))"

definition after_last_dot :: "string \<Rightarrow> string" where
  "after_last_dot s = rev (takeWhile (\<lambda>c. c \<noteq> CHR ''.'') (rev s))"

definition quant_mode :: "(pyfloat \<Rightarrow> string) \<Rightarrow> pyval \<Rightarrow> string" where
  "quant_mode fr v =
     (if v = PNone then ''NONE''
      else let name = getattr_or v ''name'' PNone
           in py_upper (py_strip (if name = PNone then after_last_dot (py_str fr v) else py_str fr name)))"

fun positive_attr :: "pyval \<Rightarrow> string list \<Rightarrow> string \<Rightarrow> int result" where
  "positive_attr v [] field = Raise PlanningError (fmt [''resolved vLLM spec does not expose '', field])"
| "positive_attr v (name # names) field =
     (let raw = getattr_or v name PNone
      in if raw \<noteq> PNone then planning_uint raw field False else positive_attr v names field)"

definition uniform :: "('a \<Rightarrow> 'a \<Rightarrow> bool) \<Rightarrow> 'a list \<Rightarrow> string \<Rightarrow> 'a result" where
  "uniform eq vs field =
     (case vs of
        v # rest \<Rightarrow>
          if list_ex (\<lambda>x. \<not> eq x v) rest
          then Raise PlanningError (fmt [''the certified topology cannot represent mixed '', field,
                 '' inside one cache group''])
          else Inr v
      | [] \<Rightarrow> Raise PlanningError (fmt [''the certified topology cannot represent mixed '', field,
                 '' inside one cache group'']))"

definition member_specs :: "pyval \<Rightarrow> string list \<Rightarrow> pyval list result" where
  "member_specs spec layer_names =
     (case spec_members spec of
        Some members \<Rightarrow>
          if fst ` set members \<noteq> set layer_names
          then Raise PlanningError
            ''uniform vLLM cache spec layer membership differs from its cache group''
          else Inr (map (d_get members) layer_names)
      | None \<Rightarrow> Inr [spec])"

definition fraction_of :: "pyval \<Rightarrow> rat option" where
  "fraction_of v =
     (case v of
        PInt i \<Rightarrow> Some (of_int i)
      | PObj _ [(n, PInt p), (d, PInt q)] \<Rightarrow>
          if n = ''numerator'' \<and> d = ''denominator'' \<and> 0 < q then Some (of_int p / of_int q) else None
      | _ \<Rightarrow> None)"

definition token_ratio :: "pyval \<Rightarrow> rat result" where
  "token_ratio member =
     (case fraction_of (getattr_or member ''tokens_per_state'' (PInt 1)) of
        None \<Rightarrow> Raise PlanningError ''tokens_per_state is not an exact rational value''
      | Some ratio \<Rightarrow> Inr ratio)"

subsection \<open>The dense layout\<close>

definition attrs_of :: "pyval list \<Rightarrow> string \<Rightarrow> pyval list" where
  "attrs_of members name = map (\<lambda>m. getattr_or m name PNone) members"

definition optional_matches :: "pyval \<Rightarrow> string \<Rightarrow> int \<Rightarrow> string \<Rightarrow> unit result" where
  "optional_matches v field expected message =
     (if v = PNone then Inr ()
      else and_then (planning_uint v field False) (\<lambda>n.
        if n \<noteq> expected then Raise PlanningError message else Inr ()))"

definition check_page_bytes :: "int \<Rightarrow> unit \<Rightarrow> pyval \<Rightarrow> unit result" where
  "check_page_bytes dense_page_bytes _ member =
     and_then (positive_attr member [''page_size_bytes''] ''page_size_bytes'') (\<lambda>n.
       if n \<noteq> dense_page_bytes
       then Raise PlanningError
         ''resolved KV page bytes do not match the certified dense attention geometry''
       else Inr ())"

definition validate_dense_attention_layout ::
  "(pyfloat \<Rightarrow> string) \<Rightarrow> pyval list \<Rightarrow> element_type \<Rightarrow> int \<Rightarrow> int \<Rightarrow> int \<Rightarrow> int \<Rightarrow> unit result" where
  "validate_dense_attention_layout fr members et block_size kv_heads key_head_dim value_head_dim =
     and_then (uniform (=) (map (quant_mode fr) (attrs_of members ''kv_quant_mode''))
                 ''KV quantization modes'') (\<lambda>mode.
     if mode \<noteq> ''NONE''
     then Raise PlanningError ''quantized KV layouts require a new certified planner profile''
     else if list_ex (\<lambda>v. v \<noteq> PNone) (attrs_of members ''page_size_padded'')
     then Raise PlanningError ''padded KV pages require a new certified planner profile''
     else
     and_then (uniform py_eq (attrs_of members ''num_head_slots'') ''packed head-slot counts'') (\<lambda>slots.
     and_then (optional_matches slots ''num_head_slots'' kv_heads
                 ''packed KV head slots require a new certified planner profile'') (\<lambda>_.
     and_then (uniform py_eq (attrs_of members ''state_content_bytes'') ''packed state sizes'') (\<lambda>state_bytes.
     and_then (checked_add key_head_dim value_head_dim ''dense state dimensions'') (\<lambda>dims.
     and_then (checked_mul dims (et_bits et div 8) ''dense state bytes'') (\<lambda>dense_state_bytes.
     and_then (optional_matches state_bytes ''state_content_bytes'' dense_state_bytes
                 ''packed KV state content requires a new certified planner profile'') (\<lambda>_.
     and_then (checked_mul block_size kv_heads ''dense KV page elements'') (\<lambda>elements.
     and_then (checked_mul elements dense_state_bytes ''dense KV page bytes'') (\<lambda>dense_page_bytes.
     and_then (fold_r (check_page_bytes dense_page_bytes) () members) (\<lambda>_.
     and_then (traverse token_ratio members) (\<lambda>ratios.
     and_then (uniform (=) ratios ''tokens-per-state ratios'') (\<lambda>ratio.
     if ratio \<noteq> 1
     then Raise PlanningError ''compressed KV states require a new certified planner profile''
     else Inr ()))))))))))))"

subsection \<open>The topology of a cache group\<close>

record cache_topology =
  ct_group_id :: string
  ct_layers :: "string list"
  ct_block_size_tokens :: int
  ct_page_size_bytes :: int
  ct_bytes_per_group_block :: int
  ct_kv_heads :: int
  ct_key_head_dim :: int
  ct_value_head_dim :: int
  ct_element_type :: element_type
  ct_policy_kind :: string
  ct_window_tokens :: "int option"
  ct_extra_retained_tokens :: int

text \<open>One value that all members expose, under the first name that is not \<open>None\<close>.\<close>

definition uniform_attr :: "pyval list \<Rightarrow> string list \<Rightarrow> string \<Rightarrow> string \<Rightarrow> int result" where
  "uniform_attr members names field plural =
     and_then (traverse (\<lambda>m. positive_attr m names field) members) (\<lambda>vs. uniform (=) vs plural)"

text \<open>The retention policy: the window and the extra retained tokens of a sliding window.\<close>

definition group_policy :: "pyval list \<Rightarrow> string \<Rightarrow> (int option \<times> int) result" where
  "group_policy members spec_kind =
     (if spec_kind = ''sliding_window'' then
        and_then (uniform py_eq (attrs_of members ''sliding_window'') ''sliding-window policies'') (\<lambda>window.
        if window = PNone
        then Raise PlanningError ''resolved sliding-window spec has no window size''
        else
        and_then (planning_uint window ''window_tokens'' False) (\<lambda>window_tokens.
        and_then (uniform py_eq (map (\<lambda>m. getattr_or m ''extra_retained_tokens'' (PInt 0)) members)
                    ''extra retained token counts'') (\<lambda>extra.
        and_then (planning_uint extra ''extra_retained_tokens'' True) (\<lambda>extra_retained_tokens.
        if extra_retained_tokens \<noteq> 0
        then Raise PlanningError
          ''the certified KV ABI cannot represent nonzero extra retained tokens''
        else Inr (Some window_tokens, extra_retained_tokens)))))
      else Inr (None, 0))"

text \<open>The bytes of one block in all layers: the wrapper's own total, or one page per layer.\<close>

definition add_page :: "int \<Rightarrow> pyval \<Rightarrow> int result" where
  "add_page acc member =
     and_then (positive_attr member [''page_size_bytes''] ''page_size_bytes'') (\<lambda>page.
       checked_add acc page ''bytes_per_group_block'')"

definition group_bytes :: "pyval \<Rightarrow> pyval list \<Rightarrow> string list \<Rightarrow> int \<Rightarrow> int result" where
  "group_bytes spec members layers page_size =
     (case spec_members spec of
        Some _ \<Rightarrow>
          and_then (uniform_attr members [''page_size_bytes''] ''page_size_bytes'' ''member page sizes'') (\<lambda>_.
          and_then (fold_r add_page 0 members) (\<lambda>inner_page_total.
          if inner_page_total \<noteq> page_size
          then Raise PlanningError ''uniform vLLM cache spec page accounting is internally inconsistent''
          else Inr page_size))
      | None \<Rightarrow> checked_mul page_size (int (length layers)) ''bytes_per_group_block'')"

definition extract_group_topology ::
  "(pyfloat \<Rightarrow> string) \<Rightarrow> classifier option \<Rightarrow> classifier option \<Rightarrow> pyval \<Rightarrow> nat \<Rightarrow> cache_topology result" where
  "extract_group_topology fr pinned spec_kind_classifier raw_group group_index =
     (case getattr_or raw_group ''layer_names'' PNone of
        PList raw_layers \<Rightarrow>
     and_then (traverse (\<lambda>layer. planning_text (PStr (py_str fr layer)) ''layer name'') raw_layers) (\<lambda>layers.
     if layers = []
     then Raise PlanningError (fmt [''vLLM cache group '', nat_text group_index, '' has no layers''])
     else let spec = getattr_or raw_group ''kv_cache_spec'' PNone
     in if spec = PNone
     then Raise PlanningError (fmt [''vLLM cache group '', nat_text group_index, '' has no cache spec''])
     else
     and_then (positive_attr spec [''block_size''] ''block_size_tokens'') (\<lambda>block_size.
     and_then (positive_attr spec [''page_size_bytes''] ''page_size_bytes'') (\<lambda>page_size.
     and_then (member_specs spec layers) (\<lambda>members.
     and_then (resolve_vllm_cache_spec_kind fr pinned spec_kind_classifier spec) (\<lambda>spec_kind.
     and_then (uniform_attr members [''block_size''] ''block_size_tokens'' ''block sizes'') (\<lambda>member_block_size.
     if member_block_size \<noteq> block_size
     then Raise PlanningError ''uniform vLLM cache spec block size differs from its member specs''
     else
     and_then (uniform_attr members [''num_kv_heads'', ''num_heads''] ''kv_heads'' ''KV-head counts'') (\<lambda>kv_heads.
     and_then (uniform_attr members [''head_size''] ''key_head_dim'' ''key head dimensions'') (\<lambda>key_head_dim.
     and_then (uniform_attr members [''head_size_v'', ''head_size''] ''value_head_dim''
                 ''value head dimensions'') (\<lambda>value_head_dim.
     and_then (traverse (planner_element_type fr) (attrs_of members ''dtype'')) (\<lambda>types.
     and_then (uniform (=) types ''cache element types'') (\<lambda>et.
     and_then (validate_dense_attention_layout fr members et block_size kv_heads key_head_dim
                 value_head_dim) (\<lambda>_.
     if list_ex (\<lambda>v. v \<noteq> PNone) (attrs_of members ''attention_chunk_size'')
     then Raise PlanningError
       ''the certified packed CUDA-IPC profile does not support chunked-local attention''
     else
     and_then (group_policy members spec_kind) (\<lambda>(window_tokens, extra_retained_tokens).
     and_then (group_bytes spec members layers page_size) (\<lambda>bytes.
       Inr \<lparr>ct_group_id = ''vllm.group.'' @ nat_text group_index, ct_layers = layers,
            ct_block_size_tokens = block_size, ct_page_size_bytes = page_size,
            ct_bytes_per_group_block = bytes, ct_kv_heads = kv_heads,
            ct_key_head_dim = key_head_dim, ct_value_head_dim = value_head_dim,
            ct_element_type = et,
            ct_policy_kind = (if spec_kind = ''sliding_window'' then ''sliding_window'' else ''full_attention''),
            ct_window_tokens = window_tokens,
            ct_extra_retained_tokens = extra_retained_tokens\<rparr>))))))))))))))
      | _ \<Rightarrow> Raise PlanningError (fmt [''vLLM cache group '', nat_text group_index, '' has no layer list'']))"

text \<open>A sequence of cache groups: a list, or the characters of a text.\<close>

definition sequence_items :: "pyval \<Rightarrow> pyval list" where
  "sequence_items v =
     (case v of PList xs \<Rightarrow> xs | PStr s \<Rightarrow> map (\<lambda>c. PStr [c]) s | _ \<Rightarrow> [])"

definition extract_cache_group_topologies ::
  "(pyfloat \<Rightarrow> string) \<Rightarrow> classifier option \<Rightarrow> classifier option \<Rightarrow> pyval \<Rightarrow> cache_topology list result" where
  "extract_cache_group_topologies fr pinned spec_kind_classifier kv_cache_config =
     (let raw_groups = sequence_items (getattr_or kv_cache_config ''kv_cache_groups'' PNone)
      in if raw_groups = []
      then Raise PlanningError ''resolved vLLM KVCacheConfig has no cache groups''
      else
      and_then (traverse (\<lambda>(index, g). extract_group_topology fr pinned spec_kind_classifier g index)
                  (enumerate 0 raw_groups)) (\<lambda>groups.
      if \<not> distinct (concat (map ct_layers groups))
      then Raise PlanningError ''cache-group layer names must be globally unique within a rank''
      else Inr groups))"

subsection \<open>The geometry of a rank\<close>

type_synonym usage = "nat \<Rightarrow> pyval \<Rightarrow> pyval result"

definition one_sequence_bytes :: "usage \<Rightarrow> pyval \<Rightarrow> pyval \<Rightarrow> nat \<Rightarrow> int result" where
  "one_sequence_bytes usage raw_group vllm_config group_index =
     (case getattr_or (getattr_or raw_group ''kv_cache_spec'' PNone) ''max_memory_usage_bytes'' PNone of
        PFun maximum \<Rightarrow>
          (case usage maximum vllm_config of
             Inr v \<Rightarrow> planning_uint v ''max_memory_usage_bytes'' False
           | Inl e \<Rightarrow>
               if exn_of e = PlanningError then Inl e
               else Raise PlanningError (fmt [''vLLM cache group '', nat_text group_index,
                      '' could not size one sequence: '', exn_msg e]))
      | _ \<Rightarrow> Raise PlanningError ''resolved vLLM cache specs must provide max_memory_usage_bytes'')"

definition opt_val :: "int option \<Rightarrow> pyval" where
  "opt_val w = (case w of None \<Rightarrow> PNone | Some n \<Rightarrow> PInt n)"

definition size_group :: "usage \<Rightarrow> pyval \<Rightarrow> cache_topology \<Rightarrow> nat \<Rightarrow> pyval \<Rightarrow> cache_group result" where
  "size_group usage raw_group topology group_index vllm_config =
     and_then (one_sequence_bytes usage raw_group vllm_config group_index) (\<lambda>maximum_bytes.
     and_then (ceil_div maximum_bytes (ct_page_size_bytes topology) ''required_blocks_per_sequence'')
       (\<lambda>sequence_blocks.
       mk_CacheGroupGeometry (PStr (ct_group_id topology)) (map PStr (ct_layers topology))
         (PInt (ct_block_size_tokens topology)) (PInt (ct_bytes_per_group_block topology))
         (PInt sequence_blocks) (PInt (ct_kv_heads topology)) (PInt (ct_key_head_dim topology))
         (PInt (ct_value_head_dim topology)) (ct_element_type topology) (ct_policy_kind topology)
         (opt_val (ct_window_tokens topology)) (PInt (ct_extra_retained_tokens topology))))"

text \<open>A final packed configuration also carries its tensors, which must agree with the stride.\<close>

definition check_packed_tensors :: "pyval \<Rightarrow> int \<Rightarrow> unit result" where
  "check_packed_tensors kv_cache_config pool_stride =
     (let tensors = getattr_or kv_cache_config ''kv_cache_tensors'' PNone
      in if \<not> truthy tensors then Inr ()
      else
      and_then (positive_attr kv_cache_config [''num_blocks''] ''num_blocks'') (\<lambda>num_blocks.
      and_then (py_iter tensors) (\<lambda>ts.
      and_then (traverse (\<lambda>t. positive_attr t [''size''] ''kv_cache_tensor.size'') ts) (\<lambda>sizes.
      case remdups sizes of
        [packed_bytes] \<Rightarrow>
          if packed_bytes mod num_blocks \<noteq> 0 \<or> packed_bytes div num_blocks \<noteq> pool_stride
          then Raise PlanningError ''resolved packed allocation disagrees with cache-group page accounting''
          else Inr ()
      | _ \<Rightarrow> Raise PlanningError ''packed vLLM KV tensor placements do not share one backing size''))))"

definition extract_rank_geometry ::
  "(pyfloat \<Rightarrow> string) \<Rightarrow> classifier option \<Rightarrow> usage \<Rightarrow> classifier option \<Rightarrow> pyval \<Rightarrow> pyval \<Rightarrow> pyval \<Rightarrow> pyval \<Rightarrow>
   rank_geometry result" where
  "extract_rank_geometry fr pinned usage spec_kind_classifier kv_cache_config vllm_config rank device_id =
     (let raw_groups = sequence_items (getattr_or kv_cache_config ''kv_cache_groups'' PNone)
      in
     and_then (extract_cache_group_topologies fr pinned spec_kind_classifier kv_cache_config) (\<lambda>topologies.
     and_then (traverse (\<lambda>(index, topology). size_group usage (raw_groups ! index) topology index vllm_config)
                 (enumerate 0 topologies)) (\<lambda>groups.
     and_then (shared_pool_block_stride cg_bytes_per_group_block groups) (\<lambda>pool_stride.
     and_then (check_packed_tensors kv_cache_config pool_stride) (\<lambda>_.
       mk_RankGeometry rank device_id (PInt pool_stride) groups (PInt 1))))))"

subsection \<open>The geometry of the world\<close>

definition check_layout :: "pyval \<Rightarrow> unit \<Rightarrow> pyval \<Rightarrow> unit result" where
  "check_layout layout_id _ config =
     (case getattr_or config ''kv_cache_layout'' PNone of
        PStr resolved \<Rightarrow>
          if py_strip resolved = []
          then Raise PlanningError ''resolved vLLM KVCacheConfig must expose kv_cache_layout''
          else if \<not> py_eq (PStr (py_strip resolved)) layout_id
          then Raise PlanningError ''planner layout_id differs from the resolved vLLM KVCacheConfig''
          else Inr ()
      | _ \<Rightarrow> Raise PlanningError ''resolved vLLM KVCacheConfig must expose kv_cache_layout'')"

definition geometry_from_resolved_configs ::
  "(pyfloat \<Rightarrow> string) \<Rightarrow> classifier option \<Rightarrow> usage \<Rightarrow> classifier option \<Rightarrow> pyval list \<Rightarrow> pyval \<Rightarrow>
   planner_identity \<Rightarrow> pyval \<Rightarrow> pyval \<Rightarrow> pyval \<Rightarrow> pyval \<Rightarrow> pyval list \<Rightarrow> geometry result" where
  "geometry_from_resolved_configs fr pinned usage spec_kind_classifier kv_cache_configs vllm_config identity
     model_fingerprint max_model_len attention_backend layout_id device_ids =
     and_then (validate_certified_shared_pool_execution fr vllm_config) (\<lambda>_.
     if kv_cache_configs = []
     then Raise PlanningError ''pinned vLLM returned no worker cache configurations''
     else if length kv_cache_configs \<noteq> length device_ids
     then Raise PlanningError ''device IDs must cover every vLLM worker configuration''
     else let configured_tp = getattr_or (getattr_or vllm_config ''parallel_config'' PNone)
                                ''tensor_parallel_size'' PNone
     in if configured_tp = PNone
     then Raise PlanningError ''resolved vLLM config must expose tensor_parallel_size''
     else
     and_then (planning_uint configured_tp ''tensor_parallel_size'' False) (\<lambda>tp.
     if tp \<noteq> int (length kv_cache_configs)
     then Raise PlanningError
       ''resolved tensor_parallel_size differs from the worker cache configurations''
     else
     and_then (fold_r (check_layout layout_id) () kv_cache_configs) (\<lambda>_.
     let configured_max_len = getattr_or (getattr_or vllm_config ''model_config'' PNone)
                                ''max_model_len'' PNone
     in if configured_max_len = PNone
     then Raise PlanningError ''resolved vLLM config must expose max_model_len''
     else
     and_then (planning_uint configured_max_len ''configured max_model_len'' False) (\<lambda>max_len.
     if \<not> py_eq (PInt max_len) max_model_len
     then Raise PlanningError ''planner max_model_len differs from the resolved vLLM config''
     else
     and_then (traverse (\<lambda>(rank, config).
                 and_then (planning_uint (device_ids ! rank) ''device_id'' True) (\<lambda>device_id.
                   extract_rank_geometry fr pinned usage spec_kind_classifier config vllm_config
                     (PInt (int rank)) (PInt device_id)))
                 (enumerate 0 kv_cache_configs)) (\<lambda>ranks.
       mk_GeometryDescriptor identity model_fingerprint max_model_len (PInt (int (length ranks)))
         attention_backend layout_id ranks)))))"

subsection \<open>What an extracted group satisfies\<close>

declare positive_attr.simps [simp del]

lemma positive_attr_pos: "positive_attr v names field = Inr n \<Longrightarrow> pos64 n"
  by (induction v names field rule: positive_attr.induct)
     (auto simp: positive_attr.simps Let_def split: if_splits)

lemma uniform_Inr_iff:
  "uniform eq vs field = Inr v \<longleftrightarrow> (\<exists>rest. vs = v # rest \<and> (\<forall>x \<in> set rest. eq x v))"
  by (auto simp: uniform_def list_ex_iff split: list.splits)

lemma uniform_equal_iff: "uniform (=) vs field = Inr v \<longleftrightarrow> vs \<noteq> [] \<and> set vs \<subseteq> {v}"
  by (cases vs) (auto simp: uniform_Inr_iff)

lemma uniform_attr_Inr:
  assumes "uniform_attr members names field plural = Inr n"
  shows "members \<noteq> [] \<and> pos64 n \<and> (\<forall>m \<in> set members. positive_attr m names field = Inr n)"
proof -
  from assms obtain vs where vs: "traverse (\<lambda>m. positive_attr m names field) members = Inr vs"
    and u: "vs \<noteq> []" "set vs \<subseteq> {n}"
    by (auto simp: uniform_attr_def result_simps uniform_equal_iff)
  have "positive_attr m names field = Inr n" if "m \<in> set members" for m
    using vs u that by (fastforce simp: traverse_Inr_iff list_all2_conv_all_nth in_set_conv_nth)
  moreover have "members \<noteq> []" using vs u by auto
  ultimately show ?thesis by (cases members) (auto dest: positive_attr_pos)
qed

definition dense_page_bytes :: "element_type \<Rightarrow> int \<Rightarrow> int \<Rightarrow> int \<Rightarrow> int \<Rightarrow> int" where
  "dense_page_bytes et block_size kv_heads key_head_dim value_head_dim =
     block_size * kv_heads * ((key_head_dim + value_head_dim) * (et_bits et div 8))"

lemma check_page_loop:
  "fold_r (check_page_bytes n) () members = Inr u \<longleftrightarrow>
     (\<forall>m \<in> set members. positive_attr m [''page_size_bytes''] ''page_size_bytes'' = Inr n)"
  by (induction members) (auto simp: check_page_bytes_def and_then_Inr_iff)

lemma dense_layout_pages:
  assumes "validate_dense_attention_layout fr members et bs kh kd vd = Inr u" and "m \<in> set members"
  shows "positive_attr m [''page_size_bytes''] ''page_size_bytes'' = Inr (dense_page_bytes et bs kh kd vd)"
  using assms unfolding validate_dense_attention_layout_def result_simps
  by (auto simp: check_page_loop checked_mul_exact checked_add_exact dense_page_bytes_def)

lemma add_page_loop:
  assumes "\<forall>m \<in> set members. positive_attr m [''page_size_bytes''] ''page_size_bytes'' = Inr n"
    and "fold_r add_page acc members = Inr s"
  shows "s = acc + int (length members) * n"
  using assms
proof (induction members arbitrary: acc)
  case (Cons m members)
  then have "add_page acc m = Inr (acc + n)"
    by (auto simp: add_page_def and_then_Inr_iff checked_add_exact)
  with Cons.prems have "fold_r add_page (acc + n) members = Inr s" by simp
  with Cons show ?case by (force simp: algebra_simps)
qed simp

lemma member_specs_Inr:
  "member_specs spec layers = Inr members \<longleftrightarrow>
     (case spec_members spec of
        None \<Rightarrow> members = [spec]
      | Some d \<Rightarrow> fst ` set d = set layers \<and> members = map (d_get d) layers)"
  by (auto simp: member_specs_def split: option.splits)

lemma group_bytes_wrapper:
  assumes "spec_members spec = Some d" and "group_bytes spec members layers page_size = Inr bytes"
  shows "fold_r add_page 0 members = Inr page_size \<and> bytes = page_size"
proof -
  from assms(2) obtain u s where "uniform_attr members [''page_size_bytes''] ''page_size_bytes'' ''member page sizes'' = Inr u"
    "fold_r add_page 0 members = Inr s"
    "(if s \<noteq> page_size then Raise PlanningError ''uniform vLLM cache spec page accounting is internally inconsistent''
      else Inr page_size) = Inr bytes"
    unfolding group_bytes_def assms(1) option.case and_then_Inr_iff by blast
  then show ?thesis by (simp split: if_splits)
qed

lemma group_bytes_Inr:
  assumes g: "group_bytes spec members layers page_size = Inr bytes"
    and m: "member_specs spec layers = Inr members"
    and p: "positive_attr spec [''page_size_bytes''] ''page_size_bytes'' = Inr page_size"
    and d: "\<forall>m \<in> set members. positive_attr m [''page_size_bytes''] ''page_size_bytes'' = Inr n"
  shows "bytes = int (length layers) * n \<and> bytes \<le> UINT64_MAX \<and>
         page_size = (if spec_members spec = None then n else bytes)"
proof (cases "spec_members spec")
  case None
  then have "members = [spec]" using m by (simp add: member_specs_Inr)
  then have "page_size = n" using d p by simp
  moreover have "bytes = page_size * int (length layers)" "bytes \<le> UINT64_MAX"
    using g None by (simp_all add: group_bytes_def checked_mul_exact)
  ultimately show ?thesis using None by (simp add: mult.commute)
next
  case (Some x)
  then have "fold_r add_page 0 members = Inr page_size" "bytes = page_size"
    using group_bytes_wrapper [OF Some g] by simp_all
  then show ?thesis
    using add_page_loop [OF d, of 0] m Some positive_attr_pos [OF p]
    by (simp add: member_specs_Inr pos64_def)
qed

lemma dtype_names_stripped: "list_all (\<lambda>(name, _). py_strip name = name) DTYPE_BITS"
  by code_simp

lemma planner_element_type_known: "planner_element_type fr v = Inr et \<Longrightarrow> (et_name et, et_bits et) \<in> set DTYPE_BITS"
  using dtype_names_stripped
  by (auto simp: planner_element_type_def mk_ElementType_def Let_def result_simps planning_text_Inr_iff
      list_all_iff split: option.splits dest!: map_of_SomeD)

lemma resolve_kind_cases: "resolve_kind fr c spec = Inr kind \<Longrightarrow> kind = ''full_attention'' \<or> kind = ''sliding_window''"
  by (subst (asm) resolve_kind.simps)
     (auto simp: result_simps certified_kind_def Let_def split: option.splits if_splits)

lemma group_policy_Inr:
  "group_policy members kind = Inr (w, ex) \<Longrightarrow>
     ex = 0 \<and> (if kind = ''sliding_window'' then \<exists>n. w = Some n \<and> pos64 n else w = None)"
  by (auto simp: group_policy_def result_simps split: if_splits)

text \<open>What a group topology promises to the planner and to registration.\<close>

definition topology_ok :: "cache_topology \<Rightarrow> bool" where
  "topology_ok t \<longleftrightarrow>
     ct_layers t \<noteq> [] \<and> list_all text_ok (ct_layers t) \<and>
     pos64 (ct_block_size_tokens t) \<and> pos64 (ct_kv_heads t) \<and>
     pos64 (ct_key_head_dim t) \<and> pos64 (ct_value_head_dim t) \<and> pos64 (ct_page_size_bytes t) \<and>
     (et_name (ct_element_type t), et_bits (ct_element_type t)) \<in> set DTYPE_BITS \<and>
     pos64 (ct_bytes_per_group_block t) \<and>
     ct_bytes_per_group_block t = int (length (ct_layers t)) *
       dense_page_bytes (ct_element_type t) (ct_block_size_tokens t) (ct_kv_heads t)
         (ct_key_head_dim t) (ct_value_head_dim t) \<and>
     ct_page_size_bytes t dvd ct_bytes_per_group_block t \<and>
     ct_extra_retained_tokens t = 0 \<and>
     (case ct_window_tokens t of
        None \<Rightarrow> ct_policy_kind t = ''full_attention''
      | Some w \<Rightarrow> ct_policy_kind t = ''sliding_window'' \<and> pos64 w)"

definition layer_texts :: "(pyfloat \<Rightarrow> string) \<Rightarrow> pyval \<Rightarrow> string list" where
  "layer_texts fr raw_group =
     (case getattr_or raw_group ''layer_names'' PNone of
        PList names \<Rightarrow> map (\<lambda>l. py_strip (py_str fr l)) names | _ \<Rightarrow> [])"

lemma traverse_texts_ok:
  "traverse (\<lambda>l. planning_text (g l) field) ls = Inr ts \<Longrightarrow> list_all text_ok ts"
  by (auto simp: list_all_iff dest!: traverse_set planning_text_ok)

lemma traverse_layers:
  "traverse (\<lambda>l. planning_text (PStr (f l)) field) ls = Inr ts \<Longrightarrow> ts = map (\<lambda>l. py_strip (f l)) ls"
  by (induction ls arbitrary: ts) (auto simp: and_then_Inr_iff planning_text_Inr_iff)

lemma extract_group_topology_Inr:
  assumes "extract_group_topology fr pinned c raw i = Inr t"
  shows "topology_ok t \<and> ct_group_id t = ''vllm.group.'' @ nat_text i \<and> ct_layers t = layer_texts fr raw"
proof -
  define spec where "spec = getattr_or raw ''kv_cache_spec'' PNone"
  from assms obtain names layers bs ps members kind kh kd vd ets et w ex bytes where
    names: "getattr_or raw ''layer_names'' PNone = PList names"
    and layers: "traverse (\<lambda>layer. planning_text (PStr (py_str fr layer)) ''layer name'') names = Inr layers" "layers \<noteq> []"
    and ps: "positive_attr spec [''page_size_bytes''] ''page_size_bytes'' = Inr ps"
    and mem: "member_specs spec layers = Inr members"
    and kind: "resolve_vllm_cache_spec_kind fr pinned c spec = Inr kind"
    and bs: "uniform_attr members [''block_size''] ''block_size_tokens'' ''block sizes'' = Inr bs"
    and kh: "uniform_attr members [''num_kv_heads'', ''num_heads''] ''kv_heads'' ''KV-head counts'' = Inr kh"
    and kd: "uniform_attr members [''head_size''] ''key_head_dim'' ''key head dimensions'' = Inr kd"
    and vd: "uniform_attr members [''head_size_v'', ''head_size''] ''value_head_dim'' ''value head dimensions'' = Inr vd"
    and ets: "traverse (planner_element_type fr) (attrs_of members ''dtype'') = Inr ets"
      "uniform (=) ets ''cache element types'' = Inr et"
    and dense: "validate_dense_attention_layout fr members et bs kh kd vd = Inr ()"
    and pol: "group_policy members kind = Inr (w, ex)"
    and gb: "group_bytes spec members layers ps = Inr bytes"
    and t: "t = \<lparr>ct_group_id = ''vllm.group.'' @ nat_text i, ct_layers = layers,
            ct_block_size_tokens = bs, ct_page_size_bytes = ps,
            ct_bytes_per_group_block = bytes, ct_kv_heads = kh,
            ct_key_head_dim = kd, ct_value_head_dim = vd, ct_element_type = et,
            ct_policy_kind = (if kind = ''sliding_window'' then ''sliding_window'' else ''full_attention''),
            ct_window_tokens = w, ct_extra_retained_tokens = ex\<rparr>"
    unfolding extract_group_topology_def Let_def result_simps spec_def by auto
  have "set ets \<subseteq> {et}" "ets \<noteq> []" using ets(2) by (simp_all add: uniform_equal_iff)
  then have "et \<in> set ets" by (cases ets) auto
  then have et: "(et_name et, et_bits et) \<in> set DTYPE_BITS"
    using traverse_set [OF ets(1)] planner_element_type_known by blast
  note pos = uniform_attr_Inr [OF bs] uniform_attr_Inr [OF kh] uniform_attr_Inr [OF kd] uniform_attr_Inr [OF vd]
    positive_attr_pos [OF ps]
  have bytes: "bytes = int (length layers) * dense_page_bytes et bs kh kd vd \<and> bytes \<le> UINT64_MAX \<and>
      ps = (if spec_members spec = None then dense_page_bytes et bs kh kd vd else bytes)"
    using group_bytes_Inr [OF gb mem ps] dense_layout_pages [OF dense] by blast
  then have "ps dvd bytes" by auto
  moreover have "1 \<le> bytes"
  proof -
    have "0 < bytes" if "0 < ps" using that bytes layers(2) by (auto split: if_splits)
    then show ?thesis using pos by (simp add: pos64_def)
  qed
  ultimately show ?thesis
    using pos et bytes layers(2) traverse_texts_ok [OF layers(1)]
      traverse_layers [OF layers(1)] group_policy_Inr [OF pol] resolve_kind_cases kind names
    by (auto simp: topology_ok_def t pos64_def layer_texts_def split: if_splits)
qed

lemma traverse_enumerate:
  assumes "traverse (\<lambda>(i, x). f i x) (enumerate 0 xs) = Inr ys"
  shows "length ys = length xs \<and> (\<forall>i < length xs. f i (xs ! i) = Inr (ys ! i))"
  using traverse_length [OF assms] traverse_nth [OF assms] by (simp add: nth_enumerate_eq)

lemma extract_topologies_Inr:
  assumes "extract_cache_group_topologies fr pinned c config = Inr ts"
  defines "raw \<equiv> sequence_items (getattr_or config ''kv_cache_groups'' PNone)"
  shows "ts \<noteq> []" and "length ts = length raw" and "distinct (concat (map ct_layers ts))"
    and "\<And>i. i < length ts \<Longrightarrow> extract_group_topology fr pinned c (raw ! i) i = Inr (ts ! i)"
proof -
  from assms have r: "raw \<noteq> []" and d: "distinct (concat (map ct_layers ts))"
    and t: "traverse (\<lambda>(i, g). extract_group_topology fr pinned c g i) (enumerate 0 raw) = Inr ts"
    by (auto simp: extract_cache_group_topologies_def Let_def result_simps)
  note n = traverse_enumerate [OF t]
  then show "ts \<noteq> []" "length ts = length raw" "distinct (concat (map ct_layers ts))"
    "\<And>i. i < length ts \<Longrightarrow> extract_group_topology fr pinned c (raw ! i) i = Inr (ts ! i)"
    using r d by auto
qed

subsection \<open>What an extracted rank and world satisfy\<close>

definition sized_as :: "cache_topology \<Rightarrow> int \<Rightarrow> cache_group \<Rightarrow> bool" where
  "sized_as t n g \<longleftrightarrow>
     cg_layers g = ct_layers t \<and> cg_block_size_tokens g = ct_block_size_tokens t \<and>
     cg_bytes_per_group_block g = ct_bytes_per_group_block t \<and> cg_kv_heads g = ct_kv_heads t \<and>
     cg_key_head_dim g = ct_key_head_dim t \<and> cg_value_head_dim g = ct_value_head_dim t \<and>
     cg_element_type g = ct_element_type t \<and> cg_policy_kind g = ct_policy_kind t \<and>
     cg_window_tokens g = ct_window_tokens t \<and>
     cg_required_blocks_per_sequence g = ceil_quot n (ct_page_size_bytes t)"

lemma traverse_text_fixed:
  assumes "list_all text_ok ls"
  shows "traverse (\<lambda>l. planning_text l field) (map PStr ls) = Inr ls"
  using assms by (induction ls) (auto simp: planning_text_PStr)

lemma size_group_Inr:
  assumes s: "size_group usage raw t i cfg = Inr g" and t: "topology_ok t"
  shows "cache_group_ok g \<and> (\<exists>n. one_sequence_bytes usage raw cfg i = Inr n \<and> sized_as t n g)"
proof -
  from s obtain n blocks where n: "one_sequence_bytes usage raw cfg i = Inr n"
    and b: "ceil_div n (ct_page_size_bytes t) ''required_blocks_per_sequence'' = Inr blocks"
    and mk: "mk_CacheGroupGeometry (PStr (ct_group_id t)) (map PStr (ct_layers t))
         (PInt (ct_block_size_tokens t)) (PInt (ct_bytes_per_group_block t))
         (PInt blocks) (PInt (ct_kv_heads t)) (PInt (ct_key_head_dim t))
         (PInt (ct_value_head_dim t)) (ct_element_type t) (ct_policy_kind t)
         (opt_val (ct_window_tokens t)) (PInt (ct_extra_retained_tokens t)) = Inr g"
    by (auto simp: size_group_def result_simps)
  have "blocks = ceil_quot n (ct_page_size_bytes t)" using b by (simp add: ceil_div_Inr_iff)
  moreover have w: "check_window (ct_policy_kind t) (opt_val (ct_window_tokens t)) = Inr (ct_window_tokens t)"
    using t by (auto simp: topology_ok_def check_window_Inr_iff opt_val_def split: option.splits)
  moreover have l: "traverse (\<lambda>l. planning_text l ''layer name'') (map PStr (ct_layers t)) = Inr (ct_layers t)"
    using t by (intro traverse_text_fixed) (simp add: topology_ok_def)
  ultimately have "sized_as t n g"
    using mk unfolding mk_CacheGroupGeometry_def w l and_then_simps result_simps
    by (auto simp: sized_as_def)
  with n mk_CacheGroupGeometry_ok [OF mk] show ?thesis by blast
qed

lemma mk_RankGeometry_fields:
  assumes "mk_RankGeometry rk d p gs fo = Inr r"
  shows "rk = PInt (rg_rank r)" "d = PInt (rg_device_id r)" "fo = PInt (rg_fixed_overhead_blocks r)"
    "rg_groups r = sort_key cg_group_id gs"
  using assms by (auto simp: mk_RankGeometry_def result_simps Let_def)

lemma extract_rank_Inr:
  assumes "extract_rank_geometry fr pinned usage c config cfg rk d = Inr r"
  defines "raw \<equiv> sequence_items (getattr_or config ''kv_cache_groups'' PNone)"
  shows "rank_ok r \<and> rk = PInt (rg_rank r) \<and> d = PInt (rg_device_id r) \<and> rg_fixed_overhead_blocks r = 1 \<and>
    (\<exists>ts gs ns. extract_cache_group_topologies fr pinned c config = Inr ts \<and> mset (rg_groups r) = mset gs \<and>
       length gs = length ts \<and> length ns = length ts \<and>
       (\<forall>i < length ts. one_sequence_bytes usage (raw ! i) cfg i = Inr (ns ! i) \<and> sized_as (ts ! i) (ns ! i) (gs ! i)))"
proof -
  from assms(1) obtain ts gs stride where ts: "extract_cache_group_topologies fr pinned c config = Inr ts"
    and gs: "traverse (\<lambda>(i, t). size_group usage (raw ! i) t i cfg) (enumerate 0 ts) = Inr gs"
    and mk: "mk_RankGeometry rk d (PInt stride) gs (PInt 1) = Inr r"
    by (auto simp: extract_rank_geometry_def Let_def result_simps raw_def)
  note t = extract_topologies_Inr [OF ts] and g = traverse_enumerate [OF gs]
  have ok: "topology_ok (ts ! i)" if "i < length ts" for i
    using extract_group_topology_Inr [OF t(4) [OF that]] by simp
  have sized: "cache_group_ok (gs ! i) \<and>
      (\<exists>n. one_sequence_bytes usage (raw ! i) cfg i = Inr n \<and> sized_as (ts ! i) n (gs ! i))"
    if "i < length ts" for i
    using size_group_Inr [of usage "raw ! i" "ts ! i" i cfg "gs ! i"] g ok that by blast
  then have "list_all cache_group_ok gs" using g by (auto simp: list_all_length)
  with mk have r: "rank_ok r" by (rule mk_RankGeometry_ok)
  obtain f where f: "\<And>i. i < length ts \<Longrightarrow>
      one_sequence_bytes usage (raw ! i) cfg i = Inr (f i) \<and> sized_as (ts ! i) (f i) (gs ! i)"
    using sized by metis
  let ?ns = "map f [0..<length ts]"
  have "extract_cache_group_topologies fr pinned c config = Inr ts \<and> mset (rg_groups r) = mset gs \<and>
      length gs = length ts \<and> length ?ns = length ts \<and>
      (\<forall>i < length ts. one_sequence_bytes usage (raw ! i) cfg i = Inr (?ns ! i) \<and> sized_as (ts ! i) (?ns ! i) (gs ! i))"
    using f g ts mk_RankGeometry_fields(4) [OF mk] by simp
  with r mk_RankGeometry_fields(1-3) [OF mk] show ?thesis
    by (intro conjI exI [of _ ts] exI [of _ gs] exI [of _ ?ns]) simp_all
qed

lemma mk_GeometryDescriptor_fields:
  assumes "mk_GeometryDescriptor idt fp ml tp ab lid rs = Inr g"
  shows "gd_ranks g = sort_key rg_rank rs" "ml = PInt (gd_max_model_len g)" "tp = PInt (gd_tensor_parallel_size g)"
    "planning_text lid ''layout_id'' = Inr (gd_layout_id g)"
  using assms by (auto simp: mk_GeometryDescriptor_def result_simps Let_def)

lemma geometry_extracted:
  assumes "geometry_from_resolved_configs fr pinned usage c configs cfg idt fp ml ab lid devices = Inr g"
  shows "geometry_ok g \<and> validate_certified_shared_pool_execution fr cfg = Inr () \<and>
    gd_tensor_parallel_size g = int (length configs) \<and> length (gd_ranks g) = length configs \<and>
    (\<forall>i < length configs. extract_rank_geometry fr pinned usage c (configs ! i) cfg (PInt (int i)) (devices ! i)
       = Inr (gd_ranks g ! i))"
proof -
  from assms obtain rs where v: "validate_certified_shared_pool_execution fr cfg = Inr ()"
    and rs: "traverse (\<lambda>(i, config). and_then (planning_uint (devices ! i) ''device_id'' True) (\<lambda>d.
        extract_rank_geometry fr pinned usage c config cfg (PInt (int i)) (PInt d))) (enumerate 0 configs) = Inr rs"
    and mk: "mk_GeometryDescriptor idt fp ml (PInt (int (length rs))) ab lid rs = Inr g"
    unfolding geometry_from_resolved_configs_def Let_def result_simps by auto
  have len: "length rs = length configs" using traverse_enumerate [OF rs] by simp
  have ext: "extract_rank_geometry fr pinned usage c (configs ! i) cfg (PInt (int i)) (devices ! i) = Inr (rs ! i)"
    if "i < length configs" for i
    using traverse_enumerate [OF rs] that by (auto simp: and_then_Inr_iff)
  have r: "rank_ok (rs ! i) \<and> rg_rank (rs ! i) = int i" if "i < length rs" for i
    using extract_rank_Inr [OF ext, of i] that len by simp
  have "map rg_rank rs = map int [0..<length rs]" using r by (intro nth_equalityI) auto
  then have "sorted (map rg_rank rs)" by (simp add: sorted_map)
  then have "sort_key rg_rank rs = rs" by (rule sort_key_id_if_sorted)
  moreover have "geometry_ok g" using mk r by (intro mk_GeometryDescriptor_ok [OF mk]) (simp add: list_all_length)
  ultimately show ?thesis using v mk_GeometryDescriptor_fields [OF mk] len ext by simp
qed

subsection \<open>Properties\<close>

text \<open>
  C12. Whatever vLLM resolved, an accepted list of cache groups accounts for every byte: the groups
  are vLLM's groups in their order, with its layer names stripped and globally unique, and the
  bytes of one group block are exactly the number of layers times the dense page, block size
  times heads times key and value dimension times the bytes of one element. Overflow, quantized,
  padded, compressed and mixed layouts never get through.
\<close>

theorem extracted_groups_account_for_layers:
  assumes "extract_cache_group_topologies fr pinned c config = Inr ts"
  shows "ts \<noteq> [] \<and> distinct (concat (map ct_layers ts)) \<and>
    map ct_layers ts = map (layer_texts fr) (sequence_items (getattr_or config ''kv_cache_groups'' PNone)) \<and>
    map ct_group_id ts = map (\<lambda>i. ''vllm.group.'' @ nat_text i) [0..<length ts] \<and>
    list_all topology_ok ts"
proof -
  let ?raw = "sequence_items (getattr_or config ''kv_cache_groups'' PNone)"
  note t = extract_topologies_Inr [OF assms]
  have each: "topology_ok (ts ! i) \<and> ct_group_id (ts ! i) = ''vllm.group.'' @ nat_text i \<and>
      ct_layers (ts ! i) = layer_texts fr (?raw ! i)" if "i < length ts" for i
    using extract_group_topology_Inr [OF t(4) [OF that]] .
  have "map ct_layers ts = map (layer_texts fr) ?raw" using each t(2) by (intro nth_equalityI) simp_all
  moreover have "map ct_group_id ts = map (\<lambda>i. ''vllm.group.'' @ nat_text i) [0..<length ts]"
    using each by (intro nth_equalityI) simp_all
  moreover have "list_all topology_ok ts" using each by (simp add: list_all_length)
  ultimately show ?thesis using t(1,3) by simp
qed

text \<open>
  C26. A geometry that is extracted from resolved worker configurations is well formed: it
  satisfies the whole invariant of \<open>GeometryDescriptor\<close> (ranks \<open>0..tp-1\<close>, distinct devices,
  identical shapes, positive 64-bit figures, the stride of the largest group), one rank per
  worker configuration, each being the extraction of that configuration on its device with one
  block reserved, under an execution profile that is certified.
\<close>

theorem extracted_geometry_well_formed:
  assumes "geometry_from_resolved_configs fr pinned usage c configs cfg idt fp ml ab lid devices = Inr g"
  shows "geometry_ok g \<and> validate_certified_shared_pool_execution fr cfg = Inr () \<and>
    gd_tensor_parallel_size g = int (length configs) \<and>
    map Inr (gd_ranks g) = map (\<lambda>i. extract_rank_geometry fr pinned usage c (configs ! i) cfg
      (PInt (int i)) (devices ! i)) [0..<length configs] \<and>
    map (PInt \<circ> rg_device_id) (gd_ranks g) = map ((!) devices) [0..<length configs] \<and>
    list_all (\<lambda>r. rg_fixed_overhead_blocks r = 1) (gd_ranks g)"
proof -
  note g = geometry_extracted [OF assms]
  then have each: "PInt (rg_device_id (gd_ranks g ! i)) = devices ! i \<and> rg_fixed_overhead_blocks (gd_ranks g ! i) = 1"
    if "i < length configs" for i
    using extract_rank_Inr [of fr pinned usage c "configs ! i" cfg "PInt (int i)" "devices ! i" "gd_ranks g ! i"] that
    by simp
  have "map Inr (gd_ranks g) = map (\<lambda>i. extract_rank_geometry fr pinned usage c (configs ! i) cfg
      (PInt (int i)) (devices ! i)) [0..<length configs]"
    using g by (intro nth_equalityI) simp_all
  moreover have "map (PInt \<circ> rg_device_id) (gd_ranks g) = map ((!) devices) [0..<length configs]"
    using g each by (intro nth_equalityI) simp_all
  ultimately show ?thesis using g each by (simp add: list_all_length)
qed

text \<open>A resolved configuration with a plain group of two layers and a wrapped sliding window.\<close>

definition sample_spec :: "string \<Rightarrow> pydict \<Rightarrow> pyval" where
  "sample_spec kind extra = PObj ''spec''
     ([(''kind'', PStr kind), (''block_size'', PInt 16), (''page_size_bytes'', PInt 512), (''num_kv_heads'', PInt 2),
       (''head_size'', PInt 4), (''dtype'', PObj ''torch.float16'' []), (''max_memory_usage_bytes'', PFun 0)] @ extra)"

definition sample_resolved :: pyval where
  "sample_resolved = PObj ''KVCacheConfig''
     [(''kv_cache_groups'', PList
        [PObj ''group'' [(''layer_names'', PList [PStr ''a'', PStr ''b'']),
                         (''kv_cache_spec'', sample_spec ''full_attention'' [])],
         PObj ''group'' [(''layer_names'', PList [PStr '' c'']),
                         (''kv_cache_spec'', sample_spec ''sliding_window''
                            [(''kv_cache_specs'', PDict [(''c'', sample_spec ''sliding_window''
                               [(''sliding_window'', PInt 64)])])])]]),
      (''kv_cache_tensors'', PList [PObj ''tensor'' [(''size'', PInt 8192)]]), (''num_blocks'', PInt 8),
      (''kv_cache_layout'', PStr ''NHD'')]"

definition sample_vllm :: pyval where
  "sample_vllm = PObj ''VllmConfig''
     [(''parallel_config'', PObj ''p'' [(''tensor_parallel_size'', PInt 1)]),
      (''model_config'', PObj ''m'' [(''max_model_len'', PInt 100)]),
      (''attention_config'', PObj ''a'' [(''backend'', PStr ''flash_attn'')])]"

definition sample_kind :: classifier where
  "sample_kind spec = Inr (getattr_or spec ''kind'' PNone)"

definition sample_usage :: usage where
  "sample_usage n cfg = Inr (PInt 4000)"

definition sample_extracted :: "geometry result" where
  "sample_extracted = geometry_from_resolved_configs (\<lambda>_. []) None sample_usage (Some sample_kind) [sample_resolved]
     sample_vllm \<lparr>pi_adapter_id = ''kapsl'', pi_adapter_version = ''1'', pi_backend_version = ''1'',
       pi_profile_id = ''p'', pi_layout_version = 1\<rparr>
     (PStr ''fp'') (PInt 100) (PStr ''FLASH_ATTN'') (PStr ''NHD'') [PInt 3]"

lemma sample_topologies:
  "map_sum exn_msg (map (\<lambda>t. (ct_bytes_per_group_block t, ct_window_tokens t)))
     (extract_cache_group_topologies (\<lambda>_. []) None (Some sample_kind) sample_resolved) =
   Inr [(1024, None), (512, Some 64)]"
  by code_simp

lemma sample_extraction:
  "map_sum exn_msg (\<lambda>g. map (\<lambda>r. (rg_pool_bytes_per_block r, map cg_required_blocks_per_sequence (rg_groups r)))
     (gd_ranks g)) sample_extracted = Inr [(1024, [8, 8])]"
  by code_simp

lemma map_sum_InrE:
  assumes "map_sum f h m = Inr y"
  obtains x where "m = Inr x" "h x = y"
  using assms by (cases m) auto

theorem extracted_groups_account_for_layers_witness:
  "\<exists>ts. extract_cache_group_topologies (\<lambda>_. []) None (Some sample_kind) sample_resolved = Inr ts \<and>
     list_all topology_ok ts \<and> map ct_layers ts = [[''a'', ''b''], [''c'']]"
proof -
  obtain ts where ts: "extract_cache_group_topologies (\<lambda>_. []) None (Some sample_kind) sample_resolved = Inr ts"
    using sample_topologies by (rule map_sum_InrE)
  moreover have "map (layer_texts (\<lambda>_. [])) (sequence_items (getattr_or sample_resolved ''kv_cache_groups'' PNone)) =
      [[''a'', ''b''], [''c'']]"
    by code_simp
  ultimately show ?thesis using extracted_groups_account_for_layers [OF ts] by simp
qed

theorem extracted_geometry_well_formed_witness:
  "\<exists>g. sample_extracted = Inr g \<and> geometry_ok g \<and> map rg_pool_bytes_per_block (gd_ranks g) = [1024]"
proof -
  obtain g where g: "sample_extracted = Inr g"
    and r: "map (\<lambda>r. (rg_pool_bytes_per_block r, map cg_required_blocks_per_sequence (rg_groups r))) (gd_ranks g) =
      [(1024, [8, 8])]"
    using sample_extraction by (rule map_sum_InrE)
  have "map rg_pool_bytes_per_block (gd_ranks g) = [1024]" using arg_cong [OF r, of "map fst"] by (simp add: comp_def)
  moreover have "geometry_ok g"
    by (rule conjunct1 [OF extracted_geometry_well_formed [OF g [unfolded sample_extracted_def]]])
  ultimately show ?thesis using g by (intro exI [of _ g] conjI)
qed

end
