(* ===== verification/Connector_Config.thy ===== *)
theory Connector_Config
  imports Geometry_Extraction Connector Contract_Registration
begin

text \<open>
  What \<open>KapslConnectorV1.__init__\<close> computes before it talks to the coordinator
  (\<open>connector.py\<close>): the connector's extra configuration, the execution constraints of live
  resize, memory domains, the map from ranks to devices, the capacity groups and the topology it
  registers, and the registration itself.

  \<open>vllm_build\<close> collects what the installed vLLM answers: whether it can be imported and has
  the admission hook, its version, its classifier of cache specs, and the method
  \<open>get_from_extra_config\<close> of a transfer configuration.

  The lemmas show that the topology a connector builds is always accepted by the contract and
  numbers the layers as the worker's hook does, and that an accepted rank map is a bijection.
\<close>

subsection \<open>The extra configuration\<close>

record vllm_build =
  vb_importable :: bool
  vb_has_request_hook :: bool
  vb_float_text :: "pyfloat \<Rightarrow> string"
  vb_spec_kind :: "classifier option"
  vb_extra_getter :: "nat \<Rightarrow> string \<Rightarrow> pyval \<Rightarrow> pyval"
  vb_metadata_version :: "string option"
  vb_module :: "pyval option"

definition extra_config :: "vllm_build \<Rightarrow> pyval \<Rightarrow> string \<Rightarrow> pyval \<Rightarrow> pyval result" where
  "extra_config B config key dflt =
     (case getattr_or config ''get_from_extra_config'' PNone of
        PFun getter \<Rightarrow> Inr (vb_extra_getter B getter key dflt)
      | _ \<Rightarrow>
          (case py_or (getattr_or config ''kv_connector_extra_config'' PNone) (PDict []) of
             PDict values \<Rightarrow> Inr (d_get_or values key dflt)
           | _ \<Rightarrow> Raise AttributeError ''object has no attribute get''))"

definition required_extra :: "vllm_build \<Rightarrow> pyval \<Rightarrow> string \<Rightarrow> string result" where
  "required_extra B config key =
     and_then (extra_config B config key (PStr [])) (\<lambda>v.
     let t = py_strip (py_str (vb_float_text B) v)
     in if t = [] then Raise ValueError (fmt [key, '' is required for KapslConnectorV1'']) else Inr t)"

definition validated_vmm_conformance :: "vllm_build \<Rightarrow> pyval \<Rightarrow> bool \<Rightarrow> bool result" where
  "validated_vmm_conformance B config live_resize =
     and_then (extra_config B config ''kapsl_vmm_conformance'' (PBool False)) (\<lambda>v.
     case v of
       PBool b \<Rightarrow>
         if b \<and> \<not> live_resize then Raise ValueError ''kapsl_vmm_conformance requires live resize'' else Inr b
     | _ \<Rightarrow> Raise ValueError ''kapsl_vmm_conformance must be a boolean'')"

definition get_required_kvcache_layout :: "vllm_build \<Rightarrow> pyval \<Rightarrow> string option result" where
  "get_required_kvcache_layout B vllm_config =
     (let transfer = getattr_or vllm_config ''kv_transfer_config'' PNone
      in if transfer = PNone then Inr None
      else and_then (extra_config B transfer ''kapsl_live_resize'' (PBool False)) (\<lambda>raw.
      case raw of
        PBool b \<Rightarrow> Inr (if b then Some ''BLNHC'' else None)
      | _ \<Rightarrow> Raise ValueError ''kapsl_live_resize must be a boolean''))"

definition validate_elastic_shared_pool_execution :: "(pyfloat \<Rightarrow> string) \<Rightarrow> pyval \<Rightarrow> pyval \<Rightarrow> unit result" where
  "validate_elastic_shared_pool_execution fr vllm_config kv_cache_config =
     and_then (validate_certified_shared_pool_execution fr vllm_config) (\<lambda>_.
     if py_upper (py_strip (py_str fr (getattr_or kv_cache_config ''kv_cache_layout'' (PStr [])))) \<noteq> ''BLNHC''
     then RaiseP ''live-resize shared_pool requires vLLM's block-outermost BLNHC layout''
     else case getattr_or vllm_config ''max_concurrent_batches'' (PInt 1) of
       PInt n \<Rightarrow>
         if n \<noteq> 1 then RaiseP ''live-resize shared_pool requires one in-flight model batch per worker'' else Inr ()
     | _ \<Rightarrow> RaiseP ''vLLM max_concurrent_batches must be an integer'')"

definition ADAPTER_VERSION :: string where "ADAPTER_VERSION = ''0.7.0''"

definition ADAPTER_PROFILE_ID :: string where
  "ADAPTER_PROFILE_ID = ''vllm-v1-packed-cuda-ipc/flash-attn''"

definition ELASTIC_ADAPTER_PROFILE_ID :: string where
  "ELASTIC_ADAPTER_PROFILE_ID = ''vllm-v1-packed-cuda-vmm/flash-attn-blnhc''"

definition vllm_adapter_profile :: "vllm_build \<Rightarrow> pyval \<Rightarrow> bool \<Rightarrow> pydict result" where
  "vllm_adapter_profile B vllm_config live_resize =
     and_then (validate_certified_shared_pool_execution (vb_float_text B) vllm_config) (\<lambda>_.
     and_then (case vb_metadata_version B of
                 Some v \<Rightarrow> Inr v
               | None \<Rightarrow>
                   (case vb_module B of
                      Some m \<Rightarrow> Inr (py_strip (py_str (vb_float_text B) (getattr_or m ''__version__'' (PStr []))))
                    | None \<Rightarrow> RaiseP ''cannot identify the vLLM build for shared-pool attachment'')) (\<lambda>backend_version.
     if backend_version = [] then RaiseP ''cannot identify the vLLM build for shared-pool attachment''
     else Inr [(''adapter_id'', PStr ''kapsl-vllm-connector''), (''adapter_version'', PStr ADAPTER_VERSION),
               (''backend_version'', PStr backend_version),
               (''profile_id'', PStr (if live_resize then ELASTIC_ADAPTER_PROFILE_ID else ADAPTER_PROFILE_ID))]))"

definition domain_dict :: "nat \<times> pyval \<Rightarrow> pydict result" where
  "domain_dict ix =
     (case ix of (index, raw_domain) \<Rightarrow>
        (case raw_domain of
           PDict d \<Rightarrow> Inr d
         | _ \<Rightarrow> Raise ValueError (fmt [''kapsl_memory_domains['', nat_text index, ''] must be an object''])))"

definition required_memory_domains :: "vllm_build \<Rightarrow> pyval \<Rightarrow> pydict list result" where
  "required_memory_domains B config =
     and_then (extra_config B config ''kapsl_memory_domains'' PNone) (\<lambda>raw_domains.
     case raw_domains of
       PList domains \<Rightarrow>
         if domains = []
         then Raise ValueError ''kapsl_memory_domains must be a non-empty list of runtime-visible domains''
         else traverse domain_dict (enumerate 0 domains)
     | _ \<Rightarrow> Raise ValueError ''kapsl_memory_domains must be a non-empty list of runtime-visible domains'')"

definition provisioning_grant :: "vllm_build \<Rightarrow> pyval \<Rightarrow> pydict option result" where
  "provisioning_grant B config =
     and_then (extra_config B config ''kapsl_provisioning_grant'' PNone) (\<lambda>raw_grant.
     case raw_grant of
       PNone \<Rightarrow> Inr None
     | PDict d \<Rightarrow> Inr (Some d)
     | _ \<Rightarrow> Raise ValueError ''kapsl_provisioning_grant must be an object'')"

subsection \<open>Block counts of an elastic receipt\<close>

definition positive_integer :: "pyval \<Rightarrow> string \<Rightarrow> int result" where
  "positive_integer v field =
     (case v of
        PInt i \<Rightarrow> if i \<le> 0 then Raise ValueError (fmt [field, '' must be a positive integer'']) else Inr i
      | _ \<Rightarrow> Raise ValueError (fmt [field, '' must be a positive integer'']))"

definition elastic_shape :: "pyval \<Rightarrow> (int \<times> int \<times> int) result" where
  "elastic_shape pool =
     (case pool of
        PDict p \<Rightarrow>
          (case d_get p ''elastic'' of
             PDict elastic \<Rightarrow>
               and_then (positive_integer (d_get elastic ''minimum_block_count'') ''minimum_block_count'') (\<lambda>a.
               and_then (positive_integer (d_get elastic ''mapped_block_count'') ''mapped_block_count'') (\<lambda>b.
               and_then (positive_integer (d_get elastic ''maximum_block_count'') ''maximum_block_count'') (\<lambda>c.
                 Inr (a, b, c))))
           | _ \<Rightarrow> RaiseP ''elastic shared pool metadata is missing'')
      | _ \<Rightarrow> RaiseP ''elastic shared pool must be an object'')"

definition elastic_receipt_block_counts :: "pydict \<Rightarrow> (int \<times> int) result" where
  "elastic_receipt_block_counts receipt =
     (case d_get receipt ''shared_pools'' of
        PList pools \<Rightarrow>
          if pools = [] then RaiseP ''elastic registration returned no shared pools''
          else
          and_then (traverse elastic_shape pools) (\<lambda>shapes.
          case the_only (remdups shapes) of
            Some (minimum, initial, maximum) \<Rightarrow>
              if minimum > initial \<or> initial > maximum
              then RaiseP ''elastic minimum/mapped capacity exceeds its next capacity bound''
              else Inr (initial, maximum)
          | None \<Rightarrow> RaiseP ''tensor-parallel elastic bindings must share one block-count state'')
      | _ \<Rightarrow> RaiseP ''elastic registration returned no shared pools'')"

subsection \<open>Ranks and devices\<close>

definition strict_nonnegative_integer :: "pyval \<Rightarrow> string \<Rightarrow> int result" where
  "strict_nonnegative_integer v field =
     (case v of
        PInt i \<Rightarrow>
          if i < 0 \<or> i > UINT64_MAX
          then Raise ValueError (fmt [field, '' must be a non-negative unsigned 64-bit integer''])
          else Inr i
      | _ \<Rightarrow> Raise ValueError (fmt [field, '' must be a non-negative unsigned 64-bit integer'']))"

definition canonical_digits :: "string \<Rightarrow> bool" where
  "canonical_digits s =
     (s = ''0'' \<or> (s \<noteq> [] \<and> hd s \<in> set ''123456789'' \<and> list_all (\<lambda>c. c \<in> set ''0123456789'') (tl s)))"

definition canonical_rank :: "pyval \<Rightarrow> int result" where
  "canonical_rank v =
     (case v of
        PInt i \<Rightarrow> strict_nonnegative_integer (PInt i) ''kapsl_rank_device_map rank''
      | PStr s \<Rightarrow>
          if canonical_digits s
          then and_then (py_int (PStr s)) (\<lambda>i. strict_nonnegative_integer (PInt i) ''kapsl_rank_device_map rank'')
          else Raise ValueError ''kapsl_rank_device_map ranks must be canonical non-negative integers''
      | _ \<Rightarrow> Raise ValueError ''kapsl_rank_device_map ranks must be canonical non-negative integers'')"

definition rank_entry :: "(int \<times> int) list \<Rightarrow> string \<times> pyval \<Rightarrow> (int \<times> int) list result" where
  "rank_entry result entry =
     (case entry of (raw_rank, raw_device_id) \<Rightarrow>
     and_then (canonical_rank (PStr raw_rank)) (\<lambda>rank.
     and_then (strict_nonnegative_integer raw_device_id ''kapsl_rank_device_map device ID'') (\<lambda>device_id.
       if rank \<in> fst ` set result
       then Raise ValueError ''kapsl_rank_device_map contains duplicate or colliding ranks''
       else Inr (result @ [(rank, device_id)]))))"

definition rank_device_map :: "vllm_build \<Rightarrow> pyval \<Rightarrow> (int \<times> int) list option result" where
  "rank_device_map B config =
     and_then (extra_config B config ''kapsl_rank_device_map'' PNone) (\<lambda>raw_map.
     case raw_map of
       PNone \<Rightarrow> Inr None
     | PDict entries \<Rightarrow>
         and_then (fold_r rank_entry [] entries) (\<lambda>result.
           if result = [] then Raise ValueError ''kapsl_rank_device_map must not be empty''
           else Inr (Some result))
     | _ \<Rightarrow> Raise ValueError ''kapsl_rank_device_map must be an object'')"

definition domain_device :: "nat \<times> pydict \<Rightarrow> int result" where
  "domain_device ix =
     (case ix of (index, domain) \<Rightarrow>
        strict_nonnegative_integer (d_get domain ''device_id'')
          (fmt [''kapsl_memory_domains['', nat_text index, ''].device_id'']))"

definition validated_shared_rank_device_map ::
  "vllm_build \<Rightarrow> pyval \<Rightarrow> pydict list \<Rightarrow> int \<Rightarrow> (int \<times> int) list option result" where
  "validated_shared_rank_device_map B config memory_domains tensor_parallel_size =
     and_then (positive_integer (PInt tensor_parallel_size) ''vLLM tensor_parallel_size'') (\<lambda>tp.
     and_then (traverse domain_device (enumerate 0 memory_domains)) (\<lambda>device_ids.
     if int (length device_ids) \<noteq> tp \<or> \<not> distinct device_ids
     then Raise ValueError
       ''vLLM shared_pool requires exactly one distinct CUDA domain per tensor-parallel rank''
     else
     and_then (rank_device_map B config) (\<lambda>rank_map.
     case rank_map of
       None \<Rightarrow>
         if tp = 1 then Inr None
         else Raise ValueError ''tensor-parallel shared_pool requires kapsl_rank_device_map''
     | Some m \<Rightarrow>
         if set (map fst m) \<noteq> set [0..tp - 1]
         then Raise ValueError
           ''kapsl_rank_device_map must contain every tensor-parallel global rank exactly once''
         else if set (map snd m) \<noteq> set device_ids
         then Raise ValueError
           ''kapsl_rank_device_map devices must exactly match kapsl_memory_domains''
         else Inr (Some m))))"

subsection \<open>Capacity groups\<close>

text \<open>The shape of one group in opaque mode: its block size and the bytes of one block.\<close>

definition opaque_group_shape :: "nat \<times> pyval \<Rightarrow> (int \<times> int) result" where
  "opaque_group_shape ix =
     (case ix of (index, g) \<Rightarrow>
     let spec = getattr_or g ''kv_cache_spec'' PNone;
         layer_names = getattr_or g ''layer_names'' PNone;
         here = fmt [''vLLM KV cache group '', nat_text index]
     in if spec = PNone \<or> \<not> truthy layer_names
     then Raise ValueError (fmt [here, '' has no spec or layers''])
     else
     and_then (positive_integer (getattr_or spec ''block_size'' PNone) (fmt [here, '' block_size''])) (\<lambda>block_size.
     and_then (positive_integer (getattr_or spec ''page_size_bytes'' PNone) (fmt [here, '' page_size_bytes''])) (\<lambda>page_size.
     and_then (if getattr_or spec ''kv_cache_specs'' PNone \<noteq> PNone then Inr page_size
               else and_then (py_len layer_names) (\<lambda>n. Inr (page_size * n))) (\<lambda>group_bytes.
       Inr (block_size, group_bytes)))))"

text \<open>The shapes of all groups and the stride of their common pool.\<close>

definition opaque_shapes :: "pyval \<Rightarrow> ((int \<times> int) list \<times> int) result" where
  "opaque_shapes groups =
     and_then (py_iter groups) (\<lambda>gs.
     and_then (traverse opaque_group_shape (enumerate 0 gs)) (\<lambda>shapes.
       Inr (shapes, Max (snd ` set shapes))))"

definition certified_shapes ::
  "(pyfloat \<Rightarrow> string) \<Rightarrow> classifier option \<Rightarrow> classifier option \<Rightarrow> pyval \<Rightarrow> int \<Rightarrow> ((int \<times> int) list \<times> int) result" where
  "certified_shapes fr pinned c kv_cache_config max_allocations =
     and_then (extract_cache_group_topologies fr pinned c kv_cache_config) (\<lambda>topologies.
     and_then (shared_pool_block_stride ct_bytes_per_group_block topologies) (\<lambda>certified_pool_stride.
     and_then (vllm_backing_geometry kv_cache_config) (\<lambda>(_, configured_blocks, pool_stride).
     if configured_blocks \<noteq> max_allocations
     then Raise AssertionError ''vLLM backing geometry changed during extraction''
     else if pool_stride \<noteq> certified_pool_stride
     then Raise ValueError (fmt [''resolved packed allocation block stride disagrees with '',
            ''certified cache-group page accounting''])
     else Inr (map (\<lambda>t. (ct_block_size_tokens t, ct_bytes_per_group_block t)) topologies, pool_stride))))"

definition capacity_group :: "pydict list \<Rightarrow> int \<Rightarrow> int \<Rightarrow> nat \<times> (int \<times> int) \<Rightarrow> pydict" where
  "capacity_group memory_domains pool_stride max_allocations ix =
     (case ix of (index, (block_size, _)) \<Rightarrow>
        [(''group_id'', PStr (''vllm.group.'' @ nat_text index)), (''pool_id'', PStr ''vllm.pool.0''),
         (''allocation_granularity_tokens'', PInt block_size), (''bytes_per_allocation'', PInt pool_stride),
         (''memory_domains'', PList (map PDict memory_domains)), (''max_allocations'', PInt max_allocations)])"

definition vllm_capacity_groups ::
  "(pyfloat \<Rightarrow> string) \<Rightarrow> classifier option \<Rightarrow> classifier option \<Rightarrow> pyval \<Rightarrow> pydict list \<Rightarrow> bool \<Rightarrow> pydict list result" where
  "vllm_capacity_groups fr pinned c kv_cache_config memory_domains shared_pool =
     (let groups = getattr_or kv_cache_config ''kv_cache_groups'' PNone;
          raw_max_allocations = getattr_or kv_cache_config ''num_blocks'' PNone
      in if \<not> truthy groups \<or> raw_max_allocations = PNone
      then Raise ValueError ''vLLM KVCacheConfig must expose non-empty kv_cache_groups and num_blocks''
      else
      and_then (positive_integer raw_max_allocations ''vLLM num_blocks'') (\<lambda>max_allocations.
      and_then (if shared_pool then certified_shapes fr pinned c kv_cache_config max_allocations
                else opaque_shapes groups) (\<lambda>(group_shapes, pool_stride).
        Inr (map (capacity_group memory_domains pool_stride max_allocations) (enumerate 0 group_shapes)))))"

subsection \<open>Topology\<close>

definition wire_element_type :: "(pyfloat \<Rightarrow> string) \<Rightarrow> pyval \<Rightarrow> pydict result" where
  "wire_element_type fr dtype =
     (let name = removeprefix ''torch.'' (py_lower (py_str fr dtype))
      in case map_of [(''float16'', ''f16''), (''half'', ''f16''), (''bfloat16'', ''bf16''), (''float32'', ''f32''),
             (''float'', ''f32''), (''int8'', ''i8''), (''float8_e4m3fn'', ''fp8_e4m3''),
             (''float8_e4m3fnuz'', ''fp8_e4m3'')] name of
           Some kind \<Rightarrow> Inr [(''kind'', PStr kind)]
         | None \<Rightarrow>
             if name = [] \<or> name = ''none''
             then Raise ValueError ''vLLM shared_pool KV dtype is unavailable''
             else Inr [(''kind'', PStr ''custom''), (''name'', PStr name)])"

definition group_policy_dict :: "cache_topology \<Rightarrow> pydict" where
  "group_policy_dict t =
     (if ct_policy_kind t = ''sliding_window''
      then [(''kind'', PStr ''sliding_window''), (''window_tokens'', opt_val (ct_window_tokens t))]
      else [(''kind'', PStr ''full_attention'')])"

definition layer_dicts :: "int \<Rightarrow> string list \<Rightarrow> pyval list" where
  "layer_dicts next_layer_index layers =
     map (\<lambda>(offset, layer). PDict [(''index'', PInt (next_layer_index + int offset)), (''name'', PStr layer)])
       (enumerate 0 layers)"

definition group_topology_dict :: "string \<Rightarrow> int \<Rightarrow> cache_topology \<Rightarrow> pydict \<Rightarrow> pydict" where
  "group_topology_dict layout_id next_layer_index t element =
     [(''group_id'', PStr (ct_group_id t)), (''layers'', PList (layer_dicts next_layer_index (ct_layers t))),
      (''geometry'', PDict
         [(''kind'', PStr ''paged_attention''), (''block_size_tokens'', PInt (ct_block_size_tokens t)),
          (''kv_heads'', PInt (ct_kv_heads t)), (''key_head_dim'', PInt (ct_key_head_dim t)),
          (''value_head_dim'', PInt (ct_value_head_dim t)), (''element_type'', PDict element),
          (''layout'', PDict [(''kind'', PStr ''backend_native''), (''layout_id'', PStr (''vllm:'' @ layout_id))])]),
      (''policy'', PDict (group_policy_dict t))]"

definition topology_step ::
  "(pyfloat \<Rightarrow> string) \<Rightarrow> string \<Rightarrow> pyval list \<times> int \<Rightarrow> cache_topology \<Rightarrow> (pyval list \<times> int) result" where
  "topology_step fr layout_id st t =
     (case st of (cache_groups, next_layer_index) \<Rightarrow>
        and_then (wire_element_type fr (PStr (et_name (ct_element_type t)))) (\<lambda>element.
          Inr (cache_groups @ [PDict (group_topology_dict layout_id next_layer_index t element)],
               next_layer_index + int (length (ct_layers t)))))"

definition vllm_topology ::
  "(pyfloat \<Rightarrow> string) \<Rightarrow> classifier option \<Rightarrow> classifier option \<Rightarrow> pyval \<Rightarrow> string \<Rightarrow> int \<Rightarrow> pydict result" where
  "vllm_topology fr pinned c kv_cache_config model_fingerprint tensor_parallel_world_size =
     (case getattr_or kv_cache_config ''kv_cache_layout'' PNone of
        PStr raw_layout_id \<Rightarrow>
          if py_strip raw_layout_id = []
          then Raise ValueError ''resolved vLLM KVCacheConfig must expose kv_cache_layout''
          else
          and_then (extract_cache_group_topologies fr pinned c kv_cache_config) (\<lambda>resolved_groups.
          and_then (fold_r (topology_step fr (py_strip raw_layout_id)) ([], 0) resolved_groups) (\<lambda>(cache_groups, _).
          Inr [(''abi_version'', abi_version), (''model_fingerprint'', PStr model_fingerprint),
               (''shard'', PDict
                  [(''tensor_parallel_rank'', PInt 0),
                   (''tensor_parallel_world_size'', PInt tensor_parallel_world_size),
                   (''pipeline_parallel_rank'', PInt 0), (''pipeline_parallel_world_size'', PInt 1)]),
               (''cache_groups'', PList cache_groups)]))
      | _ \<Rightarrow> Raise ValueError ''resolved vLLM KVCacheConfig must expose kv_cache_layout'')"

subsection \<open>The settings of a connector\<close>

record settings =
  se_endpoint :: string
  se_participant_id :: string
  se_engine_id :: string
  se_is_scheduler :: bool
  se_shared_pool :: bool
  se_live_resize :: bool
  se_vmm_conformance :: bool
  se_tensor_parallel_size :: int
  se_rank_device_map :: "(int \<times> int) list option"
  se_capacity_groups :: "pydict list"
  se_group_ids :: "pyval list"
  se_topology :: "pydict option"
  se_profile :: "pydict option"
  se_registration :: pydict
  se_timeout_ms :: int
  se_lease_ttl_ms :: int

definition role_name_of :: "(pyfloat \<Rightarrow> string) \<Rightarrow> pyval \<Rightarrow> string result" where
  "role_name_of fr role =
     (case getattr_or role ''name'' (PStr (py_str fr role)) of
        PStr n \<Rightarrow> Inr (py_lower n)
      | _ \<Rightarrow> Raise AttributeError ''object has no attribute lower'')"

definition live_resize_flag :: "vllm_build \<Rightarrow> pyval \<Rightarrow> bool \<Rightarrow> bool result" where
  "live_resize_flag B transfer shared_pool =
     and_then (extra_config B transfer ''kapsl_live_resize'' (PBool False)) (\<lambda>raw.
     case raw of
       PBool live_resize \<Rightarrow>
         if live_resize \<and> \<not> shared_pool then Raise ValueError ''kapsl_live_resize requires shared_pool mode''
         else Inr live_resize
     | _ \<Rightarrow> Raise ValueError ''kapsl_live_resize must be a boolean'')"

definition shared_mode :: "vllm_build \<Rightarrow> pyval \<Rightarrow> bool result" where
  "shared_mode B transfer =
     and_then (extra_config B transfer ''kapsl_kv_mode'' (PStr ''opaque'')) (\<lambda>raw.
     let mode = py_lower (py_strip (py_str (vb_float_text B) raw))
     in if mode = ''opaque'' then Inr False else if mode = ''shared_pool'' then Inr True
        else Raise ValueError (fmt [''kapsl_kv_mode must be '', py_repr ''opaque'', '' or '', py_repr ''shared_pool'']))"

text \<open>The part of the settings that only a shared pool has.\<close>

definition shared_part ::
  "vllm_build \<Rightarrow> pyval \<Rightarrow> pyval \<Rightarrow> pyval \<Rightarrow> string \<Rightarrow> int \<Rightarrow> bool \<Rightarrow> string \<Rightarrow> pydict list \<Rightarrow>
   (pydict \<times> pydict \<times> pydict) result" where
  "shared_part B vllm_config transfer kv_cache_config model_fingerprint tp live_resize participant capacity_groups =
     and_then (vllm_topology (vb_float_text B) (vb_spec_kind B) None kv_cache_config model_fingerprint tp) (\<lambda>topology.
     and_then (vllm_adapter_profile B vllm_config live_resize) (\<lambda>profile.
     and_then (provisioning_grant B transfer) (\<lambda>grant.
     and_then (shared_pool_registration (PStr participant) (PStr model_fingerprint) capacity_groups topology
                 profile (PStr ''vllm'') grant live_resize) (\<lambda>registration.
       Inr (topology, profile, registration)))))"

definition lease_ttl :: "vllm_build \<Rightarrow> pyval \<Rightarrow> int result" where
  "lease_ttl B transfer =
     and_then (extra_config B transfer ''kapsl_lease_ttl_ms'' (PInt 30000)) (\<lambda>raw.
     and_then (py_int raw) (\<lambda>ttl.
       if ttl < 1000 then Raise ValueError ''kapsl_lease_ttl_ms must be at least 1000'' else Inr ttl))"

definition connector_settings :: "vllm_build \<Rightarrow> pyval \<Rightarrow> pyval \<Rightarrow> pyval \<Rightarrow> pyval \<Rightarrow> settings result" where
  "connector_settings B vllm_config transfer role kv_cache_config =
     (if \<not> vb_importable B
      then Raise RuntimeError ''KapslConnectorV1 must be installed in an environment with vLLM V1''
      else if \<not> vb_has_request_hook B
      then Raise RuntimeError (fmt [''this vLLM build lacks the on_new_request KV hook required for '',
             ''Kapsl pre-allocation admission''])
      else
      let fr = vb_float_text B in
      and_then (required_extra B transfer ''kapsl_control_endpoint'') (\<lambda>endpoint.
      and_then (required_extra B transfer ''kapsl_model_fingerprint'') (\<lambda>model_fingerprint.
      and_then (extra_config B transfer ''kapsl_participant_id'' (PStr ''vllm'')) (\<lambda>raw_participant.
      let participant_base = py_strip (py_str fr raw_participant)
      in if participant_base = [] then Raise ValueError ''kapsl_participant_id must not be empty''
      else
      and_then (role_name_of fr role) (\<lambda>role_name.
      let engine_id = py_str fr (getattr_or transfer ''engine_id'' (PStr ''engine''))
      in
      and_then (shared_mode B transfer) (\<lambda>shared.
      and_then (live_resize_flag B transfer shared) (\<lambda>live_resize.
      and_then (validated_vmm_conformance B transfer live_resize) (\<lambda>conformance.
      and_then (py_int (py_or (getattr_or (getattr_or vllm_config ''parallel_config'' PNone)
                                 ''tensor_parallel_size'' (PInt 1)) (PInt 1))) (\<lambda>tp.
      and_then (if \<not> shared then Inr ()
                else if live_resize then validate_elastic_shared_pool_execution fr vllm_config kv_cache_config
                else validate_certified_shared_pool_execution fr vllm_config) (\<lambda>_.
      let participant = participant_base @ '':'' @ engine_id @ (if shared then [] else '':'' @ role_name)
      in
      and_then (required_memory_domains B transfer) (\<lambda>memory_domains.
      if shared \<and> list_ex (\<lambda>d. \<not> py_eq (d_get d ''kind'') (PStr ''cuda'')) memory_domains
      then Raise ValueError ''vLLM shared_pool currently supports CUDA domains only''
      else
      and_then (if shared then validated_shared_rank_device_map B transfer memory_domains tp else Inr None) (\<lambda>ranks.
      and_then (vllm_capacity_groups fr (vb_spec_kind B) None kv_cache_config memory_domains shared) (\<lambda>capacity_groups.
      and_then (if shared
                then and_then (shared_part B vllm_config transfer kv_cache_config model_fingerprint tp live_resize
                       participant capacity_groups) (\<lambda>(topology, profile, reg). Inr (Some topology, Some profile, reg))
                else and_then (opaque_registration (PStr participant) (PStr model_fingerprint) capacity_groups
                       (PStr ''vllm'')) (\<lambda>reg. Inr (None, None, reg))) (\<lambda>(topology, profile, reg).
      and_then (extra_config B transfer ''kapsl_timeout_ms'' (PInt 2000)) (\<lambda>raw_timeout.
      and_then (py_int raw_timeout) (\<lambda>timeout_ms.
      and_then (lease_ttl B transfer) (\<lambda>ttl.
        Inr \<lparr>se_endpoint = endpoint, se_participant_id = participant, se_engine_id = engine_id,
             se_is_scheduler = (role_name = ''scheduler''), se_shared_pool = shared,
             se_live_resize = live_resize, se_vmm_conformance = conformance,
             se_tensor_parallel_size = tp, se_rank_device_map = ranks,
             se_capacity_groups = capacity_groups,
             se_group_ids = map (\<lambda>g. d_get g ''group_id'') capacity_groups,
             se_topology = topology, se_profile = profile, se_registration = reg,
             se_timeout_ms = timeout_ms, se_lease_ttl_ms = ttl\<rparr>)))))))))))))))))"

subsection \<open>Canonical ranks\<close>

lemma digit_set: "c \<in> set ''0123456789'' \<longleftrightarrow> is_digit c"
proof -
  have "''0123456789'' = map char_of [48..<58 :: nat]" by code_simp
  then have digits: "set ''0123456789'' = char_of ` {48..<58 :: nat}" by (metis set_map set_upt)
  show ?thesis
  proof
    assume "c \<in> set ''0123456789''"
    then obtain n :: nat where "c = char_of n" "48 \<le> n" "n < 58" unfolding digits by auto
    then show "is_digit c" by (simp add: is_digit_def of_char_mod_256 of_char_of)
  next
    assume "is_digit c"
    then have "(of_char c :: nat) \<in> {48..<58}" by (simp add: is_digit_def)
    then have "char_of (of_char c :: nat) \<in> char_of ` {48..<58 :: nat}" by blast
    then show "c \<in> set ''0123456789''" unfolding digits by simp
  qed
qed

lemma nonzero_digit_set: "c \<in> set ''123456789'' \<longleftrightarrow> is_digit c \<and> c \<noteq> CHR ''0''"
proof -
  have "''0123456789'' = CHR ''0'' # ''123456789''" "CHR ''0'' \<notin> set ''123456789''" by simp_all
  then show ?thesis using digit_set [of c] by (metis set_ConsD list.set_intros)
qed

lemma canonical_digits_Cons:
  "canonical_digits (c # cs) \<longleftrightarrow> is_digit c \<and> list_all is_digit cs \<and> (c = CHR ''0'' \<longrightarrow> cs = [])"
proof -
  have z: "is_digit (CHR ''0'')" by code_simp
  have "canonical_digits (c # cs) \<longleftrightarrow>
      (c = CHR ''0'' \<and> cs = []) \<or> ((is_digit c \<and> c \<noteq> CHR ''0'') \<and> list_all is_digit cs)"
    unfolding canonical_digits_def digit_set list.sel nonzero_digit_set by simp
  then show ?thesis using z by (cases "c = CHR ''0''") auto
qed

lemma canonical_digits_Nil [simp]: "\<not> canonical_digits []"
  by (simp add: canonical_digits_def)

lemma digit_value_digit:
  assumes "is_digit c"
  shows "digit_value c = Some (of_char c - 48)" and "of_char c - 48 < (10 :: nat)"
    and "digit_char (of_char c - 48) = c"
proof -
  have b: "48 \<le> (of_char c :: nat)" "(of_char c :: nat) \<le> 57" using assms by (simp_all add: is_digit_def)
  show "digit_value c = Some (of_char c - 48)" using b by (simp add: digit_value_def Let_def)
  show "of_char c - 48 < (10 :: nat)" using b by linarith
  have "48 + ((of_char c :: nat) - 48) = of_char c" using b by linarith
  then show "digit_char (of_char c - 48) = c" by (simp add: digit_char_def)
qed

lemma parse_digits_value:
  "list_all is_digit s \<Longrightarrow>
     parse_digits 10 acc s = Some (foldl (\<lambda>acc c. 10 * acc + (of_char c - 48)) acc s)"
  by (induction s arbitrary: acc) (auto simp: digit_value_digit mult.commute)

lemma parse_nat_digits:
  "s \<noteq> [] \<Longrightarrow> list_all is_digit s \<Longrightarrow> parse_nat 10 s = Some (digits_value s)"
  by (cases s) (auto simp: parse_nat_def digits_value_def digit_value_digit parse_digits_value)

lemma digit_not_space: "is_digit c \<Longrightarrow> \<not> py_isspace c"
  by (auto simp: is_digit_def py_isspace_def Let_def)

lemma digits_value_snoc: "digits_value (s @ [c]) = 10 * digits_value s + (of_char c - 48)"
  by (simp add: digits_value_def)

lemma digits_value_ge: "foldl (\<lambda>acc c. 10 * acc + f c) acc s \<ge> (acc :: nat)"
proof (induction s arbitrary: acc)
  case (Cons c s)
  have "acc \<le> 10 * acc + f c" by simp
  also have "\<dots> \<le> foldl (\<lambda>acc c. 10 * acc + f c) (10 * acc + f c) s" by (rule Cons)
  finally show ?case by simp
qed simp

lemma digits_value_pos:
  assumes "is_digit c" and "c \<noteq> CHR ''0''"
  shows "1 \<le> digits_value (c # s)"
proof -
  have "of_char c - 48 \<noteq> (0 :: nat)"
  proof
    assume z: "of_char c - 48 = (0 :: nat)"
    have "digit_char 0 = CHR ''0''" by code_simp
    with digit_value_digit(3) [OF assms(1)] z assms(2) show False by simp
  qed
  then have "1 \<le> of_char c - (48 :: nat)" by linarith
  then show ?thesis
    using digits_value_ge [where f = "\<lambda>c. of_char c - 48" and acc = "of_char c - 48" and s = s] by (simp add: digits_value_def)
qed

lemma nat_text_digits_value: "canonical_digits s \<Longrightarrow> nat_text (digits_value s) = s"
proof (induction s rule: rev_induct)
  case Nil
  then show ?case by simp
next
  case (snoc d s)
  show ?case
  proof (cases s)
    case Nil
    with snoc have d: "is_digit d" by (simp add: canonical_digits_Cons)
    then show ?thesis
      using digit_value_digit [OF d] by (simp add: Nil digits_value_def nat_text.simps [of "of_char d - 48"])
  next
    case (Cons c cs)
    then have c: "is_digit c" "c \<noteq> CHR ''0''" "list_all is_digit cs" "is_digit d"
      using snoc.prems by (auto simp: canonical_digits_Cons)
    then have "nat_text (digits_value s) = s" using snoc.IH Cons by (simp add: canonical_digits_Cons)
    moreover have "1 \<le> digits_value s" using digits_value_pos [OF c(1,2)] Cons by simp
    ultimately show ?thesis
      using digit_value_digit(2,3) [OF c(4)]
      by (simp add: digits_value_snoc nat_text.simps [of "10 * digits_value s + (of_char d - 48)"])
  qed
qed

lemma canonical_nat_text: "canonical_digits (nat_text n)"
  using nat_text_head [of n] nat_text_digits [of n] by (auto simp: canonical_digits_Cons)

lemma py_strip_digits: "list_all is_digit s \<Longrightarrow> py_strip s = s"
proof -
  assume "list_all is_digit s"
  then have "\<forall>c \<in> set s. \<not> py_isspace c" by (auto simp: list_all_iff digit_not_space)
  then have "dropWhile py_isspace t = t" if "set t = set s" for t using that by (cases t) auto
  then have "dropWhile py_isspace s = s" "dropWhile py_isspace (rev s) = rev s" by simp_all
  then show ?thesis by (simp add: py_strip_def)
qed

lemma py_int_canonical:
  assumes "canonical_digits s"
  shows "py_int (PStr s) = Inr (int (digits_value s))"
proof -
  obtain c cs where s: "s = c # cs" "is_digit c" "list_all is_digit s"
    using assms by (cases s) (auto simp: canonical_digits_Cons)
  have "c \<noteq> CHR ''-''" "c \<noteq> CHR ''+''" using s(2) by (auto simp: is_digit_def)
  then show ?thesis
    using s py_strip_digits [OF s(3)] parse_nat_digits [of s]
    by (simp add: py_int_def parse_int_def Let_def strip_base_prefix_def)
qed

lemma strict_nonnegative_Inr:
  "strict_nonnegative_integer v field = Inr i \<longleftrightarrow> v = PInt i \<and> 0 \<le> i \<and> i \<le> UINT64_MAX"
  by (cases v) (auto simp: strict_nonnegative_integer_def)

text \<open>
  The text of a rank is read canonically: exactly the decimal text of a 64-bit number is
  accepted and gives that number back, so no sign, white space, underscore or leading zero can
  make two keys of a rank map collide.
\<close>

theorem canonical_rank_roundtrip:
  "canonical_rank (PStr s) = Inr n \<longleftrightarrow> s = int_text n \<and> 0 \<le> n \<and> n \<le> UINT64_MAX"
proof
  assume n: "canonical_rank (PStr s) = Inr n"
  then have c: "canonical_digits s" by (auto simp: canonical_rank_def split: if_splits)
  with n have "n = int (digits_value s)" "n \<le> UINT64_MAX"
    by (auto simp: canonical_rank_def py_int_canonical strict_nonnegative_Inr simp del: py_int_simps)
  then show "s = int_text n \<and> 0 \<le> n \<and> n \<le> UINT64_MAX"
    using nat_text_digits_value [OF c] by (simp add: int_text_def)
next
  assume n: "s = int_text n \<and> 0 \<le> n \<and> n \<le> UINT64_MAX"
  then have s: "s = nat_text (nat n)" by (simp add: int_text_def)
  have "0 \<le> n" using n by simp
  then have "int (digits_value s) = n" unfolding s nat_text_value by simp
  then show "canonical_rank (PStr s) = Inr n"
    using n canonical_nat_text [of "nat n"] unfolding s [symmetric]
    by (simp add: canonical_rank_def py_int_canonical strict_nonnegative_Inr)
qed

subsection \<open>Ranks and devices\<close>

lemma positive_integer_Inr: "positive_integer v field = Inr i \<longleftrightarrow> v = PInt i \<and> 0 < i"
  by (cases v) (auto simp: positive_integer_def)

lemma rank_entry_Inr:
  "rank_entry m (k, v) = Inr m' \<longleftrightarrow>
     (\<exists>r d. canonical_rank (PStr k) = Inr r \<and> v = PInt d \<and> 0 \<le> d \<and> d \<le> UINT64_MAX \<and>
        r \<notin> fst ` set m \<and> m' = m @ [(r, d)])"
  by (auto simp: rank_entry_def result_simps strict_nonnegative_Inr split: if_splits)

lemma rank_entries_distinct:
  "fold_r rank_entry m es = Inr m' \<Longrightarrow> distinct (map fst m) \<Longrightarrow> distinct (map fst m')"
  by (induction es arbitrary: m) (auto simp: and_then_Inr_iff rank_entry_Inr)

lemma bij_of_assoc:
  fixes m :: "('a \<times> 'b) list"
  assumes "distinct (map fst m)" and "card (snd ` set m) = length m"
  shows "bij_betw (\<lambda>k. the (map_of m k)) (fst ` set m) (snd ` set m)"
proof -
  have d: "distinct (map snd m)" using assms(2) by (intro card_distinct) simp
  have "inj_on (\<lambda>k. the (map_of m k)) (fst ` set m)"
  proof (rule inj_onI)
    fix k k' assume k: "k \<in> fst ` set m" "k' \<in> fst ` set m" "the (map_of m k) = the (map_of m k')"
    then obtain v where "(k, v) \<in> set m" "(k', v) \<in> set m"
      using assms(1) by (auto simp: map_of_is_SomeI)
    then show "k = k'" using d by (metis eq_key_imp_eq_value inj_on_eq_iff distinct_map snd_conv prod.inject)
  qed
  moreover have "(\<lambda>k. the (map_of m k)) ` fst ` set m = snd ` set m"
    using assms(1) by (force simp: map_of_is_SomeI image_iff)
  ultimately show ?thesis by (simp add: bij_betw_def)
qed

lemma rank_map_Inr:
  assumes "validated_shared_rank_device_map B config domains tp = Inr (Some m)"
  obtains ids where "traverse domain_device (enumerate 0 domains) = Inr ids"
    "0 < tp" "int (length ids) = tp" "distinct ids" "distinct (map fst m)"
    "fst ` set m = {0..<tp}" "snd ` set m = set ids"
proof -
  have tp: "0 < tp"
    using assms unfolding validated_shared_rank_device_map_def and_then_Inr_iff by (auto simp: positive_integer_Inr)
  obtain ids where ids: "traverse domain_device (enumerate 0 domains) = Inr ids"
    using assms unfolding validated_shared_rank_device_map_def and_then_Inr_iff by blast
  have len: "int (length ids) = tp" "distinct ids"
    using assms tp ids by (auto simp: validated_shared_rank_device_map_def positive_integer_def split: if_splits)
  then obtain rm where "rank_device_map B config = Inr rm"
    using assms tp ids by (auto simp: validated_shared_rank_device_map_def positive_integer_def and_then_Inr_iff)
  then have rm: "rank_device_map B config = Inr (Some m)"
    and sets: "set (map fst m) = set [0..tp - 1]" "set (map snd m) = set ids"
    using assms tp ids len
    by (auto simp: validated_shared_rank_device_map_def positive_integer_def split: option.splits if_splits)
  from rm obtain es where "fold_r rank_entry [] es = Inr m"
    unfolding rank_device_map_def and_then_Inr_iff
    by (elim exE conjE) (case_tac x; auto simp: and_then_Inr_iff split: if_splits)
  then have "distinct (map fst m)" by (rule rank_entries_distinct) simp
  moreover have "fst ` set m = {0..<tp}" using sets(1) by (auto simp: set_eq_iff)
  ultimately show thesis using that [OF ids tp len] sets(2) by simp
qed

text \<open>
  C24. A rank map that the connector accepts is a bijection: every tensor-parallel rank has exactly
  one device, and the devices are exactly the distinct devices of the configured memory domains,
  one for each rank.
\<close>

theorem rank_map_bijective:
  assumes "validated_shared_rank_device_map B config domains tp = Inr (Some m)"
  shows "\<exists>ids. traverse domain_device (enumerate 0 domains) = Inr ids \<and> distinct ids \<and>
    tp = int (length domains) \<and> 0 < tp \<and> bij_betw (\<lambda>r. the (map_of m r)) {0..<tp} (set ids)"
proof -
  from assms obtain ids where ids: "traverse domain_device (enumerate 0 domains) = Inr ids"
    "0 < tp" "int (length ids) = tp" "distinct ids" "distinct (map fst m)"
    "fst ` set m = {0..<tp}" "snd ` set m = set ids"
    by (rule rank_map_Inr)
  have "int (length m) = tp"
    using ids(5,6,2) by (metis card_atLeastLessThan_int distinct_card diff_zero length_map set_map int_nat_eq less_imp_le)
  then have "card (snd ` set m) = length m" using ids(3,4,7) by (simp add: distinct_card)
  from bij_of_assoc [OF ids(5) this] have "bij_betw (\<lambda>r. the (map_of m r)) {0..<tp} (set ids)"
    using ids(6,7) by simp
  moreover have "length ids = length domains" using traverse_length [OF ids(1)] by simp
  ultimately show ?thesis using ids(1-4) by auto
qed

subsection \<open>The topology is accepted\<close>

definition element_of :: "cache_topology \<Rightarrow> pydict" where
  "element_of t =
     (case wire_element_type (\<lambda>_. []) (PStr (et_name (ct_element_type t))) of Inr e \<Rightarrow> e | Inl _ \<Rightarrow> [])"

lemma wire_types_accepted:
  "list_all (\<lambda>(name, _). case wire_element_type (\<lambda>_. []) (PStr name) of
     Inr e \<Rightarrow> check_element_type e = Inr () | Inl _ \<Rightarrow> False) DTYPE_BITS"
  by code_simp

lemma wire_type_of_topology:
  assumes "topology_ok t"
  shows "wire_element_type fr (PStr (et_name (ct_element_type t))) = Inr (element_of t)"
    and "check_element_type (element_of t) = Inr ()"
proof -
  let ?n = "et_name (ct_element_type t)"
  have same: "wire_element_type fr (PStr ?n) = wire_element_type (\<lambda>_. []) (PStr ?n)"
    by (simp add: wire_element_type_def)
  have "(?n, et_bits (ct_element_type t)) \<in> set DTYPE_BITS" using assms by (simp add: topology_ok_def)
  with wire_types_accepted obtain e where
    "wire_element_type (\<lambda>_. []) (PStr ?n) = Inr e" "check_element_type e = Inr ()"
    by (fastforce simp: list_all_iff split: sum.splits)
  then show "wire_element_type fr (PStr ?n) = Inr (element_of t)" "check_element_type (element_of t) = Inr ()"
    by (simp_all add: same element_of_def)
qed

fun topology_dicts :: "string \<Rightarrow> int \<Rightarrow> cache_topology list \<Rightarrow> pyval list" where
  "topology_dicts layout_id k [] = []"
| "topology_dicts layout_id k (t # ts) =
     PDict (group_topology_dict layout_id k t (element_of t)) #
     topology_dicts layout_id (k + int (length (ct_layers t))) ts"

lemma topology_loop_dicts:
  assumes "list_all topology_ok ts"
  shows "\<exists>k'. fold_r (topology_step fr lid) (gs, k) ts = Inr (gs @ topology_dicts lid k ts, k')"
  using assms
proof (induction ts arbitrary: gs k)
  case (Cons t ts)
  have "topology_step fr lid (gs, k) t =
      Inr (gs @ [PDict (group_topology_dict lid k t (element_of t))], k + int (length (ct_layers t)))"
    using Cons.prems wire_type_of_topology(1) by (simp add: topology_step_def)
  then show ?case
    using Cons.IH [of "gs @ [PDict (group_topology_dict lid k t (element_of t))]" "k + int (length (ct_layers t))"]
      Cons.prems by auto
qed simp

lemma layer_dicts_ok:
  assumes "list_all text_ok layers" and "0 \<le> k"
  shows "list_all layer_ok (layer_dicts k layers)" and "distinct (map layer_key (layer_dicts k layers))"
proof -
  have "layer_ok (layer_dicts k layers ! i)" if "i < length layers" for i
    using that assms
    by (auto simp: layer_dicts_def nth_enumerate_eq layer_ok_def d_get_def list_all_length text_ok_def)
  then show "list_all layer_ok (layer_dicts k layers)" by (simp add: list_all_length layer_dicts_def)
  have "map layer_key (layer_dicts k layers) = map (\<lambda>i. k + int i) [0..<length layers]"
    by (intro nth_equalityI) (simp_all add: layer_dicts_def nth_enumerate_eq layer_key_def d_get_def)
  then show "distinct (map layer_key (layer_dicts k layers))" by (simp add: distinct_map inj_on_def)
qed

lemma topology_geometry_ok:
  assumes "topology_ok t"
  shows "check_paged_geometry
         [(''kind'', PStr ''paged_attention''), (''block_size_tokens'', PInt (ct_block_size_tokens t)),
          (''kv_heads'', PInt (ct_kv_heads t)), (''key_head_dim'', PInt (ct_key_head_dim t)),
          (''value_head_dim'', PInt (ct_value_head_dim t)), (''element_type'', PDict (element_of t)),
          (''layout'', PDict [(''kind'', PStr ''backend_native''), (''layout_id'', PStr l)])] = Inr ()"
proof -
  have "py_strip ''backend_native'' \<noteq> []" by code_simp
  then show ?thesis
    using assms wire_type_of_topology(2) [OF assms]
    by (simp add: check_paged_geometry_def d_get_def topology_ok_def pos64_def and_then_Inr_iff)
qed

lemma topology_policy_ok: "topology_ok t \<Longrightarrow> check_cache_policy (group_policy_dict t) = Inr ()"
  by (auto simp: check_cache_policy_def group_policy_dict_def topology_ok_def d_get_def opt_val_def pos64_def
      and_then_Inr_iff split: option.splits)

lemma topology_dict_group_ok:
  assumes "topology_ok t" and "0 \<le> k" and "py_strip (ct_group_id t) \<noteq> []"
  shows "topology_group_ok (PDict (group_topology_dict lid k t (element_of t)))"
    and "group_key (PDict (group_topology_dict lid k t (element_of t))) = ct_group_id t"
proof -
  let ?d = "group_topology_dict lid k t (element_of t)"
  have layers: "d_get ?d ''layers'' = PList (layer_dicts k (ct_layers t))" "layer_dicts k (ct_layers t) \<noteq> []"
    "list_all text_ok (ct_layers t)"
    using assms(1) by (auto simp: group_topology_dict_def d_get_def layer_dicts_def topology_ok_def enumerate_eq_zip)
  have "topology_group_body_ok ?d"
    unfolding topology_group_body_ok_def
    using layers layer_dicts_ok [OF layers(3) assms(2)] topology_geometry_ok [OF assms(1)]
      topology_policy_ok [OF assms(1)]
    by (simp add: group_topology_dict_def d_get_def)
  then show "topology_group_ok (PDict ?d)" using assms(3)
    by (simp add: topology_group_ok_def group_topology_dict_def d_get_def)
  show "group_key (PDict ?d) = ct_group_id t" by (simp add: group_key_def group_topology_dict_def d_get_def)
qed

lemma topology_dicts_ok:
  assumes "list_all topology_ok ts" and "0 \<le> k" and "\<forall>t \<in> set ts. py_strip (ct_group_id t) \<noteq> []"
  shows "list_all topology_group_ok (topology_dicts lid k ts)"
    and "map group_key (topology_dicts lid k ts) = map ct_group_id ts"
  using assms by (induction ts arbitrary: k) (simp_all add: topology_dict_group_ok)

lemma nat_text_inject [simp]: "nat_text i = nat_text j \<longleftrightarrow> i = j"
  by (metis nat_text_value)

definition group_names :: "nat \<Rightarrow> string list" where
  "group_names n = map (\<lambda>i. ''vllm.group.'' @ nat_text i) [0..<n]"

lemma distinct_group_names: "distinct (group_names n)"
  by (simp add: group_names_def distinct_map inj_on_def)

lemma extracted_groups:
  assumes "extract_cache_group_topologies fr pinned c config = Inr ts"
  shows "list_all topology_ok ts" and "map ct_group_id ts = group_names (length ts)"
    and "\<forall>t \<in> set ts. py_strip (ct_group_id t) \<noteq> []"
proof -
  note t = extract_topologies_Inr [OF assms]
  have each: "topology_ok (ts ! i) \<and> ct_group_id (ts ! i) = ''vllm.group.'' @ nat_text i" if "i < length ts" for i
    using extract_group_topology_Inr [OF t(4) [OF that]] by simp
  then show "list_all topology_ok ts" "map ct_group_id ts = group_names (length ts)"
    by (auto simp: list_all_length group_names_def intro!: nth_equalityI)
  show "\<forall>t \<in> set ts. py_strip (ct_group_id t) \<noteq> []"
  proof
    fix t assume "t \<in> set ts"
    then obtain i where "i < length ts" "t = ts ! i" by (auto simp: in_set_conv_nth)
    then show "py_strip (ct_group_id t) \<noteq> []" using each group_id_not_blank by simp
  qed
qed

lemma vllm_topology_Inr:
  assumes "vllm_topology fr pinned c config fp tp = Inr topo"
  obtains ts lid where "extract_cache_group_topologies fr pinned c config = Inr ts" "ts \<noteq> []"
    "topo = [(''abi_version'', abi_version), (''model_fingerprint'', PStr fp),
               (''shard'', PDict
                  [(''tensor_parallel_rank'', PInt 0), (''tensor_parallel_world_size'', PInt tp),
                   (''pipeline_parallel_rank'', PInt 0), (''pipeline_parallel_world_size'', PInt 1)]),
               (''cache_groups'', PList (topology_dicts lid 0 ts))]"
proof -
  from assms obtain raw where raw: "getattr_or config ''kv_cache_layout'' PNone = PStr raw" "py_strip raw \<noteq> []"
    by (cases "getattr_or config ''kv_cache_layout'' PNone") (auto simp: vllm_topology_def split: if_splits)
  then obtain ts where ts: "extract_cache_group_topologies fr pinned c config = Inr ts"
    using assms by (auto simp: vllm_topology_def and_then_Inr_iff)
  obtain k where k: "fold_r (topology_step fr (py_strip raw)) ([], 0) ts = Inr (topology_dicts (py_strip raw) 0 ts, k)"
    using topology_loop_dicts [OF extracted_groups(1) [OF ts], of fr "py_strip raw" "[]" 0] by auto
  show thesis
    by (rule that [OF ts extract_topologies_Inr(1) [OF ts], of "py_strip raw"])
       (use assms raw ts k in \<open>simp add: vllm_topology_def\<close>)
qed

lemma capacity_groups_Inr:
  assumes "vllm_capacity_groups fr pinned c config domains True = Inr groups"
  obtains ts stride n bytes where "extract_cache_group_topologies fr pinned c config = Inr ts"
    "groups = map (capacity_group domains stride n)
       (enumerate 0 (map (\<lambda>t. (ct_block_size_tokens t, ct_bytes_per_group_block t)) ts))"
    "stride = Max (ct_bytes_per_group_block ` set ts)" "0 < n"
    "getattr_or config ''num_blocks'' PNone = PInt n" "vllm_backing_geometry config = Inr (bytes, n, stride)"
proof -
  from assms obtain n shapes stride where n: "getattr_or config ''num_blocks'' PNone = PInt n" "0 < n"
    and s: "certified_shapes fr pinned c config n = Inr (shapes, stride)"
    and g: "groups = map (capacity_group domains stride n) (enumerate 0 shapes)"
    by (auto simp: vllm_capacity_groups_def Let_def and_then_Inr_iff positive_integer_Inr split: if_splits)
  from s obtain ts st bytes m where ts: "extract_cache_group_topologies fr pinned c config = Inr ts"
    "shared_pool_block_stride ct_bytes_per_group_block ts = Inr st"
    "vllm_backing_geometry config = Inr (bytes, m, stride)" "m = n" "stride = st"
    "shapes = map (\<lambda>t. (ct_block_size_tokens t, ct_bytes_per_group_block t)) ts"
    by (auto simp: certified_shapes_def and_then_Inr_iff split: if_splits)
  show thesis
    by (rule that [OF ts(1), of stride n bytes]) (use ts n g in \<open>auto simp: shared_pool_block_stride_Inr_iff\<close>)
qed

lemma capacity_group_ids:
  "map (\<lambda>g. str_of (d_get g ''group_id'')) (map (capacity_group domains stride n) (enumerate 0 shapes)) =
   group_names (length shapes)"
  by (intro nth_equalityI)
     (simp_all add: nth_enumerate_eq capacity_group_def d_get_def group_names_def split: prod.splits)

text \<open>
  C21. The connector never builds a topology the contract refuses: whatever vLLM resolved, a
  topology that \<open>_vllm_topology\<close> returns passes \<open>validate_topology\<close> with the capabilities of a
  shared-pool registration, for the very group identifiers of the capacity groups.
\<close>

theorem vllm_topology_accepted:
  assumes "vllm_topology fr pinned c config fp tp = Inr topo" and "0 < tp"
    and "vllm_capacity_groups fr pinned c config domains True = Inr groups"
    and "1 < length groups \<longrightarrow> PStr ''multiple_cache_groups'' \<in> set extra"
  shows "validate_topology topo fp (set (map (\<lambda>g. str_of (d_get g ''group_id'')) groups))
    (shared_pool_capabilities live extra) = Inr ()"
proof -
  from assms(1) obtain ts lid where ts: "extract_cache_group_topologies fr pinned c config = Inr ts" "ts \<noteq> []"
    and topo: "topo = [(''abi_version'', abi_version), (''model_fingerprint'', PStr fp),
               (''shard'', PDict
                  [(''tensor_parallel_rank'', PInt 0), (''tensor_parallel_world_size'', PInt tp),
                   (''pipeline_parallel_rank'', PInt 0), (''pipeline_parallel_world_size'', PInt 1)]),
               (''cache_groups'', PList (topology_dicts lid 0 ts))]"
    by (rule vllm_topology_Inr)
  from assms(3) obtain ts' stride n where ts': "extract_cache_group_topologies fr pinned c config = Inr ts'"
    and groups: "groups = map (capacity_group domains stride n)
       (enumerate 0 (map (\<lambda>t. (ct_block_size_tokens t, ct_bytes_per_group_block t)) ts'))"
    by (rule capacity_groups_Inr)
  have same: "ts' = ts" using ts' ts(1) by simp
  note x = extracted_groups [OF ts(1)] and d = topology_dicts_ok [OF extracted_groups(1) [OF ts(1)] _ extracted_groups(3) [OF ts(1)], of 0 lid]
  have ids: "set (map (\<lambda>g. str_of (d_get g ''group_id'')) groups) = set (group_names (length ts))"
    unfolding groups capacity_group_ids by (simp add: same)
  have loop: "fold_r topology_group_step {} (topology_dicts lid 0 ts) = Inr (set (group_names (length ts)))"
    using d x(2) distinct_group_names by (simp add: topology_loop.loop_from_empty)
  have ne: "topology_dicts lid 0 ts \<noteq> []" using ts(2) by (cases ts) simp_all
  have len: "length (topology_dicts lid 0 ts) = length groups"
    using arg_cong [OF d(2), of length] groups by (simp add: same)
  have ver: "accepts_version [(''major'', PInt ABI_MAJOR), (''minor'', PInt ABI_MINOR)]"
    "py_eq (PDict [(''major'', PInt ABI_MAJOR), (''minor'', PInt ABI_MINOR)])
       (PDict [(''major'', PInt ABI_MAJOR), (''minor'', PInt ABI_MINOR)])" by code_simp+
  have shard: "check_topology_shard
      [(''tensor_parallel_rank'', PInt 0), (''tensor_parallel_world_size'', PInt tp),
       (''pipeline_parallel_rank'', PInt 0), (''pipeline_parallel_world_size'', PInt 1)] = Inr ()"
    using assms(2) by (simp add: check_topology_shard_def d_get_or_def and_then_Inr_iff)
  let ?cap = "shared_pool_capabilities live extra"
  obtain fs where fs: "d_get_or ?cap ''features'' (PList []) = PList fs" "set extra \<subseteq> set fs"
    by (auto simp: shared_pool_capabilities_def d_get_or_def)
  have multi: "\<not> (1 < length (topology_dicts lid 0 ts) \<and> \<not> py_in (PStr ''multiple_cache_groups'') fs)"
    using fs(2) assms(4) len by (auto simp: py_in_def list_ex_iff)
  have cm: "contract_mapping (PDict d) f = Inr d" "xs \<noteq> [] \<Longrightarrow> contract_nonempty_list (PList xs) f = Inr xs" for d f xs
    by (simp_all add: contract_mapping_Inr contract_nonempty_list_Inr)
  have look: "d_get topo ''abi_version'' = PDict [(''major'', PInt ABI_MAJOR), (''minor'', PInt ABI_MINOR)]"
    "d_get ?cap ''abi_version'' = PDict [(''major'', PInt ABI_MAJOR), (''minor'', PInt ABI_MINOR)]"
    "d_get topo ''model_fingerprint'' = PStr fp" "d_get topo ''cache_groups'' = PList (topology_dicts lid 0 ts)"
    "d_get_or topo ''shard'' (PDict []) = PDict
      [(''tensor_parallel_rank'', PInt 0), (''tensor_parallel_world_size'', PInt tp),
       (''pipeline_parallel_rank'', PInt 0), (''pipeline_parallel_world_size'', PInt 1)]"
    by (simp_all add: topo d_get_def d_get_or_def shared_pool_capabilities_def abi_version_def)
  show ?thesis
    unfolding validate_topology_def ids look cm(1) cm(2) [OF ne] fs(1) pyval.case and_then_simps
    using ver shard loop multi by simp
qed

text \<open>
  The capacity a shared-pool connector registers is the memory vLLM will use: all groups name
  one pool, whose blocks have the bytes of the largest group, and block count times block bytes is
  exactly the packed allocation of vLLM's tensors.
\<close>

theorem capacity_groups_account_for_pool:
  assumes "vllm_capacity_groups fr pinned c config domains True = Inr groups"
  shows "\<exists>ts n stride bytes. extract_cache_group_topologies fr pinned c config = Inr ts \<and>
    length groups = length ts \<and> groups \<noteq> [] \<and>
    stride = Max (ct_bytes_per_group_block ` set ts) \<and> vllm_backing_geometry config = Inr (bytes, n, stride) \<and>
    n * stride = bytes \<and>
    (\<forall>i < length groups. d_get (groups ! i) ''group_id'' = PStr (ct_group_id (ts ! i)) \<and>
       d_get (groups ! i) ''pool_id'' = PStr ''vllm.pool.0'' \<and>
       d_get (groups ! i) ''bytes_per_allocation'' = PInt stride \<and>
       d_get (groups ! i) ''allocation_granularity_tokens'' = PInt (ct_block_size_tokens (ts ! i)) \<and>
       d_get (groups ! i) ''max_allocations'' = PInt n)"
proof -
  from assms obtain ts stride n bytes where ts: "extract_cache_group_topologies fr pinned c config = Inr ts"
    and groups: "groups = map (capacity_group domains stride n)
       (enumerate 0 (map (\<lambda>t. (ct_block_size_tokens t, ct_bytes_per_group_block t)) ts))"
    and m: "stride = Max (ct_bytes_per_group_block ` set ts)"
    and b: "vllm_backing_geometry config = Inr (bytes, n, stride)"
    by (rule capacity_groups_Inr)
  have "n * stride = bytes" using vllm_backing_geometry_Inr [OF b] by simp
  moreover have "ct_group_id (ts ! i) = ''vllm.group.'' @ nat_text i" if "i < length ts" for i
    using arg_cong [OF extracted_groups(2) [OF ts], of "\<lambda>xs. xs ! i"] that by (simp add: group_names_def)
  ultimately have "length groups = length ts \<and> groups \<noteq> [] \<and> n * stride = bytes \<and>
    (\<forall>i < length groups. d_get (groups ! i) ''group_id'' = PStr (ct_group_id (ts ! i)) \<and>
       d_get (groups ! i) ''pool_id'' = PStr ''vllm.pool.0'' \<and>
       d_get (groups ! i) ''bytes_per_allocation'' = PInt stride \<and>
       d_get (groups ! i) ''allocation_granularity_tokens'' = PInt (ct_block_size_tokens (ts ! i)) \<and>
       d_get (groups ! i) ''max_allocations'' = PInt n)"
    using extract_topologies_Inr(1) [OF ts]
    by (auto simp: groups nth_enumerate_eq capacity_group_def d_get_def enumerate_eq_zip)
  then show ?thesis using ts m b by blast
qed

subsection \<open>Layers of the topology and of the worker\<close>

definition topology_layers :: "pyval list \<Rightarrow> layer_identity" where
  "topology_layers groups =
     concat (map (\<lambda>g. map (\<lambda>l. (str_of (d_get (dict_of l) ''name''), (group_key g, layer_key l)))
       (list_of (d_get (dict_of g) ''layers''))) groups)"

definition numbered :: "string \<Rightarrow> int \<Rightarrow> string list \<Rightarrow> layer_identity" where
  "numbered g k names = map (\<lambda>(i, n). (n, (g, k + int i))) (enumerate 0 names)"

lemma numbered_Cons: "numbered g k (n # names) = (n, (g, k)) # numbered g (k + 1) names"
proof -
  have "enumerate (Suc 0) names = map (\<lambda>(i, n). (Suc i, n)) (enumerate 0 names)"
    by (intro nth_equalityI) (simp_all add: nth_enumerate_eq)
  then show ?thesis by (auto simp: numbered_def algebra_simps)
qed

lemma fst_numbered: "map fst (numbered g k names) = names"
  by (induction names arbitrary: k) (simp_all add: numbered_Cons, simp add: numbered_def)

lemma identity_names_run:
  assumes "distinct (map fst table @ names)"
  shows "fold_r (identity_step g) (table, k) names = Inr (table @ numbered g k names, k + int (length names))"
  using assms
proof (induction names arbitrary: table k)
  case (Cons n names)
  then have "identity_step g (table, k) n = Inr (table @ [(n, (g, k))], k + 1)"
    by (simp add: identity_step_def image_iff)
  then show ?case using Cons.IH [of "table @ [(n, (g, k))]" "k + 1"] Cons.prems by (simp add: numbered_Cons)
qed (simp add: numbered_def)

lemma topology_layers_group:
  "topology_layers (PDict (group_topology_dict lid k t e) # gs) = numbered (ct_group_id t) k (ct_layers t) @ topology_layers gs"
  by (auto simp: topology_layers_def numbered_def group_topology_dict_def d_get_def layer_dicts_def group_key_def
      layer_key_def comp_def split: prod.splits)

lemma identity_groups_run:
  assumes "distinct (map fst table @ concat (map ct_layers ts))"
    and "\<And>i. i < length ts \<Longrightarrow> ct_group_id (ts ! i) = ''vllm.group.'' @ nat_text (j + i)"
  shows "\<exists>k'. fold_r (\<lambda>st (i, new). fold_r (identity_step (''vllm.group.'' @ nat_text i)) st new) (table, k)
      (enumerate j (map ct_layers ts)) = Inr (table @ topology_layers (topology_dicts lid k ts), k')"
  using assms
proof (induction ts arbitrary: table k j)
  case (Cons t ts)
  have id: "ct_group_id t = ''vllm.group.'' @ nat_text j" using Cons.prems(2) [of 0] by simp
  let ?table = "table @ numbered (ct_group_id t) k (ct_layers t)"
  have "fold_r (identity_step (''vllm.group.'' @ nat_text j)) (table, k) (ct_layers t) =
      Inr (?table, k + int (length (ct_layers t)))"
    using Cons.prems(1) id by (subst identity_names_run) auto
  moreover have "distinct (map fst ?table @ concat (map ct_layers ts))"
    using Cons.prems(1) by (simp add: fst_numbered)
  moreover have "ct_group_id (ts ! i) = ''vllm.group.'' @ nat_text (Suc j + i)" if "i < length ts" for i
    using Cons.prems(2) [of "Suc i"] that by simp
  ultimately show ?case
    using Cons.IH [of ?table "Suc j" "k + int (length (ct_layers t))"] by (simp add: topology_layers_group)
qed (simp add: topology_layers_def)

text \<open>The layer names of every group as the worker's hook reads them.\<close>

definition hook_layer_names :: "(pyfloat \<Rightarrow> string) \<Rightarrow> pyval \<Rightarrow> string list list" where
  "hook_layer_names fr config =
     map (\<lambda>g. case getattr_or g ''layer_names'' PNone of PList names \<Rightarrow> map (py_str fr) names | _ \<Rightarrow> [])
       (sequence_items (getattr_or config ''kv_cache_groups'' PNone))"

text \<open>
  C35. Registration and worker agree on every layer: when vLLM's layer names have no surrounding
  white space, the table of names, group identifiers and layer indices that the worker's hook
  builds from the configuration is the one the registered topology lists, in the same order.
\<close>

theorem worker_layers_match_topology:
  assumes "vllm_topology fr pinned c config fp tp = Inr topo"
    and "list_all (list_all (\<lambda>n. py_strip n = n)) (hook_layer_names fr config)"
  shows "layer_identities (hook_layer_names fr config) = Inr (topology_layers (list_of (d_get topo ''cache_groups'')))"
proof -
  from assms(1) obtain ts lid where ts: "extract_cache_group_topologies fr pinned c config = Inr ts"
    and topo: "topo = [(''abi_version'', abi_version), (''model_fingerprint'', PStr fp),
               (''shard'', PDict
                  [(''tensor_parallel_rank'', PInt 0), (''tensor_parallel_world_size'', PInt tp),
                   (''pipeline_parallel_rank'', PInt 0), (''pipeline_parallel_world_size'', PInt 1)]),
               (''cache_groups'', PList (topology_dicts lid 0 ts))]"
    by (rule vllm_topology_Inr)
  note t = extract_topologies_Inr [OF ts]
  have each: "ct_group_id (ts ! i) = ''vllm.group.'' @ nat_text i"
    "ct_layers (ts ! i) = layer_texts fr (sequence_items (getattr_or config ''kv_cache_groups'' PNone) ! i)"
    if "i < length ts" for i
    using extract_group_topology_Inr [OF t(4) [OF that]] by simp_all
  have "hook_layer_names fr config = map ct_layers ts"
  proof (rule nth_equalityI)
    fix i assume i: "i < length (hook_layer_names fr config)"
    then have "list_all (\<lambda>n. py_strip n = n) (hook_layer_names fr config ! i)"
      using assms(2) by (simp add: list_all_length)
    then have "map py_strip (hook_layer_names fr config ! i) = hook_layer_names fr config ! i"
      by (intro map_idI) (simp add: list_all_iff)
    then show "hook_layer_names fr config ! i = map ct_layers ts ! i"
      using i t(2) each(2) [of i]
      by (auto simp: hook_layer_names_def layer_texts_def comp_def split: pyval.splits)
  qed (simp add: hook_layer_names_def t(2))
  moreover obtain k' where "fold_r (\<lambda>st (i, new). fold_r (identity_step (''vllm.group.'' @ nat_text i)) st new) ([], 0)
      (enumerate 0 (map ct_layers ts)) = Inr ([] @ topology_layers (topology_dicts lid 0 ts), k')"
    using identity_groups_run [of "[]" ts 0 0 lid] t(3) each(1) by auto
  ultimately show ?thesis by (simp add: layer_identities_def topo d_get_def)
qed

subsection \<open>Settings\<close>

lemma shared_registration_Inr:
  assumes "shared_pool_registration p fp groups topology profile b grant live = Inr reg"
  shows "validate_registration reg = Inr () \<and> registration_groups reg = map PDict groups \<and>
    tier_of reg = PStr ''shared_pool'' \<and> d_get reg ''topology'' = PDict topology"
  using assms
  by (auto simp: shared_pool_registration_def Let_def and_then_Inr_iff registration_groups_def d_get_def
      tier_of_def capabilities_of_def shared_pool_capabilities_def)

lemma opaque_registration_Inr:
  assumes "opaque_registration p fp groups b = Inr reg"
  shows "validate_registration reg = Inr () \<and> registration_groups reg = map PDict groups \<and>
    tier_of reg = PStr ''kv_connected''"
  using assms
  by (auto simp: opaque_registration_def Let_def and_then_Inr_iff registration_groups_def d_get_def
      tier_of_def capabilities_of_def opaque_capabilities_def)

definition mode_part where
  "mode_part B vllm_config transfer kv_cache_config model_fingerprint tp live_resize participant capacity_groups shared =
     (if shared
      then and_then (shared_part B vllm_config transfer kv_cache_config model_fingerprint tp live_resize
             participant capacity_groups) (\<lambda>(topology, profile, reg). Inr (Some topology, Some profile, reg))
      else and_then (opaque_registration (PStr participant) (PStr model_fingerprint) capacity_groups
             (PStr ''vllm'')) (\<lambda>reg. Inr (None, None, reg)))"

lemma settings_stages:
  assumes "connector_settings B vcfg transfer role config = Inr s"
  obtains fp domains p where
    "live_resize_flag B transfer (se_shared_pool s) = Inr (se_live_resize s)"
    "validated_vmm_conformance B transfer (se_live_resize s) = Inr (se_vmm_conformance s)"
    "(if se_shared_pool s then validated_shared_rank_device_map B transfer domains (se_tensor_parallel_size s)
      else Inr None) = Inr (se_rank_device_map s)"
    "vllm_capacity_groups (vb_float_text B) (vb_spec_kind B) None config domains (se_shared_pool s) =
       Inr (se_capacity_groups s)"
    "mode_part B vcfg transfer config fp (se_tensor_parallel_size s) (se_live_resize s) p (se_capacity_groups s)
       (se_shared_pool s) = Inr (se_topology s, se_profile s, se_registration s)"
    "se_group_ids s = map (\<lambda>g. d_get g ''group_id'') (se_capacity_groups s)"
    "lease_ttl B transfer = Inr (se_lease_ttl_ms s)"
  using assms unfolding connector_settings_def mode_part_def [symmetric] Let_def result_simps
  apply (elim exE conjE)
  apply (drule Inr_eqD)
  apply hypsubst
  apply (rule that)
        apply (simp_all only: settings.simps)
  done

text \<open>
  C36. The settings of a connector are consistent before it contacts the coordinator: its
  registration passes the contract and lists exactly the capacity groups whose identifiers the
  connector will lease, live resize implies the shared pool and conformance checks imply live
  resize, leases live at least a second, and a shared pool announces the topology of the same
  groups with a rank map that covers the tensor-parallel world or is not needed.
\<close>

theorem settings_consistent:
  assumes "connector_settings B vcfg transfer role config = Inr s"
  shows "validate_registration (se_registration s) = Inr () \<and>
    se_group_ids s = map (\<lambda>g. d_get (dict_of g) ''group_id'') (registration_groups (se_registration s)) \<and>
    tier_of (se_registration s) = PStr (if se_shared_pool s then ''shared_pool'' else ''kv_connected'') \<and>
    (se_live_resize s \<longrightarrow> se_shared_pool s) \<and> (se_vmm_conformance s \<longrightarrow> se_live_resize s) \<and>
    1000 \<le> se_lease_ttl_ms s \<and>
    (se_shared_pool s \<longrightarrow>
       (\<exists>topo. se_topology s = Some topo \<and> d_get (se_registration s) ''topology'' = PDict topo) \<and>
       (case se_rank_device_map s of
          None \<Rightarrow> se_tensor_parallel_size s = 1
        | Some m \<Rightarrow> fst ` set m = {0..<se_tensor_parallel_size s}))"
proof -
  from assms obtain fp domains p where
    live: "live_resize_flag B transfer (se_shared_pool s) = Inr (se_live_resize s)"
    and conf: "validated_vmm_conformance B transfer (se_live_resize s) = Inr (se_vmm_conformance s)"
    and ranks: "(if se_shared_pool s then validated_shared_rank_device_map B transfer domains (se_tensor_parallel_size s)
      else Inr None) = Inr (se_rank_device_map s)"
    and mode: "mode_part B vcfg transfer config fp (se_tensor_parallel_size s) (se_live_resize s) p (se_capacity_groups s)
       (se_shared_pool s) = Inr (se_topology s, se_profile s, se_registration s)"
    and ids: "se_group_ids s = map (\<lambda>g. d_get g ''group_id'') (se_capacity_groups s)"
    and ttl: "lease_ttl B transfer = Inr (se_lease_ttl_ms s)"
    by (rule settings_stages)
  have l: "se_live_resize s \<longrightarrow> se_shared_pool s"
    using live unfolding live_resize_flag_def result_simps by (auto split: if_splits)
  have c: "se_vmm_conformance s \<longrightarrow> se_live_resize s"
    using conf unfolding validated_vmm_conformance_def result_simps by (auto split: if_splits)
  have t: "1000 \<le> se_lease_ttl_ms s" using ttl unfolding lease_ttl_def result_simps by auto
  have reg: "validate_registration (se_registration s) = Inr () \<and>
      registration_groups (se_registration s) = map PDict (se_capacity_groups s) \<and>
      tier_of (se_registration s) = PStr (if se_shared_pool s then ''shared_pool'' else ''kv_connected'')"
    using mode by (auto simp: mode_part_def shared_part_def and_then_Inr_iff
        dest: shared_registration_Inr opaque_registration_Inr split: if_splits)
  have topo: "\<exists>topo. se_topology s = Some topo \<and> d_get (se_registration s) ''topology'' = PDict topo"
    if "se_shared_pool s"
    using mode that by (auto simp: mode_part_def shared_part_def and_then_Inr_iff dest: shared_registration_Inr)
  have rm: "case se_rank_device_map s of None \<Rightarrow> se_tensor_parallel_size s = 1
      | Some m \<Rightarrow> fst ` set m = {0..<se_tensor_parallel_size s}" if sp: "se_shared_pool s"
  proof (cases "se_rank_device_map s")
    case None
    then show ?thesis using ranks sp
      by (auto simp: validated_shared_rank_device_map_def and_then_Inr_iff positive_integer_Inr
          split: if_splits option.splits)
  next
    case (Some m)
    then show ?thesis using ranks sp by (auto elim: rank_map_Inr)
  qed
  show ?thesis using l c t reg topo rm ids by (simp add: comp_def)
qed

subsection \<open>Witnesses\<close>

definition sample_packed :: pyval where
  "sample_packed = PObj ''KVCacheConfig''
     [(''kv_cache_groups'', PList
        [PObj ''group'' [(''layer_names'', PList [PStr ''a'', PStr ''b'']),
                         (''kv_cache_spec'', sample_spec ''full_attention'' [])],
         PObj ''group'' [(''layer_names'', PList [PStr ''c'']),
                         (''kv_cache_spec'', sample_spec ''full_attention'' [])]]),
      (''kv_cache_tensors'', PList [PObj ''tensor'' [(''size'', PInt 8192)]]), (''num_blocks'', PInt 8),
      (''kv_cache_layout'', PStr ''BLNHC'')]"

definition sample_build :: vllm_build where
  "sample_build = \<lparr>vb_importable = True, vb_has_request_hook = True, vb_float_text = \<lambda>_. [],
     vb_spec_kind = Some sample_kind, vb_extra_getter = \<lambda>_ _ d. d, vb_metadata_version = Some ''1'', vb_module = None\<rparr>"

definition sample_domains :: "pydict list" where
  "sample_domains = [[(''kind'', PStr ''cuda''), (''device_id'', PInt 3)], [(''kind'', PStr ''cuda''), (''device_id'', PInt 2)]]"

definition sample_transfer :: pyval where
  "sample_transfer = PObj ''t'' [(''kv_connector_extra_config'', PDict
     [(''kapsl_rank_device_map'', PDict [(''1'', PInt 3), (''0'', PInt 2)])])]"

theorem rank_map_bijective_witness:
  "validated_shared_rank_device_map sample_build sample_transfer sample_domains 2 = Inr (Some [(1, 3), (0, 2)]) \<and>
   (\<exists>ids. distinct ids \<and> bij_betw (\<lambda>r. the (map_of [(1 :: int, 3 :: int), (0, 2)] r)) {0..<2} (set ids))"
proof -
  have "validated_shared_rank_device_map sample_build sample_transfer sample_domains 2 = Inr (Some [(1, 3), (0, 2)])"
    by code_simp
  with rank_map_bijective [OF this] show ?thesis by blast
qed

lemma sample_topology:
  "map_sum exn_msg (\<lambda>_. ()) (vllm_topology (\<lambda>_. []) None (Some sample_kind) sample_packed ''fp'' 2) = Inr ()"
  by code_simp

lemma sample_groups:
  "map_sum exn_msg length (vllm_capacity_groups (\<lambda>_. []) None (Some sample_kind) sample_packed sample_domains True) = Inr 2"
  by code_simp

theorem vllm_topology_accepted_witness:
  "\<exists>topo groups. vllm_topology (\<lambda>_. []) None (Some sample_kind) sample_packed ''fp'' 2 = Inr topo \<and>
     validate_topology topo ''fp'' (set (map (\<lambda>g. str_of (d_get g ''group_id'')) groups))
       (shared_pool_capabilities True [PStr ''multiple_cache_groups'']) = Inr () \<and> length groups = 2"
proof -
  obtain topo where t: "vllm_topology (\<lambda>_. []) None (Some sample_kind) sample_packed ''fp'' 2 = Inr topo"
    using sample_topology by (rule map_sum_InrE)
  obtain groups where g: "vllm_capacity_groups (\<lambda>_. []) None (Some sample_kind) sample_packed sample_domains True = Inr groups"
    "length groups = 2"
    using sample_groups by (rule map_sum_InrE)
  have "validate_topology topo ''fp'' (set (map (\<lambda>g. str_of (d_get g ''group_id'')) groups))
       (shared_pool_capabilities True [PStr ''multiple_cache_groups'']) = Inr ()"
    by (rule vllm_topology_accepted [OF t _ g(1)]) simp_all
  then show ?thesis using t g(2) by (intro exI conjI)
qed

theorem capacity_groups_account_for_pool_witness:
  "\<exists>groups. vllm_capacity_groups (\<lambda>_. []) None (Some sample_kind) sample_packed sample_domains True = Inr groups \<and>
     length groups = 2 \<and> (\<exists>n stride bytes. vllm_backing_geometry sample_packed = Inr (bytes, n, stride) \<and> n * stride = bytes)"
proof -
  obtain groups where g: "vllm_capacity_groups (\<lambda>_. []) None (Some sample_kind) sample_packed sample_domains True = Inr groups"
    "length groups = 2"
    using sample_groups by (rule map_sum_InrE)
  from capacity_groups_account_for_pool [OF g(1)] show ?thesis using g by blast
qed

theorem worker_layers_match_topology_witness:
  "layer_identities (hook_layer_names (\<lambda>_. []) sample_packed) =
     Inr [(''a'', (''vllm.group.0'', 0)), (''b'', (''vllm.group.0'', 1)), (''c'', (''vllm.group.1'', 2))] \<and>
   (\<exists>topo. vllm_topology (\<lambda>_. []) None (Some sample_kind) sample_packed ''fp'' 2 = Inr topo \<and>
      topology_layers (list_of (d_get topo ''cache_groups'')) =
        [(''a'', (''vllm.group.0'', 0)), (''b'', (''vllm.group.0'', 1)), (''c'', (''vllm.group.1'', 2))])"
proof -
  obtain topo where t: "vllm_topology (\<lambda>_. []) None (Some sample_kind) sample_packed ''fp'' 2 = Inr topo"
    using sample_topology by (rule map_sum_InrE)
  have s: "list_all (list_all (\<lambda>n. py_strip n = n)) (hook_layer_names (\<lambda>_. []) sample_packed)" by code_simp
  have run: "layer_identities (hook_layer_names (\<lambda>_. []) sample_packed) =
     Inr [(''a'', (''vllm.group.0'', 0)), (''b'', (''vllm.group.0'', 1)), (''c'', (''vllm.group.1'', 2))]"
    by code_simp
  have "topology_layers (list_of (d_get topo ''cache_groups'')) =
        [(''a'', (''vllm.group.0'', 0)), (''b'', (''vllm.group.0'', 1)), (''c'', (''vllm.group.1'', 2))]"
    using worker_layers_match_topology [OF t s] run by simp
  then show ?thesis using run t by (intro conjI exI [of _ topo])
qed

definition sample_shared_transfer :: pyval where
  "sample_shared_transfer = PObj ''t'' [(''engine_id'', PStr ''e0''), (''kv_connector_extra_config'', PDict
     [(''kapsl_control_endpoint'', PStr ''unix:///k''), (''kapsl_model_fingerprint'', PStr ''fp''),
      (''kapsl_kv_mode'', PStr ''shared_pool''), (''kapsl_live_resize'', PBool True),
      (''kapsl_memory_domains'', PList [PDict [(''kind'', PStr ''cuda''), (''device_id'', PInt 3)]])])]"

lemma sample_settings:
  "map_sum exn_msg (\<lambda>s. (se_shared_pool s, se_live_resize s, se_group_ids s))
     (connector_settings sample_build sample_vllm sample_shared_transfer (PObj ''r'' [(''name'', PStr ''SCHEDULER'')])
        sample_packed) =
   Inr (True, True, [PStr ''vllm.group.0'', PStr ''vllm.group.1''])"
  by code_simp

theorem settings_consistent_witness:
  "\<exists>s. connector_settings sample_build sample_vllm sample_shared_transfer (PObj ''r'' [(''name'', PStr ''SCHEDULER'')])
        sample_packed = Inr s \<and> se_shared_pool s \<and> validate_registration (se_registration s) = Inr () \<and>
     1000 \<le> se_lease_ttl_ms s"
proof -
  obtain s where s: "connector_settings sample_build sample_vllm sample_shared_transfer
      (PObj ''r'' [(''name'', PStr ''SCHEDULER'')]) sample_packed = Inr s"
    "(se_shared_pool s, se_live_resize s, se_group_ids s) = (True, True, [PStr ''vllm.group.0'', PStr ''vllm.group.1''])"
    using sample_settings by (rule map_sum_InrE)
  from settings_consistent [OF s(1)] s show ?thesis by (intro exI [of _ s]) simp
qed

end
