(* ===== verification/Py_Text.thy ===== *)
theory Py_Text
  imports Py_Effects
begin

text \<open>
  \<open>str.split\<close> with a one-character separator and \<open>str.join\<close>: splitting a joined list gives
  the list back when no part has the separator.
\<close>

fun split_on :: "char \<Rightarrow> string \<Rightarrow> string list" where
  "split_on d [] = [[]]"
| "split_on d (c # cs) =
     (if c = d then [] # split_on d cs
      else case split_on d cs of [] \<Rightarrow> [[c]] | t # ts \<Rightarrow> (c # t) # ts)"

lemma split_on_not_Nil [simp]: "split_on d s \<noteq> []"
  by (induction s) (auto split: list.splits)

lemma split_on_plain: "d \<notin> set t \<Longrightarrow> split_on d t = [t]"
  by (induction t) auto

lemma split_on_first: "d \<notin> set t \<Longrightarrow> split_on d (t @ d # s) = t # split_on d s"
  by (induction t) auto

lemma split_join:
  assumes "ts \<noteq> []" and "\<forall>t \<in> set ts. d \<notin> set t"
  shows "split_on d (join_with [d] ts) = ts"
  using assms by (induction ts rule: induct_list012) (auto simp: split_on_plain split_on_first)

end
