(* ===== verification/Certification.thy ===== *)
theory Certification
  imports Py_Text Contract_Base "HOL-Library.AList"
begin

text \<open>
  The certification records of \<open>certification.py\<close>: the validation of a hardware report, the
  allowlist entry a passing report authorizes, the report of a failed probe and the atomic
  replacement of an output file.

  \<open>sha\<close> is SHA-256 as a function from bytes to the hexadecimal text. The file system is a map
  from paths to contents with a script of the outcomes of the next operating-system calls, so a
  statement about every script covers a failure at every call.

  The lemmas show that an accepted report covers the declared world exactly once, that the
  report of a failed probe is never accepted, that an allowlist entry determines the profile,
  and that a destination file is replaced completely or not at all.
\<close>

subsection \<open>Fields\<close>

abbreviation RaiseV :: "string list \<Rightarrow> 'a result" where
  "RaiseV m \<equiv> Raise CertificationError (fmt m)"

definition CERTIFICATION_SCHEMA_VERSION :: int where "CERTIFICATION_SCHEMA_VERSION = 1"

definition REQUIRED_GATES :: "string list" where
  "REQUIRED_GATES = [''contract'', ''allocator_attachment'', ''backend_native_write'', ''backend_native_read'',
     ''lifecycle'', ''parallel_coverage'']"

definition cert_mapping :: "pyval \<Rightarrow> string \<Rightarrow> pydict result" where
  "cert_mapping v field = (case v of PDict d \<Rightarrow> Inr d | _ \<Rightarrow> RaiseV [field, '' must be an object''])"

definition unsafe_chars :: string where
  "unsafe_chars = [CHR '','', char_of (10 :: nat), char_of (13 :: nat), char_of (0 :: nat)]"

definition safe_field :: "pyval \<Rightarrow> string \<Rightarrow> string result" where
  "safe_field v field =
     (case v of
        PStr s \<Rightarrow>
          if py_strip s = [] then RaiseV [field, '' must be a non-empty string'']
          else if list_ex (\<lambda>c. c \<in> set s) unsafe_chars then RaiseV [field, '' contains an unsafe delimiter'']
          else Inr s
      | _ \<Rightarrow> RaiseV [field, '' must be a non-empty string''])"

definition sha256_id :: "pyval \<Rightarrow> string \<Rightarrow> string result" where
  "sha256_id v field =
     and_then (safe_field v field) (\<lambda>s.
     if take 7 s \<noteq> ''sha256:'' \<or> length s \<noteq> 71 then RaiseV [field, '' must contain a SHA-256 digest'']
     else if parse_int 16 (drop 7 s) = None then RaiseV [field, '' contains a non-hex digest'']
     else Inr s)"

definition hex_digest :: "pyval \<Rightarrow> string \<Rightarrow> string result" where
  "hex_digest v field =
     and_then (safe_field v field) (\<lambda>s.
     if length s \<noteq> 64 then RaiseV [field, '' must contain 64 hex digits'']
     else if parse_int 16 s = None then RaiseV [field, '' contains a non-hex digest'']
     else Inr s)"

definition cert_positive_int :: "pyval \<Rightarrow> string \<Rightarrow> int result" where
  "cert_positive_int v field =
     (case v of PInt i \<Rightarrow> if i \<le> 0 then RaiseV [field, '' must be a positive integer''] else Inr i
      | _ \<Rightarrow> RaiseV [field, '' must be a positive integer''])"

definition cert_nonnegative_int :: "pyval \<Rightarrow> string \<Rightarrow> int result" where
  "cert_nonnegative_int v field =
     (case v of PInt i \<Rightarrow> if i < 0 then RaiseV [field, '' must be a non-negative integer''] else Inr i
      | _ \<Rightarrow> RaiseV [field, '' must be a non-negative integer''])"

text \<open>A loop over named fields whose values are only checked.\<close>

definition check_fields :: "(pyval \<Rightarrow> string \<Rightarrow> 'a result) \<Rightarrow> string \<Rightarrow> pydict \<Rightarrow> string list \<Rightarrow> unit result" where
  "check_fields check prefix d fields =
     fold_r (\<lambda>_ f. and_then (check (d_get d f) (fmt [prefix, f])) (\<lambda>_. Inr ())) () fields"

definition require :: "bool \<Rightarrow> string list \<Rightarrow> unit result" where
  "require ok message = (if ok then Inr () else RaiseV message)"

subsection \<open>Evidence of one gate\<close>

text \<open>
  \<open>math.isfinite\<close> of an integer converts it to a float, which overflows from
  \<open>2^1024 - 2^970\<close> on.
\<close>

definition check_delta :: "pyval \<Rightarrow> string \<Rightarrow> unit result" where
  "check_delta delta prefix =
     (case delta of
        PInt i \<Rightarrow>
          if 2 ^ 1024 - 2 ^ 970 \<le> \<bar>i\<bar> then Raise OverflowError ''int too large to convert to float''
          else require (0 < i) [prefix, '' causal mutation did not change output'']
      | PFloat (Finite q) \<Rightarrow> require (0 < q) [prefix, '' causal mutation did not change output'']
      | _ \<Rightarrow> RaiseV [prefix, '' has no causal mutation delta''])"

definition allocator_evidence_ok :: "pydict \<Rightarrow> pydict \<Rightarrow> string \<Rightarrow> unit result" where
  "allocator_evidence_ok evidence geometry prefix =
     and_then (require (d_get evidence ''allocator_poisoned'' = PBool True)
                 [prefix, '' did not poison the native allocator'']) (\<lambda>_.
     and_then (require (py_eq (d_get evidence ''pytorch_cuda_allocation_delta_bytes'') (PInt 0))
                 [prefix, '' observed a second CUDA allocation'']) (\<lambda>_.
     and_then (cert_positive_int (d_get evidence ''imported_bytes'') (fmt [prefix, ''.imported_bytes''])) (\<lambda>n.
     and_then (require (n = int_of (d_get geometry ''allocation_bytes''))
                 [prefix, '' imported byte count is inconsistent'']) (\<lambda>_.
     and_then (cert_positive_int (d_get evidence ''view_count'') (fmt [prefix, ''.view_count''])) (\<lambda>_.
     and_then (hex_digest (d_get evidence ''raw_sha256_before_write'') (fmt [prefix, ''.raw_sha256_before_write'']))
       (\<lambda>_. Inr ()))))))"

definition write_evidence_ok :: "pydict \<Rightarrow> pydict \<Rightarrow> string \<Rightarrow> unit result" where
  "write_evidence_ok evidence geometry prefix =
     (let guard_per_block = int_of (d_get geometry ''guard_bytes_per_block'');
          num_blocks = int_of (d_get geometry ''num_blocks'')
      in
     and_then (safe_field (d_get evidence ''native_function'') (fmt [prefix, ''.native_function''])) (\<lambda>_.
     and_then (hex_digest (d_get evidence ''raw_sha256_after_write'') (fmt [prefix, ''.raw_sha256_after_write''])) (\<lambda>_.
     and_then (cert_positive_int (d_get evidence ''guard_bytes_checked'') (fmt [prefix, ''.guard_bytes_checked''])) (\<lambda>n.
     and_then (require (n = guard_per_block * num_blocks) [prefix, '' guard coverage is incomplete'']) (\<lambda>_.
     and_then (cert_positive_int (d_get evidence ''prefill_tokens'') (fmt [prefix, ''.prefill_tokens''])) (\<lambda>_.
     and_then (require (py_eq (d_get evidence ''decode_writes'') (PInt 2))
                 [prefix, '' did not perform two decode writes'']) (\<lambda>_.
     and_then (require (py_eq (d_get evidence ''maximum_block_index'') (PInt (num_blocks - 1)))
                 [prefix, '' did not write the maximum block'']) (\<lambda>_.
     require (d_get evidence ''production_implementation_binding'' = PBool True)
       [prefix, '' is not bound to production vLLM'']))))))))"

definition read_evidence_ok :: "pydict \<Rightarrow> string \<Rightarrow> unit result" where
  "read_evidence_ok evidence prefix =
     and_then (safe_field (d_get evidence ''native_function'') (fmt [prefix, ''.native_function''])) (\<lambda>_.
     and_then (safe_field (d_get evidence ''implementation'') (fmt [prefix, ''.implementation''])) (\<lambda>_.
     and_then (cert_positive_int (d_get evidence ''flash_attention_version'')
                 (fmt [prefix, ''.flash_attention_version''])) (\<lambda>_.
     and_then (check_delta (d_get evidence ''causal_mutation_max_delta'') prefix) (\<lambda>_.
     require (d_get evidence ''production_implementation_binding'' = PBool True)
       [prefix, '' is not bound to production vLLM'']))))"

definition validate_rank_gate_evidence :: "string \<Rightarrow> pydict \<Rightarrow> pydict \<Rightarrow> nat \<Rightarrow> unit result" where
  "validate_rank_gate_evidence name evidence geometry rank_index =
     (let prefix = fmt [''ranks['', nat_text rank_index, ''].gates.'', name, ''.evidence'']
      in if name = ''allocator_attachment'' then allocator_evidence_ok evidence geometry prefix
         else if name = ''backend_native_write'' then write_evidence_ok evidence geometry prefix
         else if name = ''backend_native_read'' then read_evidence_ok evidence prefix
         else Inr ())"

subsection \<open>One rank\<close>

definition rank_gate :: "pydict \<Rightarrow> pydict \<Rightarrow> nat \<Rightarrow> int \<Rightarrow> unit \<Rightarrow> string \<Rightarrow> unit result" where
  "rank_gate rank_gates geometry index rank_index _ name =
     (let here = fmt [''ranks['', nat_text index, ''].gates.'', name]
      in
     and_then (cert_mapping (d_get rank_gates name) here) (\<lambda>gate.
     and_then (require (d_get gate ''passed'' = PBool True)
                 [''rank '', int_text rank_index, '' gate '', py_repr name, '' did not pass'']) (\<lambda>_.
     and_then (cert_mapping (d_get gate ''evidence'') (fmt [here, ''.evidence''])) (\<lambda>evidence.
       validate_rank_gate_evidence name evidence geometry index))))"

text \<open>The evidence of a gate, read again after the gate has been validated.\<close>

definition gate_evidence :: "pydict \<Rightarrow> string \<Rightarrow> nat \<Rightarrow> pydict result" where
  "gate_evidence rank_gates name index =
     (let here = fmt [''ranks['', nat_text index, ''].gates.'', name]
      in
     and_then (item (PDict rank_gates) name) (\<lambda>raw_gate.
     and_then (cert_mapping raw_gate here) (\<lambda>gate.
     and_then (item (PDict gate) ''evidence'') (\<lambda>evidence.
       cert_mapping evidence (fmt [here, ''.evidence''])))))"

definition LIFECYCLE_FIELDS :: "string list" where
  "LIFECYCLE_FIELDS =
     [''activation_after_all_attachments'', ''live_lease_detach_rejected'', ''cancellation_release'',
      ''capacity_exhaustion_rejected'', ''heartbeat_renewal'', ''post_deactivation_reserve_rejected'']"

definition check_hashes :: "(nat list \<Rightarrow> string) \<Rightarrow> pydict \<Rightarrow> pydict \<Rightarrow> nat \<Rightarrow> int \<Rightarrow> unit result" where
  "check_hashes sha rank_gates geometry index rank_index =
     and_then (gate_evidence rank_gates ''allocator_attachment'' index) (\<lambda>allocator.
     and_then (gate_evidence rank_gates ''backend_native_write'' index) (\<lambda>write.
     and_then (item (PDict allocator) ''raw_sha256_before_write'') (\<lambda>before.
     and_then (require (py_eq before (PStr (sha (replicate (nat (int_of (d_get geometry ''allocation_bytes''))) 0x5A))))
                 [''rank '', int_text rank_index, '' did not initialize the whole pool sentinel'']) (\<lambda>_.
     and_then (item (PDict write) ''raw_sha256_after_write'') (\<lambda>written.
       require (\<not> py_eq written before)
         [''rank '', int_text rank_index, '' native writer did not change Kapsl memory''])))))"

type_synonym coverage = "int set \<times> string set \<times> int set"

definition certify_rank ::
  "(nat list \<Rightarrow> string) \<Rightarrow> pydict \<Rightarrow> int \<Rightarrow> int list \<Rightarrow> coverage \<Rightarrow> nat \<times> pyval \<Rightarrow> coverage result" where
  "certify_rank sha geometry world_size devices st ix =
     (case st of (seen_ranks, seen_bindings, seen_devices) \<Rightarrow>
     case ix of (index, raw_rank) \<Rightarrow>
     let here = fmt [''ranks['', nat_text index, '']'']
     in
     and_then (cert_mapping raw_rank here) (\<lambda>rank.
     and_then (cert_nonnegative_int (d_get rank ''rank'') (fmt [here, ''.rank''])) (\<lambda>rank_index.
     and_then (require (\<not> (rank_index \<ge> world_size \<or> rank_index \<in> seen_ranks))
                 [''rank coverage is duplicated or out of range'']) (\<lambda>_.
     and_then (safe_field (d_get rank ''binding_id'') (fmt [here, ''.binding_id''])) (\<lambda>binding_id.
     and_then (require (binding_id \<notin> seen_bindings) [''physical binding IDs must be unique per rank'']) (\<lambda>_.
     and_then (cert_nonnegative_int (d_get rank ''device_id'') (fmt [here, ''.device_id''])) (\<lambda>device_id.
     and_then (require (\<not> (device_id \<in> seen_devices \<or> device_id \<notin> set devices))
                 [''rank device coverage is duplicated or unexpected'']) (\<lambda>_.
     and_then (require (d_get rank ''passed'' = PBool True) [''rank '', int_text rank_index, '' did not pass'']) (\<lambda>_.
     and_then (cert_mapping (d_get rank ''device'') (fmt [here, ''.device''])) (\<lambda>device.
     and_then (check_fields safe_field (fmt [here, ''.device.'']) device [''name'', ''compute_capability'']) (\<lambda>_.
     and_then (cert_positive_int (d_get device ''total_memory_bytes'') (fmt [here, ''.device.total_memory_bytes''])) (\<lambda>_.
     and_then (cert_mapping (d_get rank ''gates'') (fmt [here, ''.gates''])) (\<lambda>rank_gates.
     and_then (fold_r (rank_gate rank_gates geometry index rank_index) ()
                 [''allocator_attachment'', ''backend_native_write'', ''backend_native_read'']) (\<lambda>_.
     and_then (check_hashes sha rank_gates geometry index rank_index) (\<lambda>_.
     and_then (cert_mapping (d_get rank ''lifecycle'') (fmt [here, ''.lifecycle''])) (\<lambda>lifecycle.
     and_then (fold_r (\<lambda>_ f. require (d_get lifecycle f = PBool True)
                   [''rank '', int_text rank_index, '' has incomplete lifecycle evidence'']) () LIFECYCLE_FIELDS) (\<lambda>_.
       Inr (insert rank_index seen_ranks, insert binding_id seen_bindings, insert device_id seen_devices))))))))))))))))))"

subsection \<open>The report\<close>

definition check_header :: "pydict \<Rightarrow> unit result" where
  "check_header report =
     and_then (require (py_eq (d_get report ''schema_version'') (PInt CERTIFICATION_SCHEMA_VERSION))
                 [''unsupported certification schema version'']) (\<lambda>_.
     and_then (require (py_eq (d_get report ''status'') (PStr ''passed''))
                 [''certification status is not passed'']) (\<lambda>_.
     and_then (cert_mapping (d_get report ''profile'') ''profile'') (\<lambda>profile.
     and_then (check_fields safe_field ''profile.'' profile
                 [''adapter_id'', ''adapter_version'', ''backend_version'', ''profile_id'']) (\<lambda>_.
     and_then (cert_mapping (d_get report ''environment'') ''environment'') (\<lambda>environment.
     and_then (check_fields sha256_id ''environment.'' environment
                 [''adapter_build_id'', ''backend_build_id'', ''runtime_build_id'']) (\<lambda>_.
     check_fields safe_field ''environment.'' environment
       [''torch_version'', ''cuda_runtime_version'', ''cuda_driver_version'']))))))"

definition check_matrix :: "pydict \<Rightarrow> (int \<times> pydict \<times> int list) result" where
  "check_matrix report =
     and_then (cert_mapping (d_get report ''matrix'') ''matrix'') (\<lambda>matrix.
     and_then (cert_positive_int (d_get matrix ''tensor_parallel_world_size'')
                 ''matrix.tensor_parallel_world_size'') (\<lambda>world_size.
     and_then (check_fields safe_field ''matrix.'' matrix [''attention_backend'', ''kv_layout'', ''dtype'']) (\<lambda>_.
     and_then (cert_mapping (d_get matrix ''cache_geometry'') ''matrix.cache_geometry'') (\<lambda>geometry.
     and_then (check_fields cert_positive_int ''matrix.cache_geometry.'' geometry
                 [''num_blocks'', ''block_size'', ''num_kv_heads'', ''num_query_heads'', ''head_size'',
                  ''dense_page_bytes'', ''guard_bytes_per_block'', ''padded_page_bytes'', ''allocation_bytes'']) (\<lambda>_.
     let g = (\<lambda>f. int_of (d_get geometry f))
     in
     and_then (require (g ''padded_page_bytes'' = g ''dense_page_bytes'' + g ''guard_bytes_per_block'')
                 [''cache page and guard byte accounting is inconsistent'']) (\<lambda>_.
     and_then (require (g ''allocation_bytes'' = g ''num_blocks'' * g ''padded_page_bytes'')
                 [''cache allocation byte accounting is inconsistent'']) (\<lambda>_.
     case d_get matrix ''devices'' of
       PList raw \<Rightarrow>
         and_then (require (int (length raw) = world_size)
                     [''matrix.devices must cover the declared world'']) (\<lambda>_.
         and_then (traverse (\<lambda>(index, device). cert_nonnegative_int device
                       (fmt [''matrix.devices['', nat_text index, '']''])) (enumerate 0 raw)) (\<lambda>devices.
         and_then (require (int (card (set devices)) = world_size) [''matrix devices must be distinct'']) (\<lambda>_.
           Inr (world_size, geometry, devices))))
     | _ \<Rightarrow> RaiseV [''matrix.devices must be an array''])))))))"

definition check_gate :: "pydict \<Rightarrow> unit \<Rightarrow> string \<Rightarrow> unit result" where
  "check_gate gates _ name =
     and_then (item (PDict gates) name) (\<lambda>raw_gate.
     and_then (cert_mapping raw_gate (fmt [''gates.'', name])) (\<lambda>gate.
     and_then (require (d_get gate ''passed'' = PBool True)
                 [''certification gate '', py_repr name, '' did not pass'']) (\<lambda>_.
     and_then (safe_field (d_get gate ''evidence'') (fmt [''gates.'', name, ''.evidence''])) (\<lambda>_. Inr ()))))"

definition check_gates :: "pydict \<Rightarrow> unit result" where
  "check_gates report =
     and_then (cert_mapping (d_get report ''gates'') ''gates'') (\<lambda>gates.
     let missing = filter (\<lambda>name. \<not> d_has gates name) REQUIRED_GATES
     in and_then (require (missing = [])
                    [''certification is missing required gates: '', join_with '', '' missing]) (\<lambda>_.
        fold_r (check_gate gates) () REQUIRED_GATES))"

definition validate_certification_report :: "(nat list \<Rightarrow> string) \<Rightarrow> pydict \<Rightarrow> unit result" where
  "validate_certification_report sha report =
     and_then (check_header report) (\<lambda>_.
     and_then (check_matrix report) (\<lambda>(world_size, geometry, devices).
     and_then (check_gates report) (\<lambda>_.
     case d_get report ''ranks'' of
       PList ranks \<Rightarrow>
         and_then (require (int (length ranks) = world_size)
                     [''expected '', int_text world_size, '' rank reports, received '', nat_text (length ranks)]) (\<lambda>_.
         and_then (fold_r (certify_rank sha geometry world_size devices) ({}, {}, {}) (enumerate 0 ranks))
           (\<lambda>(seen_ranks, _, seen_devices).
         and_then (require (seen_ranks = set [0..world_size - 1])
                     [''rank reports do not cover the declared world'']) (\<lambda>_.
           require (seen_devices = set devices) [''rank reports do not cover the declared devices''])))
     | _ \<Rightarrow> RaiseV [''ranks must be an array''])))"

definition PROFILE_FIELDS :: "string list" where
  "PROFILE_FIELDS = [''adapter_id'', ''adapter_version'', ''backend_version'', ''profile_id'']"

definition allowlist_entry :: "(pyfloat \<Rightarrow> string) \<Rightarrow> (nat list \<Rightarrow> string) \<Rightarrow> pydict \<Rightarrow> string result" where
  "allowlist_entry fr sha report =
     and_then (validate_certification_report sha report) (\<lambda>_.
     and_then (item (PDict report) ''profile'') (\<lambda>raw_profile.
     and_then (cert_mapping raw_profile ''profile'') (\<lambda>profile.
     and_then (traverse (\<lambda>f. str_item fr (PDict profile) f) PROFILE_FIELDS) (\<lambda>parts.
       Inr (join_with '','' parts)))))"

definition failed_report :: "pydict \<Rightarrow> pydict \<Rightarrow> pydict \<Rightarrow> pydict list \<Rightarrow> string \<Rightarrow> pydict" where
  "failed_report profile environment matrix ranks error =
     [(''schema_version'', PInt CERTIFICATION_SCHEMA_VERSION), (''status'', PStr ''failed''),
      (''profile'', PDict profile), (''environment'', PDict environment), (''matrix'', PDict matrix),
      (''gates'', PDict (map (\<lambda>name. (name, PDict [(''passed'', PBool False),
         (''evidence'', PStr ''probe did not complete'')])) REQUIRED_GATES)),
      (''ranks'', PList (map PDict ranks)), (''error'', PStr error)]"

subsection \<open>Atomic replacement of a file\<close>

record files =
  fs_files :: "(string \<times> string) list"
  fs_script :: "(exn \<times> nat) option list"

text \<open>
  The outcome of the next call: success, or an exception together with the number of bytes a
  failing write had already stored.
\<close>

definition os_call :: "(files, unit) eff" where
  "os_call s =
     (case fs_script s of
        [] \<Rightarrow> (s, Inr ())
      | None # rest \<Rightarrow> (s\<lparr>fs_script := rest\<rparr>, Inr ())
      | Some (e, _) # rest \<Rightarrow> (s\<lparr>fs_script := rest\<rparr>, Inl e))"

definition write_file :: "string \<Rightarrow> string \<Rightarrow> (files, unit) eff" where
  "write_file path data s =
     (case fs_script s of
        [] \<Rightarrow> (s\<lparr>fs_files := AList.update path data (fs_files s)\<rparr>, Inr ())
      | None # rest \<Rightarrow> (s\<lparr>fs_files := AList.update path data (fs_files s), fs_script := rest\<rparr>, Inr ())
      | Some (e, n) # rest \<Rightarrow>
          (s\<lparr>fs_files := AList.update path (take n data) (fs_files s), fs_script := rest\<rparr>, Inl e))"

definition replace_file :: "string \<Rightarrow> string \<Rightarrow> (files, unit) eff" where
  "replace_file source destination =
     bind os_call (\<lambda>_.
     bind (gets fs_files) (\<lambda>fs.
     case map_of fs source of
       None \<Rightarrow> lift (Raise OSError ''No such file or directory'')
     | Some data \<Rightarrow> modify (\<lambda>s. s\<lparr>fs_files := AList.update destination data (AList.delete source fs)\<rparr>)))"

text \<open>\<open>os.unlink\<close> in the handler, whose \<open>FileNotFoundError\<close> is ignored.\<close>

definition unlink_file :: "string \<Rightarrow> (files, unit) eff" where
  "unlink_file path =
     bind os_call (\<lambda>_. modify (\<lambda>s. s\<lparr>fs_files := AList.delete path (fs_files s)\<rparr>))"

text \<open>The calls between writing and replacing are \<open>flush\<close>, \<open>fsync\<close> and the closing of the stream.\<close>

definition write_atomic :: "((string \<times> string) list \<Rightarrow> string \<Rightarrow> string) \<Rightarrow> string \<Rightarrow> string \<Rightarrow> (files, unit) eff" where
  "write_atomic temp_name destination data =
     bind (gets fs_files) (\<lambda>fs.
     let temporary = temp_name fs destination
     in
     bind os_call (\<lambda>_.
     bind (modify (\<lambda>s. s\<lparr>fs_files := AList.update temporary [] (fs_files s)\<rparr>)) (\<lambda>_.
     try_except
       (bind (write_file temporary data) (\<lambda>_.
        bind os_call (\<lambda>_.
        bind os_call (\<lambda>_.
        bind os_call (\<lambda>_.
        replace_file temporary destination)))))
       (\<lambda>e. bind (unlink_file temporary) (\<lambda>_. lift (Inl e))))))"

definition write_allowlist_atomic ::
  "(pyfloat \<Rightarrow> string) \<Rightarrow> (nat list \<Rightarrow> string) \<Rightarrow> ((string \<times> string) list \<Rightarrow> string \<Rightarrow> string) \<Rightarrow> string \<Rightarrow> pydict \<Rightarrow>
   (files, unit) eff" where
  "write_allowlist_atomic fr sha temp_name path report =
     bind os_call (\<lambda>_.
     bind (lift (allowlist_entry fr sha report)) (\<lambda>entry.
       write_atomic temp_name path (entry @ [char_of (10 :: nat)])))"

definition remove_stale_allowlist :: "string option \<Rightarrow> (files, unit) eff" where
  "remove_stale_allowlist path = (case path of None \<Rightarrow> ret () | Some p \<Rightarrow> unlink_file p)"

subsection \<open>What an accepted report guarantees\<close>

lemma require_Inr [simp]: "require ok m = Inr u \<longleftrightarrow> ok"
  by (simp add: require_def)

lemma cert_mapping_Inr [simp]: "cert_mapping v field = Inr d \<longleftrightarrow> v = PDict d"
  by (cases v) (auto simp: cert_mapping_def)

lemma cert_positive_int_Inr [simp]: "cert_positive_int v field = Inr i \<longleftrightarrow> v = PInt i \<and> 0 < i"
  by (cases v) (auto simp: cert_positive_int_def)

lemma cert_nonnegative_int_Inr [simp]: "cert_nonnegative_int v field = Inr i \<longleftrightarrow> v = PInt i \<and> 0 \<le> i"
  by (cases v) (auto simp: cert_nonnegative_int_def)

lemma safe_field_Inr:
  "safe_field v field = Inr s \<longleftrightarrow> v = PStr s \<and> py_strip s \<noteq> [] \<and> list_all (\<lambda>c. c \<notin> set s) unsafe_chars"
  by (cases v) (auto simp: safe_field_def list_ex_iff list_all_iff)

lemma check_fields_Inr:
  "check_fields check prefix d names = Inr u \<longleftrightarrow> (\<forall>f \<in> set names. \<exists>x. check (d_get d f) (fmt [prefix, f]) = Inr x)"
  by (induction names) (auto simp: check_fields_def and_then_Inr_iff)

definition rank_dict :: "pyval \<Rightarrow> pydict" where
  "rank_dict v = (case v of PDict d \<Rightarrow> d | _ \<Rightarrow> [])"

lemma rank_dict_PDict [simp]: "rank_dict (PDict d) = d"
  by (simp add: rank_dict_def)

definition rank_no :: "pyval \<Rightarrow> int" where "rank_no v = int_of (d_get (rank_dict v) ''rank'')"

definition rank_binding :: "pyval \<Rightarrow> string" where "rank_binding v = str_of (d_get (rank_dict v) ''binding_id'')"

definition certified_device :: "pyval \<Rightarrow> int" where "certified_device v = int_of (d_get (rank_dict v) ''device_id'')"

definition sub_dict :: "pydict \<Rightarrow> string \<Rightarrow> pydict" where "sub_dict d k = rank_dict (d_get d k)"

definition evidence_of :: "pyval \<Rightarrow> string \<Rightarrow> pydict" where
  "evidence_of v gate = sub_dict (sub_dict (sub_dict (rank_dict v) ''gates'') gate) ''evidence''"

text \<open>
  The pool of a rank was filled with the sentinel over all its bytes, and the native writer
  changed it.
\<close>

definition pool_rewritten :: "(nat list \<Rightarrow> string) \<Rightarrow> nat \<Rightarrow> pyval \<Rightarrow> bool" where
  "pool_rewritten sha n v \<longleftrightarrow>
     d_get (evidence_of v ''allocator_attachment'') ''raw_sha256_before_write'' = PStr (sha (replicate n 0x5A)) \<and>
     d_get (evidence_of v ''backend_native_write'') ''raw_sha256_after_write'' \<noteq> PStr (sha (replicate n 0x5A))"

lemma item_dict: "item (PDict d) k = Inr x \<longleftrightarrow> map_of d k = Some x"
  by (auto simp: item_def split: option.splits)

lemma gate_evidence_Inr:
  assumes "gate_evidence gates name index = Inr e"
  shows "sub_dict (sub_dict gates name) ''evidence'' = e"
  using assms
  by (auto simp: gate_evidence_def Let_def and_then_Inr_iff item_dict sub_dict_def rank_dict_def d_get_def)

lemma check_hashes_Inr:
  assumes "check_hashes sha gates geometry index k = Inr u" and "d_get (rank_dict v) ''gates'' = PDict gates"
  shows "pool_rewritten sha (nat (int_of (d_get geometry ''allocation_bytes''))) v"
proof -
  let ?s = "sha (replicate (nat (int_of (d_get geometry ''allocation_bytes''))) 0x5A)"
  from assms(1) obtain a w before after where
    e: "gate_evidence gates ''allocator_attachment'' index = Inr a" "gate_evidence gates ''backend_native_write'' index = Inr w"
    and h: "map_of a ''raw_sha256_before_write'' = Some before" "py_eq before (PStr ?s)"
      "map_of w ''raw_sha256_after_write'' = Some after" "\<not> py_eq after before"
    unfolding check_hashes_def and_then_Inr_iff item_dict require_Inr by blast
  have g: "sub_dict (rank_dict v) ''gates'' = gates" using assms(2) by (simp add: sub_dict_def rank_dict_def)
  have "before = PStr ?s" using h(2) by simp
  then show ?thesis
    using h g gate_evidence_Inr [OF e(1)] gate_evidence_Inr [OF e(2)]
    by (auto simp: pool_rewritten_def evidence_of_def d_get_def)
qed

text \<open>
  What a rank of an accepted report has shown: it passed, each of its three gates passed, the whole
  allocation was imported and every guard byte was checked, the native writer changed the pool, and
  all lifecycle checks hold.
\<close>

definition RANK_GATES :: "string list" where
  "RANK_GATES = [''allocator_attachment'', ''backend_native_write'', ''backend_native_read'']"

definition gate_passed :: "pydict \<Rightarrow> string \<Rightarrow> bool" where
  "gate_passed d name \<longleftrightarrow> d_get (sub_dict (sub_dict d ''gates'') name) ''passed'' = PBool True"

definition rank_certified :: "(nat list \<Rightarrow> string) \<Rightarrow> pydict \<Rightarrow> pyval \<Rightarrow> bool" where
  "rank_certified sha geometry v \<longleftrightarrow>
     d_get (rank_dict v) ''passed'' = PBool True \<and>
     (\<forall>name \<in> set RANK_GATES. gate_passed (rank_dict v) name) \<and>
     d_get (evidence_of v ''allocator_attachment'') ''imported_bytes'' = PInt (int_of (d_get geometry ''allocation_bytes'')) \<and>
     d_get (evidence_of v ''backend_native_write'') ''guard_bytes_checked'' =
       PInt (int_of (d_get geometry ''guard_bytes_per_block'') * int_of (d_get geometry ''num_blocks'')) \<and>
     pool_rewritten sha (nat (int_of (d_get geometry ''allocation_bytes''))) v \<and>
     (\<forall>f \<in> set LIFECYCLE_FIELDS. d_get (sub_dict (rank_dict v) ''lifecycle'') f = PBool True)"

lemma fold_check_Inr: "fold_r (\<lambda>_ f. check f) () fs = Inr u \<longleftrightarrow> (\<forall>f \<in> set fs. check f = Inr ())"
  by (induction fs) (auto simp: and_then_Inr_iff)

lemma rank_gate_Inr:
  assumes "rank_gate gates geometry index k u name = Inr w"
  obtains gate evidence where "d_get gates name = PDict gate" "d_get gate ''passed'' = PBool True"
    "d_get gate ''evidence'' = PDict evidence" "validate_rank_gate_evidence name evidence geometry index = Inr ()"
  using assms by (auto simp: rank_gate_def Let_def and_then_Inr_iff)

lemma rank_gates_Inr:
  assumes run: "fold_r (rank_gate gates geometry index k) () RANK_GATES = Inr u"
    and v: "d_get (rank_dict v) ''gates'' = PDict gates"
  shows "(\<forall>name \<in> set RANK_GATES. gate_passed (rank_dict v) name) \<and>
    d_get (evidence_of v ''allocator_attachment'') ''imported_bytes'' = PInt (int_of (d_get geometry ''allocation_bytes'')) \<and>
    d_get (evidence_of v ''backend_native_write'') ''guard_bytes_checked'' =
      PInt (int_of (d_get geometry ''guard_bytes_per_block'') * int_of (d_get geometry ''num_blocks''))"
proof -
  have sub: "sub_dict (rank_dict v) ''gates'' = gates" using v by (simp add: sub_dict_def)
  have each: "rank_gate gates geometry index k () name = Inr ()" if "name \<in> set RANK_GATES" for name
    using run that by (auto simp: RANK_GATES_def and_then_Inr_iff)
  have "gate_passed (rank_dict v) name" if "name \<in> set RANK_GATES" for name
    by (rule rank_gate_Inr [OF each [OF that]]) (simp add: gate_passed_def sub sub_dict_def [of gates])
  moreover have "d_get (evidence_of v ''allocator_attachment'') ''imported_bytes'' = PInt (int_of (d_get geometry ''allocation_bytes''))"
    by (rule rank_gate_Inr [OF each [of "''allocator_attachment''"]])
      (auto simp: RANK_GATES_def evidence_of_def sub_dict_def v validate_rank_gate_evidence_def Let_def
        allocator_evidence_ok_def and_then_Inr_iff)
  moreover have "d_get (evidence_of v ''backend_native_write'') ''guard_bytes_checked'' =
      PInt (int_of (d_get geometry ''guard_bytes_per_block'') * int_of (d_get geometry ''num_blocks''))"
    by (rule rank_gate_Inr [OF each [of "''backend_native_write''"]])
      (auto simp: RANK_GATES_def evidence_of_def sub_dict_def v validate_rank_gate_evidence_def Let_def
        write_evidence_ok_def and_then_Inr_iff)
  ultimately show ?thesis by blast
qed

lemma certify_rank_Inr:
  assumes "certify_rank sha geometry w devices (a, b, c) (i, v) = Inr (a', b', c')"
  shows "rank_no v \<notin> a \<and> 0 \<le> rank_no v \<and> rank_no v < w \<and> a' = insert (rank_no v) a \<and>
    rank_binding v \<notin> b \<and> b' = insert (rank_binding v) b \<and>
    certified_device v \<notin> c \<and> certified_device v \<in> set devices \<and> c' = insert (certified_device v) c \<and>
    rank_certified sha geometry v"
proof -
  from assms obtain d n bind dev gates u g l where
    f: "v = PDict d" "d_get d ''rank'' = PInt n" "0 \<le> n" "\<not> (n \<ge> w \<or> n \<in> a)"
      "d_get d ''binding_id'' = PStr bind" "bind \<notin> b"
      "d_get d ''device_id'' = PInt dev" "\<not> (dev \<in> c \<or> dev \<notin> set devices)"
      "d_get d ''passed'' = PBool True" "d_get d ''gates'' = PDict gates"
    and g: "fold_r (rank_gate gates geometry i n) () RANK_GATES = Inr g"
    and h: "check_hashes sha gates geometry i n = Inr u"
    and l: "d_get d ''lifecycle'' = PDict l"
      "\<exists>x. fold_r (\<lambda>_ f. require (d_get l f = PBool True)
         [''rank '', int_text n, '' has incomplete lifecycle evidence'']) () LIFECYCLE_FIELDS = Inr x"
    and s: "a' = insert n a" "b' = insert bind b" "c' = insert dev c"
    unfolding certify_rank_def Let_def prod.case and_then_Inr_iff require_Inr cert_mapping_Inr
      cert_nonnegative_int_Inr safe_field_Inr RANK_GATES_def [symmetric]
    by auto
  have life: "\<forall>f \<in> set LIFECYCLE_FIELDS. d_get (sub_dict (rank_dict v) ''lifecycle'') f = PBool True"
    using l f(1) by (simp add: fold_check_Inr sub_dict_def)
  have gates: "d_get (rank_dict v) ''gates'' = PDict gates" using f(1,10) by simp
  show ?thesis using f s life check_hashes_Inr [OF h gates] rank_gates_Inr [OF g gates]
    by (simp add: rank_no_def rank_binding_def certified_device_def rank_certified_def)
qed

lemma certify_loop_Inr:
  assumes "fold_r (certify_rank sha geometry w devices) (a, b, c) (enumerate k ranks) = Inr (a', b', c')"
  shows "distinct (map rank_no ranks) \<and> set (map rank_no ranks) \<inter> a = {} \<and> a' = a \<union> set (map rank_no ranks) \<and>
    distinct (map rank_binding ranks) \<and> set (map rank_binding ranks) \<inter> b = {} \<and>
    distinct (map certified_device ranks) \<and> set (map certified_device ranks) \<inter> c = {} \<and> c' = c \<union> set (map certified_device ranks) \<and>
    list_all (rank_certified sha geometry) ranks"
  using assms
proof (induction ranks arbitrary: a b c k)
  case (Cons v ranks)
  obtain a1 b1 c1 where st: "certify_rank sha geometry w devices (a, b, c) (k, v) = Inr (a1, b1, c1)"
    and rest: "fold_r (certify_rank sha geometry w devices) (a1, b1, c1) (enumerate (Suc k) ranks) = Inr (a', b', c')"
    using Cons.prems by (auto simp: and_then_Inr_iff)
  show ?case using certify_rank_Inr [OF st] Cons.IH [OF rest] by auto
qed simp

lemma check_matrix_Inr:
  assumes "check_matrix report = Inr (w, geometry, devices)"
  shows "0 < w \<and> int (length devices) = w \<and> distinct devices \<and>
    d_get (sub_dict report ''matrix'') ''tensor_parallel_world_size'' = PInt w \<and>
    d_get (sub_dict report ''matrix'') ''devices'' = PList (map PInt devices) \<and>
    geometry = sub_dict (sub_dict report ''matrix'') ''cache_geometry'' \<and>
    int_of (d_get geometry ''allocation_bytes'') = int_of (d_get geometry ''num_blocks'') *
      (int_of (d_get geometry ''dense_page_bytes'') + int_of (d_get geometry ''guard_bytes_per_block''))"
proof -
  from assms obtain m raw where m: "d_get report ''matrix'' = PDict m" "0 < w"
      "d_get m ''tensor_parallel_world_size'' = PInt w" "d_get m ''devices'' = PList raw"
      "d_get m ''cache_geometry'' = PDict geometry"
      "int_of (d_get geometry ''padded_page_bytes'') =
         int_of (d_get geometry ''dense_page_bytes'') + int_of (d_get geometry ''guard_bytes_per_block'')"
      "int_of (d_get geometry ''allocation_bytes'') =
         int_of (d_get geometry ''num_blocks'') * int_of (d_get geometry ''padded_page_bytes'')"
    and d: "int (length raw) = w" "int (card (set devices)) = w"
      "traverse (\<lambda>(index, device). cert_nonnegative_int device
                       (fmt [''matrix.devices['', nat_text index, '']''])) (enumerate 0 raw) = Inr devices"
    unfolding check_matrix_def Let_def and_then_Inr_iff case_pyval_Inr_iff by auto
  have "map PInt devices = map snd (enumerate 0 raw)" using d(3) by (rule traverse_map_eq) auto
  then have raw: "raw = map PInt devices" by simp
  then have "distinct devices" using d(1,2) by (intro card_distinct) simp
  then show ?thesis using m d(1) raw by (simp add: sub_dict_def)
qed

lemma check_gates_Inr:
  assumes "check_gates report = Inr u" and "name \<in> set REQUIRED_GATES"
  shows "gate_passed report name"
proof -
  from assms(1) obtain gates x where g: "d_get report ''gates'' = PDict gates"
      "fold_r (check_gate gates) () REQUIRED_GATES = Inr x"
    by (auto simp: check_gates_def Let_def and_then_Inr_iff)
  have "check_gate gates () name = Inr ()"
    using g(2) assms(2) by (auto simp: REQUIRED_GATES_def and_then_Inr_iff)
  then obtain gate where "map_of gates name = Some (PDict gate)" "d_get gate ''passed'' = PBool True"
    by (auto simp: check_gate_def and_then_Inr_iff item_dict)
  then show ?thesis using g(1) by (simp add: gate_passed_def sub_dict_def d_get_def)
qed

text \<open>
  C17. A report that passes covers the declared world exactly once. The world size \<open>w\<close> is
  \<open>matrix.tensor_parallel_world_size\<close>; every required gate of the report passed; there is one
  entry per rank, the rank numbers are \<open>0..w-1\<close>, no two ranks share a physical binding, and the
  devices of the ranks are exactly \<open>matrix.devices\<close>, each once. On every rank all three gates and
  all lifecycle checks passed, the whole allocation was imported, every guard byte was checked, and
  the sentinel covered all bytes of the allocation, which is the number of blocks times page and
  guard bytes, before the native writer changed it.
\<close>

theorem certified_report_covers_world:
  assumes "validate_certification_report sha report = Inr ()"
  defines "matrix \<equiv> sub_dict report ''matrix''"
  defines "geometry \<equiv> sub_dict matrix ''cache_geometry''"
  shows "\<exists>ranks devices w. d_get matrix ''tensor_parallel_world_size'' = PInt (int w) \<and> 0 < w \<and>
    d_get matrix ''devices'' = PList (map PInt devices) \<and> length devices = w \<and>
    (\<forall>name \<in> set REQUIRED_GATES. gate_passed report name) \<and>
    d_get report ''ranks'' = PList ranks \<and> length ranks = w \<and>
    distinct (map rank_no ranks) \<and> set (map rank_no ranks) = {0..<int w} \<and>
    distinct (map rank_binding ranks) \<and>
    distinct (map certified_device ranks) \<and> set (map certified_device ranks) = set devices \<and>
    int_of (d_get geometry ''allocation_bytes'') = int_of (d_get geometry ''num_blocks'') *
      (int_of (d_get geometry ''dense_page_bytes'') + int_of (d_get geometry ''guard_bytes_per_block'')) \<and>
    list_all (rank_certified sha geometry) ranks"
proof -
  from assms(1) obtain w g devices ranks a b c u where
    m: "check_matrix report = Inr (w, g, devices)" and gates: "check_gates report = Inr u"
    and r: "d_get report ''ranks'' = PList ranks" "int (length ranks) = w"
    and loop: "fold_r (certify_rank sha g w devices) ({}, {}, {}) (enumerate 0 ranks) = Inr (a, b, c)"
    and cover: "a = set [0..w - 1]" "c = set devices"
    unfolding validate_certification_report_def and_then_Inr_iff case_prod_Inr_iff case_pyval_Inr_iff require_Inr
    by auto
  note x = check_matrix_Inr [OF m] and l = certify_loop_Inr [OF loop]
  have nos: "set (map rank_no ranks) = {0..<int (length ranks)}" using l cover(1) r(2) by (auto simp: set_eq_iff)
  have devs: "set (map certified_device ranks) = set devices" using l cover(2) by simp
  have len: "length devices = length ranks" using x r(2) by linarith
  have passed: "\<forall>name \<in> set REQUIRED_GATES. gate_passed report name" using check_gates_Inr [OF gates] by blast
  have g: "g = geometry" using x unfolding geometry_def matrix_def by blast
  have acc: "int_of (d_get geometry ''allocation_bytes'') = int_of (d_get geometry ''num_blocks'') *
      (int_of (d_get geometry ''dense_page_bytes'') + int_of (d_get geometry ''guard_bytes_per_block''))"
    using x unfolding g by blast
  have ranks: "list_all (rank_certified sha geometry) ranks" "ranks \<noteq> []" using l x r(2) unfolding g by auto
  show ?thesis
    by (rule exI [of _ ranks], rule exI [of _ devices], rule exI [of _ "length ranks"], intro conjI)
      (use r x l nos devs len passed acc ranks in \<open>simp_all add: matrix_def\<close>)
qed

text \<open>
  The report of a failed probe can never authorize anything: whatever profile, environment,
  matrix and rank evidence it carries, validation raises and no allowlist entry is produced.
\<close>

theorem failed_report_never_certified:
  "(\<exists>e. validate_certification_report sha (failed_report profile environment matrix ranks error) = Inl e) \<and>
   (\<exists>e. allowlist_entry fr sha (failed_report profile environment matrix ranks error) = Inl e)"
proof -
  have "\<exists>e. check_header (failed_report profile environment matrix ranks error) = Inl e"
    by (simp add: check_header_def failed_report_def d_get_def and_then_def require_def split: sum.splits)
  then obtain e where "check_header (failed_report profile environment matrix ranks error) = Inl e" ..
  then show ?thesis by (simp add: validate_certification_report_def allowlist_entry_def)
qed

lemma profile_fields_safe:
  assumes "check_header report = Inr u" and "f \<in> set PROFILE_FIELDS"
  shows "\<exists>s. d_get (sub_dict report ''profile'') f = PStr s \<and> CHR '','' \<notin> set s"
proof -
  from assms(1) obtain p where p: "d_get report ''profile'' = PDict p"
    "\<exists>x. check_fields safe_field ''profile.'' p PROFILE_FIELDS = Inr x"
    unfolding check_header_def and_then_Inr_iff PROFILE_FIELDS_def by auto
  then obtain s where "safe_field (d_get p f) (fmt [''profile.'', f]) = Inr s"
    using assms(2) by (auto simp: check_fields_Inr)
  then show ?thesis using p(1) by (auto simp: sub_dict_def safe_field_Inr unsafe_chars_def)
qed

text \<open>
  An allowlist entry determines the certified profile: splitting it at its commas gives back
  exactly the four profile fields of the report, so no field can smuggle in another.
\<close>

theorem allowlist_entry_roundtrip:
  assumes "allowlist_entry fr sha report = Inr entry"
  shows "map PStr (split_on CHR '','' entry) = map (d_get (sub_dict report ''profile'')) PROFILE_FIELDS"
proof -
  from assms obtain p parts where v: "validate_certification_report sha report = Inr ()"
    and p: "map_of report ''profile'' = Some (PDict p)"
    and parts: "traverse (\<lambda>f. str_item fr (PDict p) f) PROFILE_FIELDS = Inr parts"
    and e: "entry = join_with '','' parts"
    unfolding allowlist_entry_def and_then_Inr_iff item_dict cert_mapping_Inr by auto
  have h: "check_header report = Inr ()" using v by (auto simp: validate_certification_report_def and_then_Inr_iff)
  have sub: "sub_dict report ''profile'' = p" using p by (simp add: sub_dict_def d_get_def)
  have each: "d_get p f = PStr t \<and> CHR '','' \<notin> set t"
    if f: "f \<in> set PROFILE_FIELDS" and t: "str_item fr (PDict p) f = Inr t" for f t
  proof -
    obtain s where s: "d_get p f = PStr s" "CHR '','' \<notin> set s"
      using profile_fields_safe [OF h f] by (auto simp: sub)
    from t obtain x where "map_of p f = Some x" "t = py_str fr x" by (auto simp: str_item_def and_then_Inr_iff item_dict)
    then show ?thesis using s by (simp add: d_get_def)
  qed
  have "map PStr parts = map (d_get p) PROFILE_FIELDS"
    using parts by (rule traverse_map_eq) (simp add: each)
  moreover have "\<forall>t \<in> set parts. CHR '','' \<notin> set t"
    using traverse_set [OF parts] each by blast
  moreover have "parts \<noteq> []" using traverse_length [OF parts] by (auto simp: PROFILE_FIELDS_def)
  ultimately show ?thesis using e split_join [of parts "CHR '',''"] sub by simp
qed

subsection \<open>Atomicity\<close>

lemma os_call_files: "os_call s = (s', r) \<Longrightarrow> fs_files s' = fs_files s"
  by (auto simp: os_call_def split: list.splits option.splits)

text \<open>\<open>touches P s s'\<close>: the files outside \<open>P\<close> are unchanged.\<close>

definition touches :: "string set \<Rightarrow> files \<Rightarrow> files \<Rightarrow> bool" where
  "touches P s s' \<longleftrightarrow> (\<forall>p. p \<notin> P \<longrightarrow> map_of (fs_files s') p = map_of (fs_files s) p)"

lemma touches_refl: "touches P s s"
  by (simp add: touches_def)

lemma touches_trans: "touches P s t \<Longrightarrow> touches P t u \<Longrightarrow> touches P s u"
  by (simp add: touches_def)

lemma touches_os_call: "os_call s = (s', r) \<Longrightarrow> touches P s s'"
  by (simp add: touches_def os_call_files)

lemma touches_write:
  "write_file path data s = (s', r) \<Longrightarrow> touches {path} s s' \<and> (r = Inr () \<longrightarrow> map_of (fs_files s') path = Some data)"
  by (auto simp: write_file_def touches_def update_conv' split: list.splits option.splits)

lemma touches_unlink: "unlink_file path s = (s', r) \<Longrightarrow> touches {path} s s'"
  by (auto simp: unlink_file_def touches_def delete_conv' bind_def modify_def split: prod.splits sum.splits
      dest!: os_call_files)

lemma replace_cases:
  assumes "replace_file source destination s = (s', r)" and "source \<noteq> destination"
  shows "(\<exists>e. r = Inl e \<and> fs_files s' = fs_files s) \<or>
    (\<exists>data. r = Inr () \<and> map_of (fs_files s) source = Some data \<and>
       map_of (fs_files s') = (map_of (fs_files s))(source := None, destination \<mapsto> data))"
  using assms
  by (auto simp: replace_file_def bind_def gets_def lift_def modify_def update_conv' delete_conv'
      split: prod.splits sum.splits option.splits dest!: os_call_files)

definition write_body :: "string \<Rightarrow> string \<Rightarrow> string \<Rightarrow> (files, unit) eff" where
  "write_body temporary destination data =
     bind (write_file temporary data) (\<lambda>_.
     bind os_call (\<lambda>_.
     bind os_call (\<lambda>_.
     bind os_call (\<lambda>_.
     replace_file temporary destination))))"

lemma write_body_cases:
  assumes "write_body temp dest data s = (s', r)" and "temp \<noteq> dest"
  shows "(\<exists>e. r = Inl e \<and> touches {temp} s s') \<or>
    (r = Inr () \<and> map_of (fs_files s') = (map_of (fs_files s))(temp := None, dest \<mapsto> data))"
proof (cases r)
  case (Inl e)
  from assms(1)[unfolded write_body_def Inl] show ?thesis
    unfolding Inl bind_Inl_iff
    using replace_cases [OF _ assms(2)]
    by (fastforce simp: touches_def dest!: touches_write os_call_files)
next
  case (Inr u)
  from assms(1)[unfolded write_body_def Inr bind_Inr_iff] obtain s1 s2 s3 where
    w: "write_file temp data s = (s1, Inr ())" and o: "fs_files s3 = fs_files s1"
    and rp: "replace_file temp dest s3 = (s', Inr u)"
    by (auto dest!: os_call_files)
  have t: "touches {temp} s s1" "map_of (fs_files s1) temp = Some data" using touches_write [OF w] by simp_all
  from replace_cases [OF rp assms(2)] have
    "map_of (fs_files s') = (map_of (fs_files s1))(temp := None, dest \<mapsto> data)"
    using o t(2) by auto
  also have "\<dots> = (map_of (fs_files s))(temp := None, dest \<mapsto> data)"
    using t(1) by (auto simp: touches_def fun_eq_iff)
  finally show ?thesis using Inr by simp
qed

text \<open>
  C37. A destination file is replaced completely or not at all, at whichever operating-system call
  the replacement fails: on return it holds exactly the new data and the temporary file is gone,
  on a raise it holds what it held before, and no other file is touched.
\<close>

theorem write_atomic_all_or_nothing:
  assumes "write_atomic temp_name dest data s = (s', r)"
    and "temp_name (fs_files s) dest \<notin> fst ` set (fs_files s)" and "temp_name (fs_files s) dest \<noteq> dest"
  shows "map_of (fs_files s') dest = (case r of Inr _ \<Rightarrow> Some data | Inl _ \<Rightarrow> map_of (fs_files s) dest) \<and>
    touches {dest, temp_name (fs_files s) dest} s s' \<and>
    (isl r \<or> map_of (fs_files s') (temp_name (fs_files s) dest) = None)"
proof -
  define temp where "temp = temp_name (fs_files s) dest"
  have ne: "temp \<noteq> dest" using assms(3) by (simp add: temp_def)
  have run: "write_atomic temp_name dest data s =
      bind os_call (\<lambda>_.
      bind (modify (\<lambda>s. s\<lparr>fs_files := AList.update temp [] (fs_files s)\<rparr>)) (\<lambda>_.
      try_except (write_body temp dest data) (\<lambda>e. bind (unlink_file temp) (\<lambda>_. lift (Inl e))))) s"
    by (simp add: write_atomic_def write_body_def temp_def Let_def bind_Inr [where m = "gets fs_files", OF gets_eq])
  obtain s1 r1 where c: "os_call s = (s1, r1)" by fastforce
  note f = os_call_files [OF c]
  show ?thesis
  proof (cases r1)
    case (Inl e)
    then show ?thesis using assms(1) run c f ne by (auto simp: bind_def touches_def)
  next
    case (Inr u)
    define s2 where "s2 = s1\<lparr>fs_files := AList.update temp [] (fs_files s1)\<rparr>"
    have s2: "map_of (fs_files s2) = (map_of (fs_files s))(temp \<mapsto> [])" by (simp add: s2_def f update_conv')
    obtain s3 r3 where b: "write_body temp dest data s2 = (s3, r3)" by fastforce
    have out: "(s', r) = (case r3 of Inl e \<Rightarrow> bind (unlink_file temp) (\<lambda>_. lift (Inl e)) s3 | Inr x \<Rightarrow> (s3, Inr x))"
      using assms(1) run c Inr b by (auto simp: bind_def modify_def try_except_def s2_def [symmetric] split: sum.splits)
    from write_body_cases [OF b ne] show ?thesis
    proof (elim disjE exE conjE)
      fix e assume r3: "r3 = Inl e" and t: "touches {temp} s2 s3"
      obtain s4 r4 where u: "unlink_file temp s3 = (s4, r4)" by fastforce
      have "s' = s4 \<and> isl r" using out r3 u by (auto simp: bind_def lift_def split: sum.splits)
      moreover have "touches {temp} s s4"
        using t touches_unlink [OF u] s2 by (simp add: touches_def)
      ultimately show ?thesis
        using ne by (cases r) (auto simp: touches_def temp_def [symmetric])
    next
      assume "r3 = Inr ()" and m: "map_of (fs_files s3) = (map_of (fs_files s2))(temp := None, dest \<mapsto> data)"
      then have "s' = s3 \<and> r = Inr ()" using out by simp
      then show ?thesis using m s2 ne by (auto simp: touches_def temp_def [symmetric])
    qed
  qed
qed

subsection \<open>Witnesses\<close>

definition sample_sha :: "nat list \<Rightarrow> string" where
  "sample_sha bytes = replicate 64 CHR ''0''"

definition sample_gate :: "pydict \<Rightarrow> pyval" where
  "sample_gate evidence = PDict [(''passed'', PBool True), (''evidence'', PDict evidence)]"

definition sample_rank_report :: pyval where
  "sample_rank_report = PDict
     [(''rank'', PInt 0), (''binding_id'', PStr ''b0''), (''device_id'', PInt 3), (''passed'', PBool True),
      (''device'', PDict [(''name'', PStr ''gpu''), (''compute_capability'', PStr ''9''), (''total_memory_bytes'', PInt 80)]),
      (''gates'', PDict
        [(''allocator_attachment'', sample_gate
            [(''allocator_poisoned'', PBool True), (''pytorch_cuda_allocation_delta_bytes'', PInt 0),
             (''imported_bytes'', PInt 10), (''view_count'', PInt 1),
             (''raw_sha256_before_write'', PStr (replicate 64 CHR ''0''))]),
         (''backend_native_write'', sample_gate
            [(''native_function'', PStr ''w''), (''raw_sha256_after_write'', PStr (replicate 63 CHR ''0'' @ ''1'')),
             (''guard_bytes_checked'', PInt 2), (''prefill_tokens'', PInt 1), (''decode_writes'', PInt 2),
             (''maximum_block_index'', PInt 1), (''production_implementation_binding'', PBool True)]),
         (''backend_native_read'', sample_gate
            [(''native_function'', PStr ''r''), (''implementation'', PStr ''fa''), (''flash_attention_version'', PInt 3),
             (''causal_mutation_max_delta'', PFloat (Finite 1)), (''production_implementation_binding'', PBool True)])]),
      (''lifecycle'', PDict (map (\<lambda>f. (f, PBool True)) LIFECYCLE_FIELDS))]"

definition sample_report :: pydict where
  "sample_report =
     [(''schema_version'', PInt 1), (''status'', PStr ''passed''),
      (''profile'', PDict (map (\<lambda>f. (f, PStr f)) PROFILE_FIELDS)),
      (''environment'', PDict
        (map (\<lambda>f. (f, PStr (''sha256:'' @ replicate 64 CHR ''0''))) [''adapter_build_id'', ''backend_build_id'', ''runtime_build_id''] @
         map (\<lambda>f. (f, PStr ''1'')) [''torch_version'', ''cuda_runtime_version'', ''cuda_driver_version''])),
      (''matrix'', PDict
        [(''tensor_parallel_world_size'', PInt 1), (''attention_backend'', PStr ''f''), (''kv_layout'', PStr ''l''),
         (''dtype'', PStr ''d''), (''devices'', PList [PInt 3]),
         (''cache_geometry'', PDict
           [(''num_blocks'', PInt 2), (''block_size'', PInt 1), (''num_kv_heads'', PInt 1), (''num_query_heads'', PInt 1),
            (''head_size'', PInt 1), (''dense_page_bytes'', PInt 4), (''guard_bytes_per_block'', PInt 1),
            (''padded_page_bytes'', PInt 5), (''allocation_bytes'', PInt 10)])]),
      (''gates'', PDict (map (\<lambda>f. (f, PDict [(''passed'', PBool True), (''evidence'', PStr ''e'')])) REQUIRED_GATES)),
      (''ranks'', PList [sample_rank_report])]"

lemma sample_report_passes: "validate_certification_report sample_sha sample_report = Inr ()"
  by code_simp

theorem certified_report_covers_world_witness:
  "validate_certification_report sample_sha sample_report = Inr () \<and>
   (\<exists>ranks. d_get sample_report ''ranks'' = PList ranks \<and> length ranks = 1 \<and> set (map rank_no ranks) = {0} \<and>
      set (map certified_device ranks) = {3} \<and> (\<forall>name \<in> set REQUIRED_GATES. gate_passed sample_report name) \<and>
      list_all (rank_certified sample_sha (sub_dict (sub_dict sample_report ''matrix'') ''cache_geometry'')) ranks)"
proof -
  have m: "d_get (sub_dict sample_report ''matrix'') ''tensor_parallel_world_size'' = PInt 1"
    "d_get (sub_dict sample_report ''matrix'') ''devices'' = PList [PInt 3]" by code_simp+
  obtain ranks devices w where c: "d_get (sub_dict sample_report ''matrix'') ''tensor_parallel_world_size'' = PInt (int w)"
    "d_get (sub_dict sample_report ''matrix'') ''devices'' = PList (map PInt devices)"
    "\<forall>name \<in> set REQUIRED_GATES. gate_passed sample_report name"
    "d_get sample_report ''ranks'' = PList ranks" "length ranks = w" "set (map rank_no ranks) = {0..<int w}"
    "set (map certified_device ranks) = set devices"
    "list_all (rank_certified sample_sha (sub_dict (sub_dict sample_report ''matrix'') ''cache_geometry'')) ranks"
    using certified_report_covers_world [OF sample_report_passes] by (elim exE conjE)
  have "w = 1" "devices = [3]" using c(1,2) m by auto
  then show ?thesis using c(3-8) sample_report_passes by (auto intro!: exI [of _ ranks])
qed

theorem allowlist_entry_roundtrip_witness:
  "\<exists>entry. allowlist_entry (\<lambda>_. []) sample_sha sample_report = Inr entry \<and>
     map PStr (split_on CHR '','' entry) = map (d_get (sub_dict sample_report ''profile'')) PROFILE_FIELDS"
proof -
  have "map_sum exn_msg (\<lambda>_. ()) (allowlist_entry (\<lambda>_. []) sample_sha sample_report) = Inr ()" by code_simp
  then obtain entry where e: "allowlist_entry (\<lambda>_. []) sample_sha sample_report = Inr entry"
    by (cases "allowlist_entry (\<lambda>_. []) sample_sha sample_report") auto
  with allowlist_entry_roundtrip [OF e] show ?thesis by (intro exI [of _ entry]) simp
qed

definition sample_files :: files where
  "sample_files = \<lparr>fs_files = [(''out'', ''old'')], fs_script = [None, None, Some (Exn OSError ''disk full'', 0)]\<rparr>"

theorem write_atomic_all_or_nothing_witness:
  "case write_atomic (\<lambda>_ d. CHR ''.'' # d) ''out'' ''new'' sample_files of (s', r) \<Rightarrow>
     isl r \<and> map_of (fs_files s') ''out'' = Some ''old''"
proof -
  let ?run = "write_atomic (\<lambda>_ d. CHR ''.'' # d) ''out'' ''new'' sample_files"
  obtain s' r where run: "?run = (s', r)" by fastforce
  have "isl (snd ?run)" by code_simp
  then have "isl r" by (simp add: run)
  moreover have "map_of (fs_files s') ''out'' = Some ''old''"
    using write_atomic_all_or_nothing [OF run] \<open>isl r\<close> by (auto simp: sample_files_def isl_def)
  ultimately show ?thesis by (simp add: run)
qed

end
