(* ===== verification/Plan_Cli.thy ===== *)
theory Plan_Cli
  imports Py_Text Sizing Connector_Config "HOL-Library.AList"
begin

text \<open>
  The planner's command line (\<open>plan.py\<close>): operator arguments, the geometry obtained from a
  running vLLM executor, the redirection of runtime logs away from standard output, and the
  documents and exit codes of \<open>run\<close>.

  What argparse made of the command line is an argument (\<open>parsed\<close>, whose errors are
  \<open>PlanningError\<close>s). vLLM's seam is the record \<open>planner_apis\<close> of effects on an arbitrary
  runtime state. The process has a descriptor table, a log of what was written to which file and
  a script of the outcomes of the next operating-system calls.

  The lemmas show that the executor is always released, that what the executor provider returns
  is what the command asked for, and that standard output carries the plan alone.
\<close>

subsection \<open>Arguments\<close>

record arguments =
  ar_print_schema :: bool
  ar_print_error_schema :: bool
  ar_model :: "string option"
  ar_model_fingerprint :: "string option"
  ar_max_model_len :: "int option"
  ar_tensor_parallel_size :: int
  ar_attention_backend :: string
  ar_devices :: "string option"
  ar_target_concurrency :: int
  ar_maximum_concurrency :: "int option"
  ar_headroom_percent :: int
  ar_prefix_blocks :: int
  ar_alignment_blocks :: int
  ar_min_bytes :: "int option"
  ar_max_bytes :: "int option"
  ar_strict_concurrency :: bool
  ar_live_resize :: bool

record planning_request =
  rq_model_path :: string
  rq_model_fingerprint :: string
  rq_max_model_len :: int
  rq_tensor_parallel_size :: int
  rq_attention_backend :: string
  rq_device_ids :: "int list"
  rq_live_resize :: bool

definition MAX_TENSOR_PARALLEL_SIZE :: int where "MAX_TENSOR_PARALLEL_SIZE = 1024"

definition required_text :: "string option \<Rightarrow> string \<Rightarrow> string result" where
  "required_text v flag =
     (case v of
        Some s \<Rightarrow> if py_strip s = [] then Raise PlanningError (fmt [flag, '' is required'']) else Inr s
      | None \<Rightarrow> Raise PlanningError (fmt [flag, '' is required'']))"

definition required_number :: "int option \<Rightarrow> string \<Rightarrow> int result" where
  "required_number v flag =
     (case v of Some n \<Rightarrow> Inr n | None \<Rightarrow> Raise PlanningError (fmt [flag, '' is required'']))"

definition parse_device :: "string \<Rightarrow> int result" where
  "parse_device t =
     (case parse_int 10 (py_strip t) of
        Some i \<Rightarrow> Inr i
      | None \<Rightarrow> Raise PlanningError ''--devices must be a comma-separated integer list'')"

definition cli_device_ids :: "string option \<Rightarrow> int \<Rightarrow> int list result" where
  "cli_device_ids raw world_size =
     (if world_size \<le> 0 \<or> world_size > MAX_TENSOR_PARALLEL_SIZE
      then Raise PlanningError (fmt [''--tensor-parallel-size must be between 1 and '',
             int_text MAX_TENSOR_PARALLEL_SIZE])
      else case raw of
        None \<Rightarrow> Inr [0..world_size - 1]
      | Some text_list \<Rightarrow>
          and_then (traverse parse_device (split_on CHR '','' text_list)) (\<lambda>devices.
          if int (length devices) \<noteq> world_size \<or> list_ex (\<lambda>d. d < 0) devices \<or>
             list_ex (\<lambda>d. d > UINT64_MAX) devices \<or> card (set devices) \<noteq> length devices
          then Raise PlanningError ''--devices must name one distinct uint64 device per tensor-parallel rank''
          else Inr devices))"

definition cli_request :: "(string \<Rightarrow> string) \<Rightarrow> arguments \<Rightarrow> planning_request result" where
  "cli_request resolve_path args =
     and_then (required_text (ar_model args) ''--model'') (\<lambda>model.
     and_then (required_text (ar_model_fingerprint args) ''--model-fingerprint'') (\<lambda>fingerprint.
     and_then (required_number (ar_max_model_len args) ''--max-model-len'') (\<lambda>max_model_len.
     if max_model_len \<le> 0 then Raise PlanningError ''--max-model-len must be positive''
     else if max_model_len > UINT64_MAX
     then Raise PlanningError ''--max-model-len exceeds the planner uint64 limit''
     else if py_upper (py_strip (ar_attention_backend args)) \<noteq> ''FLASH_ATTN''
     then Raise PlanningError ''the current certified shared-pool profile requires FLASH_ATTN''
     else
     and_then (cli_device_ids (ar_devices args) (ar_tensor_parallel_size args)) (\<lambda>devices.
       Inr \<lparr>rq_model_path = resolve_path model, rq_model_fingerprint = fingerprint,
            rq_max_model_len = max_model_len, rq_tensor_parallel_size = ar_tensor_parallel_size args,
            rq_attention_backend = ''FLASH_ATTN'', rq_device_ids = devices,
            rq_live_resize = ar_live_resize args\<rparr>))))"

definition cli_sizing_policy :: "arguments \<Rightarrow> sizing_policy result" where
  "cli_sizing_policy args =
     mk_SizingPolicy (PInt (ar_target_concurrency args)) (opt_val (ar_maximum_concurrency args))
       (PInt (ar_headroom_percent args)) (PInt (ar_prefix_blocks args)) (PInt (ar_alignment_blocks args))
       (opt_val (ar_min_bytes args)) (opt_val (ar_max_bytes args)) (PBool (ar_strict_concurrency args))"

subsection \<open>Geometry from the executor\<close>

record 'w planner_apis =
  pa_engine_config :: "pydict \<Rightarrow> ('w, pyval) eff"
  pa_executor :: "pyval \<Rightarrow> ('w, nat) eff"
  pa_register_specs :: "pyval \<Rightarrow> ('w, unit) eff"
  pa_specs :: "nat \<Rightarrow> ('w, pyval) eff"
  pa_layouts :: "nat \<Rightarrow> ('w, pyval) eff"
  pa_resolve_layout :: "pyval \<Rightarrow> pyval \<Rightarrow> pyval list \<Rightarrow> ('w, pyval) eff"
  pa_set_layout :: "nat \<Rightarrow> string \<Rightarrow> ('w, unit) eff"
  pa_groups :: "pyval \<Rightarrow> pydict \<Rightarrow> ('w, pyval) eff"
  pa_configs :: "pyval \<Rightarrow> pyval list \<Rightarrow> int list \<Rightarrow> ('w, pyval) eff"
  pa_pool_bytes :: "pyval list \<Rightarrow> ('w, pyval) eff"
  pa_max_memory :: "pyval \<Rightarrow> pyval list \<Rightarrow> ('w, pyval) eff"
  pa_shutdown :: "nat \<Rightarrow> ('w, unit) eff"
  pa_classifier :: "classifier option"

abbreviation Unavailable :: "string list \<Rightarrow> 'a result" where
  "Unavailable m \<equiv> Raise RuntimeGeometryUnavailable (fmt m)"

definition is_planning_error :: "exn \<Rightarrow> bool" where
  "is_planning_error e = (exn_of e = PlanningError \<or> exn_of e = RuntimeGeometryUnavailable)"

definition positive_answer :: "pyval \<Rightarrow> string \<Rightarrow> int result" where
  "positive_answer v message =
     (case v of PInt i \<Rightarrow> if i \<le> 0 then Unavailable [message] else Inr i | _ \<Rightarrow> Unavailable [message])"

definition minimum_planning_memory :: "'w planner_apis \<Rightarrow> pyval \<Rightarrow> pyval list \<Rightarrow> ('w, int) eff" where
  "minimum_planning_memory apis vllm_config kv_cache_groups =
     bind (try_except
         (bind (pa_pool_bytes apis kv_cache_groups) (\<lambda>stride.
          bind (pa_max_memory apis vllm_config kv_cache_groups) (\<lambda>sequence_bytes. ret (stride, sequence_bytes))))
         (\<lambda>e. lift (Unavailable [''pinned vLLM could not size its resolved cache groups: '', exn_msg e])))
       (\<lambda>(raw_stride, raw_sequence).
     bind (lift (positive_answer raw_stride ''pinned vLLM returned a non-positive cache-pool block stride'')) (\<lambda>stride.
     bind (lift (positive_answer raw_sequence
                   ''pinned vLLM returned a non-positive one-sequence cache requirement'')) (\<lambda>sequence_bytes.
     lift (case checked_add sequence_bytes stride ''minimum planning memory'' of
             Inr n \<Rightarrow> Inr n
           | Inl e \<Rightarrow> Unavailable [exn_msg e]))))"

definition set_attr :: "pyval \<Rightarrow> string \<Rightarrow> pyval \<Rightarrow> pyval result" where
  "set_attr x name v =
     (case x of PObj s attrs \<Rightarrow> Inr (PObj s (d_set attrs name v))
      | _ \<Rightarrow> Raise AttributeError ''object does not support attribute assignment'')"

definition engine_options :: "planning_request \<Rightarrow> pydict" where
  "engine_options request =
     [(''model'', PStr (rq_model_path request)), (''max_model_len'', PInt (rq_max_model_len request)),
      (''tensor_parallel_size'', PInt (rq_tensor_parallel_size request)),
      (''attention_backend'', PStr (rq_attention_backend request)), (''enforce_eager'', PBool True),
      (''gpu_memory_utilization'', PFloat (Finite (1 / 10 ^ 9)))] @
     (if rq_live_resize request then [(''async_scheduling'', PBool False)] else [])"

text \<open>\<open>vllm_config.cache_config.kv_cache_layout = "BLNHC"\<close>.\<close>

definition force_layout :: "pyval \<Rightarrow> pyval result" where
  "force_layout vllm_config =
     (case vllm_config of
        PObj _ attrs \<Rightarrow>
          (case map_of attrs ''cache_config'' of
             Some cache_config \<Rightarrow>
               and_then (set_attr cache_config ''kv_cache_layout'' (PStr ''BLNHC'')) (\<lambda>updated.
                 set_attr vllm_config ''cache_config'' updated)
           | None \<Rightarrow> Raise AttributeError ''cache_config'')
      | _ \<Rightarrow> Raise AttributeError ''cache_config'')"

definition spec_dicts :: "pyval \<Rightarrow> int \<Rightarrow> pydict list result" where
  "spec_dicts kv_cache_specs world_size =
     (case kv_cache_specs of
        PList specs \<Rightarrow>
          if int (length specs) \<noteq> world_size \<or> specs = [] \<or> list_ex (\<lambda>s. \<not> is_mapping s \<or> \<not> truthy s) specs
          then Unavailable [''pinned vLLM cache specs do not cover every tensor-parallel worker'']
          else if list_ex (\<lambda>s. \<not> py_eq s (hd specs)) (tl specs)
          then Unavailable [''the certified tensor-parallel profile requires identical cache specs on every rank'']
          else Inr (map (\<lambda>s. case s of PDict d \<Rightarrow> d | _ \<Rightarrow> []) specs)
      | _ \<Rightarrow> Unavailable [''pinned vLLM cache specs do not cover every tensor-parallel worker''])"

definition layout_text :: "pyval \<Rightarrow> string result" where
  "layout_text layout =
     (case getattr_or layout ''name'' PNone of
        PStr s \<Rightarrow>
          if py_strip s = [] then Unavailable [''pinned vLLM returned an invalid resolved cache layout'']
          else Inr (py_strip s)
      | _ \<Rightarrow> Unavailable [''pinned vLLM returned an invalid resolved cache layout''])"

definition group_list :: "pyval \<Rightarrow> pyval list result" where
  "group_list groups =
     (case groups of
        PList gs \<Rightarrow> if gs = [] then Unavailable [''pinned vLLM returned no resolved cache groups''] else Inr gs
      | _ \<Rightarrow> Unavailable [''pinned vLLM returned no resolved cache groups''])"

definition config_list :: "pyval \<Rightarrow> string \<Rightarrow> pyval list result" where
  "config_list kv_cache_configs layout_name =
     (case kv_cache_configs of
        PList cs \<Rightarrow> traverse (\<lambda>c. set_attr c ''kv_cache_layout'' (PStr layout_name)) cs
      | _ \<Rightarrow> Unavailable [''pinned vLLM returned malformed worker cache configurations''])"

text \<open>The body of the \<open>try\<close> statement: everything between construction and shutdown.\<close>

definition resolve_geometry ::
  "(pyfloat \<Rightarrow> string) \<Rightarrow> classifier option \<Rightarrow> usage \<Rightarrow> 'w planner_apis \<Rightarrow> planning_request \<Rightarrow> string \<Rightarrow> pyval \<Rightarrow> nat \<Rightarrow>
   ('w, geometry) eff" where
  "resolve_geometry fr pinned usage apis request backend_version vllm_config executor =
     bind (pa_register_specs apis vllm_config) (\<lambda>_.
     bind (pa_specs apis executor) (\<lambda>raw_specs.
     bind (lift (spec_dicts raw_specs (rq_tensor_parallel_size request))) (\<lambda>specs.
     bind (pa_layouts apis executor) (\<lambda>supported_layouts.
     bind (pa_resolve_layout apis vllm_config supported_layouts (concat (map (map snd) specs))) (\<lambda>layout.
     bind (lift (layout_text layout)) (\<lambda>layout_name.
     bind (pa_set_layout apis executor layout_name) (\<lambda>_.
     bind (pa_groups apis vllm_config (hd specs)) (\<lambda>raw_groups.
     bind (lift (group_list raw_groups)) (\<lambda>groups.
     bind (minimum_planning_memory apis vllm_config groups) (\<lambda>planning_memory.
     bind (pa_configs apis vllm_config (map PDict specs)
             (replicate (nat (rq_tensor_parallel_size request)) planning_memory)) (\<lambda>raw_configs.
     bind (lift (config_list raw_configs layout_name)) (\<lambda>configs.
     bind (lift (mk_PlannerIdentity (PStr ''kapsl-vllm-connector'') (PStr ADAPTER_VERSION) (PStr backend_version)
            (PStr (if rq_live_resize request then ELASTIC_ADAPTER_PROFILE_ID else ADAPTER_PROFILE_ID))
            (PInt PACKED_LAYOUT_SCHEMA_VERSION))) (\<lambda>identity.
     lift (geometry_from_resolved_configs fr pinned usage (pa_classifier apis) configs vllm_config identity
             (PStr (rq_model_fingerprint request)) (PInt (rq_max_model_len request))
             (PStr (rq_attention_backend request)) (PStr layout_name)
             (map PInt (rq_device_ids request))))))))))))))))"

definition geometry_from_executor ::
  "(pyfloat \<Rightarrow> string) \<Rightarrow> classifier option \<Rightarrow> usage \<Rightarrow> 'w planner_apis \<Rightarrow> planning_request \<Rightarrow> string \<Rightarrow> ('w, geometry) eff" where
  "geometry_from_executor fr pinned usage apis request backend_version =
     bind (pa_engine_config apis (engine_options request)) (\<lambda>config.
     bind (lift (if rq_live_resize request then force_layout config else Inr config)) (\<lambda>vllm_config.
     bind (pa_executor apis vllm_config) (\<lambda>executor.
     try_finally (resolve_geometry fr pinned usage apis request backend_version vllm_config executor)
       (pa_shutdown apis executor))))"

definition obtain_pinned_runtime_geometry ::
  "(pyfloat \<Rightarrow> string) \<Rightarrow> classifier option \<Rightarrow> usage \<Rightarrow> (string \<Rightarrow> bool) \<Rightarrow> string option \<Rightarrow> 'w planner_apis option \<Rightarrow>
   planning_request \<Rightarrow> ('w, geometry) eff" where
  "obtain_pinned_runtime_geometry fr pinned usage is_dir installed apis request =
     (if \<not> is_dir (rq_model_path request)
      then lift (Unavailable [''model must be an existing Hugging Face directory: '', rq_model_path request])
      else case installed of
        None \<Rightarrow> lift (Unavailable [''pinned vLLM is not installed; certified runtime geometry is unavailable''])
      | Some backend_version \<Rightarrow>
          (case apis of
             None \<Rightarrow> lift (Unavailable [''vLLM '', backend_version, '' lacks the certified executor planning APIs''])
           | Some a \<Rightarrow> geometry_from_executor fr pinned usage a request backend_version))"

subsection \<open>Checks of the provided geometry\<close>

definition validate_provider_result :: "planning_request \<Rightarrow> geometry \<Rightarrow> string \<Rightarrow> unit result" where
  "validate_provider_result request g installed_backend_version =
     (if pi_adapter_id (gd_identity g) \<noteq> ''kapsl-vllm-connector'' \<or>
         pi_adapter_version (gd_identity g) \<noteq> ADAPTER_VERSION \<or>
         pi_profile_id (gd_identity g) \<noteq>
           (if rq_live_resize request then ELASTIC_ADAPTER_PROFILE_ID else ADAPTER_PROFILE_ID)
      then Raise PlanningError ''runtime geometry adapter/profile identity is not this certified connector''
      else if pi_backend_version (gd_identity g) \<noteq> installed_backend_version
      then Raise PlanningError ''runtime geometry backend version does not match the installed pinned vLLM''
      else if gd_model_fingerprint g \<noteq> rq_model_fingerprint request
      then Raise PlanningError ''runtime geometry model fingerprint does not match the request''
      else if gd_max_model_len g \<noteq> rq_max_model_len request
      then Raise PlanningError ''runtime geometry max_model_len does not match the request''
      else if gd_tensor_parallel_size g \<noteq> rq_tensor_parallel_size request
      then Raise PlanningError ''runtime geometry tensor-parallel world does not match the request''
      else if map rg_device_id (gd_ranks g) \<noteq> rq_device_ids request
      then Raise PlanningError ''runtime geometry device mapping does not match the request''
      else if py_upper (gd_attention_backend g) \<noteq> rq_attention_backend request
      then Raise PlanningError ''runtime geometry attention backend does not match the request''
      else if rq_live_resize request \<and> py_upper (gd_layout_id g) \<noteq> ''BLNHC''
      then Raise PlanningError ''live-resize runtime geometry must use BLNHC layout''
      else Inr ())"

definition installed_version_text :: "pyval result \<Rightarrow> string result" where
  "installed_version_text provided =
     (case provided of
        Inl e \<Rightarrow>
          if exn_of e = RuntimeGeometryUnavailable then Inl e
          else Unavailable [''could not identify the installed pinned vLLM build: '', exn_msg e]
      | Inr (PStr v) \<Rightarrow>
          if py_strip v = []
          then Unavailable [''could not identify the installed pinned vLLM build: '',
                 ''version provider returned an empty or non-string value'']
          else Inr (py_strip v)
      | Inr _ \<Rightarrow> Unavailable [''could not identify the installed pinned vLLM build: '',
                 ''version provider returned an empty or non-string value''])"

subsection \<open>Streams and descriptors\<close>

datatype written = Text string | Json pyval

datatype stream = FdStream int | Memory string

datatype channel = RawFd int | SysStdout

record process =
  ps_fds :: "(int \<times> string) list"
  ps_log :: "(string \<times> written) list"
  ps_script :: "exn option list"

definition proc_call :: "(process, unit) eff" where
  "proc_call s =
     (case ps_script s of
        [] \<Rightarrow> (s, Inr ())
      | None # rest \<Rightarrow> (s\<lparr>ps_script := rest\<rparr>, Inr ())
      | Some e # rest \<Rightarrow> (s\<lparr>ps_script := rest\<rparr>, Inl e))"

text \<open>The kernel hands out the lowest unused descriptor.\<close>

definition lowest_fd :: "(int \<times> string) list \<Rightarrow> int" where
  "lowest_fd fds = int (hd (filter (\<lambda>n. int n \<notin> fst ` set fds) [0..<Suc (length fds)]))"

definition os_dup :: "int \<Rightarrow> (process, int) eff" where
  "os_dup fd =
     bind proc_call (\<lambda>_.
     bind (gets ps_fds) (\<lambda>fds.
     case map_of fds fd of
       None \<Rightarrow> lift (Raise OSError ''Bad file descriptor'')
     | Some file \<Rightarrow>
         bind (modify (\<lambda>s. s\<lparr>ps_fds := (lowest_fd fds, file) # fds\<rparr>)) (\<lambda>_. ret (lowest_fd fds))))"

definition os_dup2 :: "int \<Rightarrow> int \<Rightarrow> (process, unit) eff" where
  "os_dup2 fd fd2 =
     bind proc_call (\<lambda>_.
     bind (gets ps_fds) (\<lambda>fds.
     case map_of fds fd of
       None \<Rightarrow> lift (Raise OSError ''Bad file descriptor'')
     | Some file \<Rightarrow> modify (\<lambda>s. s\<lparr>ps_fds := AList.update fd2 file fds\<rparr>)))"

definition os_close :: "int \<Rightarrow> (process, unit) eff" where
  "os_close fd = bind proc_call (\<lambda>_. modify (\<lambda>s. s\<lparr>ps_fds := AList.delete fd (ps_fds s)\<rparr>))"

definition flush_both :: "(process, unit) eff" where
  "flush_both = bind proc_call (\<lambda>_. proc_call)"

definition stream_file :: "(int \<times> string) list \<Rightarrow> stream \<Rightarrow> string option" where
  "stream_file fds st = (case st of FdStream fd \<Rightarrow> map_of fds fd | Memory file \<Rightarrow> Some file)"

definition emit :: "stream \<Rightarrow> written \<Rightarrow> (process, unit) eff" where
  "emit st x = modify (\<lambda>s. case stream_file (ps_fds s) st of
     None \<Rightarrow> s | Some file \<Rightarrow> s\<lparr>ps_log := ps_log s @ [(file, x)]\<rparr>)"

text \<open>
  \<open>_runtime_logs_to_stderr\<close> around a body. The body runs with \<open>sys.stdout\<close> replaced by the
  stream of standard error; for two real streams the descriptor is redirected as well.
\<close>

definition restore_stdout :: "int \<Rightarrow> int \<Rightarrow> (process, unit) eff" where
  "restore_stdout saved stdout_fd =
     try_finally flush_both (bind (os_dup2 saved stdout_fd) (\<lambda>_. os_close saved))"

definition runtime_logs_to_stderr :: "stream \<Rightarrow> stream \<Rightarrow> (process, 'a) eff \<Rightarrow> (process, 'a) eff" where
  "runtime_logs_to_stderr out err body =
     (case (out, err) of
        (FdStream stdout_fd, FdStream stderr_fd) \<Rightarrow>
          bind flush_both (\<lambda>_.
          bind (os_dup stdout_fd) (\<lambda>saved.
          bind (try_except (os_dup2 stderr_fd stdout_fd) (\<lambda>e. bind (os_close saved) (\<lambda>_. lift (Inl e)))) (\<lambda>_.
          try_finally body (restore_stdout saved stdout_fd))))
      | _ \<Rightarrow> body)"

subsection \<open>The command\<close>

text \<open>
  A geometry provider, seen from the command: what it writes while it runs, to a descriptor or to
  the current \<open>sys.stdout\<close>, and its outcome, a geometry or some other object.
\<close>

type_synonym provider = "planning_request \<Rightarrow> (channel \<times> string) list \<times> geometry option result"

definition write_channel :: "stream \<Rightarrow> channel \<times> string \<Rightarrow> (process, unit) eff" where
  "write_channel current w =
     (case w of (RawFd fd, t) \<Rightarrow> emit (FdStream fd) (Text t) | (SysStdout, t) \<Rightarrow> emit current (Text t))"

definition call_provider :: "stream \<Rightarrow> provider \<Rightarrow> planning_request \<Rightarrow> (process, geometry option) eff" where
  "call_provider current provider request =
     (case provider request of (writes, outcome) \<Rightarrow>
        bind (for_each (write_channel current) writes) (\<lambda>_. lift outcome))"

definition runtime_geometry :: "stream \<Rightarrow> provider \<Rightarrow> planning_request \<Rightarrow> (process, geometry) eff" where
  "runtime_geometry current provider request =
     bind (try_except (call_provider current provider request)
             (\<lambda>e. if is_planning_error e then lift (Inl e)
                  else lift (Unavailable [''certified runtime geometry provider failed: '', exn_msg e]))) (\<lambda>g.
     lift (case g of
             Some geometry \<Rightarrow> Inr geometry
           | None \<Rightarrow> Unavailable [''certified runtime geometry provider returned a malformed result: '',
                       ''expected GeometryDescriptor'']))"

datatype planner_answer = Schema pyval | Planned planning_result

definition plan_answer ::
  "(string \<Rightarrow> string) \<Rightarrow> pyval \<Rightarrow> pyval \<Rightarrow> stream \<Rightarrow> stream \<Rightarrow> provider \<Rightarrow> pyval result \<Rightarrow> arguments result \<Rightarrow> (process, planner_answer) eff" where
  "plan_answer resolve_path schema error_schema out err provider version parsed =
     bind (lift parsed) (\<lambda>args.
     if ar_print_schema args then ret (Schema schema)
     else if ar_print_error_schema args then ret (Schema error_schema)
     else
     bind (lift (cli_request resolve_path args)) (\<lambda>request.
     bind (lift (cli_sizing_policy args)) (\<lambda>policy.
     bind (lift (installed_version_text version)) (\<lambda>installed.
     bind (runtime_logs_to_stderr out err (runtime_geometry err provider request)) (\<lambda>g.
     bind (lift (validate_provider_result request g installed)) (\<lambda>_.
     bind (lift (build_plan g policy)) (\<lambda>plan. ret (Planned plan))))))))"

definition failure_document :: "exn \<Rightarrow> pyval" where
  "failure_document e = PDict
     [(''schema_version'', PInt PLANNER_SCHEMA_VERSION), (''status'', PStr ''error''), (''supported'', PBool False),
      (''error'', PDict [(''kind'', PStr (if exn_of e = RuntimeGeometryUnavailable
           then ''runtime_geometry_unavailable'' else ''planning_failed'')), (''message'', PStr (exn_msg e))])]"

definition run_planner ::
  "(rat \<Rightarrow> string) \<Rightarrow> (nat list \<Rightarrow> string) \<Rightarrow> (string \<Rightarrow> string) \<Rightarrow> pyval \<Rightarrow> pyval \<Rightarrow> stream \<Rightarrow> stream \<Rightarrow> provider \<Rightarrow>
   pyval result \<Rightarrow> arguments result \<Rightarrow> (process, int) eff" where
  "run_planner fr sha resolve_path schema error_schema out err provider version parsed s =
     (case plan_answer resolve_path schema error_schema out err provider version parsed s of
        (s', Inl e) \<Rightarrow>
          if is_planning_error e then bind (emit err (Json (failure_document e))) (\<lambda>_. ret 2) s' else (s', Inl e)
      | (s', Inr (Schema doc)) \<Rightarrow> bind (emit out (Json doc)) (\<lambda>_. ret 0) s'
      | (s', Inr (Planned plan)) \<Rightarrow>
          bind (lift (result_to_dict fr sha plan)) (\<lambda>doc. bind (emit out (Json doc)) (\<lambda>_. ret 0)) s')"


subsection \<open>The executor is released\<close>

text \<open>
  What the planner relies on: a runtime call other than construction and shutdown starts and stops
  no executor, construction starts a fresh one or none, and a shutdown that returns has stopped it.
\<close>

definition executor_laws :: "('w \<Rightarrow> nat set) \<Rightarrow> 'w planner_apis \<Rightarrow> bool" where
  "executor_laws live apis \<longleftrightarrow>
     (\<forall>L options c n specs groups amounts layout vals name.
        keeps (\<lambda>w. live w = L) (pa_engine_config apis options) \<and>
        keeps (\<lambda>w. live w = L) (pa_register_specs apis c) \<and>
        keeps (\<lambda>w. live w = L) (pa_specs apis n) \<and>
        keeps (\<lambda>w. live w = L) (pa_layouts apis n) \<and>
        keeps (\<lambda>w. live w = L) (pa_resolve_layout apis c layout vals) \<and>
        keeps (\<lambda>w. live w = L) (pa_set_layout apis n name) \<and>
        keeps (\<lambda>w. live w = L) (pa_groups apis c specs) \<and>
        keeps (\<lambda>w. live w = L) (pa_configs apis c vals amounts) \<and>
        keeps (\<lambda>w. live w = L) (pa_pool_bytes apis groups) \<and>
        keeps (\<lambda>w. live w = L) (pa_max_memory apis c groups)) \<and>
     (\<forall>c w w' n. pa_executor apis c w = (w', Inr n) \<longrightarrow> n \<notin> live w \<and> live w' = insert n (live w)) \<and>
     (\<forall>c w w' e. pa_executor apis c w = (w', Inl e) \<longrightarrow> live w' = live w) \<and>
     (\<forall>n w w'. pa_shutdown apis n w = (w', Inr ()) \<longrightarrow> live w' = live w - {n})"

lemma executor_laws_keeps:
  assumes "executor_laws live apis"
  shows "keeps (\<lambda>w. live w = L) (pa_engine_config apis options)"
    and "keeps (\<lambda>w. live w = L) (pa_register_specs apis c)"
    and "keeps (\<lambda>w. live w = L) (pa_specs apis n)"
    and "keeps (\<lambda>w. live w = L) (pa_layouts apis n)"
    and "keeps (\<lambda>w. live w = L) (pa_resolve_layout apis c layout vals)"
    and "keeps (\<lambda>w. live w = L) (pa_set_layout apis n name)"
    and "keeps (\<lambda>w. live w = L) (pa_groups apis c specs)"
    and "keeps (\<lambda>w. live w = L) (pa_configs apis c vals amounts)"
    and "keeps (\<lambda>w. live w = L) (pa_pool_bytes apis groups)"
    and "keeps (\<lambda>w. live w = L) (pa_max_memory apis c groups)"
  using assms unfolding executor_laws_def by simp_all

lemma resolve_geometry_keeps_live:
  assumes "executor_laws live apis"
  shows "keeps (\<lambda>w. live w = L) (resolve_geometry fr pinned usage apis request v c n)"
  unfolding resolve_geometry_def minimum_planning_memory_def split_def
  by (intro keeps_intros executor_laws_keeps [OF assms])

lemma try_finally_cases:
  assumes "try_finally m f s = (s', r)"
  obtains (failed) s1 r1 e where "m s = (s1, r1)" "f s1 = (s', Inl e)" "r = Inl e"
    | (settled) s1 where "m s = (s1, r)" "f s1 = (s', Inr ())"
  using assms by (auto simp: try_finally_def split: prod.splits sum.splits)

lemma bind_cases:
  assumes "bind m f s = (s', r)"
  obtains (failed) e where "m s = (s', Inl e)" "r = Inl e"
    | (continued) s1 x where "m s = (s1, Inr x)" "f x s1 = (s', r)"
  using assms by (auto simp: bind_def split: prod.splits sum.splits)

text \<open>
  C16. A planner run leaves no executor behind. Whatever step fails after construction, an
  operation of vLLM, a check of the planner or the extraction of the geometry, the executor that
  was started is shut down; the one way to leave it running is a shutdown that itself fails, and
  then its exception is the outcome.
\<close>

theorem executor_always_released:
  assumes laws: "executor_laws live apis"
    and run: "geometry_from_executor fr pinned usage apis request version w = (w', r)"
  shows "live w' = live w \<or> (\<exists>n w1 e. pa_shutdown apis n w1 = (w', Inl e) \<and> r = Inl e)"
  using run unfolding geometry_from_executor_def
proof (cases rule: bind_cases)
  case failed
  then show ?thesis using keepsD [OF executor_laws_keeps(1) [OF laws]] by blast
next
  case (continued w1 config)
  have w1: "live w1 = live w" by (rule keepsD [OF executor_laws_keeps(1) [OF laws] refl continued(1)])
  from continued(2) show ?thesis
  proof (cases rule: bind_cases)
    case failed
    then show ?thesis using w1 by (simp add: lift_Inr_iff)
  next
    case (continued w2 c)
    then have w2: "live w2 = live w" using w1 by (simp add: lift_Inr_iff)
    from continued(2) show ?thesis
    proof (cases rule: bind_cases)
      case failed
      then show ?thesis using laws w2 unfolding executor_laws_def by metis
    next
      case (continued w3 n)
      then have w3: "n \<notin> live w \<and> live w3 = insert n (live w)"
        using laws w2 unfolding executor_laws_def by metis
      from continued(2) show ?thesis
      proof (cases rule: try_finally_cases)
        case failed
        then show ?thesis by blast
      next
        case (settled w4)
        have "live w4 = live w3" by (rule keepsD [OF resolve_geometry_keeps_live [OF laws] refl settled(1)])
        moreover have "live w' = live w4 - {n}" using laws settled(2) unfolding executor_laws_def by blast
        ultimately show ?thesis using w3 by simp
      qed
    qed
  qed
qed


text \<open>A runtime whose state is the set of running executors, with one worker and a given list of groups.\<close>

definition sample_apis :: "pyval \<Rightarrow> nat set planner_apis" where
  "sample_apis groups =
     \<lparr>pa_engine_config = (\<lambda>_. ret sample_vllm),
      pa_executor = (\<lambda>_ w. if 7 \<in> w then (w, Raise RuntimeError ''busy'') else (insert 7 w, Inr 7)),
      pa_register_specs = (\<lambda>_. ret ()), pa_specs = (\<lambda>_. ret (PList [PDict [(''a'', PInt 1)]])),
      pa_layouts = (\<lambda>_. ret (PList [PStr ''NHD''])),
      pa_resolve_layout = (\<lambda>_ _ _. ret (PObj ''layout'' [(''name'', PStr ''NHD '')])),
      pa_set_layout = (\<lambda>_ _. ret ()), pa_groups = (\<lambda>_ _. ret groups),
      pa_configs = (\<lambda>_ _ _. ret (PList [sample_resolved])), pa_pool_bytes = (\<lambda>_. ret (PInt 1024)),
      pa_max_memory = (\<lambda>_ _. ret (PInt 4000)), pa_shutdown = (\<lambda>n w. (w - {n}, Inr ())),
      pa_classifier = Some sample_kind\<rparr>"

definition planned_request :: planning_request where
  "planned_request = \<lparr>rq_model_path = ''/m'', rq_model_fingerprint = ''fp'', rq_max_model_len = 100,
     rq_tensor_parallel_size = 1, rq_attention_backend = ''FLASH_ATTN'', rq_device_ids = [3], rq_live_resize = False\<rparr>"

definition sample_run :: "pyval \<Rightarrow> nat set \<times> geometry result" where
  "sample_run groups = geometry_from_executor (\<lambda>_. []) None sample_usage (sample_apis groups) planned_request ''1'' {}"

lemma sample_laws: "executor_laws (\<lambda>w. w) (sample_apis groups)"
  unfolding executor_laws_def sample_apis_def keeps_def ret_def by simp

theorem executor_always_released_witness: "fst (sample_run (PList [PNone])) = {} \<and> fst (sample_run PNone) = {}"
proof -
  have "fst (sample_run groups) = {}" for groups
  proof (cases "sample_run groups")
    case (Pair w' r)
    show ?thesis
      using executor_always_released [OF sample_laws Pair [unfolded sample_run_def]] Pair
      by (simp add: sample_apis_def)
  qed
  then show ?thesis by simp
qed

lemma sample_run_outcomes:
  "map_sum exn_of (map rg_device_id \<circ> gd_ranks) (snd (sample_run (PList [PNone]))) = Inr [3]"
  "map_sum exn_of gd_tensor_parallel_size (snd (sample_run PNone)) = Inl RuntimeGeometryUnavailable"
  by code_simp+

subsection \<open>A provided geometry is the requested one\<close>

lemma geometry_request_fields:
  assumes "geometry_from_resolved_configs fr pinned usage c configs cfg idt fp ml ab lid devices = Inr g"
  shows "gd_identity g = idt" and "planning_text fp ''model_fingerprint'' = Inr (gd_model_fingerprint g)"
    and "ml = PInt (gd_max_model_len g)" and "gd_attention_backend g = ''FLASH_ATTN''"
    and "length configs = length devices" and "planning_text lid ''layout_id'' = Inr (gd_layout_id g)"
  using assms unfolding geometry_from_resolved_configs_def Let_def result_simps
  by (auto simp: mk_GeometryDescriptor_def result_simps Let_def)


lemma geometry_device_ids:
  assumes "geometry_from_resolved_configs fr pinned usage c configs cfg idt fp ml ab lid (map PInt devices) = Inr g"
  shows "map rg_device_id (gd_ranks g) = devices" and "gd_tensor_parallel_size g = int (length devices)"
proof -
  note g = geometry_extracted [OF assms]
  have len: "length configs = length devices" using geometry_request_fields(5) [OF assms] by simp
  have "rg_device_id (gd_ranks g ! i) = devices ! i" if "i < length devices" for i
    using g extract_rank_Inr [of fr pinned usage c "configs ! i" cfg "PInt (int i)" "map PInt devices ! i" "gd_ranks g ! i"]
      that len by simp
  then show "map rg_device_id (gd_ranks g) = devices" using g len by (intro nth_equalityI) simp_all
  show "gd_tensor_parallel_size g = int (length devices)" using g len by simp
qed

lemma mk_PlannerIdentity_fields:
  assumes "mk_PlannerIdentity (PStr aid) (PStr aver) (PStr bver) (PStr pid) (PInt lver) = Inr idt"
  shows "pi_adapter_id idt = py_strip aid \<and> pi_adapter_version idt = py_strip aver \<and>
    pi_backend_version idt = py_strip bver \<and> pi_profile_id idt = py_strip pid"
  using assms by (auto simp: mk_PlannerIdentity_def result_simps planning_text_Inr_iff)

lemma executor_geometry_resolved:
  assumes "geometry_from_executor fr pinned usage apis request version w = (w', Inr g)"
  obtains cfg configs lid idt where
    "mk_PlannerIdentity (PStr ''kapsl-vllm-connector'') (PStr ADAPTER_VERSION) (PStr version)
       (PStr (if rq_live_resize request then ELASTIC_ADAPTER_PROFILE_ID else ADAPTER_PROFILE_ID))
       (PInt PACKED_LAYOUT_SCHEMA_VERSION) = Inr idt"
    "geometry_from_resolved_configs fr pinned usage (pa_classifier apis) configs cfg idt
       (PStr (rq_model_fingerprint request)) (PInt (rq_max_model_len request))
       (PStr (rq_attention_backend request)) (PStr lid) (map PInt (rq_device_ids request)) = Inr g"
proof -
  from assms obtain c n w1 w2 where
    "resolve_geometry fr pinned usage apis request version c n w1 = (w2, Inr g)"
    unfolding geometry_from_executor_def bind_Inr_iff
    by (auto elim!: try_finally_cases)
  then show ?thesis
    unfolding resolve_geometry_def bind_Inr_iff lift_Inr_iff by (elim exE conjE) (rule that)
qed

lemma cli_request_Inr:
  assumes "cli_request resolve_path args = Inr request"
  shows "rq_attention_backend request = ''FLASH_ATTN''"
    and "int (length (rq_device_ids request)) = rq_tensor_parallel_size request"
    and "distinct (rq_device_ids request)" and "list_all (\<lambda>d. 0 \<le> d \<and> d \<le> UINT64_MAX) (rq_device_ids request)"
    and "0 < rq_max_model_len request \<and> rq_max_model_len request \<le> UINT64_MAX"
    and "0 < rq_tensor_parallel_size request \<and> rq_tensor_parallel_size request \<le> MAX_TENSOR_PARALLEL_SIZE"
proof -
  from assms obtain m fp n devices where
    d: "cli_device_ids (ar_devices args) (ar_tensor_parallel_size args) = Inr devices"
    and n: "0 < n" "n \<le> UINT64_MAX"
    and r: "request = \<lparr>rq_model_path = resolve_path m, rq_model_fingerprint = fp,
            rq_max_model_len = n, rq_tensor_parallel_size = ar_tensor_parallel_size args,
            rq_attention_backend = ''FLASH_ATTN'', rq_device_ids = devices,
            rq_live_resize = ar_live_resize args\<rparr>"
    unfolding cli_request_def result_simps by (auto split: if_splits)
  show "rq_attention_backend request = ''FLASH_ATTN''"
    "0 < rq_max_model_len request \<and> rq_max_model_len request \<le> UINT64_MAX" using r n by simp_all
  show "int (length (rq_device_ids request)) = rq_tensor_parallel_size request"
    "distinct (rq_device_ids request)" "list_all (\<lambda>d. 0 \<le> d \<and> d \<le> UINT64_MAX) (rq_device_ids request)"
    "0 < rq_tensor_parallel_size request \<and> rq_tensor_parallel_size request \<le> MAX_TENSOR_PARALLEL_SIZE"
    using d r by (auto simp: cli_device_ids_def result_simps list_ex_iff list_all_iff MAX_TENSOR_PARALLEL_SIZE_def
        UINT64_MAX_def card_distinct split: option.splits if_splits)
qed

lemma connector_texts_stripped:
  "py_strip ''kapsl-vllm-connector'' = ''kapsl-vllm-connector''" "py_strip ADAPTER_VERSION = ADAPTER_VERSION"
  "py_strip ELASTIC_ADAPTER_PROFILE_ID = ELASTIC_ADAPTER_PROFILE_ID" "py_strip ADAPTER_PROFILE_ID = ADAPTER_PROFILE_ID"
  by code_simp+

text \<open>
  C38. The planner accepts what its own provider produces. For a request that passed the argument
  checks, a geometry returned by the executor provider has the requested tensor-parallel world,
  devices in rank order, context length and backend, and \<open>_validate_provider_result\<close> accepts it
  exactly when the fingerprint was given without surrounding white space, the installed version is
  the one the executor ran, and a live-resize layout is \<open>BLNHC\<close>: none of its other
  checks can fail.
\<close>

theorem provided_geometry_accepted_iff:
  assumes request: "cli_request resolve_path args = Inr request"
    and run: "geometry_from_executor fr pinned usage apis request version w = (w', Inr g)"
  shows "gd_tensor_parallel_size g = rq_tensor_parallel_size request \<and>
    map rg_device_id (gd_ranks g) = rq_device_ids request \<and> distinct (rq_device_ids request) \<and>
    gd_max_model_len g = rq_max_model_len request \<and>
    (validate_provider_result request g installed = Inr () \<longleftrightarrow>
       py_strip (rq_model_fingerprint request) = rq_model_fingerprint request \<and>
       py_strip version = installed \<and> (rq_live_resize request \<longrightarrow> py_upper (gd_layout_id g) = ''BLNHC''))"
proof -
  from run obtain cfg configs lid idt where
    idt: "mk_PlannerIdentity (PStr ''kapsl-vllm-connector'') (PStr ADAPTER_VERSION) (PStr version)
       (PStr (if rq_live_resize request then ELASTIC_ADAPTER_PROFILE_ID else ADAPTER_PROFILE_ID))
       (PInt PACKED_LAYOUT_SCHEMA_VERSION) = Inr idt"
    and res: "geometry_from_resolved_configs fr pinned usage (pa_classifier apis) configs cfg idt
       (PStr (rq_model_fingerprint request)) (PInt (rq_max_model_len request))
       (PStr (rq_attention_backend request)) (PStr lid) (map PInt (rq_device_ids request)) = Inr g"
    by (rule executor_geometry_resolved)
  note f = geometry_request_fields [OF res]
  note d = geometry_device_ids [OF res]
  note i = mk_PlannerIdentity_fields [OF idt]
  note q = cli_request_Inr [OF request]
  have fp: "gd_model_fingerprint g = py_strip (rq_model_fingerprint request)"
    using f(2) by (simp add: planning_text_Inr_iff)
  have tp: "gd_tensor_parallel_size g = rq_tensor_parallel_size request" using d q by simp
  have ml: "gd_max_model_len g = rq_max_model_len request" using f(3) by simp
  have up: "py_upper ''FLASH_ATTN'' = ''FLASH_ATTN''" by code_simp
  have "validate_provider_result request g installed = Inr () \<longleftrightarrow>
       py_strip (rq_model_fingerprint request) = rq_model_fingerprint request \<and>
       py_strip version = installed \<and> (rq_live_resize request \<longrightarrow> py_upper (gd_layout_id g) = ''BLNHC'')"
    unfolding validate_provider_result_def f(1,4) d fp tp ml q(1) up
    using i by (simp add: connector_texts_stripped if_distrib [of py_strip] d q fp tp ml)
  then show ?thesis using d q tp ml by simp
qed


definition sample_arguments :: arguments where
  "sample_arguments = \<lparr>ar_print_schema = False, ar_print_error_schema = False, ar_model = Some ''/m'',
     ar_model_fingerprint = Some ''fp'', ar_max_model_len = Some 100, ar_tensor_parallel_size = 1,
     ar_attention_backend = '' flash_attn'', ar_devices = Some '' 3 '', ar_target_concurrency = 1,
     ar_maximum_concurrency = None, ar_headroom_percent = 0, ar_prefix_blocks = 0, ar_alignment_blocks = 1,
     ar_min_bytes = None, ar_max_bytes = None, ar_strict_concurrency = False, ar_live_resize = False\<rparr>"

lemma sample_cli_request: "cli_request (\<lambda>p. p) sample_arguments = Inr planned_request"
  by code_simp

theorem provided_geometry_accepted_iff_witness:
  "\<exists>g. snd (sample_run (PList [PNone])) = Inr g \<and> validate_provider_result planned_request g ''1'' = Inr () \<and>
     map rg_device_id (gd_ranks g) = [3]"
proof -
  obtain g where g: "snd (sample_run (PList [PNone])) = Inr g"
    using sample_run_outcomes(1) by (rule map_sum_InrE)
  then have "geometry_from_executor (\<lambda>_. []) None sample_usage (sample_apis (PList [PNone])) planned_request ''1'' {} =
      (fst (sample_run (PList [PNone])), Inr g)"
    by (simp add: sample_run_def prod_eq_iff)
  note ok = provided_geometry_accepted_iff [OF sample_cli_request this, of "''1''"]
  have "py_strip (rq_model_fingerprint planned_request) = rq_model_fingerprint planned_request"
    "py_strip ''1'' = ''1''" "\<not> rq_live_resize planned_request" "rq_device_ids planned_request = [3]"
    by code_simp+
  then show ?thesis using ok g by (intro exI [of _ g]) simp
qed

subsection \<open>Standard output carries the plan alone\<close>

definition file_log :: "string \<Rightarrow> process \<Rightarrow> written list" where
  "file_log file s = map snd (filter (\<lambda>(f, _). f = file) (ps_log s))"

lemma lowest_fd_fresh: "lowest_fd fds \<notin> fst ` set fds"
proof -
  let ?free = "filter (\<lambda>n. int n \<notin> fst ` set fds) [0..<Suc (length fds)]"
  have "?free \<noteq> []"
  proof
    assume "?free = []"
    then have "int ` {0..<Suc (length fds)} \<subseteq> fst ` set fds" unfolding filter_empty_conv set_upt by blast
    then have "card (int ` {0..<Suc (length fds)}) \<le> card (fst ` set fds)" by (simp add: card_mono)
    also have "\<dots> \<le> length fds" by (meson card_image_le card_length finite_set le_trans)
    finally show False by (simp add: card_image)
  qed
  then have "hd ?free \<in> set ?free" by (rule hd_in_set)
  then show ?thesis unfolding lowest_fd_def set_filter by blast
qed

lemma lowest_fd_unmapped: "map_of fds (lowest_fd fds) = None"
  using lowest_fd_fresh by (simp add: map_of_eq_None_iff)

lemma proc_call_frame:
  "proc_call s = (s', r) \<Longrightarrow> ps_fds s' = ps_fds s \<and> ps_log s' = ps_log s \<and>
     (ps_script s = [] \<longrightarrow> r = Inr () \<and> s' = s)"
  by (auto simp: proc_call_def split: list.splits option.splits)

lemma flush_both_frame:
  "flush_both s = (s', r) \<Longrightarrow> ps_fds s' = ps_fds s \<and> ps_log s' = ps_log s \<and>
     (ps_script s = [] \<longrightarrow> r = Inr () \<and> s' = s)"
  unfolding flush_both_def by (erule bind_cases) (auto dest!: proc_call_frame)

lemma os_dup_frame:
  assumes "os_dup fd s = (s', r)" and "map_of (ps_fds s) fd = Some file"
  shows "ps_log s' = ps_log s" and "\<And>e. r = Inl e \<Longrightarrow> ps_fds s' = ps_fds s \<and> ps_script s \<noteq> []"
    and "\<And>n. r = Inr n \<Longrightarrow> n = lowest_fd (ps_fds s) \<and> ps_fds s' = (n, file) # ps_fds s \<and>
      (ps_script s = [] \<longrightarrow> ps_script s' = [])"
  using assms unfolding os_dup_def
  by (auto elim!: bind_cases dest!: proc_call_frame simp: eff_simps)

lemma os_dup2_frame:
  assumes "os_dup2 fd fd2 s = (s', r)" and "map_of (ps_fds s) fd = Some file"
  shows "ps_log s' = ps_log s" and "\<And>e. r = Inl e \<Longrightarrow> ps_fds s' = ps_fds s \<and> ps_script s \<noteq> []"
    and "r = Inr () \<Longrightarrow> map_of (ps_fds s') = (map_of (ps_fds s))(fd2 \<mapsto> file) \<and>
      (ps_script s = [] \<longrightarrow> ps_script s' = [])"
  using assms unfolding os_dup2_def
  by (auto elim!: bind_cases dest!: proc_call_frame simp: eff_simps update_conv')

lemma os_close_frame:
  assumes "os_close fd s = (s', r)"
  shows "ps_log s' = ps_log s" and "\<And>e. r = Inl e \<Longrightarrow> ps_fds s' = ps_fds s \<and> ps_script s \<noteq> []"
    and "r = Inr () \<Longrightarrow> map_of (ps_fds s') = (map_of (ps_fds s))(fd := None) \<and>
      (ps_script s = [] \<longrightarrow> ps_script s' = [])"
  using assms unfolding os_close_def
  by (auto elim!: bind_cases dest!: proc_call_frame simp: eff_simps delete_conv')


lemma restore_stdout_frame:
  assumes run: "restore_stdout saved fd1 s = (s', r)" and saved: "map_of (ps_fds s) saved = Some file" "saved \<noteq> fd1"
  shows "ps_log s' = ps_log s"
    and "fd \<noteq> saved \<Longrightarrow> fd \<noteq> fd1 \<Longrightarrow> map_of (ps_fds s') fd = map_of (ps_fds s) fd"
    and "r = Inr () \<or> ps_script s = [] \<Longrightarrow>
      r = Inr () \<and> map_of (ps_fds s') = (map_of (ps_fds s))(fd1 \<mapsto> file, saved := None)"
proof -
  from run obtain s1 r1 r2 where
    flush: "flush_both s = (s1, r1)"
    and undo: "bind (os_dup2 saved fd1) (\<lambda>_. os_close saved) s1 = (s', r2)"
    and r: "r = Inr () \<longleftrightarrow> r1 = Inr () \<and> r2 = Inr ()"
    unfolding restore_stdout_def by (cases rule: try_finally_cases) auto
  note f = flush_both_frame [OF flush]
  have m: "map_of (ps_fds s1) saved = Some file" using f saved by simp
  from undo have "ps_log s' = ps_log s \<and>
    (fd \<noteq> saved \<longrightarrow> fd \<noteq> fd1 \<longrightarrow> map_of (ps_fds s') fd = map_of (ps_fds s) fd) \<and>
    (r = Inr () \<or> ps_script s = [] \<longrightarrow>
      r = Inr () \<and> map_of (ps_fds s') = (map_of (ps_fds s))(fd1 \<mapsto> file, saved := None))"
  proof (cases rule: bind_cases)
    case (failed e)
    then show ?thesis using os_dup2_frame [OF failed(1) m] f r by auto
  next
    case (continued s2 u)
    note d = os_dup2_frame [OF continued(1) m]
    show ?thesis
    proof (cases r2)
      case (Inl e)
      then show ?thesis using os_close_frame [OF continued(2)] d f r by auto
    next
      case (Inr u)
      then show ?thesis using os_close_frame [OF continued(2)] d f r by auto
    qed
  qed
  then show "ps_log s' = ps_log s"
    and "fd \<noteq> saved \<Longrightarrow> fd \<noteq> fd1 \<Longrightarrow> map_of (ps_fds s') fd = map_of (ps_fds s) fd"
    and "r = Inr () \<or> ps_script s = [] \<Longrightarrow>
      r = Inr () \<and> map_of (ps_fds s') = (map_of (ps_fds s))(fd1 \<mapsto> file, saved := None)"
    by blast+
qed

lemma try_except_cases:
  assumes "try_except m h s = (s', r)"
  obtains (handled) e s1 where "m s = (s1, Inl e)" "h e s1 = (s', r)"
    | (returned) x where "m s = (s', Inr x)" "r = Inr x"
  using assms by (auto simp: try_except_def split: prod.splits sum.splits)

text \<open>The redirection from the point where the saved descriptor is open.\<close>

lemma redirected_frame:
  assumes run: "bind (try_except (os_dup2 fd2 fd1) (\<lambda>e. bind (os_close saved) (\<lambda>_. lift (Inl e)))) (\<lambda>_.
      try_finally body (restore_stdout saved fd1)) s = (s', r)"
    and files: "map_of (ps_fds s) = m(saved \<mapsto> F)" "m saved = None" "m fd1 = Some F" "m fd2 = Some G" "F \<noteq> G"
    and body: "\<And>fds L q. map_of fds fd1 = Some G \<Longrightarrow> map_of fds fd2 = Some G \<Longrightarrow>
      keeps (\<lambda>t. ps_fds t = fds \<and> file_log F t = L \<and> ps_script t = q) body"
  shows "file_log F s' = file_log F s \<and> map_of (ps_fds s') fd2 = Some G \<and>
    (isl r \<and> ps_script s \<noteq> [] \<or> map_of (ps_fds s') = m)"
proof -
  have ne: "fd1 \<noteq> fd2" "saved \<noteq> fd1" "saved \<noteq> fd2" using files by auto
  have f2: "map_of (ps_fds s) fd2 = Some G" using files ne by simp
  from run show ?thesis
  proof (cases rule: bind_cases)
    case (failed e)
    from failed(1) show ?thesis
    proof (cases rule: try_except_cases)
      case (handled e' s1)
      note d = os_dup2_frame [OF handled(1) f2]
      have "ps_log s' = ps_log s1 \<and> map_of (ps_fds s') fd2 = map_of (ps_fds s1) fd2"
        using handled(2)
      proof (cases rule: bind_cases)
        case (failed e)
        then show ?thesis using os_close_frame [OF failed(1)] by simp
      next
        case (continued s2 u)
        then show ?thesis using os_close_frame [OF continued(1)] ne by (simp add: lift_Inr_iff)
      qed
      then show ?thesis using d f2 failed(2) by (simp add: file_log_def)
    qed (use failed in simp)
  next
    case (continued s1 u)
    have "os_dup2 fd2 fd1 s = (s1, Inr ())"
      using continued(1) by (cases rule: try_except_cases) (auto elim!: bind_cases simp: lift_Inr_iff)
    note d = os_dup2_frame [OF this f2]
    have m1: "map_of (ps_fds s1) = m(saved \<mapsto> F, fd1 \<mapsto> G)" and l1: "file_log F s1 = file_log F s"
      and p1: "ps_script s = [] \<longrightarrow> ps_script s1 = []"
      using d files by (simp_all add: file_log_def)
    have k: "keeps (\<lambda>t. ps_fds t = ps_fds s1 \<and> file_log F t = file_log F s1 \<and> ps_script t = ps_script s1) body"
      using m1 ne files by (intro body) simp_all
    obtain s2 r2 r3 where b: "body s1 = (s2, r2)" and undo: "restore_stdout saved fd1 s2 = (s', r3)"
      and r: "isl r3 \<longrightarrow> isl r"
      using continued(2) by (cases rule: try_finally_cases) auto
    have s2: "ps_fds s2 = ps_fds s1 \<and> file_log F s2 = file_log F s \<and> (ps_script s = [] \<longrightarrow> ps_script s2 = [])"
      using keepsD [OF k _ b] l1 p1 by simp
    have sv: "map_of (ps_fds s2) saved = Some F" using s2 m1 ne by simp
    note u = restore_stdout_frame [OF undo sv ne(2)]
    have "map_of (ps_fds s') = m" if "r3 = Inr () \<or> ps_script s2 = []"
      using u(3) [OF that] s2 m1 files by (auto simp: fun_eq_iff)
    moreover have "map_of (ps_fds s') fd2 = Some G" using u(2) [of fd2] s2 m1 ne files by simp
    moreover have "file_log F s' = file_log F s" using u(1) s2 by (simp add: file_log_def)
    ultimately show ?thesis using r s2 by (cases r3) auto
  qed
qed

lemma runtime_logs_frame:
  assumes run: "runtime_logs_to_stderr (FdStream fd1) (FdStream fd2) body s = (s', r)"
    and files: "map_of (ps_fds s) fd1 = Some F" "map_of (ps_fds s) fd2 = Some G" "F \<noteq> G"
    and body: "\<And>fds L q. map_of fds fd1 = Some G \<Longrightarrow> map_of fds fd2 = Some G \<Longrightarrow>
      keeps (\<lambda>t. ps_fds t = fds \<and> file_log F t = L \<and> ps_script t = q) body"
  shows "file_log F s' = file_log F s \<and> map_of (ps_fds s') fd2 = Some G \<and>
    (isl r \<and> ps_script s \<noteq> [] \<or> map_of (ps_fds s') = map_of (ps_fds s))"
proof -
  from run have "bind flush_both (\<lambda>_. bind (os_dup fd1) (\<lambda>saved.
      bind (try_except (os_dup2 fd2 fd1) (\<lambda>e. bind (os_close saved) (\<lambda>_. lift (Inl e)))) (\<lambda>_.
      try_finally body (restore_stdout saved fd1)))) s = (s', r)"
    by (simp add: runtime_logs_to_stderr_def)
  then show ?thesis
  proof (cases rule: bind_cases)
    case (failed e)
    then show ?thesis using flush_both_frame [OF failed(1)] files by (simp add: file_log_def)
  next
    case (continued s1 u)
    note f = flush_both_frame [OF continued(1)]
    have f1: "map_of (ps_fds s1) fd1 = Some F" using f files by simp
    from continued(2) show ?thesis
    proof (cases rule: bind_cases)
      case (failed e)
      then show ?thesis using os_dup_frame [OF failed(1) f1] f files by (simp add: file_log_def)
    next
      case (continued s2 saved)
      note d = os_dup_frame [OF continued(1) f1]
      have m: "map_of (ps_fds s) saved = None" "map_of (ps_fds s2) = (map_of (ps_fds s))(saved \<mapsto> F)"
        using d(3) f lowest_fd_unmapped by auto
      have l: "file_log F s2 = file_log F s" using d f by (simp add: file_log_def)
      have p: "ps_script s = [] \<longrightarrow> ps_script s2 = []" using d(3) f by simp
      from redirected_frame [OF continued(2) m(2,1) files body] show ?thesis using l p by auto
    qed
  qed
qed


text \<open>While the provider runs, both streams lead to standard error.\<close>

definition stdio_only :: "int \<Rightarrow> int \<Rightarrow> provider \<Rightarrow> bool" where
  "stdio_only fd1 fd2 provider \<longleftrightarrow>
     (\<forall>request. list_all (\<lambda>(c, _). c = RawFd fd1 \<or> c = RawFd fd2 \<or> c = SysStdout) (fst (provider request)))"

lemma keeps_for_each_mem: "(\<And>x. x \<in> set xs \<Longrightarrow> keeps P (f x)) \<Longrightarrow> keeps P (for_each f xs)"
  by (induction xs) (auto intro!: keeps_intros)

lemma write_redirected:
  assumes "map_of fds fd1 = Some G" "map_of fds fd2 = Some G" "F \<noteq> G"
    and "fst w = RawFd fd1 \<or> fst w = RawFd fd2 \<or> fst w = SysStdout"
  shows "keeps (\<lambda>t. ps_fds t = fds \<and> file_log F t = L \<and> ps_script t = q) (write_channel (FdStream fd2) w)"
  using assms by (cases w) (auto simp: write_channel_def emit_def keeps_def modify_def stream_file_def file_log_def)

lemma provider_redirected:
  assumes "stdio_only fd1 fd2 provider" "F \<noteq> G" "map_of fds fd1 = Some G" "map_of fds fd2 = Some G"
  shows "keeps (\<lambda>t. ps_fds t = fds \<and> file_log F t = L \<and> ps_script t = q)
    (runtime_geometry (FdStream fd2) provider request)"
proof -
  obtain ws r where p: "provider request = (ws, r)" by fastforce
  then have ws: "\<forall>w \<in> set ws. fst w = RawFd fd1 \<or> fst w = RawFd fd2 \<or> fst w = SysStdout"
    using spec [OF assms(1) [unfolded stdio_only_def], of request] by (simp add: list_all_iff split_def)
  have "keeps (\<lambda>t. ps_fds t = fds \<and> file_log F t = L \<and> ps_script t = q)
      (call_provider (FdStream fd2) provider request)"
    unfolding call_provider_def p prod.case
    by (intro keeps_bind keeps_lift keeps_for_each_mem write_redirected [OF assms(3,4,2)] bspec [OF ws])
  then show ?thesis unfolding runtime_geometry_def by (intro keeps_intros)
qed

lemma bind_lift_eq: "bind (lift m) f s = (case m of Inl e \<Rightarrow> (s, Inl e) | Inr x \<Rightarrow> f x s)"
  by (simp add: bind_def lift_def split: sum.splits)

lemma plan_answer_frame:
  assumes run: "plan_answer resolve_path schema error_schema (FdStream fd1) (FdStream fd2) provider version parsed s = (s', r)"
    and files: "map_of (ps_fds s) fd1 = Some F" "map_of (ps_fds s) fd2 = Some G" "F \<noteq> G"
    and provider: "stdio_only fd1 fd2 provider"
  shows "file_log F s' = file_log F s \<and> map_of (ps_fds s') fd2 = Some G \<and>
    (isl r \<and> ps_script s \<noteq> [] \<or> map_of (ps_fds s') = map_of (ps_fds s))"
proof (cases "s' = s")
  case True
  then show ?thesis using files by simp
next
  case False
  then obtain request installed policy where
    b: "bind (runtime_logs_to_stderr (FdStream fd1) (FdStream fd2) (runtime_geometry (FdStream fd2) provider request))
          (\<lambda>g. bind (lift (validate_provider_result request g installed)) (\<lambda>_.
            bind (lift (build_plan g policy)) (\<lambda>plan. ret (Planned plan)))) s = (s', r)"
    using run unfolding plan_answer_def bind_lift_eq by (auto simp: eff_simps split: sum.splits if_splits)
  note k = runtime_logs_frame [OF _ files provider_redirected [OF provider files(3)]]
  from b show ?thesis
  proof (cases rule: bind_cases)
    case (failed e)
    then show ?thesis using k [OF failed(1)] by simp
  next
    case (continued s1 g)
    then have "s' = s1" unfolding bind_lift_eq by (auto simp: eff_simps split: sum.splits)
    then show ?thesis using k [OF continued(1)] files by simp
  qed
qed


lemma emit_file:
  assumes "map_of (ps_fds s) fd = Some file"
  shows "emit (FdStream fd) x s = (s\<lparr>ps_log := ps_log s @ [(file, x)]\<rparr>, Inr ())"
  using assms by (simp add: emit_def modify_def stream_file_def)

text \<open>
  C15. The planner's standard output is reserved for its answer. With real streams open on two
  files, whatever the provider writes to either descriptor or to \<open>sys.stdout\<close>, and
  whichever system call of the redirection fails: standard output receives exactly one JSON
  document when the exit code is 0 and nothing at all otherwise; exit code 2 comes with one failure
  document at the end of standard error; and the descriptor table is the one at the start on every
  exit with code 0 and whenever no system call failed.
\<close>

theorem planner_output_contract:
  assumes run: "run_planner fr sha resolve_path schema error_schema (FdStream fd1) (FdStream fd2) provider version parsed s
      = (s', r)"
    and files: "map_of (ps_fds s) fd1 = Some F" "map_of (ps_fds s) fd2 = Some G" "F \<noteq> G"
    and provider: "stdio_only fd1 fd2 provider"
  shows "((\<exists>doc. r = Inr 0 \<and> file_log F s' = file_log F s @ [Json doc] \<and> map_of (ps_fds s') = map_of (ps_fds s)) \<or>
     (\<exists>e. r = Inr 2 \<and> file_log F s' = file_log F s \<and> is_planning_error e \<and>
        last (ps_log s') = (G, Json (failure_document e))) \<or>
     (\<exists>e. r = Inl e \<and> file_log F s' = file_log F s)) \<and>
     (ps_script s = [] \<longrightarrow> map_of (ps_fds s') = map_of (ps_fds s))"
proof -
  obtain s1 a where pa: "plan_answer resolve_path schema error_schema (FdStream fd1) (FdStream fd2) provider version parsed s
      = (s1, a)" by fastforce
  note k = plan_answer_frame [OF pa files provider]
  have G: "map_of (ps_fds s1) fd2 = Some G" using k by simp
  show ?thesis
  proof (cases a)
    case (Inl e)
    show ?thesis
    proof (cases "is_planning_error e")
      case True
      then have "s' = s1\<lparr>ps_log := ps_log s1 @ [(G, Json (failure_document e))]\<rparr> \<and> r = Inr 2"
        using run pa Inl emit_file [OF G] by (simp add: run_planner_def bind_def ret_def)
      then show ?thesis using k True files by (simp add: file_log_def) blast
    next
      case False
      then have "s' = s1 \<and> r = Inl e" using run pa Inl by (simp add: run_planner_def)
      then show ?thesis using k by blast
    qed
  next
    case (Inr answer)
    have m: "map_of (ps_fds s1) = map_of (ps_fds s)" using k Inr by simp
    then have F: "map_of (ps_fds s1) fd1 = Some F" using files by simp
    have "(\<exists>doc. s' = s1\<lparr>ps_log := ps_log s1 @ [(F, Json doc)]\<rparr> \<and> r = Inr 0) \<or> (\<exists>e. s' = s1 \<and> r = Inl e)"
      using run pa Inr emit_file [OF F]
      by (auto simp: run_planner_def bind_def ret_def lift_def split: planner_answer.splits sum.splits)
    then show ?thesis
    proof
      assume "\<exists>doc. s' = s1\<lparr>ps_log := ps_log s1 @ [(F, Json doc)]\<rparr> \<and> r = Inr 0"
      then obtain doc where "s' = s1\<lparr>ps_log := ps_log s1 @ [(F, Json doc)]\<rparr>" "r = Inr 0" by blast
      then show ?thesis using k m by (simp add: file_log_def)
    next
      assume "\<exists>e. s' = s1 \<and> r = Inl e"
      then show ?thesis using k m by auto
    qed
  qed
qed

definition sample_process :: process where
  "sample_process = \<lparr>ps_fds = [(1, ''out''), (2, ''err'')], ps_log = [], ps_script = []\<rparr>"

definition noisy_provider :: provider where
  "noisy_provider request = ([(RawFd 1, ''loading''), (SysStdout, ''profile''), (RawFd 2, ''w'')], Raise OSError ''gone'')"

definition noisy_run :: "process \<times> int result" where
  "noisy_run = run_planner (\<lambda>_. []) (\<lambda>_. []) (\<lambda>p. p) PNone PNone (FdStream 1) (FdStream 2) noisy_provider
     (Inr (PStr ''1'')) (Inr sample_arguments) sample_process"

lemma noisy_run_result: "map_sum exn_of (\<lambda>n. n) (snd noisy_run) = Inr 2"
  by code_simp

theorem planner_output_contract_witness:
  "snd noisy_run = Inr 2 \<and> file_log ''out'' (fst noisy_run) = [] \<and>
   map_of (ps_fds (fst noisy_run)) = map_of [(1, ''out''), (2, ''err'')]"
proof -
  have "snd noisy_run = Inr 2" using noisy_run_result by (elim map_sum_InrE) simp
  moreover have "stdio_only 1 2 noisy_provider" by (simp add: stdio_only_def noisy_provider_def)
  moreover have "map_of (ps_fds sample_process) 1 = Some ''out''" "map_of (ps_fds sample_process) 2 = Some ''err''"
    "ps_script sample_process = []" "file_log F sample_process = []" "ps_fds sample_process = [(1, ''out''), (2, ''err'')]" for F
    by (simp_all add: sample_process_def file_log_def)
  moreover have "noisy_run = (fst noisy_run, snd noisy_run)" by simp
  ultimately show ?thesis
    using planner_output_contract [of "\<lambda>_. []" "\<lambda>_. []" "\<lambda>p. p" PNone PNone 1 2 noisy_provider "Inr (PStr ''1'')"
        "Inr sample_arguments" sample_process "fst noisy_run" "snd noisy_run" "''out''" "''err''"]
    unfolding noisy_run_def by simp
qed

end
