(* ===== verification/Pack_Closure.thy ===== *)
theory Pack_Closure
  imports Py_Text
begin

text \<open>
  The choice of shared libraries of an accelerator pack (\<open>package_accelerator.py\<close>): candidates
  from runtime directories, conflicts between them, the libraries a profile starts from, and the
  closure under dynamic dependencies.

  A directory is the list of its entries with what the script asks of each (name, kind, digest);
  the dynamic section of a library is the parameter \<open>needed\<close>, which may raise. The dictionary of
  candidates is an association list in insertion order.

  The lemmas show that merging keeps the first library of each name and refuses every conflict,
  that the worklist ends, and that its result is exactly the set of libraries reachable from the
  roots, returned whenever all of them are packaged.
\<close>

subsection \<open>Names\<close>

definition contains_text :: "string \<Rightarrow> string \<Rightarrow> bool" where
  "contains_text p s = list_ex (\<lambda>k. take (length p) (drop k s) = p) [0..<Suc (length s)]"

definition starts_with :: "string \<Rightarrow> string \<Rightarrow> bool" where
  "starts_with p s = (take (length p) s = p)"

definition ENTRYPOINT :: string where "ENTRYPOINT = ''libkapsl_backend_ort.so''"

definition ALLOWED_SYSTEM_LIBRARIES :: "string list" where
  "ALLOWED_SYSTEM_LIBRARIES =
     [''ld-linux-x86-64.so.2'', ''libatomic.so.1'', ''libc.so.6'', ''libdl.so.2'', ''libgcc_s.so.1'', ''libgomp.so.1'',
      ''libm.so.6'', ''libpthread.so.0'', ''libresolv.so.2'', ''librt.so.1'', ''libstdc++.so.6'', ''libutil.so.1'']"

text \<open>
  The regular expressions, as what a full match says of the text. \<open>(?:\..*)?\<close> is an empty
  rest or a dot and a rest without line feed.
\<close>

definition so_suffix :: "string \<Rightarrow> bool" where
  "so_suffix s = (s = [] \<or> hd s = CHR ''.'' \<and> char_of (10 :: nat) \<notin> set (tl s))"

definition is_driver_library :: "string \<Rightarrow> bool" where
  "is_driver_library name =
     (starts_with ''libcuda.so'' name \<and> so_suffix (drop 10 name) \<or>
      starts_with ''libnvidia-'' name \<and>
        list_ex (\<lambda>k. CHR ''/'' \<notin> set (take k (drop 10 name)) \<and>
                     starts_with ''.so'' (drop (10 + k) name) \<and> so_suffix (drop (13 + k) name))
          [1..<length name - 10])"

definition is_host_library :: "string \<Rightarrow> bool" where
  "is_host_library name = (name \<in> set ALLOWED_SYSTEM_LIBRARIES \<or> is_driver_library name)"

definition word_char :: "char \<Rightarrow> bool" where
  "word_char c =
     (let n = of_char c :: nat
      in 48 \<le> n \<and> n \<le> 57 \<or> 65 \<le> n \<and> n \<le> 90 \<or> 97 \<le> n \<and> n \<le> 122 \<or> c = CHR ''_'')"

definition ascii_digit :: "char \<Rightarrow> bool" where
  "ascii_digit c = (let n = of_char c :: nat in 48 \<le> n \<and> n \<le> 57)"

definition cudnn_name :: "string \<Rightarrow> bool" where
  "cudnn_name name =
     (let middle = drop 8 (take (length name - 5) name)
      in 13 \<le> length name \<and> starts_with ''libcudnn'' name \<and> drop (length name - 5) name = ''.so.9'' \<and>
         (middle = [] \<or> hd middle = CHR ''_'' \<and> tl middle \<noteq> [] \<and> list_all word_char (tl middle)))"

definition builder_resource_name :: "string \<Rightarrow> bool" where
  "builder_resource_name name =
     (let p = ''libnvinfer_builder_resource.so.10''; rest = drop (length p) name
      in starts_with p name \<and>
         (rest = [] \<or> hd rest = CHR ''.'' \<and>
            list_all (\<lambda>t. t \<noteq> [] \<and> list_all ascii_digit t) (split_on (CHR ''.'') (tl rest))))"

subsection \<open>Candidates\<close>

record accelerator_profile =
  ap_name :: string
  ap_ort_libraries :: "string list"

record candidate_library =
  cl_name :: string
  cl_origin :: string
  cl_sha256 :: string

type_synonym candidates = "(string \<times> candidate_library) list"

record dir_entry =
  de_name :: string
  de_path :: string
  de_is_file :: bool
  de_is_symlink :: bool
  de_sha256 :: string

abbreviation RaiseP :: "string list \<Rightarrow> 'a result" where
  "RaiseP m \<equiv> Raise PackageError (fmt m)"

definition library_step :: "string \<Rightarrow> candidate_library list \<Rightarrow> dir_entry \<Rightarrow> candidate_library list result" where
  "library_step origin found e =
     (if \<not> de_is_file e \<or> \<not> contains_text ''.so'' (de_name e) then Inr found
      else if de_is_symlink e
      then RaiseP [origin, '' runtime input must be flattened to regular files: '', de_path e]
      else if starts_with ''libonnxruntime'' (de_name e) then Inr found
      else if is_driver_library (de_name e)
      then RaiseP [origin, '' runtime input contains host NVIDIA driver library '', de_name e]
      else Inr (found @ [\<lparr>cl_name = de_name e, cl_origin = origin, cl_sha256 = de_sha256 e\<rparr>]))"

definition runtime_library_paths :: "string \<Rightarrow> dir_entry list option \<Rightarrow> string \<Rightarrow> candidate_library list result" where
  "runtime_library_paths directory listing origin =
     (case listing of
        None \<Rightarrow> RaiseP [origin, '' runtime directory is missing: '', directory]
      | Some entries \<Rightarrow>
          and_then (fold_r (library_step origin) [] (sort_key de_name entries)) (\<lambda>found.
          if found = [] then RaiseP [origin, '' runtime directory contains no shared libraries'']
          else Inr found))"

definition merge_step :: "candidates \<Rightarrow> candidate_library \<Rightarrow> candidates result" where
  "merge_step acc c =
     (case map_of acc (cl_name c) of
        Some existing \<Rightarrow>
          if cl_sha256 existing \<noteq> cl_sha256 c
          then RaiseP [''conflicting runtime library basename '', cl_name c, '': '', cl_origin existing,
                 '' differs from '', cl_origin c]
          else Inr acc
      | None \<Rightarrow> Inr (acc @ [(cl_name c, c)]))"

definition merge_candidates :: "candidate_library list list \<Rightarrow> candidates result" where
  "merge_candidates groups = fold_r (fold_r merge_step) [] groups"

definition TENSORRT_REQUIRED :: "string list" where
  "TENSORRT_REQUIRED = [''libnvinfer.so.10'', ''libnvinfer_plugin.so.10'', ''libnvonnxparser.so.10'']"

definition root_library_names :: "accelerator_profile \<Rightarrow> candidates \<Rightarrow> string set result" where
  "root_library_names profile candidates =
     (let names = map fst candidates;
          cudnn = filter cudnn_name names;
          from_tensorrt = (\<lambda>n. case map_of candidates n of Some c \<Rightarrow> cl_origin c = ''tensorrt'' | None \<Rightarrow> False);
          roots = {ENTRYPOINT} \<union> set (ap_ort_libraries profile) \<union> set cudnn
      in if ''libcudnn.so.9'' \<notin> set cudnn then RaiseP [''CUDA runtime closure is missing libcudnn.so.9'']
         else if ap_name profile = ''tensorrt10''
         then let missing = filter (\<lambda>n. \<not> from_tensorrt n) TENSORRT_REQUIRED;
                  builder_resources = set (filter (\<lambda>n. from_tensorrt n \<and> builder_resource_name n) names)
              in if missing \<noteq> []
                 then RaiseP [''TensorRT closure is missing required libraries: '', join_with '', '' (sort missing)]
                 else if card builder_resources \<noteq> 1
                 then RaiseP [''TensorRT closure must contain exactly one Linux '',
                        ''libnvinfer_builder_resource.so.10 release object'']
                 else Inr (roots \<union> set TENSORRT_REQUIRED \<union> builder_resources)
         else Inr roots)"

subsection \<open>The closure\<close>

text \<open>
  The list \<open>pending\<close> of the code is a stack whose top is its last element; here the top is the
  head. Dependencies are pushed in descending order, so the smallest is on top.
\<close>

definition push_dependency ::
  "candidates \<Rightarrow> string set \<Rightarrow> string \<Rightarrow> string list \<Rightarrow> string \<Rightarrow> string list result" where
  "push_dependency candidates selected name pending dependency =
     (if is_host_library dependency \<or> dependency \<in> selected then Inr pending
      else if map_of candidates dependency = None
      then RaiseP [name, '' requires unpackaged user-space library '', dependency]
      else Inr (dependency # pending))"

function closure_loop ::
  "candidates \<Rightarrow> (candidate_library \<Rightarrow> string list result) \<Rightarrow> string set \<Rightarrow> string list \<Rightarrow> string set result" where
  "closure_loop candidates needed selected [] = Inr selected"
| "closure_loop candidates needed selected (name # pending) =
     (if name \<in> selected then closure_loop candidates needed selected pending
      else case map_of candidates name of
        None \<Rightarrow> RaiseP [''runtime dependency closure is missing '', name]
      | Some candidate \<Rightarrow>
          (case needed candidate of
             Inl e \<Rightarrow> Inl e
           | Inr dependencies \<Rightarrow>
               (case fold_r (push_dependency candidates (insert name selected) name) pending
                       (rev (sort (remdups dependencies))) of
                  Inl e \<Rightarrow> Inl e
                | Inr deeper \<Rightarrow> closure_loop candidates needed (insert name selected) deeper)))"
  by pat_completeness auto

text \<open>
  The loop ends: an iteration either takes a name off the stack, or selects a further candidate.
\<close>

termination
proof (relation "measures [\<lambda>(candidates, _, selected, _). card (fst ` set candidates - selected),
                           \<lambda>(_, _, _, pending). length pending]", goal_cases)
  case (3 candidates needed selected name pending candidate dependencies deeper)
  then have "name \<in> fst ` set candidates - selected" by (metis DiffI map_of_eq_None_iff option.distinct(1))
  then have "fst ` set candidates - insert name selected \<subset> fst ` set candidates - selected" by blast
  then show ?case by (simp add: psubset_card_mono)
qed simp_all

definition resolve_dependency_closure ::
  "candidates \<Rightarrow> string set \<Rightarrow> (candidate_library \<Rightarrow> string list result) \<Rightarrow> string set result" where
  "resolve_dependency_closure candidates roots needed =
     closure_loop candidates needed {} (sorted_list_of_set roots)"

text \<open>The completeness check of \<open>inspect_staged_libraries\<close>, for one staged library.\<close>

definition incomplete_closure :: "string set \<Rightarrow> string list \<Rightarrow> string list" where
  "incomplete_closure staged needed_libraries =
     sort (filter (\<lambda>d. \<not> is_host_library d \<and> d \<notin> staged) needed_libraries)"


subsection \<open>Merging\<close>

text \<open>The candidate of a name is the first one of that name, and every other one has its digest.\<close>

definition consistent_names :: "candidate_library list \<Rightarrow> bool" where
  "consistent_names cs \<longleftrightarrow>
     (\<forall>c \<in> set cs. \<forall>c' \<in> set cs. cl_name c = cl_name c' \<longrightarrow> cl_sha256 c = cl_sha256 c')"

definition merged_from :: "candidate_library list \<Rightarrow> candidates \<Rightarrow> bool" where
  "merged_from cs m \<longleftrightarrow>
     (\<forall>n. map_of m n = find (\<lambda>c. cl_name c = n) cs) \<and> consistent_names cs"

lemma find_append: "find P (xs @ ys) = (case find P xs of Some x \<Rightarrow> Some x | None \<Rightarrow> find P ys)"
  by (induction xs) auto

lemma find_name_some: "c \<in> set cs \<Longrightarrow> \<exists>c'. find (\<lambda>x. cl_name x = cl_name c) cs = Some c' \<and> c' \<in> set cs \<and> cl_name c' = cl_name c"
  by (induction cs) auto

lemma find_name_in: "find (\<lambda>x. cl_name x = n) cs = Some c \<Longrightarrow> c \<in> set cs \<and> cl_name c = n"
  by (induction cs) (auto split: if_splits)

lemma merged_existing:
  assumes "merged_from cs m" and "map_of m n = Some c"
  shows "c \<in> set cs \<and> cl_name c = n"
  using assms find_name_in unfolding merged_from_def by metis

lemma merge_step_error:
  assumes "merged_from cs m" and "merge_step m c = Inl e"
  shows "\<exists>c' \<in> set cs. cl_name c' = cl_name c \<and> cl_sha256 c' \<noteq> cl_sha256 c"
proof (cases "map_of m (cl_name c)")
  case None
  then show ?thesis using assms(2) by (simp add: merge_step_def)
next
  case (Some existing)
  then show ?thesis using assms(2) merged_existing [OF assms(1) Some]
    by (intro bexI [of _ existing]) (auto simp: merge_step_def split: if_splits)
qed

lemma consistent_namesD:
  "consistent_names cs \<Longrightarrow> c \<in> set cs \<Longrightarrow> c' \<in> set cs \<Longrightarrow> cl_name c = cl_name c' \<Longrightarrow> cl_sha256 c = cl_sha256 c'"
  unfolding consistent_names_def by blast

lemma consistent_snoc:
  "consistent_names (cs @ [c]) \<longleftrightarrow>
     consistent_names cs \<and> (\<forall>c' \<in> set cs. cl_name c' = cl_name c \<longrightarrow> cl_sha256 c' = cl_sha256 c)"
proof
  assume all: "consistent_names (cs @ [c])"
  have "consistent_names cs"
    unfolding consistent_names_def by (intro ballI impI, rule consistent_namesD [OF all]) simp_all
  moreover have "\<forall>c' \<in> set cs. cl_name c' = cl_name c \<longrightarrow> cl_sha256 c' = cl_sha256 c"
    by (intro ballI impI, rule consistent_namesD [OF all]) simp_all
  ultimately show "consistent_names cs \<and> (\<forall>c' \<in> set cs. cl_name c' = cl_name c \<longrightarrow> cl_sha256 c' = cl_sha256 c)"
    by (rule conjI)
next
  assume "consistent_names cs \<and> (\<forall>c' \<in> set cs. cl_name c' = cl_name c \<longrightarrow> cl_sha256 c' = cl_sha256 c)"
  then have con: "consistent_names cs" and new: "\<And>c'. c' \<in> set cs \<Longrightarrow> cl_name c' = cl_name c \<Longrightarrow> cl_sha256 c' = cl_sha256 c"
    by blast+
  have same: "cl_sha256 x = cl_sha256 y" if "x \<in> insert c (set cs)" "y \<in> insert c (set cs)" "cl_name x = cl_name y" for x y
    using that new [of x] new [of y] consistent_namesD [OF con, of x y] by (cases "x = c"; cases "y = c") simp_all
  show "consistent_names (cs @ [c])" unfolding consistent_names_def by (intro ballI impI, rule same) simp_all
qed

lemma merge_step_merged:
  assumes "merged_from cs m" and step: "merge_step m c = Inr m'"
  shows "merged_from (cs @ [c]) m'"
proof -
  have look: "\<And>n. map_of m n = find (\<lambda>x. cl_name x = n) cs" and con: "consistent_names cs"
    using assms(1) unfolding merged_from_def by blast+
  have "map_of m' n = (case map_of m n of Some x \<Rightarrow> Some x | None \<Rightarrow> find (\<lambda>x. cl_name x = n) [c])" for n
    using step by (auto simp: merge_step_def map_of_append map_add_def split: option.splits if_splits)
  then have "map_of m' n = find (\<lambda>x. cl_name x = n) (cs @ [c])" for n
    by (simp only: look find_append)
  moreover have "cl_sha256 c' = cl_sha256 c" if c': "c' \<in> set cs" "cl_name c' = cl_name c" for c'
  proof -
    obtain x where x: "map_of m (cl_name c) = Some x" "x \<in> set cs" "cl_name x = cl_name c"
      using find_name_some [OF c'(1)] look [of "cl_name c"] c'(2) by auto
    then have "cl_sha256 x = cl_sha256 c" using step by (auto simp: merge_step_def split: if_splits)
    moreover have "cl_sha256 c' = cl_sha256 x" using consistent_namesD [OF con c'(1) x(2)] c'(2) x(3) by simp
    ultimately show ?thesis by simp
  qed
  ultimately show ?thesis using con unfolding merged_from_def consistent_snoc by blast
qed

lemma merge_fold:
  assumes "merged_from cs m"
  shows "fold_r merge_step m ds = Inr m' \<Longrightarrow> merged_from (cs @ ds) m'"
  using assms
proof (induction ds arbitrary: cs m)
  case (Cons d ds)
  then obtain m1 where "merge_step m d = Inr m1" "fold_r merge_step m1 ds = Inr m'" by (auto simp: and_then_Inr_iff)
  then show ?case using Cons.IH [of m1 "cs @ [d]"] merge_step_merged [OF Cons.prems(2)] by simp
qed simp


lemma merge_candidates_flat: "merge_candidates groups = fold_r merge_step [] (concat groups)"
proof -
  have "fold_r (fold_r merge_step) m groups = fold_r merge_step m (concat groups)" for m
    by (induction groups arbitrary: m) (simp_all add: fold_r_append)
  then show ?thesis by (simp add: merge_candidates_def)
qed

lemma merge_fold_error:
  assumes "merged_from cs m" "fold_r merge_step m ds = Inl e"
  shows "\<not> consistent_names (cs @ ds)"
  using assms
proof (induction ds arbitrary: cs m)
  case (Cons d ds)
  show ?case
  proof (cases "merge_step m d")
    case (Inl e')
    obtain c where "c \<in> set cs" "cl_name c = cl_name d" "cl_sha256 c \<noteq> cl_sha256 d"
      using merge_step_error [OF Cons.prems(1) Inl] by blast
    then show ?thesis using consistent_namesD [of "cs @ d # ds" c d] by auto
  next
    case (Inr m1)
    then show ?thesis
      using Cons.IH [OF merge_step_merged [OF Cons.prems(1) Inr]] Cons.prems(2) by simp
  qed
qed simp

subsection \<open>Reachability\<close>

definition dependency_edges :: "candidates \<Rightarrow> (candidate_library \<Rightarrow> string list result) \<Rightarrow> (string \<times> string) set" where
  "dependency_edges candidates needed =
     {(a, b). \<exists>c ds. map_of candidates a = Some c \<and> needed c = Inr ds \<and> b \<in> set ds \<and> \<not> is_host_library b}"

definition packaged :: "candidates \<Rightarrow> (candidate_library \<Rightarrow> string list result) \<Rightarrow> string \<Rightarrow> bool" where
  "packaged candidates needed a \<longleftrightarrow> (\<exists>c ds. map_of candidates a = Some c \<and> needed c = Inr ds)"

lemma push_fold:
  assumes "fold_r (push_dependency candidates S n) pending ds = Inr deeper"
  shows "set deeper = set pending \<union> {d \<in> set ds. \<not> is_host_library d \<and> d \<notin> S}"
  using assms
  by (induction ds arbitrary: pending) (auto simp: and_then_Inr_iff push_dependency_def split: if_splits)

lemma push_fold_ok:
  assumes "\<And>d. d \<in> set ds \<Longrightarrow> \<not> is_host_library d \<Longrightarrow> d \<notin> S \<Longrightarrow> map_of candidates d \<noteq> None"
  shows "\<exists>deeper. fold_r (push_dependency candidates S n) pending ds = Inr deeper"
  using assms
proof (induction ds arbitrary: pending)
  case (Cons d ds)
  have "\<exists>p. push_dependency candidates S n pending d = Inr p"
    using Cons.prems [of d] unfolding push_dependency_def by (cases "is_host_library d \<or> d \<in> S") auto
  then obtain p where "push_dependency candidates S n pending d = Inr p" by blast
  then show ?case using Cons.IH [of p] Cons.prems by simp
qed simp

lemma closure_loop_sound:
  fixes candidates needed
  defines "E \<equiv> dependency_edges candidates needed"
  shows "closure_loop candidates needed S P = Inr T \<Longrightarrow> S \<subseteq> T \<and> set P \<subseteq> T \<and> T \<subseteq> S \<union> E\<^sup>* `` set P \<and>
    (\<forall>a \<in> T - S. E `` {a} \<subseteq> T \<and> packaged candidates needed a)"
  unfolding E_def
proof (induction candidates needed S P rule: closure_loop.induct)
  case (2 candidates needed S name pending)
  let ?E = "dependency_edges candidates needed"
  show ?case
  proof (cases "name \<in> S")
    case True
    then show ?thesis using 2 by auto
  next
    case False
    with "2.prems" obtain c ds deeper where
      c: "map_of candidates name = Some c" and ds: "needed c = Inr ds"
      and push: "fold_r (push_dependency candidates (insert name S) name) pending (rev (sort (remdups ds))) = Inr deeper"
      and rest: "closure_loop candidates needed (insert name S) deeper = Inr T"
      by (auto split: option.splits sum.splits)
    have m: "set deeper = set pending \<union> {d \<in> set ds. \<not> is_host_library d \<and> d \<notin> insert name S}"
      using push_fold [OF push] by simp
    have edges: "?E `` {name} = {d \<in> set ds. \<not> is_host_library d}"
      using c ds by (auto simp: dependency_edges_def)
    note ih = "2.IH"(2) [OF False c ds push rest]
    have pack: "packaged candidates needed name" using c ds by (auto simp: packaged_def)
    have "?E `` {name} \<subseteq> T" using ih m edges by auto
    moreover have "T \<subseteq> S \<union> ?E\<^sup>* `` set (name # pending)"
    proof
      fix x assume "x \<in> T"
      then consider "x \<in> insert name S" | y where "y \<in> set deeper" "(y, x) \<in> ?E\<^sup>*" using ih by auto
      then show "x \<in> S \<union> ?E\<^sup>* `` set (name # pending)"
      proof cases
        case 2
        then have "y \<in> set pending \<or> (name, y) \<in> ?E" using m edges by auto
        then show ?thesis using 2(2) by (auto intro: converse_rtrancl_into_rtrancl)
      qed auto
    qed
    ultimately show ?thesis using ih m pack by auto
  qed
qed simp

lemma closure_loop_complete:
  assumes "\<And>a. a \<in> (dependency_edges candidates needed)\<^sup>* `` set P \<Longrightarrow> a \<notin> S \<Longrightarrow> packaged candidates needed a"
  shows "\<exists>T. closure_loop candidates needed S P = Inr T"
  using assms
proof (induction candidates needed S P rule: closure_loop.induct)
  case (2 candidates needed S name pending)
  let ?E = "dependency_edges candidates needed"
  show ?case
  proof (cases "name \<in> S")
    case True
    then show ?thesis using 2 by auto
  next
    case False
    then have "packaged candidates needed name" using "2.prems" by auto
    then obtain c ds where c: "map_of candidates name = Some c" and ds: "needed c = Inr ds"
      by (auto simp: packaged_def)
    have edge: "(name, d) \<in> ?E" if "d \<in> set ds" "\<not> is_host_library d" for d
      using that c ds by (auto simp: dependency_edges_def)
    have "map_of candidates d \<noteq> None" if "d \<in> set ds" "\<not> is_host_library d" "d \<notin> insert name S" for d
    proof -
      have "packaged candidates needed d" using that edge [OF that(1,2)] by (intro "2.prems") auto
      then show ?thesis by (auto simp: packaged_def)
    qed
    then obtain deeper where
      push: "fold_r (push_dependency candidates (insert name S) name) pending (rev (sort (remdups ds))) = Inr deeper"
      using push_fold_ok [of "rev (sort (remdups ds))" "insert name S" candidates name pending] by auto
    have m: "set deeper = set pending \<union> {d \<in> set ds. \<not> is_host_library d \<and> d \<notin> insert name S}"
      using push_fold [OF push] by simp
    have "packaged candidates needed a" if a: "a \<in> ?E\<^sup>* `` set deeper" "a \<notin> insert name S" for a
    proof (rule "2.prems")
      from a(1) obtain y where "y \<in> set deeper" "(y, a) \<in> ?E\<^sup>*" by blast
      then show "a \<in> ?E\<^sup>* `` set (name # pending)"
        using m edge by (auto intro: converse_rtrancl_into_rtrancl)
      show "a \<notin> S" using a(2) by simp
    qed
    from "2.IH"(2) [OF False c ds push this] obtain T where "closure_loop candidates needed (insert name S) deeper = Inr T"
      by blast
    then show ?thesis using False c ds push by simp
  qed
qed simp

text \<open>
  C18. The libraries of an accelerator pack are exactly the ones its roots need: the worklist of
  \<open>resolve_dependency_closure\<close> always ends, and it returns a set if and only if every library
  reachable from the roots through dependencies that are not host libraries is a candidate whose
  dynamic section can be read; the set is then that reachable set, no library missing and none
  superfluous.
\<close>

theorem closure_is_reachable_set:
  assumes "finite roots"
  shows "resolve_dependency_closure candidates roots needed = Inr S \<longleftrightarrow>
    S = (dependency_edges candidates needed)\<^sup>* `` roots \<and> (\<forall>a \<in> S. packaged candidates needed a)"
proof -
  let ?E = "dependency_edges candidates needed"
  have sound: "T = ?E\<^sup>* `` roots \<and> (\<forall>a \<in> T. packaged candidates needed a)"
    if "resolve_dependency_closure candidates roots needed = Inr T" for T
  proof -
    have t: "roots \<subseteq> T" "T \<subseteq> ?E\<^sup>* `` roots" "\<forall>a \<in> T. ?E `` {a} \<subseteq> T \<and> packaged candidates needed a"
      using closure_loop_sound [OF that [unfolded resolve_dependency_closure_def]] assms by auto
    have "y \<in> T" if "(x, y) \<in> ?E\<^sup>*" "x \<in> roots" for x y
      using that by (induction rule: rtrancl_induct) (use t in auto)
    then show ?thesis using t by auto
  qed
  moreover have "\<exists>T. resolve_dependency_closure candidates roots needed = Inr T"
    if "\<forall>a \<in> ?E\<^sup>* `` roots. packaged candidates needed a"
    unfolding resolve_dependency_closure_def using that assms by (intro closure_loop_complete) auto
  ultimately show ?thesis by (metis sum.inject(2))
qed

definition sample_library :: "string \<Rightarrow> string \<times> candidate_library" where
  "sample_library name = (name, \<lparr>cl_name = name, cl_origin = ''cuda'', cl_sha256 = name\<rparr>)"

definition sample_needed :: "candidate_library \<Rightarrow> string list result" where
  "sample_needed c = Inr (if cl_name c = ''a'' then [''b'', ''libc.so.6'', ''libcuda.so.1''] else [''a''])"

lemma sample_closure:
  "resolve_dependency_closure (map sample_library [''a'', ''b'', ''d'']) {''a''} sample_needed = Inr {''a'', ''b''}"
  by code_simp

theorem closure_is_reachable_set_witness:
  "(dependency_edges (map sample_library [''a'', ''b'', ''d'']) sample_needed)\<^sup>* `` {''a''} = {''a'', ''b''}"
  using closure_is_reachable_set [THEN iffD1, OF _ sample_closure] by simp

lemma closure_needs_nothing_else:
  assumes "finite roots" "resolve_dependency_closure candidates roots needed = Inr S"
    and "a \<in> S" "map_of candidates a = Some c" "needed c = Inr ds"
  shows "incomplete_closure S ds = []"
proof -
  have "(dependency_edges candidates needed) `` {a} \<subseteq> S"
    using closure_loop_sound [OF assms(2) [unfolded resolve_dependency_closure_def]] assms(3) by simp
  then have "filter (\<lambda>d. \<not> is_host_library d \<and> d \<notin> S) ds = []"
    using assms(4,5) by (auto simp: dependency_edges_def filter_empty_conv)
  then show ?thesis by (simp add: incomplete_closure_def)
qed

text \<open>
  Merging the candidates of several directories succeeds exactly when no two of them have one
  name and different bytes, and the result maps every name to its first candidate.
\<close>

theorem merge_candidates_first_wins:
  "case merge_candidates groups of
     Inr m \<Rightarrow> consistent_names (concat groups) \<and> (\<forall>n. map_of m n = find (\<lambda>c. cl_name c = n) (concat groups))
   | Inl e \<Rightarrow> exn_of e = PackageError \<and> \<not> consistent_names (concat groups)"
proof -
  have empty: "merged_from [] []" by (simp add: merged_from_def consistent_names_def)
  have package: "exn_of e = PackageError" if "fold_r merge_step m cs = Inl e" for m cs e
    using that by (induction cs arbitrary: m) (auto simp: merge_step_def and_then_def split: option.splits if_splits sum.splits)
  show ?thesis
  proof (cases "fold_r merge_step [] (concat groups)")
    case (Inl e)
    then show ?thesis using merge_fold_error [OF empty Inl] package [OF Inl] by (simp add: merge_candidates_flat)
  next
    case (Inr m)
    then have "merged_from (concat groups) m" using merge_fold [OF empty Inr] by simp
    then show ?thesis unfolding merge_candidates_flat Inr sum.case merged_from_def by blast
  qed
qed

end
