(* ===== verification/Release.thy ===== *)
theory Release
  imports Pack_Closure Certification Json_Wire
begin

text \<open>
  Releases of the ONNX Runtime packs (\<open>release.py\<close>): stable versions and release tags, what a
  workflow run may publish, the splitting of an archive into parts, and the comparison of the
  uploaded assets with the signed catalogs.

  The output of \<open>cargo metadata\<close> and the contents of the archive are arguments; files are those of
  \<open>Certification\<close>, with scripted outcomes of system calls. A regular expression is stated as what
  a full match says of the text.

  The lemmas show that tags and pairs of versions determine each other, that only an exact tag is
  published, that the parts of an archive are a partition of its bytes, and that accepted uploads
  are exactly the assets of the catalogs.
\<close>

subsection \<open>Versions and tags\<close>

definition version_number :: "string \<Rightarrow> bool" where
  "version_number t = (t = ''0'' \<or> t \<noteq> [] \<and> hd t \<noteq> CHR ''0'' \<and> list_all ascii_digit t)"

definition is_version :: "string \<Rightarrow> bool" where
  "is_version s =
     (case split_on (CHR ''.'') s of
        [a, b, c] \<Rightarrow> version_number a \<and> version_number b \<and> version_number c
      | _ \<Rightarrow> False)"

definition version_char :: "char \<Rightarrow> bool" where
  "version_char c = (c = CHR ''.'' \<or> ascii_digit c)"

definition release_tag :: "string \<Rightarrow> string \<Rightarrow> string" where
  "release_tag adapter kapsl = ''kapsl-ort-packs-v'' @ adapter @ ''-kapsl-v'' @ kapsl"

text \<open>
  \<open>STABLE_TAG.fullmatch\<close> with its groups. A version has no hyphen, so the first group is the
  longest run of digits and dots after the prefix.
\<close>

definition match_stable_tag :: "string \<Rightarrow> (string \<times> string) option" where
  "match_stable_tag tag =
     (let body = drop 17 tag; adapter = takeWhile version_char body; rest = dropWhile version_char body;
          kapsl = drop 8 rest
      in if take 17 tag = ''kapsl-ort-packs-v'' \<and> take 8 rest = ''-kapsl-v'' \<and> is_version adapter \<and> is_version kapsl
         then Some (adapter, kapsl) else None)"

definition PROFILES :: "string list" where "PROFILES = [''cpu'', ''cuda12'', ''tensorrt10'']"

definition parse_boolean :: "string \<Rightarrow> string \<Rightarrow> bool result" where
  "parse_boolean v label =
     (if py_lower v \<noteq> ''true'' \<and> py_lower v \<noteq> ''false'' then RaiseP [label, '' must be true or false'']
      else Inr (py_lower v = ''true''))"

text \<open>
  \<open>adapter_version\<close> on the exit code, the error output and the decoded output of \<open>cargo metadata\<close>.
  Every exception of the lookup itself is caught; a version that is no text fails in the regular
  expression.
\<close>

fun named_version :: "pyval list \<Rightarrow> pyval result" where
  "named_version [] = Raise RuntimeError ''StopIteration''"
| "named_version (p # ps) =
     and_then (item p ''name'') (\<lambda>name.
     if py_eq name (PStr ''kapsl-backend-ort'') then item p ''version'' else named_version ps)"

definition adapter_version :: "int \<Rightarrow> string \<Rightarrow> pyval result \<Rightarrow> string result" where
  "adapter_version returncode stderr metadata =
     (if returncode \<noteq> 0
      then RaiseP [''failed to read the ORT adapter version with cargo metadata: '', py_strip stderr]
      else case and_then metadata (\<lambda>m. and_then (item m ''packages'') (\<lambda>packages.
                  case packages of PList ps \<Rightarrow> named_version ps | _ \<Rightarrow> Raise TypeError ''not a list of packages'')) of
        Inl e \<Rightarrow> RaiseP [''cargo metadata did not contain the kapsl-backend-ort package version'']
      | Inr (PStr v) \<Rightarrow>
          if is_version v then Inr v
          else RaiseP [''ORT adapter version must be an exact stable semantic version'']
      | Inr _ \<Rightarrow> Raise TypeError ''expected string or bytes-like object'')"

record ref_arguments =
  ra_event_name :: string
  ra_ref_type :: string
  ra_ref_name :: string
  ra_requested_kapsl :: string
  ra_requested_profile :: string
  ra_requested_publish :: string

definition ref_kapsl_version :: "string \<Rightarrow> ref_arguments \<Rightarrow> string result" where
  "ref_kapsl_version version args =
     (let matched = (if ra_ref_type args = ''tag'' then match_stable_tag (ra_ref_name args) else None)
      in if ra_event_name args = ''push'' \<and> ra_ref_type args \<noteq> ''tag''
         then RaiseP [''automatic ORT publication requires a tag push'']
         else if ra_ref_type args = ''tag'' \<and> matched = None
         then RaiseP [''release tag is not an exact stable ORT pack tag: '', ra_ref_name args]
         else case matched of
           Some (adapter, kapsl) \<Rightarrow>
             if adapter \<noteq> version
             then RaiseP [''release tag adapter version is '', adapter, ''; expected '', version]
             else if ra_requested_kapsl args \<noteq> [] \<and> ra_requested_kapsl args \<noteq> kapsl
             then RaiseP [''requested Kapsl version '', ra_requested_kapsl args, '' differs from tag '', kapsl]
             else Inr kapsl
         | None \<Rightarrow> Inr (ra_requested_kapsl args))"

definition chosen_outputs ::
  "(rat \<Rightarrow> string) \<Rightarrow> string \<Rightarrow> string \<Rightarrow> bool \<Rightarrow> ref_arguments \<Rightarrow> (string \<times> string) list result" where
  "chosen_outputs fr version kapsl_version publish args =
     (let expected_tag = release_tag version kapsl_version;
          profiles = (if publish \<or> ra_requested_profile args = ''all'' then PROFILES else [ra_requested_profile args])
      in if \<not> is_version kapsl_version
      then RaiseP [''Kapsl compatibility must be an exact stable semantic version'']
      else if publish \<and> (ra_ref_type args \<noteq> ''tag'' \<or> ra_ref_name args \<noteq> expected_tag)
      then RaiseP [''publication requires selecting the exact existing tag '', expected_tag]
      else if ra_requested_profile args \<notin> set (PROFILES @ [''all''])
      then RaiseP [''unknown requested profile '', ra_requested_profile args]
      else
      and_then (json_dumps fr (PDict [(''profile'', PList (map PStr profiles))])) (\<lambda>matrix.
      Inr [(''adapter_version'', version), (''kapsl_version'', kapsl_version),
           (''publish'', if publish then ''true'' else ''false''), (''release_tag'', expected_tag),
           (''matrix'', matrix)]))"

definition release_outputs ::
  "(rat \<Rightarrow> string) \<Rightarrow> string result \<Rightarrow> ref_arguments \<Rightarrow> (string \<times> string) list result" where
  "release_outputs fr adapter args =
     and_then adapter (\<lambda>version.
     and_then (parse_boolean (ra_requested_publish args) ''requested-publish'') (\<lambda>requested_publish.
     and_then (ref_kapsl_version version args) (\<lambda>kapsl_version.
     chosen_outputs fr version kapsl_version (ra_event_name args = ''push'' \<or> requested_publish) args)))"

text \<open>Appending to the workflow's output file, whose content is the state.\<close>

definition append_output :: "string \<times> string \<Rightarrow> (string, unit) eff" where
  "append_output nv =
     (case nv of (name, v) \<Rightarrow>
        if char_of (10 :: nat) \<in> set v \<or> char_of (13 :: nat) \<in> set v
        then lift (RaiseP [''workflow output '', name, '' contains a line break''])
        else modify (\<lambda>s. s @ name @ ''='' @ v @ [char_of (10 :: nat)]))"

definition append_github_outputs :: "(string \<times> string) list \<Rightarrow> (string, unit) eff" where
  "append_github_outputs = for_each append_output"

definition validate_release_ref :: "(rat \<Rightarrow> string) \<Rightarrow> string result \<Rightarrow> ref_arguments \<Rightarrow> (string, unit) eff" where
  "validate_release_ref fr adapter args =
     bind (lift (release_outputs fr adapter args)) append_github_outputs"

definition hex_commit :: "string \<Rightarrow> bool" where
  "hex_commit s = (length s = 40 \<and> list_all (\<lambda>c. ascii_digit c \<or> c \<in> set ''abcdef'') s)"

definition validate_release_identity :: "string \<Rightarrow> string \<Rightarrow> string \<Rightarrow> string \<Rightarrow> unit result" where
  "validate_release_identity adapter kapsl tag commit =
     (if \<not> is_version adapter then RaiseP [''release adapter version is not stable semantic versioning'']
      else if \<not> is_version kapsl then RaiseP [''release Kapsl version is not stable semantic versioning'']
      else if tag \<noteq> release_tag adapter kapsl
      then RaiseP [''release identity requires exact tag '', release_tag adapter kapsl]
      else if \<not> hex_commit commit then RaiseP [''release source commit is not exact lowercase hexadecimal'']
      else Inr ())"

definition portable_char :: "char \<Rightarrow> bool" where
  "portable_char c =
     (let n = of_char c :: nat
      in 48 \<le> n \<and> n \<le> 57 \<or> 65 \<le> n \<and> n \<le> 90 \<or> 97 \<le> n \<and> n \<le> 122 \<or> c \<in> set ''_.-'')"

definition portable_name :: "string \<Rightarrow> bool" where
  "portable_name s = (s \<noteq> [] \<and> list_all portable_char s)"

definition release_url :: "string \<Rightarrow> string \<Rightarrow> string \<Rightarrow> string result" where
  "release_url repository tag name =
     (if \<not> (case split_on (CHR ''/'') repository of
              [owner, repo] \<Rightarrow> portable_name owner \<and> portable_name repo | _ \<Rightarrow> False)
      then RaiseP [''release repository must be an owner/name pair'']
      else if \<not> portable_name name then RaiseP [''release asset name is not portable: '', name]
      else Inr (fmt [''https://github.com/'', repository, ''/releases/download/'', tag, ''/'', name]))"

subsection \<open>Parts of an archive\<close>

definition READ_BLOCK_BYTES :: int where "READ_BLOCK_BYTES = 8388608"

text \<open>The inner loop: the bytes of one part and the rest of the stream.\<close>

function copy_part :: "int \<Rightarrow> int \<Rightarrow> string \<Rightarrow> string \<times> string" where
  "copy_part part_bytes written source =
     (if written < part_bytes
      then let n = nat (min READ_BLOCK_BYTES (part_bytes - written)); block = take n source
           in if block = [] then ([], source)
              else (case copy_part part_bytes (written + int (length block)) (drop n source) of
                      (data, rest) \<Rightarrow> (block @ data, rest))
      else ([], source))"
  by pat_completeness auto
termination by (relation "measure (\<lambda>(_, _, source). length source)") auto

text \<open>The outer loop over the stream; an empty chunk ends it where the archive ended early.\<close>

function cut_parts :: "int \<Rightarrow> int \<Rightarrow> string \<Rightarrow> string list" where
  "cut_parts part_bytes remaining source =
     (if remaining \<le> 0 then []
      else case copy_part part_bytes 0 source of
        (data, rest) \<Rightarrow>
          if data = [] then [[]]
          else data # cut_parts part_bytes (remaining - int (length data)) rest)"
  by pat_completeness auto
termination by (relation "measure (\<lambda>(_, remaining, _). nat remaining)") auto

declare copy_part.simps [simp del] cut_parts.simps [simp del]

record release_part =
  rp_name :: string
  rp_sha256 :: string
  rp_size :: int

definition pad3 :: "string \<Rightarrow> string" where
  "pad3 t = replicate (3 - length t) CHR ''0'' @ t"

definition part_name :: "string \<Rightarrow> nat \<Rightarrow> string" where
  "part_name archive index = archive @ ''.part-'' @ pad3 (nat_text index)"

definition create_new :: "string \<Rightarrow> (files, unit) eff" where
  "create_new path =
     bind os_call (\<lambda>_.
     bind (gets fs_files) (\<lambda>fs.
     if map_of fs path \<noteq> None then lift (Raise OSError ''File exists'')
     else modify (\<lambda>s. s\<lparr>fs_files := AList.update path [] fs\<rparr>)))"

definition split_step ::
  "(string \<Rightarrow> string) \<Rightarrow> string \<Rightarrow> release_part list \<Rightarrow> nat \<times> string \<Rightarrow> (files, release_part list) eff" where
  "split_step sha archive result chunk =
     (case chunk of (index, data) \<Rightarrow>
        let name = part_name archive index
        in
        bind (create_new name) (\<lambda>_.
        if data = []
        then bind (unlink_file name) (\<lambda>_. lift (RaiseP [''release archive ended early while writing '', name]))
        else
        bind (write_file name data) (\<lambda>_.
        ret (result @ [\<lparr>rp_name = name, rp_sha256 = sha data, rp_size = int (length data)\<rparr>]))))"

text \<open>The size found by \<open>stat\<close> and the bytes read afterwards are separate arguments.\<close>

definition split_archive ::
  "(string \<Rightarrow> string) \<Rightarrow> string \<Rightarrow> int \<Rightarrow> int \<Rightarrow> string \<Rightarrow> (files, release_part list) eff" where
  "split_archive sha archive part_bytes archive_size source =
     (if part_bytes \<le> 0 \<or> part_bytes \<ge> 2 * 1024 * 1024 * 1024
      then lift (RaiseP [''release part size must be positive and below 2 GiB''])
      else
      bind (fold_e (split_step sha archive) [] (enumerate 0 (cut_parts part_bytes archive_size source))) (\<lambda>result.
      if result = [] \<or> sum_list (map rp_size result) \<noteq> archive_size
      then lift (RaiseP [''failed to split complete release archive '', archive])
      else ret result))"


subsection \<open>Uploaded assets\<close>

text \<open>
  A dictionary whose keys come from JSON documents is a list of keys and values; a key is present
  when one compares equal to it. A list or an object cannot be a key.
\<close>

type_synonym assets = "(pyval \<times> pyval \<times> pyval) list"

definition find_asset :: "assets \<Rightarrow> pyval \<Rightarrow> (pyval \<times> pyval) option" where
  "find_asset m name = map_option snd (find (\<lambda>(k, _). py_eq k name) m)"

text \<open>\<open>m[name] = value\<close>.\<close>

definition store_asset :: "assets \<Rightarrow> pyval \<Rightarrow> pyval \<times> pyval \<Rightarrow> assets" where
  "store_asset m name v =
     (if find_asset m name = None then m @ [(name, v)]
      else map (\<lambda>(k, w). if py_eq k name then (k, v) else (k, w)) m)"

definition add_asset :: "(pyfloat \<Rightarrow> string) \<Rightarrow> assets \<Rightarrow> pyval \<Rightarrow> pyval \<Rightarrow> pyval \<Rightarrow> assets result" where
  "add_asset fr expected name sz digest =
     (if \<not> hashable name then Raise TypeError ''unhashable type''
      else if find_asset expected name \<noteq> None then RaiseP [''release catalogs repeat asset '', py_str fr name]
      else Inr (store_asset expected name (sz, digest)))"

definition add_item :: "(pyfloat \<Rightarrow> string) \<Rightarrow> assets \<Rightarrow> pyval \<Rightarrow> assets result" where
  "add_item fr expected it =
     and_then (item it ''name'') (\<lambda>name.
     and_then (item it ''size'') (\<lambda>sz.
     and_then (item it ''sha256'') (\<lambda>digest.
     add_asset fr expected name sz digest)))"

record release_catalog =
  rc_name :: string
  rc_size :: int
  rc_sha256 :: string
  rc_signature_size :: int
  rc_signature_sha256 :: string
  rc_payload :: pyval

definition iterate :: "pyval \<Rightarrow> pyval list result" where
  "iterate v =
     (case v of
        PList xs \<Rightarrow> Inr xs
      | PDict d \<Rightarrow> Inr (map (PStr \<circ> fst) d)
      | PStr s \<Rightarrow> Inr (map (\<lambda>c. PStr [c]) s)
      | _ \<Rightarrow> Raise TypeError ''object is not iterable'')"

definition add_catalog :: "(pyfloat \<Rightarrow> string) \<Rightarrow> assets \<Rightarrow> release_catalog \<Rightarrow> assets result" where
  "add_catalog fr expected c =
     and_then (add_asset fr expected (PStr (rc_name c)) (PInt (rc_size c)) (PStr (rc_sha256 c))) (\<lambda>e1.
     and_then (add_asset fr e1 (PStr (rc_name c @ ''.sig'')) (PInt (rc_signature_size c))
                 (PStr (rc_signature_sha256 c))) (\<lambda>e2.
     and_then (item (rc_payload c) ''archive'') (\<lambda>archive.
     and_then (fold_r (\<lambda>e field. and_then (item archive field) (add_item fr e)) e2
                 [''manifest'', ''checksum'', ''signature_asset'']) (\<lambda>e3.
     and_then (item archive ''parts'') (\<lambda>parts.
     and_then (iterate parts) (\<lambda>items.
     fold_r (add_item fr) e3 items))))))"

definition remove_prefix :: "string \<Rightarrow> string \<Rightarrow> string" where
  "remove_prefix p s = (if starts_with p s then drop (length p) s else s)"

definition observe_asset :: "assets \<Rightarrow> pyval \<Rightarrow> assets result" where
  "observe_asset observed it =
     (case it of
        PDict d \<Rightarrow>
          if \<not> py_eq (d_get d ''state'') (PStr ''uploaded'')
          then RaiseP [''GitHub release contains an incomplete asset'']
          else
          (case d_get d ''name'' of
             PStr name \<Rightarrow>
               if find_asset observed (PStr name) \<noteq> None
               then RaiseP [''GitHub release contains an invalid duplicate asset'']
               else
               (case (d_get d ''size'', d_get d ''digest'') of
                  (PInt n, PStr digest) \<Rightarrow> Inr (store_asset observed (PStr name) (PInt n, PStr (remove_prefix ''sha256:'' digest)))
                | (PBool b, PStr digest) \<Rightarrow> Inr (store_asset observed (PStr name) (PBool b, PStr (remove_prefix ''sha256:'' digest)))
                | _ \<Rightarrow> RaiseP [''GitHub release asset metadata is incomplete: '', name])
           | _ \<Rightarrow> RaiseP [''GitHub release contains an invalid duplicate asset''])
      | _ \<Rightarrow> RaiseP [''GitHub release contains an incomplete asset''])"

definition same_asset :: "pyval \<times> pyval \<Rightarrow> (pyval \<times> pyval) option \<Rightarrow> bool" where
  "same_asset a b =
     (case (a, b) of ((s, d), Some (s', d')) \<Rightarrow> py_eq s s' \<and> py_eq d d' | _ \<Rightarrow> False)"

text \<open>Dictionary equality, and \<open>sorted\<close> on names: texts compare with texts, numbers with numbers.\<close>

definition same_assets :: "assets \<Rightarrow> assets \<Rightarrow> bool" where
  "same_assets observed expected =
     (length observed = length expected \<and> list_all (\<lambda>(k, a). same_asset a (find_asset expected k)) observed)"

definition sortable :: "pyval list \<Rightarrow> bool" where
  "sortable ks =
     (length ks \<le> 1 \<or> list_all (\<lambda>k. case k of PStr _ \<Rightarrow> True | _ \<Rightarrow> False) ks \<or> list_all (\<lambda>k. num_of k \<noteq> None) ks)"

text \<open>The lists of names that end the last message are left out of it.\<close>

definition validate_uploaded_assets ::
  "(pyfloat \<Rightarrow> string) \<Rightarrow> release_catalog list \<Rightarrow> pydict \<Rightarrow> unit result" where
  "validate_uploaded_assets fr catalogs inventory =
     and_then (fold_r (add_catalog fr) [] catalogs) (\<lambda>expected.
     case d_get inventory ''assets'' of
       PList items \<Rightarrow>
         and_then (fold_r observe_asset [] items) (\<lambda>observed.
         if same_assets observed expected then Inr ()
         else
         let missing = filter (\<lambda>k. find_asset observed k = None) (map fst expected);
             mismatched = map fst (filter (\<lambda>(k, a). find_asset observed k \<noteq> None \<and>
                            \<not> same_asset a (find_asset observed k)) expected)
         in if \<not> sortable missing \<or> \<not> sortable mismatched then Raise TypeError ''names are not comparable''
            else RaiseP [''GitHub release assets do not match signed catalogs''])
     | _ \<Rightarrow> RaiseP [''GitHub release asset inventory has no asset list''])"

subsection \<open>Tags determine versions\<close>

lemma split_on_chars: "c \<in> set s \<Longrightarrow> c = d \<or> (\<exists>t \<in> set (split_on d s). c \<in> set t)"
proof (induction s)
  case (Cons x s)
  then show ?case by (cases "split_on d s") (auto split: if_splits)
qed simp

lemma version_number_digits: "version_number t \<Longrightarrow> list_all ascii_digit t"
  by (auto simp: version_number_def ascii_digit_def)

lemma version_chars:
  assumes "is_version s"
  shows "list_all version_char s"
proof -
  obtain a b c where parts: "split_on (CHR ''.'') s = [a, b, c]" and v: "version_number a" "version_number b" "version_number c"
    using assms by (auto simp: is_version_def split: list.splits)
  have "list_all (list_all ascii_digit) (split_on (CHR ''.'') s)" using v by (simp add: parts version_number_digits)
  then show ?thesis using split_on_chars [of _ s "CHR ''.''"] by (auto simp: list_all_iff version_char_def)
qed

lemma hyphen_no_version_char: "\<not> version_char (CHR ''-'')"
  by code_simp

lemma takeWhile_version:
  assumes "is_version a"
  shows "takeWhile version_char (a @ CHR ''-'' # r) = a" "dropWhile version_char (a @ CHR ''-'' # r) = CHR ''-'' # r"
  using version_chars [OF assms] hyphen_no_version_char
  by (simp_all add: list_all_iff takeWhile_append2 dropWhile_append2)

lemma match_stable_tag_iff:
  "match_stable_tag tag = Some (a, k) \<longleftrightarrow> tag = release_tag a k \<and> is_version a \<and> is_version k"
proof
  assume m: "match_stable_tag tag = Some (a, k)"
  let ?body = "drop 17 tag"
  have f: "take 17 tag = ''kapsl-ort-packs-v''" "takeWhile version_char ?body = a"
    "take 8 (dropWhile version_char ?body) = ''-kapsl-v''" "drop 8 (dropWhile version_char ?body) = k"
    "is_version a" "is_version k"
    using m by (auto simp: match_stable_tag_def Let_def split: if_splits)
  have "tag = take 17 tag @ takeWhile version_char ?body @ take 8 (dropWhile version_char ?body) @
      drop 8 (dropWhile version_char ?body)" by simp
  then have "tag = ''kapsl-ort-packs-v'' @ a @ ''-kapsl-v'' @ k" unfolding f .
  then show "tag = release_tag a k \<and> is_version a \<and> is_version k" using f(5,6) by (simp add: release_tag_def)
next
  assume t: "tag = release_tag a k \<and> is_version a \<and> is_version k"
  have "drop 17 (release_tag a k) = a @ CHR ''-'' # (''kapsl-v'' @ k)" "take 17 (release_tag a k) = ''kapsl-ort-packs-v''"
    by (simp_all add: release_tag_def)
  then show "match_stable_tag tag = Some (a, k)"
    using t takeWhile_version [of a "''kapsl-v'' @ k"] by (simp add: match_stable_tag_def Let_def)
qed

lemma ref_kapsl_version_tag:
  assumes "ref_kapsl_version version args = Inr k" and "ra_ref_type args = ''tag''"
  shows "ra_ref_name args = release_tag version k"
proof -
  obtain a k' where m: "match_stable_tag (ra_ref_name args) = Some (a, k')" and v: "a = version" "k' = k"
    using assms by (auto simp: ref_kapsl_version_def Let_def split: if_splits option.splits)
  then show ?thesis using match_stable_tag_iff by blast
qed

text \<open>
  C39. A workflow run publishes only what it was started for. When the reference is accepted, the
  announced tag is the one of the adapter version in the source tree and of an exact Kapsl version;
  a run on a tag is a run on exactly that tag; and publication, by a push or by request, happens
  only on that tag and builds every profile.
\<close>

theorem release_outputs_exact:
  assumes "release_outputs fr adapter args = Inr outs"
  shows "\<exists>version kapsl profiles. adapter = Inr version \<and> is_version kapsl \<and>
    map fst outs = [''adapter_version'', ''kapsl_version'', ''publish'', ''release_tag'', ''matrix''] \<and>
    map_of outs ''adapter_version'' = Some version \<and> map_of outs ''kapsl_version'' = Some kapsl \<and>
    map_of outs ''release_tag'' = Some (release_tag version kapsl) \<and>
    (ra_ref_type args = ''tag'' \<longrightarrow> ra_ref_name args = release_tag version kapsl) \<and>
    json_dumps fr (PDict [(''profile'', PList (map PStr profiles))]) = Inr (the (map_of outs ''matrix'')) \<and>
    set profiles \<subseteq> set PROFILES \<and>
    (map_of outs ''publish'' = Some ''true'' \<longrightarrow>
       ra_ref_type args = ''tag'' \<and> ra_ref_name args = release_tag version kapsl \<and> profiles = PROFILES) \<and>
    (ra_event_name args = ''push'' \<longrightarrow> map_of outs ''publish'' = Some ''true'')"
proof -
  from assms obtain version req kapsl where v: "adapter = Inr version"
    and k: "ref_kapsl_version version args = Inr kapsl"
    and c: "chosen_outputs fr version kapsl (ra_event_name args = ''push'' \<or> req) args = Inr outs"
    unfolding release_outputs_def and_then_Inr_iff by blast
  define publish where "publish \<longleftrightarrow> ra_event_name args = ''push'' \<or> req"
  define profiles where
    "profiles = (if publish \<or> ra_requested_profile args = ''all'' then PROFILES else [ra_requested_profile args])"
  note c' = c [folded publish_def, unfolded chosen_outputs_def Let_def, folded profiles_def]
  obtain matrix where p: "publish \<longrightarrow> ra_ref_type args = ''tag'' \<and> ra_ref_name args = release_tag version kapsl"
    "ra_requested_profile args \<in> set (PROFILES @ [''all''])" "is_version kapsl"
    and j: "json_dumps fr (PDict [(''profile'', PList (map PStr profiles))]) = Inr matrix"
    and outs: "outs = [(''adapter_version'', version), (''kapsl_version'', kapsl),
            (''publish'', if publish then ''true'' else ''false''), (''release_tag'', release_tag version kapsl),
            (''matrix'', matrix)]"
    using c' unfolding if_raise_iff and_then_Inr_iff sum.inject by blast
  have "set profiles \<subseteq> set PROFILES" using p(2) by (auto simp: profiles_def)
  then show ?thesis
    using v p(3) ref_kapsl_version_tag [OF k] j p(1)
    by (intro exI [of _ version] exI [of _ kapsl] exI [of _ profiles])
      (auto simp: outs publish_def profiles_def)
qed


definition sample_ref :: ref_arguments where
  "sample_ref = \<lparr>ra_event_name = ''push'', ra_ref_type = ''tag'', ra_ref_name = ''kapsl-ort-packs-v0.2.0-kapsl-v1.10.3'',
     ra_requested_kapsl = [], ra_requested_profile = ''cpu'', ra_requested_publish = ''False''\<rparr>"

lemma sample_outputs: "map_sum exn_of (\<lambda>outs. map fst outs) (release_outputs (\<lambda>_. []) (Inr ''0.2.0'') sample_ref) =
    Inr [''adapter_version'', ''kapsl_version'', ''publish'', ''release_tag'', ''matrix'']"
  by code_simp

theorem release_outputs_exact_witness:
  "\<exists>outs. release_outputs (\<lambda>_. []) (Inr ''0.2.0'') sample_ref = Inr outs \<and>
     map_of outs ''publish'' = Some ''true'' \<and> map_of outs ''release_tag'' = Some (ra_ref_name sample_ref)"
proof -
  obtain outs where outs: "release_outputs (\<lambda>_. []) (Inr ''0.2.0'') sample_ref = Inr outs"
    using sample_outputs by (cases "release_outputs (\<lambda>_. []) (Inr ''0.2.0'') sample_ref") auto
  have "ra_ref_type sample_ref = ''tag''" "ra_event_name sample_ref = ''push''" by (simp_all add: sample_ref_def)
  with release_outputs_exact [OF outs] outs show ?thesis by (intro exI [of _ outs]) auto
qed

subsection \<open>The parts are a partition\<close>

lemma copy_part_take:
  "0 \<le> w \<Longrightarrow> copy_part pb w src = (take (nat (pb - w)) src, drop (nat (pb - w)) src)"
proof (induction pb w src rule: copy_part.induct)
  case (1 pb w src)
  define n where "n = nat (min READ_BLOCK_BYTES (pb - w))"
  show ?case
  proof (cases "w < pb \<and> take n src \<noteq> []")
    case True
    have n: "int n \<le> pb - w" "0 < n" using True by (auto simp: n_def READ_BLOCK_BYTES_def)
    have ih: "copy_part pb (w + int (length (take n src))) (drop n src) =
        (take (nat (pb - (w + int (length (take n src))))) (drop n src),
         drop (nat (pb - (w + int (length (take n src))))) (drop n src))"
      using 1 True by (simp add: n_def Let_def)
    define m where "m = nat (pb - (w + int (length (take n src))))"
    have "take n src @ take m (drop n src) = take (nat (pb - w)) src \<and> drop m (drop n src) = drop (nat (pb - w)) src"
    proof (cases "n \<le> length src")
      case True
      then have sum: "nat (pb - w) = n + m" using n by (simp add: m_def)
      show ?thesis unfolding sum take_add drop_drop by (simp add: add.commute)
    qed (use n in simp)
    then show ?thesis using True
      by (subst copy_part.simps) (simp add: Let_def n_def [symmetric] ih [folded m_def] del: length_take)
  next
    case False
    then show ?thesis
      by (subst copy_part.simps) (auto simp: Let_def n_def READ_BLOCK_BYTES_def split: if_splits)
  qed
qed

lemma cut_parts_partition:
  assumes "0 < pb"
  shows "concat (cut_parts pb (int (length src)) src) = src \<and>
    list_all (\<lambda>c. c \<noteq> [] \<and> int (length c) \<le> pb) (cut_parts pb (int (length src)) src) \<and>
    list_all (\<lambda>c. int (length c) = pb) (butlast (cut_parts pb (int (length src)) src))"
proof (induction "length src" arbitrary: src rule: less_induct)
  case less
  show ?case
  proof (cases "src = []")
    case True
    then show ?thesis by (simp add: cut_parts.simps)
  next
    case False
    let ?rest = "drop (nat pb) src"
    have ne: "take (nat pb) src \<noteq> []" using False assms by simp
    have "int (length src) - int (length (take (nat pb) src)) = int (length ?rest)" by simp
    then have cut: "cut_parts pb (int (length src)) src = take (nat pb) src # cut_parts pb (int (length ?rest)) ?rest"
      using False ne by (subst cut_parts.simps) (simp add: copy_part_take)
    have ih: "concat (cut_parts pb (int (length ?rest)) ?rest) = ?rest \<and>
      list_all (\<lambda>c. c \<noteq> [] \<and> int (length c) \<le> pb) (cut_parts pb (int (length ?rest)) ?rest) \<and>
      list_all (\<lambda>c. int (length c) = pb) (butlast (cut_parts pb (int (length ?rest)) ?rest))"
      using False assms by (intro less) simp
    have full: "length (take (nat pb) src) = nat pb" if "cut_parts pb (int (length ?rest)) ?rest \<noteq> []"
    proof -
      have "?rest \<noteq> []" using that by (auto simp: cut_parts.simps)
      then show ?thesis by simp
    qed
    show ?thesis unfolding cut using ih ne assms full by auto
  qed
qed

lemma digits_value_zeros: "digits_value (replicate k CHR ''0'' @ t) = digits_value t"
  by (induction k) (simp_all add: digits_value_def)

lemma part_name_inject [simp]: "part_name a i = part_name a j \<longleftrightarrow> i = j"
proof
  assume "part_name a i = part_name a j"
  then have "pad3 (nat_text i) = pad3 (nat_text j)" by (simp add: part_name_def)
  then have "digits_value (pad3 (nat_text i)) = digits_value (pad3 (nat_text j))" by (rule arg_cong)
  then show "i = j" by (simp add: pad3_def digits_value_zeros nat_text_value)
qed simp


lemma create_new_Inr:
  assumes "create_new path s = (s', Inr u)"
  shows "map_of (fs_files s) path = None \<and> map_of (fs_files s') = (map_of (fs_files s))(path \<mapsto> [])"
  using assms unfolding create_new_def bind_Inr_iff
  by (auto simp: eff_simps update_conv' dest!: os_call_files split: if_splits)

lemma split_step_Inr:
  assumes "split_step sha a acc (i, data) s = (s', Inr acc')"
  shows "data \<noteq> [] \<and> map_of (fs_files s) (part_name a i) = None \<and>
    map_of (fs_files s') = (map_of (fs_files s))(part_name a i \<mapsto> data) \<and>
    acc' = acc @ [\<lparr>rp_name = part_name a i, rp_sha256 = sha data, rp_size = int (length data)\<rparr>]"
proof (cases "data = []")
  case True
  then show ?thesis using assms by (auto simp: split_step_def Let_def bind_Inr_iff lift_Inr_iff)
next
  case False
  then obtain s1 s2 u where c: "create_new (part_name a i) s = (s1, Inr u)"
    and w: "write_file (part_name a i) data s1 = (s2, Inr ())"
    and r: "s' = s2" "acc' = acc @ [\<lparr>rp_name = part_name a i, rp_sha256 = sha data, rp_size = int (length data)\<rparr>]"
    using assms by (auto simp: split_step_def Let_def bind_Inr_iff ret_def)
  have "map_of (fs_files s2) = (map_of (fs_files s1))(part_name a i \<mapsto> data)"
    using touches_write [OF w] by (auto simp: touches_def fun_eq_iff)
  then show ?thesis using False create_new_Inr [OF c] r by simp
qed

lemma split_fold_Inr:
  assumes "fold_e (split_step sha a) acc (enumerate k chunks) s = (s', Inr parts)"
  shows "parts = acc @ map (\<lambda>(i, c). \<lparr>rp_name = part_name a i, rp_sha256 = sha c, rp_size = int (length c)\<rparr>)
      (enumerate k chunks) \<and>
    (\<forall>(i, c) \<in> set (enumerate k chunks). map_of (fs_files s') (part_name a i) = Some c) \<and>
    (\<forall>p. p \<notin> part_name a ` {k..<k + length chunks} \<longrightarrow> map_of (fs_files s') p = map_of (fs_files s) p)"
  using assms
proof (induction chunks arbitrary: k acc s)
  case Nil
  then show ?case by (simp add: ret_def)
next
  case (Cons c chunks)
  from Cons.prems obtain s1 acc1 where step: "split_step sha a acc (k, c) s = (s1, Inr acc1)"
    and rest: "fold_e (split_step sha a) acc1 (enumerate (Suc k) chunks) s1 = (s', Inr parts)"
    by (auto simp: bind_Inr_iff)
  note st = split_step_Inr [OF step] and ih = Cons.IH [OF rest]
  have "part_name a k \<notin> part_name a ` {Suc k..<Suc k + length chunks}" by auto
  then have "map_of (fs_files s') (part_name a k) = Some c" using ih st by simp
  moreover have "map_of (fs_files s') p = map_of (fs_files s) p" if "p \<notin> part_name a ` {k..<k + length (c # chunks)}" for p
  proof -
    have "p \<noteq> part_name a k" "p \<notin> part_name a ` {Suc k..<Suc k + length chunks}" using that by auto
    then show ?thesis using ih st by simp
  qed
  ultimately show ?case using ih st by auto
qed

text \<open>
  C20. Splitting a release archive loses nothing: when the split returns, whatever system calls could
  have failed, the files named in the result hold, in the order of the list, exactly the bytes of the archive; every
  part is non-empty and at most \<open>part_bytes\<close> long, every part but the last has exactly that size,
  the recorded sizes and digests are those of the files, the names are distinct, and no other
  file changed.
\<close>

theorem split_archive_partition:
  assumes "split_archive sha a part_bytes (int (length data)) data s = (s', Inr parts)"
  shows "concat (map (\<lambda>p. the (map_of (fs_files s') (rp_name p))) parts) = data \<and>
    list_all (\<lambda>p. \<exists>c. map_of (fs_files s') (rp_name p) = Some c \<and> rp_sha256 p = sha c \<and> rp_size p = int (length c) \<and>
      c \<noteq> [] \<and> rp_size p \<le> part_bytes) parts \<and>
    list_all (\<lambda>p. rp_size p = part_bytes) (butlast parts) \<and> distinct (map rp_name parts) \<and>
    touches (set (map rp_name parts)) s s'"
proof -
  let ?mk = "\<lambda>(i, c). \<lparr>rp_name = part_name a i, rp_sha256 = sha c, rp_size = int (length c)\<rparr>"
  define chunks where "chunks = cut_parts part_bytes (int (length data)) data"
  from assms have pb: "0 < part_bytes"
    and run: "fold_e (split_step sha a) [] (enumerate 0 chunks) s = (s', Inr parts)"
    by (auto simp: split_archive_def chunks_def bind_Inr_iff lift_def ret_def split: if_splits)
  note f = split_fold_Inr [OF run] and c = cut_parts_partition [OF pb, of data, folded chunks_def]
  have parts: "parts = map ?mk (enumerate 0 chunks)" using f by simp
  have at: "map_of (fs_files s') (part_name a i) = Some (chunks ! i)" if "i < length chunks" for i
    using f that by (auto simp: in_set_enumerate_eq)
  have files: "map (\<lambda>p. the (map_of (fs_files s') (rp_name p))) parts = chunks"
    using at by (intro nth_equalityI) (simp_all add: parts nth_enumerate_eq)
  have names: "map rp_name parts = map (part_name a) [0..<length chunks]"
    by (intro nth_equalityI) (simp_all add: parts nth_enumerate_eq)
  have sizes: "map rp_size parts = map (int \<circ> length) chunks"
    by (intro nth_equalityI) (simp_all add: parts nth_enumerate_eq)
  have "list_all (\<lambda>n. n = part_bytes) (map rp_size (butlast parts))"
    unfolding map_butlast sizes using c by (simp add: map_butlast [symmetric] list_all_iff)
  moreover have "list_all (\<lambda>p. \<exists>c. map_of (fs_files s') (rp_name p) = Some c \<and> rp_sha256 p = sha c \<and>
      rp_size p = int (length c) \<and> c \<noteq> [] \<and> rp_size p \<le> part_bytes) parts"
    using at c by (auto simp: parts list_all_length nth_enumerate_eq)
  moreover have "touches (set (map rp_name parts)) s s'"
  proof -
    have "set (map rp_name parts) = part_name a ` {0..<length chunks}" by (simp only: names set_map set_upt)
    then show ?thesis using f by (simp add: touches_def)
  qed
  ultimately show ?thesis using c by (auto simp: files names distinct_map inj_on_def list_all_iff)
qed


lemma split_step_returns:
  assumes "fs_script s = []" "map_of (fs_files s) (part_name a i) = None" "data \<noteq> []"
  shows "\<exists>s'. fs_script s' = [] \<and> split_step sha a acc (i, data) s =
    (s', Inr (acc @ [\<lparr>rp_name = part_name a i, rp_sha256 = sha data, rp_size = int (length data)\<rparr>]))"
  using assms
  by (simp add: split_step_def create_new_def os_call_def write_file_def bind_def gets_def modify_def ret_def Let_def)

lemma split_fold_returns:
  assumes "fs_script s = []" "\<And>i. k \<le> i \<Longrightarrow> map_of (fs_files s) (part_name a i) = None" "list_all (\<lambda>c. c \<noteq> []) chunks"
  shows "\<exists>s' parts. fold_e (split_step sha a) acc (enumerate k chunks) s = (s', Inr parts)"
  using assms
proof (induction chunks arbitrary: k acc s)
  case (Cons c chunks)
  have "c \<noteq> []" "map_of (fs_files s) (part_name a k) = None" using Cons.prems(2) [of k] Cons.prems(3) by simp_all
  then obtain s1 acc1 where s1: "fs_script s1 = []" and step: "split_step sha a acc (k, c) s = (s1, Inr acc1)"
    using split_step_returns [OF Cons.prems(1), of a k c sha acc] by blast
  have "map_of (fs_files s1) (part_name a i) = None" if "Suc k \<le> i" for i
    using split_step_Inr [OF step] Cons.prems(2) [of i] that by auto
  with Cons.IH [OF s1, of "Suc k"] Cons.prems(3) step show ?case by (simp add: bind_def)
qed (simp add: ret_def)

text \<open>With a part size in range and no failing call, a non-empty archive is split.\<close>

lemma split_archive_returns:
  assumes "0 < part_bytes" "part_bytes < 2 * 1024 * 1024 * 1024" "data \<noteq> []" "fs_script s = []"
    and "\<And>i. map_of (fs_files s) (part_name a i) = None"
  shows "\<exists>s' parts. split_archive sha a part_bytes (int (length data)) data s = (s', Inr parts)"
proof -
  define chunks where "chunks = cut_parts part_bytes (int (length data)) data"
  note c = cut_parts_partition [OF assms(1), of data, folded chunks_def]
  obtain s' parts where run: "fold_e (split_step sha a) [] (enumerate 0 chunks) s = (s', Inr parts)"
    using split_fold_returns [of s 0 a chunks sha "[]"] assms c by (auto simp: list_all_iff)
  have parts: "parts = map (\<lambda>(i, c). \<lparr>rp_name = part_name a i, rp_sha256 = sha c, rp_size = int (length c)\<rparr>)
      (enumerate 0 chunks)" using split_fold_Inr [OF run] by simp
  have "map rp_size parts = map (int \<circ> length) chunks"
    by (intro nth_equalityI) (simp_all add: parts nth_enumerate_eq)
  moreover have "sum_list (map (int \<circ> length) cs) = int (length (concat cs))" for cs :: "string list"
    by (induction cs) simp_all
  ultimately have "sum_list (map rp_size parts) = int (length (concat chunks))" by simp
  moreover have "parts \<noteq> []"
  proof -
    have "chunks \<noteq> []" using c assms(3) by auto
    moreover have "length parts = length chunks" by (simp add: parts)
    ultimately show ?thesis by auto
  qed
  ultimately show ?thesis using run c assms(1,2) by (simp add: split_archive_def chunks_def [symmetric] bind_def ret_def)
qed

definition sample_split :: "files \<times> release_part list result" where
  "sample_split = split_archive (\<lambda>c. c) ''p'' 3 (int (length ''abcde'')) ''abcde'' \<lparr>fs_files = [], fs_script = []\<rparr>"

lemma sample_split_parts: "map_sum exn_of (map rp_size) (snd sample_split) = Inr [3, 2]"
  by code_simp

theorem split_archive_partition_witness:
  "\<exists>s' parts. sample_split = (s', Inr parts) \<and>
     concat (map (\<lambda>p. the (map_of (fs_files s') (rp_name p))) parts) = ''abcde'' \<and> map rp_size parts = [3, 2]"
proof -
  obtain parts where p: "snd sample_split = Inr parts" "map rp_size parts = [3, 2]"
    using sample_split_parts by (cases "snd sample_split") auto
  then have "sample_split = (fst sample_split, Inr parts)" by (simp add: prod_eq_iff)
  with split_archive_partition [OF this [unfolded sample_split_def]] p(2) show ?thesis
    by (intro exI [of _ "fst sample_split"] exI [of _ parts]) (simp add: sample_split_def)
qed


subsection \<open>Accepted uploads\<close>

lemma py_eq_text: "py_eq k (PStr n) \<longleftrightarrow> k = PStr n"
  by (cases k) (auto split: option.splits)

lemma find_asset_text:
  "find_asset m (PStr n) = Some a \<Longrightarrow> (PStr n, a) \<in> set m"
  "find_asset m (PStr n) = None \<Longrightarrow> PStr n \<notin> fst ` set m"
  by (induction m) (auto simp: find_asset_def py_eq_text split: if_splits)

lemma observe_asset_Inr:
  assumes "observe_asset observed it = Inr observed'"
  shows "\<exists>n a. observed' = observed @ [(PStr n, a)] \<and> PStr n \<notin> fst ` set observed"
proof -
  obtain d n where d: "it = PDict d" "d_get d ''name'' = PStr n" and new: "find_asset observed (PStr n) = None"
    using assms by (auto simp: observe_asset_def store_asset_def simp del: not_None_eq split: pyval.splits if_splits)
  then have "\<exists>a. observed' = observed @ [(PStr n, a)]"
    using assms by (auto simp: observe_asset_def store_asset_def new split: pyval.splits if_splits)
  then show ?thesis using find_asset_text(2) [OF new] by blast
qed

lemma observed_texts:
  assumes "fold_r observe_asset [] items = Inr observed"
  shows "distinct (map fst observed) \<and> (\<forall>k \<in> fst ` set observed. \<exists>n. k = PStr n) \<and> length observed = length items"
proof -
  have "distinct (map fst o') \<and> (\<forall>k \<in> fst ` set o'. \<exists>n. k = PStr n) \<and> length o' = length acc + length items"
    if "fold_r observe_asset acc items = Inr o'" "distinct (map fst acc)" "\<forall>k \<in> fst ` set acc. \<exists>n. k = PStr n"
    for acc o'
    using that
  proof (induction items arbitrary: acc)
    case (Cons it items)
    then obtain acc1 where s: "observe_asset acc it = Inr acc1" and r: "fold_r observe_asset acc1 items = Inr o'"
      by (auto simp: and_then_Inr_iff)
    obtain n a where "acc1 = acc @ [(PStr n, a)]" "PStr n \<notin> fst ` set acc" using observe_asset_Inr [OF s] by blast
    then show ?case using Cons.IH [OF r] Cons.prems by auto
  qed simp
  from this [OF assms] show ?thesis by simp
qed

lemma same_assets_match:
  assumes "same_assets observed expected" and "distinct (map fst observed)"
    and texts: "\<forall>k \<in> fst ` set observed. \<exists>n. k = PStr n"
  shows "fst ` set observed = fst ` set expected \<and> distinct (map fst expected) \<and>
    (\<forall>(k, s, d) \<in> set expected. \<exists>s' d'. (k, s', d') \<in> set observed \<and> py_eq s' s \<and> py_eq d' d)"
proof -
  have len: "length observed = length expected" using assms(1) by (simp add: same_assets_def)
  have each: "\<exists>s' d'. (k, s', d') \<in> set expected \<and> py_eq s s' \<and> py_eq d d'" if o: "(k, s, d) \<in> set observed" for k s d
  proof -
    obtain n where k: "k = PStr n" using texts o by force
    have "same_asset (s, d) (find_asset expected k)" using assms(1) o by (auto simp: same_assets_def list_all_iff)
    then obtain s' d' where "find_asset expected k = Some (s', d')" "py_eq s s'" "py_eq d d'"
      by (auto simp: same_asset_def split: option.splits prod.splits)
    then show ?thesis using find_asset_text(1) k by blast
  qed
  have sub: "fst ` set observed \<subseteq> fst ` set expected" using each by force
  have "card (fst ` set observed) = length expected"
    using assms(2) len by (metis distinct_card length_map set_map)
  moreover have "card (fst ` set expected) \<le> length expected" by (metis card_length length_map set_map)
  ultimately have keys: "fst ` set observed = fst ` set expected"
    using sub by (metis List.finite_set card_seteq finite_imageI)
  then have dist: "distinct (map fst expected)"
    using \<open>card (fst ` set observed) = length expected\<close> by (metis card_distinct length_map set_map)
  have "\<exists>s' d'. (k, s', d') \<in> set observed \<and> py_eq s' s \<and> py_eq d' d" if e: "(k, s, d) \<in> set expected" for k s d
  proof -
    obtain s' d' where o: "(k, s', d') \<in> set observed" using keys e by force
    obtain s2 d2 where m: "(k, s2, d2) \<in> set expected" "py_eq s' s2" "py_eq d' d2" using each [OF o] by blast
    have "(s2, d2) = (s, d)" by (rule eq_key_imp_eq_value [OF dist m(1) e])
    then show ?thesis using o m by blast
  qed
  then show ?thesis using keys dist by blast
qed

text \<open>
  What the signed catalogs list, read off their fields: the catalog file and its signature, the
  manifest, the checksum file and the signature asset of the archive, and every part.
\<close>

definition dict_of :: "pyval \<Rightarrow> pydict" where
  "dict_of v = (case v of PDict d \<Rightarrow> d | _ \<Rightarrow> [])"

definition listed_asset :: "pyval \<Rightarrow> pyval \<times> pyval \<times> pyval" where
  "listed_asset it = (d_get (dict_of it) ''name'', d_get (dict_of it) ''size'', d_get (dict_of it) ''sha256'')"

definition catalog_assets :: "release_catalog \<Rightarrow> assets" where
  "catalog_assets c =
     (let archive = dict_of (d_get (dict_of (rc_payload c)) ''archive'')
      in [(PStr (rc_name c), PInt (rc_size c), PStr (rc_sha256 c)),
          (PStr (rc_name c @ ''.sig''), PInt (rc_signature_size c), PStr (rc_signature_sha256 c)),
          listed_asset (d_get archive ''manifest''), listed_asset (d_get archive ''checksum''),
          listed_asset (d_get archive ''signature_asset'')] @
         map listed_asset (case d_get archive ''parts'' of PList parts \<Rightarrow> parts | _ \<Rightarrow> []))"

definition uploaded_asset :: "pyval \<Rightarrow> pyval \<times> pyval \<times> pyval" where
  "uploaded_asset it =
     (d_get (dict_of it) ''name'', d_get (dict_of it) ''size'',
      PStr (remove_prefix ''sha256:'' (str_of (d_get (dict_of it) ''digest''))))"

lemma add_asset_Inr: "add_asset fr e n s d = Inr e' \<Longrightarrow> e' = e @ [(n, s, d)]"
  by (auto simp: add_asset_def store_asset_def split: if_splits)

lemma item_Inr: "item v k = Inr x \<Longrightarrow> d_get (dict_of v) k = x"
  by (auto simp: item_def dict_of_def d_get_def split: pyval.splits option.splits)

lemma add_item_Inr: "add_item fr e it = Inr e' \<Longrightarrow> e' = e @ [listed_asset it]"
  unfolding add_item_def and_then_Inr_iff by (auto simp: listed_asset_def dest!: add_asset_Inr item_Inr)

lemma add_items_Inr: "fold_r (add_item fr) e its = Inr e' \<Longrightarrow> e' = e @ map listed_asset its"
proof (induction its arbitrary: e)
  case (Cons it its)
  then obtain e1 where "add_item fr e it = Inr e1" "fold_r (add_item fr) e1 its = Inr e'"
    by (auto simp: and_then_Inr_iff)
  then show ?case using Cons.IH [of e1] add_item_Inr [of fr e it e1] by simp
qed simp

text \<open>The keys of an object and the characters of a text are no assets: such parts raise, unless there are none.\<close>

lemma iterate_items:
  assumes "iterate v = Inr items" and "fold_r (add_item fr) e items = Inr e'"
  shows "items = (case v of PList parts \<Rightarrow> parts | _ \<Rightarrow> [])"
proof -
  have "\<not> (\<exists>s rest. items = PStr s # rest)"
    using assms(2) by (auto simp: and_then_Inr_iff add_item_def item_def)
  then have h: "items = [] \<or> \<not> (\<exists>s. hd items = PStr s)" by (cases items) auto
  show ?thesis
  proof (cases v)
    case (PStr x)
    then show ?thesis using assms(1) h by (cases x) (auto simp: iterate_def)
  next
    case (PDict d)
    then show ?thesis using assms(1) h by (cases d) (auto simp: iterate_def)
  qed (use assms(1) in \<open>auto simp: iterate_def\<close>)
qed

lemma add_catalog_Inr:
  assumes "add_catalog fr e c = Inr e'"
  shows "e' = e @ catalog_assets c"
proof -
  from assms obtain e1 e2 e3 e4 e5 archive m k s parts items where
    a: "add_asset fr e (PStr (rc_name c)) (PInt (rc_size c)) (PStr (rc_sha256 c)) = Inr e1"
      "add_asset fr e1 (PStr (rc_name c @ ''.sig'')) (PInt (rc_signature_size c)) (PStr (rc_signature_sha256 c)) = Inr e2"
    and i: "item (rc_payload c) ''archive'' = Inr archive" "item archive ''manifest'' = Inr m"
      "item archive ''checksum'' = Inr k" "item archive ''signature_asset'' = Inr s" "item archive ''parts'' = Inr parts"
    and b: "add_item fr e2 m = Inr e3" "add_item fr e3 k = Inr e4" "add_item fr e4 s = Inr e5"
    and p: "iterate parts = Inr items" "fold_r (add_item fr) e5 items = Inr e'"
    unfolding add_catalog_def and_then_Inr_iff fold_r.simps by auto
  have "items = (case parts of PList parts \<Rightarrow> parts | _ \<Rightarrow> [])" by (rule iterate_items [OF p])
  then show ?thesis
    using add_items_Inr [OF p(2)] b [THEN add_item_Inr] a [THEN add_asset_Inr]
    by (simp add: catalog_assets_def Let_def i [THEN item_Inr])
qed

lemma add_catalogs_Inr: "fold_r (add_catalog fr) e cs = Inr e' \<Longrightarrow> e' = e @ concat (map catalog_assets cs)"
proof (induction cs arbitrary: e)
  case (Cons c cs)
  then obtain e1 where "add_catalog fr e c = Inr e1" "fold_r (add_catalog fr) e1 cs = Inr e'"
    by (auto simp: and_then_Inr_iff)
  then show ?case using Cons.IH [of e1] add_catalog_Inr [of fr e c e1] by simp
qed simp

lemma observe_assets_Inr:
  "fold_r observe_asset acc items = Inr observed \<Longrightarrow>
     observed = acc @ map uploaded_asset items \<and>
     list_all (\<lambda>it. d_get (dict_of it) ''state'' = PStr ''uploaded'') items"
proof (induction items arbitrary: acc)
  case (Cons it items)
  then obtain acc1 where s: "observe_asset acc it = Inr acc1" and r: "fold_r observe_asset acc1 items = Inr observed"
    by (auto simp: and_then_Inr_iff)
  have "acc1 = acc @ [uploaded_asset it] \<and> d_get (dict_of it) ''state'' = PStr ''uploaded''"
    using s by (auto simp: observe_asset_def uploaded_asset_def dict_of_def store_asset_def split: pyval.splits if_splits)
  then show ?case using Cons.IH [OF r] by simp
qed simp

text \<open>
  C40. A release index is assembled only when the uploaded assets are exactly the ones the signed
  catalogs list: every catalog file and its signature, the manifest, checksum and signature asset of
  every archive, and every part of every archive. No asset is listed twice, none was uploaded twice
  or incompletely, the names are the same, and every listed asset was uploaded with its size and
  digest.
\<close>

theorem uploaded_assets_exact:
  assumes "validate_uploaded_assets fr catalogs inventory = Inr ()"
  shows "\<exists>items. d_get inventory ''assets'' = PList items \<and>
    list_all (\<lambda>it. d_get (dict_of it) ''state'' = PStr ''uploaded'') items \<and>
    distinct (map fst (map uploaded_asset items)) \<and>
    distinct (map fst (concat (map catalog_assets catalogs))) \<and>
    fst ` uploaded_asset ` set items = fst ` set (concat (map catalog_assets catalogs)) \<and>
    (\<forall>(k, s, d) \<in> set (concat (map catalog_assets catalogs)).
       \<exists>s' d'. (k, s', d') \<in> uploaded_asset ` set items \<and> py_eq s' s \<and> py_eq d' d)"
proof -
  from assms obtain expected where e: "fold_r (add_catalog fr) [] catalogs = Inr expected"
    by (auto simp: validate_uploaded_assets_def and_then_Inr_iff)
  obtain items where i: "d_get inventory ''assets'' = PList items"
    using assms e by (cases "d_get inventory ''assets''") (simp_all add: validate_uploaded_assets_def)
  obtain observed where ob: "fold_r observe_asset [] items = Inr observed" "same_assets observed expected"
    using assms e i by (auto simp: validate_uploaded_assets_def and_then_Inr_iff Let_def split: if_splits)
  note t = observed_texts [OF ob(1)]
  note m = same_assets_match [OF ob(2) conjunct1 [OF t] conjunct1 [OF conjunct2 [OF t]]]
  have x: "expected = concat (map catalog_assets catalogs)" using add_catalogs_Inr [OF e] by simp
  have o: "observed = map uploaded_asset items" "list_all (\<lambda>it. d_get (dict_of it) ''state'' = PStr ''uploaded'') items"
    using observe_assets_Inr [OF ob(1)] by simp_all
  have os: "set observed = uploaded_asset ` set items" by (simp add: o(1))
  show ?thesis
    by (intro exI [of _ items] conjI)
      (rule i o(2) conjunct1 [OF t, unfolded o(1)] conjunct1 [OF conjunct2 [OF m], unfolded x]
        conjunct1 [OF m, unfolded x os] conjunct2 [OF conjunct2 [OF m], unfolded x os])+
qed

definition sample_item :: "string \<Rightarrow> pyval" where
  "sample_item name = PDict [(''name'', PStr name), (''size'', PInt 1), (''sha256'', PStr ''h'')]"

definition sample_catalog :: release_catalog where
  "sample_catalog = \<lparr>rc_name = ''c'', rc_size = 1, rc_sha256 = ''h'', rc_signature_size = 1, rc_signature_sha256 = ''h'',
     rc_payload = PDict [(''archive'', PDict [(''manifest'', sample_item ''m''), (''checksum'', sample_item ''k''),
       (''signature_asset'', sample_item ''s''), (''parts'', PList [sample_item ''p''])])]\<rparr>"

definition sample_inventory :: pydict where
  "sample_inventory = [(''assets'', PList (map (\<lambda>n. PDict [(''state'', PStr ''uploaded''), (''name'', PStr n),
     (''size'', PInt 1), (''digest'', PStr ''sha256:h'')]) [''p'', ''c'', ''c.sig'', ''m'', ''k'', ''s'']))]"

lemma sample_upload: "validate_uploaded_assets (\<lambda>_. []) [sample_catalog] sample_inventory = Inr ()"
  by code_simp

theorem uploaded_assets_exact_witness:
  "validate_uploaded_assets (\<lambda>_. []) [sample_catalog] sample_inventory = Inr () \<and>
   (\<exists>items. d_get sample_inventory ''assets'' = PList items \<and>
      fst ` uploaded_asset ` set items = fst ` set (catalog_assets sample_catalog)) \<and>
   map fst (catalog_assets sample_catalog) = map PStr [''c'', ''c.sig'', ''m'', ''k'', ''s'', ''p'']"
proof -
  have v: "map fst (catalog_assets sample_catalog) = map PStr [''c'', ''c.sig'', ''m'', ''k'', ''s'', ''p'']" by code_simp
  obtain items where "d_get sample_inventory ''assets'' = PList items"
    "fst ` uploaded_asset ` set items = fst ` set (concat (map catalog_assets [sample_catalog]))"
    using uploaded_assets_exact [OF sample_upload] by (elim exE conjE)
  then show ?thesis using sample_upload v by (intro conjI exI [of _ items]) simp_all
qed

text \<open>A part that was not uploaded, or a part whose name a catalog repeats, is refused.\<close>

lemma uploaded_assets_refused:
  "isl (validate_uploaded_assets (\<lambda>_. []) [sample_catalog]
     [(''assets'', PList (tl (case d_get sample_inventory ''assets'' of PList xs \<Rightarrow> xs | _ \<Rightarrow> [])))])"
  "isl (validate_uploaded_assets (\<lambda>_. []) [sample_catalog, sample_catalog] sample_inventory)"
  by code_simp+

end
