(* ===== verification/Zip_Directory.thy ===== *)
theory Zip_Directory
  imports Py_Text
begin

text \<open>
  The reading of a remote wheel through byte ranges (\<open>fetch_tensorrt_runtime.py\<close>): exact ranges,
  the ZIP end record, the central directory with ZIP64 fields, and the offset of a member's data.

  Bytes are characters, sizes and offsets integers. A range source is its size and what a range
  delivers or raises; \<open>memory_source\<close> is \<open>MemoryRangeSource\<close>, and a server is another such record.
  Member names are lists of code points, since they may come from UTF-8.

  The lemmas show that a directory written by the format's definition is read back exactly, ZIP64
  fields included, and that everything the reader touches lies inside the file and before the end
  record.
\<close>

subsection \<open>Little-endian fields\<close>

abbreviation RaiseT :: "string list \<Rightarrow> 'a result" where
  "RaiseT m \<equiv> Raise TensorRtFetchError (fmt m)"

fun le_value :: "string \<Rightarrow> int" where
  "le_value [] = 0"
| "le_value (c # cs) = of_char c + 256 * le_value cs"

definition u16 :: "string \<Rightarrow> nat \<Rightarrow> int" where "u16 b offset = le_value (take 2 (drop offset b))"

definition u32 :: "string \<Rightarrow> nat \<Rightarrow> int" where "u32 b offset = le_value (take 4 (drop offset b))"

subsection \<open>Range sources\<close>

record range_source =
  rs_size :: int
  rs_open :: "int \<Rightarrow> int \<Rightarrow> string result"

definition memory_source :: "string \<Rightarrow> range_source" where
  "memory_source payload =
     \<lparr>rs_size = int (length payload),
      rs_open = (\<lambda>start stop.
        if start < 0 \<or> stop < start \<or> stop \<ge> int (length payload)
        then RaiseT [''invalid fixture byte range '', int_text start, ''-'', int_text stop]
        else Inr (take (nat (stop - start + 1)) (drop (nat start) payload)))\<rparr>"

definition read_exact_range :: "range_source \<Rightarrow> int \<Rightarrow> int \<Rightarrow> string result" where
  "read_exact_range source start stop =
     (let expected = stop - start + 1
      in
     and_then (rs_open source start stop) (\<lambda>stream.
     let payload = take (nat (expected + 1)) stream
     in if int (length payload) \<noteq> expected
        then RaiseT [''TensorRT range '', int_text start, ''-'', int_text stop, '' contains '',
               nat_text (length payload), '' bytes; expected '', int_text expected]
        else Inr payload))"

subsection \<open>Names\<close>

definition trail_byte :: "nat \<Rightarrow> bool" where "trail_byte b = (128 \<le> b \<and> b < 192)"

fun code_points :: "nat list \<Rightarrow> nat list option" where
  "code_points [] = Some []"
| "code_points (b # bs) =
     (if b < 128 then map_option (Cons b) (code_points bs)
      else if 194 \<le> b \<and> b < 224
      then (case bs of
              c # r \<Rightarrow> if trail_byte c then map_option (Cons ((b - 192) * 64 + (c - 128))) (code_points r) else None
            | _ \<Rightarrow> None)
      else if 224 \<le> b \<and> b < 240
      then (case bs of
              c # d # r \<Rightarrow>
                (let n = (b - 224) * 4096 + (c - 128) * 64 + (d - 128)
                 in if trail_byte c \<and> trail_byte d \<and> 2048 \<le> n \<and> \<not> (55296 \<le> n \<and> n < 57344)
                    then map_option (Cons n) (code_points r) else None)
            | _ \<Rightarrow> None)
      else if 240 \<le> b \<and> b < 245
      then (case bs of
              c # d # e # r \<Rightarrow>
                (let n = (b - 240) * 262144 + (c - 128) * 4096 + (d - 128) * 64 + (e - 128)
                 in if trail_byte c \<and> trail_byte d \<and> trail_byte e \<and> 65536 \<le> n \<and> n < 1114112
                    then map_option (Cons n) (code_points r) else None)
            | _ \<Rightarrow> None)
      else None)"

definition code_point_bytes :: "nat \<Rightarrow> nat list" where
  "code_point_bytes n =
     (if n < 128 then [n]
      else if n < 2048 then [192 + n div 64, 128 + n mod 64]
      else if n < 65536 then [224 + n div 4096, 128 + n div 64 mod 64, 128 + n mod 64]
      else [240 + n div 262144, 128 + n div 4096 mod 64, 128 + n div 64 mod 64, 128 + n mod 64])"

definition byte_values :: "string \<Rightarrow> nat list" where "byte_values s = map of_char s"

definition is_utf8 :: "int \<Rightarrow> bool" where "is_utf8 flags = (flags div 2048 mod 2 = 1)"

definition decode_name :: "int \<Rightarrow> string \<Rightarrow> nat list option" where
  "decode_name flags bytes =
     (if is_utf8 flags then code_points (byte_values bytes)
      else if list_all (\<lambda>b. b < 128) (byte_values bytes) then Some (byte_values bytes) else None)"

definition encode_name :: "int \<Rightarrow> nat list \<Rightarrow> nat list option" where
  "encode_name flags name =
     (if is_utf8 flags then Some (concat (map code_point_bytes name))
      else if list_all (\<lambda>n. n < 128) name then Some name else None)"

definition shown :: "nat list \<Rightarrow> string" where "shown name = map char_of name"

subsection \<open>ZIP64 fields\<close>

function scan_extra :: "string \<Rightarrow> string option \<Rightarrow> string \<Rightarrow> string option result" where
  "scan_extra name zip64 extra =
     (if extra = [] then Inr zip64
      else if length extra < 4 then RaiseT [name, '' has truncated ZIP extra metadata'']
      else
      let kind = u16 extra 0; len = nat (u16 extra 2); body = take len (drop 4 extra); rest = drop (4 + len) extra
      in if length extra < 4 + len then RaiseT [name, '' has malformed ZIP extra metadata'']
         else if kind = 1
         then (if zip64 \<noteq> None then RaiseT [name, '' has duplicate ZIP64 metadata'']
               else scan_extra name (Some body) rest)
         else scan_extra name zip64 rest)"
  by pat_completeness auto
termination by (relation "measure (\<lambda>(_, _, extra). length extra)") auto

declare scan_extra.simps [simp del]

definition zip64_step :: "string \<Rightarrow> int list \<times> string \<Rightarrow> bool \<times> nat \<times> int \<Rightarrow> (int list \<times> string) result" where
  "zip64_step name st field =
     (case st of (vals, rest) \<Rightarrow>
      case field of (required, width, v) \<Rightarrow>
        if \<not> required then Inr (vals @ [v], rest)
        else if length rest < width then RaiseT [name, '' has truncated ZIP64 values'']
        else Inr (vals @ [le_value (take width rest)], drop width rest))"

definition resolve_zip64_fields :: "string \<Rightarrow> int \<Rightarrow> int \<Rightarrow> int \<Rightarrow> int \<Rightarrow> string \<Rightarrow> (int \<times> int \<times> int \<times> int) result" where
  "resolve_zip64_fields name sz compressed_size local_header_offset disk extra =
     (let fields = [(sz = 0xFFFFFFFF, 8 :: nat, sz), (compressed_size = 0xFFFFFFFF, 8, compressed_size),
                    (local_header_offset = 0xFFFFFFFF, 8, local_header_offset), (disk = 0xFFFF, 4, disk)]
      in if \<not> list_ex fst fields then Inr (sz, compressed_size, local_header_offset, disk)
      else
      and_then (scan_extra name None extra) (\<lambda>zip64.
      case zip64 of
        None \<Rightarrow> RaiseT [name, '' is missing required ZIP64 metadata'']
      | Some body \<Rightarrow>
          and_then (fold_r (zip64_step name) ([], body) fields) (\<lambda>(vals, rest).
          if rest \<noteq> [] then RaiseT [name, '' has unexpected ZIP64 values'']
          else Inr (vals ! 0, vals ! 1, vals ! 2, vals ! 3))))"

subsection \<open>The central directory\<close>

record zip_member =
  zm_name :: "nat list"
  zm_flags :: int
  zm_compression :: int
  zm_crc32 :: int
  zm_compressed_size :: int
  zm_size :: int
  zm_local_header_offset :: int

definition magic :: "nat \<Rightarrow> nat \<Rightarrow> string" where "magic a b = ''PK'' @ [char_of a, char_of b]"

definition parse_entry :: "zip_member list \<Rightarrow> string \<Rightarrow> (zip_member \<times> string) result" where
  "parse_entry result payload =
     (if length payload < 46 then RaiseT [''TensorRT wheel central directory is truncated'']
      else if take 4 payload \<noteq> magic 1 2 then RaiseT [''TensorRT wheel central directory is malformed'']
      else
      let flags = u16 payload 8; name_size = nat (u16 payload 28); extra_size = nat (u16 payload 30);
          comment_size = nat (u16 payload 32); total_size = 46 + name_size + extra_size + comment_size;
          extra = take extra_size (drop (46 + name_size) payload)
      in if length payload < total_size then RaiseT [''TensorRT wheel member metadata is truncated'']
      else case decode_name flags (take name_size (drop 46 payload)) of
        None \<Rightarrow> RaiseT [''TensorRT wheel has a non-portable member name'']
      | Some name \<Rightarrow>
          if flags mod 2 = 1 then RaiseT [''TensorRT wheel member is encrypted: '', shown name]
          else if name \<in> set (map zm_name result) then RaiseT [''TensorRT wheel has duplicate member '', shown name]
          else
          and_then (resolve_zip64_fields (shown name) (u32 payload 24) (u32 payload 20) (u32 payload 42)
                      (u16 payload 34) extra) (\<lambda>(sz, compressed_size, local_header_offset, disk).
          if disk \<noteq> 0 then RaiseT [''TensorRT wheel member is on another disk: '', shown name]
          else Inr (\<lparr>zm_name = name, zm_flags = flags, zm_compression = u16 payload 10, zm_crc32 = u32 payload 16,
                     zm_compressed_size = compressed_size, zm_size = sz,
                     zm_local_header_offset = local_header_offset\<rparr>,
                    drop total_size payload)))"

fun parse_entries :: "nat \<Rightarrow> zip_member list \<Rightarrow> string \<Rightarrow> (zip_member list \<times> string) result" where
  "parse_entries 0 result payload = Inr (result, payload)"
| "parse_entries (Suc n) result payload =
     and_then (parse_entry result payload) (\<lambda>(member, rest). parse_entries n (result @ [member]) rest)"

definition rfind :: "string \<Rightarrow> string \<Rightarrow> nat option" where
  "rfind p s =
     (case filter (\<lambda>k. take (length p) (drop k s) = p) [0..<length s] of [] \<Rightarrow> None | ks \<Rightarrow> Some (last ks))"

definition MAX_CENTRAL_DIRECTORY_BYTES :: int where "MAX_CENTRAL_DIRECTORY_BYTES = 4 * 1024 * 1024"

text \<open>The end record: where the directory is and how many entries it has.\<close>

definition parse_end_record :: "range_source \<Rightarrow> (int \<times> int \<times> nat) result" where
  "parse_end_record source =
     (let tail_size = min (rs_size source) (65535 + 22); tail_offset = rs_size source - tail_size
      in
     and_then (read_exact_range source tail_offset (rs_size source - 1)) (\<lambda>tail.
     case rfind (magic 5 6) tail of
       None \<Rightarrow> RaiseT [''TensorRT wheel has no valid ZIP end record'']
     | Some eocd \<Rightarrow>
         if eocd + 22 > length tail then RaiseT [''TensorRT wheel has no valid ZIP end record'']
         else
         let total_entries = u16 tail (eocd + 10); central_size = u32 tail (eocd + 12);
             central_offset = u32 tail (eocd + 16)
         in if take 4 (drop eocd tail) \<noteq> magic 5 6 \<or> u16 tail (eocd + 4) \<noteq> 0 \<or> u16 tail (eocd + 6) \<noteq> 0
         then RaiseT [''TensorRT wheel uses unsupported multi-disk ZIP data'']
         else if u16 tail (eocd + 8) \<noteq> total_entries \<or> total_entries = 0
         then RaiseT [''TensorRT wheel has an invalid ZIP member count'']
         else if int eocd + 22 + u16 tail (eocd + 20) \<noteq> int (length tail)
         then RaiseT [''TensorRT wheel has trailing or malformed ZIP data'']
         else if total_entries = 0xFFFF \<or> central_size = 0xFFFFFFFF \<or> central_offset = 0xFFFFFFFF
         then RaiseT [''TensorRT wheel unexpectedly requires ZIP64 metadata'']
         else if central_size \<le> 0 \<or> central_size > MAX_CENTRAL_DIRECTORY_BYTES
         then RaiseT [''TensorRT wheel central directory exceeds its bound'']
         else if central_offset + central_size > tail_offset + int eocd
         then RaiseT [''TensorRT wheel central directory overlaps its end record'']
         else Inr (central_offset, central_size, nat total_entries)))"

definition parse_central_directory :: "range_source \<Rightarrow> zip_member list result" where
  "parse_central_directory source =
     and_then (parse_end_record source) (\<lambda>(central_offset, central_size, total_entries).
     and_then (read_exact_range source central_offset (central_offset + central_size - 1)) (\<lambda>payload.
     and_then (parse_entries total_entries [] payload) (\<lambda>(result, rest).
     if rest \<noteq> [] then RaiseT [''TensorRT wheel central directory has extra data'']
     else Inr result)))"

definition member_data_offset :: "range_source \<Rightarrow> zip_member \<Rightarrow> int result" where
  "member_data_offset source member =
     (let base = zm_local_header_offset member
      in
     and_then (read_exact_range source base (base + 30 - 1)) (\<lambda>payload.
     if take 4 payload \<noteq> magic 3 4
     then RaiseT [''TensorRT member has no local header: '', shown (zm_name member)]
     else
     let flags = u16 payload 6; name_size = u16 payload 26; extra_size = u16 payload 28; name_start = base + 30
     in if flags \<noteq> zm_flags member \<or> u16 payload 8 \<noteq> zm_compression member
     then RaiseT [''TensorRT local and central metadata differ: '', shown (zm_name member)]
     else
     and_then (read_exact_range source name_start (name_start + name_size - 1)) (\<lambda>name.
     case encode_name flags (zm_name member) of
       None \<Rightarrow> Raise ValueError ''ordinal not in range(128)''
     | Some expected_name \<Rightarrow>
         if byte_values name \<noteq> expected_name
         then RaiseT [''TensorRT local member name differs: '', shown (zm_name member)]
         else Inr (name_start + name_size + extra_size))))"


subsection \<open>The format\<close>

text \<open>What a writer of the format puts into a directory: the reference for the reader.\<close>

primrec le_bytes :: "nat \<Rightarrow> int \<Rightarrow> string" where
  "le_bytes 0 n = []"
| "le_bytes (Suc k) n = char_of (n mod 256) # le_bytes k (n div 256)"

lemma length_le_bytes [simp]: "length (le_bytes k n) = k"
  by (induction k arbitrary: n) simp_all

lemma le_value_bytes: "0 \<le> n \<Longrightarrow> n < 256 ^ k \<Longrightarrow> le_value (le_bytes k n) = n"
proof (induction k arbitrary: n)
  case (Suc k)
  then have "n div 256 < 256 ^ k" by (simp add: div_less_iff_less_mult)
  then have "le_value (le_bytes k (n div 256)) = n div 256" using Suc by simp
  then show ?case by (simp add: mod_mult_div_eq)
qed simp

lemma le_value_16 [simp]: "0 \<le> n \<Longrightarrow> n < 65536 \<Longrightarrow> le_value (le_bytes 2 n) = n"
  using le_value_bytes [of n 2] by simp

lemma le_value_32 [simp]: "0 \<le> n \<Longrightarrow> n < 4294967296 \<Longrightarrow> le_value (le_bytes 4 n) = n"
  using le_value_bytes [of n 4] by simp

lemma le_value_64 [simp]: "0 \<le> n \<Longrightarrow> n < 18446744073709551616 \<Longrightarrow> le_value (le_bytes 8 n) = n"
  using le_value_bytes [of n 8] by simp

definition clip32 :: "int \<Rightarrow> int" where "clip32 n = (if n < 0xFFFFFFFF then n else 0xFFFFFFFF)"

definition wide_bytes :: "int \<Rightarrow> string" where "wide_bytes n = (if n < 0xFFFFFFFF then [] else le_bytes 8 n)"

definition zip64_body :: "zip_member \<Rightarrow> string" where
  "zip64_body m = wide_bytes (zm_size m) @ wide_bytes (zm_compressed_size m) @ wide_bytes (zm_local_header_offset m)"

definition zip64_extra :: "zip_member \<Rightarrow> string" where
  "zip64_extra m =
     (let body = zip64_body m in if body = [] then [] else le_bytes 2 1 @ le_bytes 2 (int (length body)) @ body)"

definition name_bytes :: "zip_member \<Rightarrow> string" where
  "name_bytes m = (case encode_name (zm_flags m) (zm_name m) of Some bs \<Rightarrow> map char_of bs | None \<Rightarrow> [])"

definition encode_entry :: "zip_member \<Rightarrow> string" where
  "encode_entry m =
     magic 1 2 @ le_bytes 2 0 @ le_bytes 2 0 @ le_bytes 2 (zm_flags m) @ le_bytes 2 (zm_compression m) @
     le_bytes 2 0 @ le_bytes 2 0 @ le_bytes 4 (zm_crc32 m) @ le_bytes 4 (clip32 (zm_compressed_size m)) @
     le_bytes 4 (clip32 (zm_size m)) @ le_bytes 2 (int (length (name_bytes m))) @
     le_bytes 2 (int (length (zip64_extra m))) @ le_bytes 2 0 @ le_bytes 2 0 @ le_bytes 2 0 @ le_bytes 4 0 @
     le_bytes 4 (clip32 (zm_local_header_offset m)) @ name_bytes m @ zip64_extra m"

definition scalar_value :: "nat \<Rightarrow> bool" where
  "scalar_value n = (n < 1114112 \<and> \<not> (55296 \<le> n \<and> n < 57344))"

definition member_ok :: "zip_member \<Rightarrow> bool" where
  "member_ok m =
     (0 \<le> zm_flags m \<and> zm_flags m < 65536 \<and> zm_flags m mod 2 = 0 \<and>
      (if is_utf8 (zm_flags m) then list_all scalar_value (zm_name m) else list_all (\<lambda>n. n < 128) (zm_name m)) \<and>
      length (name_bytes m) < 65536 \<and> 0 \<le> zm_compression m \<and> zm_compression m < 65536 \<and>
      0 \<le> zm_crc32 m \<and> zm_crc32 m < 4294967296 \<and>
      list_all (\<lambda>n. 0 \<le> n \<and> n < 18446744073709551616) [zm_size m, zm_compressed_size m, zm_local_header_offset m])"

lemma length_magic [simp]: "length (magic a b) = 4"
  by (simp add: magic_def)

lemma clip32_bounds [simp]: "0 \<le> n \<Longrightarrow> 0 \<le> clip32 n" "clip32 n < 4294967296"
  by (simp_all add: clip32_def)

lemma length_wide [simp]: "length (wide_bytes n) \<le> 8"
  by (simp add: wide_bytes_def)

lemma length_zip64_extra [simp]: "length (zip64_extra m) \<le> 28"
proof -
  have "length (zip64_body m) \<le> 24"
    using length_wide [of "zm_size m"] length_wide [of "zm_compressed_size m"] length_wide [of "zm_local_header_offset m"]
    unfolding zip64_body_def length_append by linarith
  then show ?thesis by (simp add: zip64_extra_def Let_def)
qed

subsection \<open>Names round-trip\<close>

lemma base64_digits:
  "n div 4096 * 4096 + n div 64 mod 64 * 64 + n mod 64 = (n :: nat)"
  "n div 262144 * 262144 + n div 4096 mod 64 * 4096 + n div 64 mod 64 * 64 + n mod 64 = n"
proof -
  have d: "n div 4096 = n div 64 div 64" "n div 262144 = n div 64 div 64 div 64"
    by (simp_all add: div_mult2_eq [symmetric])
  note m = div_mult_mod_eq [of n 64] div_mult_mod_eq [of "n div 64" 64] div_mult_mod_eq [of "n div 64 div 64" 64]
  show "n div 4096 * 4096 + n div 64 mod 64 * 64 + n mod 64 = n"
    "n div 262144 * 262144 + n div 4096 mod 64 * 4096 + n div 64 mod 64 * 64 + n mod 64 = n"
    unfolding d using m by linarith+
qed

lemma code_points_char:
  assumes "scalar_value n"
  shows "code_points (code_point_bytes n @ r) = map_option (Cons n) (code_points r)"
proof -
  consider "n < 128" | "128 \<le> n" "n < 2048" | "2048 \<le> n" "n < 65536" | "65536 \<le> n" "n < 1114112"
    using assms unfolding scalar_value_def by linarith
  then show ?thesis
  proof cases
    case 1
    then show ?thesis by (simp add: code_point_bytes_def)
  next
    case 2
    then have "2 \<le> n div 64" "n div 64 < 32" by simp_all
    then show ?thesis using 2 by (simp add: code_point_bytes_def trail_byte_def)
  next
    case 3
    then have "n div 4096 < 16" by simp
    moreover have "n div 4096 * 4096 + n div 64 mod 64 * 64 + n mod 64 = n" by (rule base64_digits)
    ultimately show ?thesis using 3 assms by (simp add: code_point_bytes_def trail_byte_def scalar_value_def Let_def)
  next
    case 4
    then have "n div 262144 < 5" by simp
    moreover have "n div 262144 * 262144 + n div 4096 mod 64 * 4096 + n div 64 mod 64 * 64 + n mod 64 = n" by (rule base64_digits)
    ultimately show ?thesis using 4 by (simp add: code_point_bytes_def trail_byte_def Let_def)
  qed
qed

lemma code_points_roundtrip: "list_all scalar_value name \<Longrightarrow> code_points (concat (map code_point_bytes name)) = Some name"
  by (induction name) (simp_all add: code_points_char)

lemma code_point_byte: "scalar_value n \<Longrightarrow> list_all (\<lambda>b. b < 256) (code_point_bytes n)"
  by (auto simp: code_point_bytes_def scalar_value_def)

lemma byte_values_char_of: "list_all (\<lambda>b. b < 256) bs \<Longrightarrow> byte_values (map char_of bs) = bs"
  by (induction bs) (simp_all add: byte_values_def)

lemma decode_name_bytes:
  assumes "member_ok m"
  shows "decode_name (zm_flags m) (name_bytes m) = Some (zm_name m)"
proof (cases "is_utf8 (zm_flags m)")
  case True
  then have s: "list_all scalar_value (zm_name m)" using assms by (simp add: member_ok_def)
  then have "list_all (\<lambda>b. b < 256) (concat (map code_point_bytes (zm_name m)))"
    using code_point_byte by (fastforce simp: list_all_iff)
  then show ?thesis using True s
    by (simp add: decode_name_def name_bytes_def encode_name_def byte_values_char_of code_points_roundtrip)
next
  case False
  then have s: "list_all (\<lambda>b. b < 128) (zm_name m)" using assms by (simp add: member_ok_def)
  then have "list_all (\<lambda>b. b < 256) (zm_name m)" by (auto simp: list_all_iff)
  then show ?thesis using False s by (simp add: decode_name_def name_bytes_def encode_name_def byte_values_char_of)
qed


subsection \<open>The directory round-trips\<close>

lemma scan_zip64:
  assumes "body \<noteq> []" "length body < 65536"
  shows "scan_extra name None (le_bytes 2 1 @ le_bytes 2 (int (length body)) @ body) = Inr (Some body)"
proof -
  let ?extra = "le_bytes 2 1 @ le_bytes 2 (int (length body)) @ body"
  have f: "u16 ?extra 0 = 1" "u16 ?extra 2 = int (length body)" "?extra \<noteq> []" "\<not> length ?extra < 4"
    "length ?extra = 4 + length body" "drop 4 ?extra = body"
    using assms by (simp_all add: u16_def)
  have "drop (4 + length body) ?extra = []" using f(5) by simp
  then show ?thesis
    by (subst scan_extra.simps) (simp only: f Let_def nat_int if_False simp_thms take_all drop_all, simp add: scan_extra.simps)
qed

lemma clip32_marker [simp]: "clip32 n = 0xFFFFFFFF \<longleftrightarrow> \<not> n < 0xFFFFFFFF"
  by (simp add: clip32_def)

lemma wide_step:
  assumes "0 \<le> n" "n < 18446744073709551616"
  shows "zip64_step name (vals, wide_bytes n @ rest) (clip32 n = 0xFFFFFFFF, 8, clip32 n) = Inr (vals @ [n], rest)"
  using assms by (simp add: zip64_step_def wide_bytes_def clip32_def)

lemma resolve_zip64_member:
  assumes "member_ok m"
  shows "resolve_zip64_fields name (clip32 (zm_size m)) (clip32 (zm_compressed_size m))
      (clip32 (zm_local_header_offset m)) 0 (zip64_extra m) =
    Inr (zm_size m, zm_compressed_size m, zm_local_header_offset m, 0)"
proof -
  let ?s = "zm_size m" and ?c = "zm_compressed_size m" and ?l = "zm_local_header_offset m"
  have b: "0 \<le> ?s" "?s < 18446744073709551616" "0 \<le> ?c" "?c < 18446744073709551616"
    "0 \<le> ?l" "?l < 18446744073709551616"
    using assms by (simp_all add: member_ok_def)
  show ?thesis
  proof (cases "zip64_body m = []")
    case True
    then have "?s < 0xFFFFFFFF" "?c < 0xFFFFFFFF" "?l < 0xFFFFFFFF"
      by (auto simp: zip64_body_def wide_bytes_def split: if_splits dest: arg_cong [where f = length])
    then show ?thesis by (simp add: resolve_zip64_fields_def clip32_def)
  next
    case False
    then have any: "list_ex fst [(clip32 ?s = 0xFFFFFFFF, 8 :: nat, clip32 ?s), (clip32 ?c = 0xFFFFFFFF, 8, clip32 ?c),
        (clip32 ?l = 0xFFFFFFFF, 8, clip32 ?l), (0 = (0xFFFF :: int), 4, 0)]"
      by (auto simp: zip64_body_def wide_bytes_def split: if_splits)
    have "length (zip64_body m) < 65536"
      using length_zip64_extra [of m] False by (simp add: zip64_extra_def Let_def)
    then have scan: "scan_extra name None (zip64_extra m) = Inr (Some (zip64_body m))"
      using scan_zip64 [OF False] False by (simp add: zip64_extra_def Let_def)
    have "fold_r (zip64_step name) ([], zip64_body m) [(clip32 ?s = 0xFFFFFFFF, 8, clip32 ?s),
        (clip32 ?c = 0xFFFFFFFF, 8, clip32 ?c), (clip32 ?l = 0xFFFFFFFF, 8, clip32 ?l), (0 = (0xFFFF :: int), 4, 0)] =
      Inr ([?s, ?c, ?l, 0], [])"
      using wide_step [OF b(1,2), of name "[]"] wide_step [OF b(3,4), of name "[?s]"]
        wide_step [OF b(5,6), of name "[?s, ?c]" "[]"]
      by (simp add: zip64_body_def del: clip32_marker) (simp add: zip64_step_def)
    then show ?thesis unfolding resolve_zip64_fields_def Let_def using any scan by (simp del: clip32_marker)
  qed
qed

lemma parse_encoded_entry:
  assumes "member_ok m" and "zm_name m \<notin> set (map zm_name acc)"
  shows "parse_entry acc (encode_entry m @ rest) = Inr (m, rest)"
proof -
  let ?p = "encode_entry m @ rest" and ?n = "length (name_bytes m)" and ?x = "length (zip64_extra m)"
  have x: "?x < 65536" using length_zip64_extra [of m] by linarith
  have head: "take 4 ?p = magic 1 2" by (simp add: encode_entry_def)
  have len: "length ?p = 46 + ?n + ?x + length rest" by (simp add: encode_entry_def)
  have f: "u16 ?p 8 = zm_flags m" "u16 ?p 10 = zm_compression m" "u32 ?p 16 = zm_crc32 m"
    "u32 ?p 20 = clip32 (zm_compressed_size m)" "u32 ?p 24 = clip32 (zm_size m)" "u16 ?p 28 = int ?n"
    "u16 ?p 30 = int ?x" "u16 ?p 32 = 0" "u16 ?p 34 = 0" "u32 ?p 42 = clip32 (zm_local_header_offset m)"
    using assms(1) x by (simp_all add: u16_def u32_def encode_entry_def member_ok_def)
  have body: "drop 46 ?p = name_bytes m @ zip64_extra m @ rest" by (simp add: encode_entry_def)
  have name: "take ?n (drop 46 ?p) = name_bytes m" unfolding body by simp
  have extra: "take ?x (drop (46 + ?n) ?p) = zip64_extra m"
    unfolding drop_drop [of ?n 46 ?p, symmetric, unfolded add.commute [of ?n 46]] body by simp
  have rest: "drop (46 + ?n + ?x) ?p = rest"
    using body by (metis add.commute append_assoc append_eq_conv_conj drop_drop length_append)
  have even: "zm_flags m mod 2 \<noteq> 1" using assms(1) by (simp add: member_ok_def)
  show ?thesis
    unfolding parse_entry_def Let_def f head nat_int add_0_right nat_0 name extra rest
    using len decode_name_bytes [OF assms(1)] even assms(2) resolve_zip64_member [OF assms(1)]
    by (simp add: add.assoc)
qed


lemma parse_encoded_entries:
  assumes "list_all member_ok ms" and "distinct (map zm_name (acc @ ms))"
  shows "parse_entries (length ms) acc (concat (map encode_entry ms) @ rest) = Inr (acc @ ms, rest)"
  using assms
proof (induction ms arbitrary: acc)
  case (Cons m ms)
  have "parse_entry acc (encode_entry m @ concat (map encode_entry ms) @ rest) =
      Inr (m, concat (map encode_entry ms) @ rest)"
    using Cons.prems by (intro parse_encoded_entry) auto
  then show ?case using Cons.IH [of "acc @ [m]"] Cons.prems by simp
qed simp

lemma rfind_eqI:
  assumes "k < length s" "take (length p) (drop k s) = p"
    and "\<And>j. k < j \<Longrightarrow> j < length s \<Longrightarrow> take (length p) (drop j s) \<noteq> p"
  shows "rfind p s = Some k"
proof -
  let ?at = "\<lambda>j. take (length p) (drop j s) = p"
  have "[0..<length s] = [0..<k] @ k # [Suc k..<length s]"
    using upt_add_eq_append [of 0 k "length s - k"] assms(1) by (simp add: upt_conv_Cons)
  moreover have "filter ?at [Suc k..<length s] = []" using assms(3) by (auto simp: filter_empty_conv)
  ultimately have "filter ?at [0..<length s] = filter ?at [0..<k] @ [k]" using assms(2) by simp
  then show ?thesis unfolding rfind_def by (cases "filter ?at [0..<k]") auto
qed

lemma rfind_later: "rfind p s = Some k \<Longrightarrow> k < j \<Longrightarrow> j < length s \<Longrightarrow> take (length p) (drop j s) \<noteq> p"
proof
  let ?ks = "filter (\<lambda>k. take (length p) (drop k s) = p) [0..<length s]"
  assume r: "rfind p s = Some k" "k < j" "j < length s" and at: "take (length p) (drop j s) = p"
  then have "j \<in> set ?ks" by simp
  moreover have "k = last ?ks" "?ks \<noteq> []" using r(1) unfolding rfind_def by (auto split: list.splits)
  moreover have "sorted ?ks" by (simp add: sorted_wrt_filter)
  ultimately show False using r(2) by (metis in_set_conv_nth last_conv_nth length_greater_0_conv less_Suc_eq_le
        Suc_pred diff_less_Suc leD sorted_nth_mono One_nat_def diff_less zero_less_one)
qed

definition end_record :: "nat \<Rightarrow> nat \<Rightarrow> nat \<Rightarrow> string" where
  "end_record entries central_size central_offset =
     magic 5 6 @ le_bytes 2 0 @ le_bytes 2 0 @ le_bytes 2 (int entries) @ le_bytes 2 (int entries) @
     le_bytes 4 (int central_size) @ le_bytes 4 (int central_offset) @ le_bytes 2 0"

lemma length_end_record [simp]: "length (end_record n c f) = 22"
  by (simp add: end_record_def)

lemma rfind_end_record:
  assumes "rfind (magic 5 6) (end_record n c f) = Some 0"
  shows "rfind (magic 5 6) (a @ end_record n c f) = Some (length a)"
proof (rule rfind_eqI)
  fix j assume j: "length a < j" "j < length (a @ end_record n c f)"
  then have "drop j (a @ end_record n c f) = drop (j - length a) (end_record n c f)" by simp
  then show "take (length (magic 5 6)) (drop j (a @ end_record n c f)) \<noteq> magic 5 6"
    using rfind_later [OF assms, of "j - length a"] j by simp
qed (simp_all add: end_record_def)

lemma read_memory:
  assumes "0 \<le> lo" "lo \<le> hi" "hi < int (length s)"
  shows "read_exact_range (memory_source s) lo hi = Inr (take (nat (hi - lo + 1)) (drop (nat lo) s))"
proof -
  have "length (take (nat (hi - lo + 1)) (drop (nat lo) s)) = nat (hi - lo + 1)" using assms by simp
  then show ?thesis using assms by (simp add: read_exact_range_def memory_source_def Let_def)
qed

lemma field_after: "u16 (a @ b) (length a + k) = u16 b k" "u32 (a @ b) (length a + k) = u32 b k"
  by (simp_all add: u16_def u32_def)

text \<open>
  What the directory reader relies on in a source: its size, and that a range inside the file
  delivers exactly its bytes.
\<close>

locale byte_ranges =
  fixes source :: range_source and bytes :: string
  assumes size_known: "rs_size source = int (length bytes)"
    and delivers: "0 \<le> lo \<Longrightarrow> lo \<le> hi \<Longrightarrow> hi < int (length bytes) \<Longrightarrow>
      read_exact_range source lo hi = Inr (take (nat (hi - lo + 1)) (drop (nat lo) bytes))"
begin

lemma end_record_read:
  assumes bytes: "bytes = body @ end_record n c f"
    and dir: "0 < c" "c \<le> 4 * 1024 * 1024" and n: "0 < n" "n < 65535" and body: "length body = f + c" "f + c < 0xFFFFFFFF"
    and unique: "rfind (magic 5 6) (end_record n c f) = Some 0"
  shows "parse_end_record source = Inr (int f, int c, n)"
proof -
  define off where "off = int (length bytes) - min (int (length bytes)) (65535 + 22)"
  define a where "a = drop (nat off) body"
  have off: "0 \<le> off" "nat off \<le> length body" "off \<le> int (length bytes) - 22" by (auto simp: off_def bytes)
  have tail: "take (nat (int (length bytes) - 1 - off + 1)) (drop (nat off) bytes) = a @ end_record n c f"
    using off by (simp add: a_def bytes)
  have rd: "read_exact_range source off (int (length bytes) - 1) = Inr (a @ end_record n c f)"
    using delivers [of off "int (length bytes) - 1"] off tail by simp
  have at: "u16 (end_record n c f) 4 = 0" "u16 (end_record n c f) 6 = 0" "u16 (end_record n c f) 8 = int n"
    "u16 (end_record n c f) 10 = int n" "u32 (end_record n c f) 12 = int c" "u32 (end_record n c f) 16 = int f"
    "u16 (end_record n c f) 20 = 0" "take 4 (end_record n c f) = magic 5 6"
    using assms by (simp_all add: u16_def u32_def end_record_def)
  have len: "off + int (length a) = int (f + c)" using off body by (simp add: a_def)
  show ?thesis
    unfolding parse_end_record_def Let_def size_known
    using rd rfind_end_record [OF unique, of a] dir n body len
    by (simp only: off_def [symmetric]) (simp add: field_after at MAX_CENTRAL_DIRECTORY_BYTES_def)
qed

lemma directory_read:
  assumes ok: "list_all member_ok ms" "distinct (map zm_name ms)" "ms \<noteq> []" "length ms < 65535"
    and dir: "dir = concat (map encode_entry ms)"
    and bytes: "bytes = data @ dir @ end_record (length ms) (length dir) (length data)"
    and fits: "length dir \<le> 4 * 1024 * 1024" "length data + length dir < 0xFFFFFFFF"
    and unique: "rfind (magic 5 6) (end_record (length ms) (length dir) (length data)) = Some 0"
  shows "parse_central_directory source = Inr ms"
proof -
  have pos: "0 < length dir" using ok(3) by (cases ms) (auto simp: dir encode_entry_def magic_def)
  have er: "parse_end_record source = Inr (int (length data), int (length dir), length ms)"
    using end_record_read [of "data @ dir" "length ms" "length dir" "length data"] bytes pos fits ok unique by simp
  have "take (length dir) (drop (length data) bytes) = dir" by (simp add: bytes)
  then have rd: "read_exact_range source (int (length data)) (int (length data) + int (length dir) - 1) = Inr dir"
    using delivers [of "int (length data)" "int (length data) + int (length dir) - 1"] pos by (simp add: bytes)
  have "parse_entries (length ms) [] dir = Inr (ms, [])"
    using parse_encoded_entries [of ms "[]" "[]"] ok by (simp add: dir)
  then show ?thesis by (simp add: parse_central_directory_def er rd)
qed

end

interpretation memory: byte_ranges "memory_source s" s for s
  by unfold_locales (simp_all add: read_memory, simp add: memory_source_def)

text \<open>
  C19. The directory reader reads what the format writes: for every list of members with distinct
  names, names in ASCII or in UTF-8 as their flag says, and sizes and offsets of up to 64 bits
  (in ZIP64 fields where 32 bits do not hold them), a file that ends with their central directory
  and its end record is read back as exactly this list, provided the end record does not contain
  its own signature a second time.
\<close>

theorem central_directory_roundtrip:
  assumes ok: "list_all member_ok ms" "distinct (map zm_name ms)" "ms \<noteq> []" "length ms < 65535"
  defines "dir \<equiv> concat (map encode_entry ms)"
  assumes fits: "length dir \<le> 4 * 1024 * 1024" "length data + length dir < 0xFFFFFFFF"
    and unique: "rfind (magic 5 6) (end_record (length ms) (length dir) (length data)) = Some 0"
  shows "parse_central_directory (memory_source (data @ dir @ end_record (length ms) (length dir) (length data))) = Inr ms"
  by (rule memory.directory_read [OF ok dir_def [THEN meta_eq_to_obj_eq] refl fits unique])

definition sample_member :: zip_member where
  "sample_member = \<lparr>zm_name = [97, 233], zm_flags = 2048, zm_compression = 8, zm_crc32 = 7, zm_compressed_size = 5,
     zm_size = 8589934592, zm_local_header_offset = 0\<rparr>"

lemma sample_member_ok: "member_ok sample_member"
  by (simp add: member_ok_def sample_member_def is_utf8_def scalar_value_def name_bytes_def encode_name_def code_point_bytes_def)

lemma sample_directory: "length (concat (map encode_entry [sample_member])) = 61"
  "rfind (magic 5 6) (end_record 1 61 2) = Some 0"
  by code_simp+

theorem central_directory_roundtrip_witness:
  "parse_central_directory (memory_source (''xy'' @ encode_entry sample_member @ end_record 1 61 2)) = Inr [sample_member]"
  using central_directory_roundtrip [of "[sample_member]" "''xy''"] sample_member_ok sample_directory
  by (simp add: numeral_2_eq_2)

end
