(* ===== verification/Spec2Isabelle.thy ===== *)
theory Spec2Isabelle
  imports Sizing Contract_Registration Block_Pool Worker_Resize Vllm_Patches Connector_Resize Connector_Config Certification Plan_Cli Pack_Closure Release Zip_Directory
begin

text \<open>
  This development models the Python implementation of the Kapsl integrations: the connector that
  lets vLLM share its key-value cache memory with the Kapsl runtime
  (\<open>integrations/vllm/src/kapsl_vllm_connector\<close>), and the core of the scripts that build and
  release the ONNX Runtime packs (\<open>integrations/ort/packaging\<close>).

  \<^bold>\<open>The program.\<close> Before serving, the planner (\<open>plan.py\<close>, \<open>planning.py\<close>) starts a vLLM executor
  far enough to learn the cache geometry, sizes the pool of every tensor-parallel rank, and
  prints a plan. When vLLM serves, the connector (\<open>connector.py\<close>) registers with the Kapsl
  coordinator over a Unix socket (\<open>client.py\<close>), and every message in either direction passes the
  validators of \<open>contract.py\<close>. The worker side (\<open>shared_pool.py\<close>) imports the granted CUDA memory,
  replaces vLLM's allocator by views into it, and grows or shrinks the mapped part on request; the
  scheduler side retires and activates blocks, takes a lease per request, and stops admission
  when the heartbeat loses authority. \<open>certification.py\<close> decides whether a hardware report
  authorizes the shared pool at all. Apart from that, the packaging scripts choose the shared
  libraries of an accelerator pack, read pinned members out of a remote wheel, and split,
  publish and index the archives of a release.

  \<^bold>\<open>Theories and sources.\<close>
  \<^item> \<open>Py_Base\<close>, \<open>Py_Effects\<close>, \<open>Py_Text\<close>: the prelude. \<open>pyval\<close> is a dynamic value (JSON, a
    configuration entry, an attribute of a vLLM object), \<open>'a result\<close> the sum of an exception and a
    value, \<open>('s, 'a) eff\<close> a computation that keeps the state reached when it raises. Python
    statements are combinators: \<open>and_then\<close>, \<open>traverse\<close> and \<open>fold_r\<close> for pure code; \<open>bind\<close>,
    \<open>try_except\<close>, \<open>try_finally\<close>, \<open>for_each\<close> for effects. \<open>keeps\<close> and its rules carry invariants
    through a statement list.
  \<^item> \<open>Checked_Arith\<close>, \<open>Cache_Geometry\<close>, \<open>Canonical_Json\<close>, \<open>Sizing\<close>: \<open>planning.py\<close>, from checked
    arithmetic and the frozen dataclasses to \<open>size_rank\<close> and \<open>build_plan\<close>. Block counts are aligned,
    ordered and within the byte limits; a plan is the sizing of one rank replicated; it
    serializes exactly when its maximum total fits in 64 bits.
  \<^item> \<open>Geometry_Extraction\<close>: the second half of \<open>planning.py\<close>, from vLLM's resolved configurations
    to a geometry. The extracted groups account for every byte of the dense layout.
  \<^item> \<open>Plan_Cli\<close>: \<open>plan.py\<close>. The executor is always released, the provider's geometry is the
    requested one, standard output carries the plan alone.
  \<^item> \<open>Contract_Base\<close>, \<open>Contract_Pool\<close>, \<open>Contract_Resize\<close>, \<open>Contract_Registration\<close>: \<open>contract.py\<close>.
    Accepted segment lists cover each byte of their range exactly once; accepted registrations
    are consistent.
  \<^item> \<open>Json_Wire\<close>, \<open>Frame_Channel\<close>, \<open>Control_Client\<close>: \<open>client.py\<close>. The wire format round-trips, a
    frame read ends within the byte limit, and every received descriptor is closed or handed
    over exactly once.
  \<^item> \<open>Vmm_Import\<close>, \<open>Shared_Pool\<close>, \<open>Worker_Resize\<close>, \<open>Block_Pool\<close>, \<open>Vllm_Patches\<close>: \<open>shared_pool.py\<close>.
    Mapping is all or nothing, closing is complete, an accepted resize keeps the mapped segments
    a gapless prefix, the scheduler never hands out an unmapped block, and vLLM gets its own
    functions back.
  \<^item> \<open>Connector\<close>, \<open>Connector_Resize\<close>, \<open>Connector_Config\<close>: \<open>connector.py\<close>. Leases are accounted for in
    every interleaving of threads, the loss of authority is final, a forward pass excludes
    resizes, and what \<open>__init__\<close> computes satisfies the contract it will be checked against.
  \<^item> \<open>Certification\<close>: \<open>certification.py\<close>. An accepted report covers the declared world, an
    allowlist entry determines its profile, output files are replaced atomically.
  \<^item> \<open>Pack_Closure\<close>: the choice of shared libraries in \<open>package_accelerator.py\<close>. The worklist
    computes exactly the libraries reachable from the roots.
  \<^item> \<open>Release\<close>: \<open>release.py\<close>. Only the exact tag is published, the parts of an archive are a
    partition of its bytes, accepted uploads are exactly the assets of the catalogs.
  \<^item> \<open>Zip_Directory\<close>: the ranged ZIP reader of \<open>fetch_tensorrt_runtime.py\<close>. A directory written by the
    format is read back exactly.

  \<^bold>\<open>Interfaces.\<close> Locales state what one part relies on: \<open>checked_op\<close> and \<open>checked_sum\<close> (checked
  arithmetic, interpreted on \<open>checked_add\<close> and \<open>checked_mul\<close>), \<open>unique_loop\<close> (a validation loop
  that refuses duplicates, interpreted on the loops of the contract), \<open>segment_cover\<close> (accepted
  segments cover a range exactly, interpreted on pools and resizes), \<open>json_escaping\<close> (interpreted
  on both escapings) and \<open>byte_ranges\<close> (a source of byte ranges, interpreted on \<open>memory_source\<close>).

  \<^bold>\<open>Parameters.\<close> Code outside the repository is an argument of the definitions that call it: the
  CUDA driver, torch, vLLM objects and functions, the kernel, SHA-256, the text of a float, the
  names of temporary files. What a theorem relies on is one of its hypotheses, stated as documented
  behaviour of that code, and the witness of the theorem instantiates it.

  \<^bold>\<open>Bounds.\<close> Python integers are \<open>int\<close>; where the code has a 64-bit limit it is written out
  (\<open>UINT64_MAX\<close>). Strings are lists of the 256 characters of Latin-1, which bytes and the ASCII
  wire format need; text outside it is not representable. \<open>json.loads\<close> has Python's limit of
  4300 digits. Loops are total: the frame reader terminates by the remaining byte budget, the
  closure by the unselected candidates, the scanner by its input. No fuel is used. Failing
  system calls are scripts, lists of the outcomes of the next calls, so that a theorem about
  every script covers a failure at every call. Threads are step relations over the atomic
  sections the locks delimit.

  \<^bold>\<open>Composition.\<close> The theorem below joins extraction and sizing: a plan built from vLLM's
  configuration holds what vLLM itself says a sequence needs. \<open>Worker_Resize\<close> joins the contract, the
  hook and the import, \<open>Connector_Config\<close> joins extraction, connector and contract, and \<open>Plan_Cli\<close>
  joins arguments, executor and extraction.

  \<^bold>\<open>Not modelled.\<close> The JSON schema documents of \<open>planning.py\<close> (constants); the CUDA IPC buffer of
  \<open>shared_pool.py\<close> (\<open>ctypes\<close> and DLPack glue around driver calls); hooks of the connector that return
  constants; \<open>argparse\<close>; \<open>write_json_atomic\<close> (indented JSON text); \<open>flash_attn_probe.py\<close> (torch
  kernels and processes on CUDA hardware; its acceptance is \<open>certification.py\<close>);
  \<open>check_dist_artifacts.py\<close>; signatures and the assembly of release files in \<open>release.py\<close>; the rest
  of the ORT packaging, fetching and parity scripts (subprocesses, downloads, archives, HTTP
  servers, floating-point tensors); the Rust crate of the ORT backend; the READMEs of the other
  integrations.
\<close>

definition sequence_demand :: "usage \<Rightarrow> pyval list \<Rightarrow> pyval \<Rightarrow> cache_topology list \<Rightarrow> int option" where
  "sequence_demand usage raw_groups cfg ts =
     (case traverse (\<lambda>(i, t). and_then (one_sequence_bytes usage (raw_groups ! i) cfg i) (\<lambda>n.
         Inr (ceil_quot n (ct_page_size_bytes t)))) (enumerate 0 ts) of
        Inr blocks \<Rightarrow> Some (sum_list blocks) | Inl _ \<Rightarrow> None)"

lemma sequence_demand_nth:
  assumes "length ns = length ts"
    and "\<And>i. i < length ts \<Longrightarrow> one_sequence_bytes usage (raw ! i) cfg i = Inr (ns ! i)"
    and "\<And>i. i < length ts \<Longrightarrow> f (gs ! i) = ceil_quot (ns ! i) (ct_page_size_bytes (ts ! i))"
    and "length gs = length ts"
  shows "sequence_demand usage raw cfg ts = Some (sum_list (map f gs))"
proof -
  have "traverse (\<lambda>(i, t). and_then (one_sequence_bytes usage (raw ! i) cfg i) (\<lambda>n.
         Inr (ceil_quot n (ct_page_size_bytes t)))) (enumerate 0 ts) = Inr (map f gs)"
    using assms by (auto simp: traverse_Inr_iff list_all2_conv_all_nth nth_enumerate_eq)
  then show ?thesis by (simp add: sequence_demand_def)
qed

lemma extracted_rank_demand:
  assumes "extract_rank_geometry fr pinned usage c config cfg rk d = Inr r"
  obtains ts where "extract_cache_group_topologies fr pinned c config = Inr ts"
    "sequence_demand usage (sequence_items (getattr_or config ''kv_cache_groups'' PNone)) cfg ts =
       Some (sum_list (map cg_required_blocks_per_sequence (rg_groups r)))"
proof -
  let ?raw = "sequence_items (getattr_or config ''kv_cache_groups'' PNone)"
  from extract_rank_Inr [OF assms] obtain ts gs ns where ts: "extract_cache_group_topologies fr pinned c config = Inr ts"
    and m: "mset (rg_groups r) = mset gs" and l: "length gs = length ts" "length ns = length ts"
    and each: "\<And>i. i < length ts \<Longrightarrow> one_sequence_bytes usage (?raw ! i) cfg i = Inr (ns ! i) \<and> sized_as (ts ! i) (ns ! i) (gs ! i)"
    by blast
  have "sequence_demand usage ?raw cfg ts = Some (sum_list (map cg_required_blocks_per_sequence gs))"
    using each l by (intro sequence_demand_nth) (auto simp: sized_as_def)
  moreover have "sum_list (map cg_required_blocks_per_sequence (rg_groups r)) =
      sum_list (map cg_required_blocks_per_sequence gs)"
    using m by (metis mset_map sum_mset_sum_list)
  ultimately show ?thesis using that [OF ts] by simp
qed

lemma sized_rank_demand:
  assumes "rank_ok r" and "policy_ok pol" and "size_rank r pol = Inr s"
  defines "n \<equiv> sum_list (map cg_required_blocks_per_sequence (rg_groups r))"
  shows "rg_fixed_overhead_blocks r + n \<le> rs_minimum_blocks s \<and>
    rg_fixed_overhead_blocks r + n * rs_effective_target_concurrency s \<le> rs_desired_blocks s \<and>
    rs_minimum_blocks s \<le> rs_desired_blocks s \<and> 1 \<le> rs_effective_target_concurrency s"
proof -
  from assms(3) obtain seq where seq: "required_blocks_per_sequence r = Inr seq" "rs_sequence_blocks s = seq"
    and eff: "rs_effective_target_concurrency s =
       min (sp_target_concurrency pol) ((rs_desired_blocks s - rg_fixed_overhead_blocks r) div seq)"
      "1 \<le> rs_effective_target_concurrency s"
    by (rule size_rank_elim) metis
  have n: "seq = n" using seq(1) by (simp add: n_def required_blocks_per_sequence_def checked_total_Inr_iff)
  have pos: "0 < n" using rank_ok_seq_pos [OF assms(1) seq(1)] n by simp
  have "rs_effective_target_concurrency s \<le> (rs_desired_blocks s - rg_fixed_overhead_blocks r) div n"
    using eff n by simp
  then have "n * rs_effective_target_concurrency s \<le> n * ((rs_desired_blocks s - rg_fixed_overhead_blocks r) div n)"
    using pos by simp
  also have "\<dots> \<le> rs_desired_blocks s - rg_fixed_overhead_blocks r"
    using pos by (simp add: mult_div_mod_eq [symmetric] minus_mod_eq_mult_div [symmetric])
  finally show ?thesis using size_rank_blocks(4,5) [OF assms(1-3)] seq(2) n eff(2) by simp
qed

text \<open>
  C1. From vLLM's resolved configuration to the plan: when the extraction and the planner both
  succeed, every worker's rank gets room for what vLLM itself says one sequence needs. With
  \<open>n\<close> the sum over the worker's cache groups of \<open>max_memory_usage_bytes\<close> divided by the
  page size, rounded up, the minimum holds the reserved null block and \<open>n\<close> blocks, and the
  desired capacity holds the null block and \<open>n\<close> blocks for each of the concurrent sequences
  the plan advertises.
\<close>

theorem plan_holds_resolved_sequences:
  assumes "geometry_from_resolved_configs fr pinned usage c configs cfg idt fp ml ab lid devices = Inr g"
    and "policy_ok pol" and "build_plan g pol = Inr plan" and "i < length configs"
  shows "\<exists>ts n. extract_cache_group_topologies fr pinned c (configs ! i) = Inr ts \<and>
    sequence_demand usage (sequence_items (getattr_or (configs ! i) ''kv_cache_groups'' PNone)) cfg ts = Some n \<and>
    1 + n \<le> rs_minimum_blocks (pr_ranks plan ! i) \<and>
    1 + n * rs_effective_target_concurrency (pr_ranks plan ! i) \<le> rs_desired_blocks (pr_ranks plan ! i) \<and>
    1 \<le> rs_effective_target_concurrency (pr_ranks plan ! i)"
proof -
  note g = geometry_extracted [OF assms(1)]
  let ?r = "gd_ranks g ! i"
  from g assms(4) have ext: "extract_rank_geometry fr pinned usage c (configs ! i) cfg (PInt (int i)) (devices ! i) = Inr ?r"
    and len: "i < length (gd_ranks g)" by simp_all
  obtain ss where ss: "traverse (\<lambda>r. size_rank r pol) (gd_ranks g) = Inr ss" and p: "pr_ranks plan = ss"
    using assms(3) by (auto simp: build_plan_def and_then_Inr_iff mk_PlanningResult_def split: if_splits)
  have "size_rank ?r pol = Inr (ss ! i)" using traverse_nth [OF ss len] .
  from sized_rank_demand [OF _ assms(2) this] extract_rank_Inr [OF ext] p
  have sized: "1 + sum_list (map cg_required_blocks_per_sequence (rg_groups ?r)) \<le> rs_minimum_blocks (pr_ranks plan ! i)"
    "1 + sum_list (map cg_required_blocks_per_sequence (rg_groups ?r)) * rs_effective_target_concurrency (pr_ranks plan ! i)
       \<le> rs_desired_blocks (pr_ranks plan ! i)" "1 \<le> rs_effective_target_concurrency (pr_ranks plan ! i)"
    by simp_all
  show ?thesis using extracted_rank_demand [OF ext] sized by metis
qed

theorem plan_holds_resolved_sequences_witness:
  "\<exists>g plan. sample_extracted = Inr g \<and> build_plan g sample_policy = Inr plan \<and>
     1 \<le> rs_effective_target_concurrency (pr_ranks plan ! 0) \<and>
     sequence_demand sample_usage (sequence_items (getattr_or sample_resolved ''kv_cache_groups'' PNone)) sample_vllm
       (case extract_cache_group_topologies (\<lambda>_. []) None (Some sample_kind) sample_resolved of
          Inr ts \<Rightarrow> ts | Inl _ \<Rightarrow> []) = Some 16 \<and>
     17 \<le> rs_minimum_blocks (pr_ranks plan ! 0)"
proof -
  have demand: "sequence_demand sample_usage (sequence_items (getattr_or sample_resolved ''kv_cache_groups'' PNone)) sample_vllm
       (case extract_cache_group_topologies (\<lambda>_. []) None (Some sample_kind) sample_resolved of
          Inr ts \<Rightarrow> ts | Inl _ \<Rightarrow> []) = Some 16"
    by code_simp
  have "map_sum exn_msg (\<lambda>_. ()) (and_then sample_extracted (\<lambda>g. build_plan g sample_policy)) = Inr ()"
    by code_simp
  then obtain plan where "and_then sample_extracted (\<lambda>g. build_plan g sample_policy) = Inr plan"
    by (rule map_sum_InrE)
  then obtain g where g: "sample_extracted = Inr g" and p: "build_plan g sample_policy = Inr plan"
    by (auto simp: and_then_Inr_iff)
  from plan_holds_resolved_sequences [OF g [unfolded sample_extracted_def] sample_policy_ok p, of 0]
  obtain ts n where "extract_cache_group_topologies (\<lambda>_. []) None (Some sample_kind) sample_resolved = Inr ts"
    "sequence_demand sample_usage (sequence_items (getattr_or sample_resolved ''kv_cache_groups'' PNone)) sample_vllm ts = Some n"
    "1 + n \<le> rs_minimum_blocks (pr_ranks plan ! 0)" "1 \<le> rs_effective_target_concurrency (pr_ranks plan ! 0)"
    by auto
  with demand g p show ?thesis by (intro exI [of _ g] exI [of _ plan]) simp
qed

end
